(* ===== verification/Prelude.thy ===== *)
theory Prelude
  imports Main "HOL-Library.Word" "HOL-Library.Extended_Nat"
begin

text \<open>
  Shared vocabulary of the development: the machine integer types of the Rust sources,
  checked and saturating arithmetic, big-endian byte codecs, the state-and-result monad in
  which every fallible, state-changing Rust function is written, and the simulation and
  framing calculi that carry facts about such functions from one storage backend to another.
\<close>

section \<open>Types\<close>

type_synonym u8 = "8 word"
type_synonym u16 = "16 word"
type_synonym u32 = "32 word"
type_synonym u64 = "64 word"
type_synonym u128 = "128 word"
type_synonym u256 = "256 word"
type_synonym address = "160 word"
type_synonym bytes = "u8 list"

text \<open>
  A Rust function that may fail and that mutates the state behind a reference is a state
  transformer that returns a result together with the state it leaves. The state survives an
  error: Rust does not undo the writes made before a question mark returns early.
\<close>

type_synonym ('s, 'e, 'a) smonad = "'s \<Rightarrow> ('e + 'a) \<times> 's"

named_theorems sim_intros
named_theorems keep_intros
named_theorems inv_intros
named_theorems atomic_intros
named_theorems moves_intros
named_theorems pure_simps

section \<open>Checked and saturating arithmetic\<close>

definition checked_add :: "'a::len word \<Rightarrow> 'a word \<Rightarrow> 'a word option" where
  "checked_add x y = (if unat x + unat y < 2 ^ LENGTH('a) then Some (x + y) else None)"

definition checked_sub :: "'a::len word \<Rightarrow> 'a word \<Rightarrow> 'a word option" where
  "checked_sub x y = (if y \<le> x then Some (x - y) else None)"

definition checked_mul :: "'a::len word \<Rightarrow> 'a word \<Rightarrow> 'a word option" where
  "checked_mul x y = (if unat x * unat y < 2 ^ LENGTH('a) then Some (x * y) else None)"

definition saturating_add :: "'a::len word \<Rightarrow> 'a word \<Rightarrow> 'a word" where
  "saturating_add x y = (if unat x + unat y < 2 ^ LENGTH('a) then x + y else - 1)"

definition saturating_sub :: "'a::len word \<Rightarrow> 'a word \<Rightarrow> 'a word" where
  "saturating_sub x y = (if y \<le> x then x - y else 0)"

definition saturating_mul :: "'a::len word \<Rightarrow> 'a word \<Rightarrow> 'a word" where
  "saturating_mul x y = (if unat x * unat y < 2 ^ LENGTH('a) then x * y else - 1)"

text \<open>Signed 64-bit and 128-bit saturation, on mathematical integers.\<close>

definition sat_i :: "nat \<Rightarrow> int \<Rightarrow> int" where
  "sat_i w x = max (- (2 ^ (w - 1))) (min (2 ^ (w - 1) - 1) x)"

section \<open>Big-endian byte codecs\<close>

fun nat_be :: "nat \<Rightarrow> nat \<Rightarrow> bytes" where
  "nat_be 0 v = []"
| "nat_be (Suc n) v = nat_be n (v div 256) @ [of_nat (v mod 256)]"

definition be_nat :: "bytes \<Rightarrow> nat" where
  "be_nat bs = foldl (\<lambda>acc b. acc * 256 + unat b) 0 bs"

definition to_be_bytes :: "'a::len word \<Rightarrow> bytes" where
  "to_be_bytes w = nat_be (LENGTH('a) div 8) (unat w)"

definition from_be_bytes :: "bytes \<Rightarrow> 'a::len word" where
  "from_be_bytes bs = of_nat (be_nat bs)"

text \<open>An ASCII byte-string literal of the sources, \<^verbatim>\<open>b"..."\<close>.\<close>

definition bstr :: "string \<Rightarrow> bytes" where
  "bstr s = map (\<lambda>c. of_nat (of_char c)) s"

section \<open>The state-and-result monad\<close>

definition sret :: "'a \<Rightarrow> ('s, 'e, 'a) smonad" where
  "sret x = (\<lambda>s. (Inr x, s))"

definition sfail :: "'e \<Rightarrow> ('s, 'e, 'a) smonad" where
  "sfail e = (\<lambda>s. (Inl e, s))"

definition sbind :: "('s, 'e, 'a) smonad \<Rightarrow> ('a \<Rightarrow> ('s, 'e, 'b) smonad) \<Rightarrow> ('s, 'e, 'b) smonad" where
  "sbind m f = (\<lambda>s. case m s of (Inl e, s') \<Rightarrow> (Inl e, s') | (Inr x, s') \<Rightarrow> f x s')"

text \<open>\<^verbatim>\<open>map_err\<close> followed by a question mark.\<close>

definition smap_err :: "('e \<Rightarrow> 'f) \<Rightarrow> ('s, 'e, 'a) smonad \<Rightarrow> ('s, 'f, 'a) smonad" where
  "smap_err g m = (\<lambda>s. case m s of (Inl e, s') \<Rightarrow> (Inl (g e), s') | (Inr x, s') \<Rightarrow> (Inr x, s'))"

text \<open>\<^verbatim>\<open>ok_or\<close> followed by a question mark.\<close>

definition sok_or :: "'e \<Rightarrow> 'a option \<Rightarrow> ('s, 'e, 'a) smonad" where
  "sok_or e x = (case x of None \<Rightarrow> sfail e | Some y \<Rightarrow> sret y)"

text \<open>An early \<^verbatim>\<open>return Err(e)\<close> under a condition.\<close>

definition sguard :: "bool \<Rightarrow> 'e \<Rightarrow> ('s, 'e, unit) smonad" where
  "sguard b e = (if b then sfail e else sret ())"

text \<open>\<^verbatim>\<open>let _ = ...\<close>: the result is dropped, an error included.\<close>

definition signore :: "('s, 'e, 'a) smonad \<Rightarrow> ('s, 'f, unit) smonad" where
  "signore m = (\<lambda>s. (Inr (), snd (m s)))"

text \<open>A field read and a field update.\<close>

definition sget :: "('s \<Rightarrow> 'a) \<Rightarrow> ('s, 'e, 'a) smonad" where
  "sget f = (\<lambda>s. (Inr (f s), s))"

definition smodify :: "('s \<Rightarrow> 's) \<Rightarrow> ('s, 'e, unit) smonad" where
  "smodify f = (\<lambda>s. (Inr (), f s))"

text \<open>\<^verbatim>\<open>unwrap_or\<close>, on an option and on a result.\<close>

definition unwrap_or :: "'a \<Rightarrow> 'a option \<Rightarrow> 'a" where
  "unwrap_or d x = (case x of None \<Rightarrow> d | Some y \<Rightarrow> y)"

definition sunwrap_or :: "'a \<Rightarrow> ('s, 'e, 'a) smonad \<Rightarrow> ('s, 'f, 'a) smonad" where
  "sunwrap_or d m = (\<lambda>s. case m s of (Inl _, s') \<Rightarrow> (Inr d, s') | (Inr x, s') \<Rightarrow> (Inr x, s'))"

text \<open>\<^verbatim>\<open>is_ok\<close>: an error becomes a value.\<close>

definition sis_ok :: "('s, 'e, 'a) smonad \<Rightarrow> ('s, 'f, bool) smonad" where
  "sis_ok m = (\<lambda>s. case m s of (Inl _, s') \<Rightarrow> (Inr False, s') | (Inr _, s') \<Rightarrow> (Inr True, s'))"

text \<open>A \<^verbatim>\<open>for\<close> loop whose body may return early.\<close>

fun sfor :: "'x list \<Rightarrow> ('x \<Rightarrow> ('s, 'e, unit) smonad) \<Rightarrow> ('s, 'e, unit) smonad" where
  "sfor [] f = sret ()"
| "sfor (x # xs) f = sbind (f x) (\<lambda>_. sfor xs f)"

section \<open>Simulation and framing\<close>

text \<open>
  \<open>sim_at view budget c m p\<close>: from every state that can pay for \<open>c\<close> storage accesses, the run
  of \<open>m\<close> returns what the run of \<open>p\<close> on the viewed state returns, ends in a state with the view
  \<open>p\<close> computes, and spends at most \<open>c\<close> accesses of the budget.
\<close>

definition sim_at :: "('s \<Rightarrow> 'v) \<Rightarrow> ('s \<Rightarrow> enat) \<Rightarrow> nat \<Rightarrow>
    ('s, 'e, 'a) smonad \<Rightarrow> ('v, 'e, 'a) smonad \<Rightarrow> bool" where
  "sim_at view budget c m p \<longleftrightarrow> (\<forall>s. enat c \<le> budget s \<longrightarrow>
     p (view s) = (fst (m s), view (snd (m s))) \<and> budget s \<le> budget (snd (m s)) + enat c)"

text \<open>\<open>keeps obs m\<close>: no run of \<open>m\<close>, successful or not, changes the observation.\<close>

definition keeps :: "('s \<Rightarrow> 'o) \<Rightarrow> ('s, 'e, 'a) smonad \<Rightarrow> bool" where
  "keeps obs m \<longleftrightarrow> (\<forall>s. obs (snd (m s)) = obs s)"

text \<open>\<open>moves R m\<close>: every run, successful or not, ends in a state \<open>R\<close>-related to the one it started in.\<close>

definition moves :: "('s \<Rightarrow> 's \<Rightarrow> bool) \<Rightarrow> ('s, 'e, 'a) smonad \<Rightarrow> bool" where
  "moves R m \<longleftrightarrow> (\<forall>s. R s (snd (m s)))"

text \<open>\<open>maintains Q m\<close>: every run of \<open>m\<close> from a state with \<open>Q\<close>, successful or not, ends in one.\<close>

definition maintains :: "('s \<Rightarrow> bool) \<Rightarrow> ('s, 'e, 'a) smonad \<Rightarrow> bool" where
  "maintains Q m \<longleftrightarrow> (\<forall>s. Q s \<longrightarrow> Q (snd (m s)))"

text \<open>\<open>atomic obs m\<close>: a run that fails leaves the observation as it was.\<close>

definition atomic :: "('s \<Rightarrow> 'o) \<Rightarrow> ('s, 'e, 'a) smonad \<Rightarrow> bool" where
  "atomic obs m \<longleftrightarrow> (\<forall>s e s'. m s = (Inl e, s') \<longrightarrow> obs s' = obs s)"

section \<open>Lemmas: arithmetic\<close>

lemma checked_add_Some [simp]:
  fixes x y z :: "'a::len word"
  shows "checked_add x y = Some z \<longleftrightarrow> unat x + unat y < 2 ^ LENGTH('a) \<and> z = x + y"
  by (auto simp: checked_add_def)

lemma checked_sub_Some [simp]: "checked_sub x y = Some z \<longleftrightarrow> y \<le> x \<and> z = x - y"
  by (auto simp: checked_sub_def)

lemma checked_mul_Some [simp]:
  fixes x y z :: "'a::len word"
  shows "checked_mul x y = Some z \<longleftrightarrow> unat x * unat y < 2 ^ LENGTH('a) \<and> z = x * y"
  by (auto simp: checked_mul_def)

lemma unat_add_no_overflow:
  fixes x y :: "'a::len word"
  shows "unat x + unat y < 2 ^ LENGTH('a) \<Longrightarrow> unat (x + y) = unat x + unat y"
  using unat_add_lem by blast

lemma unat_saturating_sub [simp]: "unat (saturating_sub x y) = unat x - unat y"
  by (auto simp: saturating_sub_def unat_sub word_le_nat_alt)

lemma unat_saturating_add:
  fixes x y :: "'a::len word"
  shows "unat (saturating_add x y) = min (unat x + unat y) (2 ^ LENGTH('a) - 1)"
proof (cases "unat x + unat y < 2 ^ LENGTH('a)")
  case True
  then show ?thesis
    by (simp add: saturating_add_def unat_add_no_overflow)
next
  case False
  then show ?thesis
    by (simp add: saturating_add_def unsigned_minus_1_eq_mask mask_eq_exp_minus_1)
qed

lemma saturating_add_ge:
  fixes x y :: "'a::len word"
  shows "x \<le> saturating_add x y"
proof -
  have "unat x < 2 ^ LENGTH('a)" by (rule unsigned_less)
  then have "unat x \<le> 2 ^ LENGTH('a) - 1" by linarith
  then show ?thesis
    by (simp add: word_le_nat_alt unat_saturating_add)
qed

section \<open>Lemmas: byte codecs\<close>

lemma length_nat_be [simp]: "length (nat_be n v) = n"
  by (induction n arbitrary: v) auto

lemma be_nat_Nil [simp]: "be_nat [] = 0"
  by (simp add: be_nat_def)

lemma be_nat_snoc [simp]: "be_nat (bs @ [b]) = be_nat bs * 256 + unat b"
  by (simp add: be_nat_def)

lemma be_nat_nat_be [simp]: "be_nat (nat_be n v) = v mod 256 ^ n"
proof (induction n arbitrary: v)
  case 0
  then show ?case by simp
next
  case (Suc n)
  have "unat (of_nat (v mod 256) :: u8) = v mod 256"
    by (simp add: unat_of_nat)
  moreover have "v mod (256 * 256 ^ n) = (v div 256 mod 256 ^ n) * 256 + v mod 256"
    by (simp add: mod_mult2_eq algebra_simps)
  ultimately show ?case
    by (simp add: Suc.IH)
qed

lemma nat_be_mod [simp]: "nat_be n (v mod 256 ^ n) = nat_be n v"
proof (induction n arbitrary: v)
  case 0
  then show ?case by simp
next
  case (Suc n)
  have "v mod (256 * 256 ^ n) div 256 = v div 256 mod 256 ^ n"
    by (simp add: mod_mult2_eq)
  moreover have "v mod (256 * 256 ^ n) mod 256 = v mod 256"
    by (simp add: mod_mult2_eq)
  ultimately show ?case
    by (simp add: Suc.IH)
qed

lemma nat_be_inject: "nat_be n v = nat_be n w \<longleftrightarrow> v mod 256 ^ n = w mod 256 ^ n"
  by (metis be_nat_nat_be nat_be_mod)

lemma nat_be_split: "nat_be (m + n) v = nat_be m (v div 256 ^ n) @ nat_be n v"
proof (induction n arbitrary: v)
  case 0
  then show ?case by simp
next
  case (Suc n)
  then show ?case by (simp add: div_mult2_eq)
qed

lemma drop_nat_be: "drop m (nat_be (m + n) v) = nat_be n v"
  by (simp add: nat_be_split)

lemma take_nat_be: "take m (nat_be (m + n) v) = nat_be m (v div 256 ^ n)"
  by (simp add: nat_be_split)

lemma length_to_be_bytes [simp]: "length (to_be_bytes (w :: 'a::len word)) = LENGTH('a) div 8"
  by (simp add: to_be_bytes_def)

lemma from_to_be_bytes:
  fixes w :: "'a::len word"
  assumes "8 * (LENGTH('a) div 8) = LENGTH('a)"
  shows "from_be_bytes (to_be_bytes w) = w"
proof -
  have "(256::nat) ^ (LENGTH('a) div 8) = 2 ^ LENGTH('a)"
    using power_mult [of "2::nat" 8 "LENGTH('a) div 8"] assms by simp
  then show ?thesis
    by (simp add: from_be_bytes_def to_be_bytes_def unsigned_less)
qed

lemma to_be_bytes_inject:
  fixes v w :: "'a::len word"
  assumes "8 * (LENGTH('a) div 8) = LENGTH('a)"
  shows "to_be_bytes v = to_be_bytes w \<longleftrightarrow> v = w"
  using from_to_be_bytes [OF assms, of v] from_to_be_bytes [OF assms, of w] by metis

lemma to_be_bytes_inject_u64 [simp]: "to_be_bytes (v :: u64) = to_be_bytes w \<longleftrightarrow> v = w"
  by (rule to_be_bytes_inject) simp

lemma to_be_bytes_inject_address [simp]:
  "to_be_bytes (v :: address) = to_be_bytes w \<longleftrightarrow> v = w"
  by (rule to_be_bytes_inject) simp

lemma length_bstr [simp]: "length (bstr s) = length s"
  by (simp add: bstr_def)

section \<open>Lemmas: the monad\<close>

lemma sret_run [simp]: "sret x s = (Inr x, s)"
  by (simp add: sret_def)

lemma sfail_run [simp]: "sfail e s = (Inl e, s)"
  by (simp add: sfail_def)

lemma sbind_run: "sbind m f s = (case m s of (Inl e, s') \<Rightarrow> (Inl e, s') | (Inr x, s') \<Rightarrow> f x s')"
  by (simp add: sbind_def)

lemma sbind_Inl [simp]: "m s = (Inl e, s') \<Longrightarrow> sbind m f s = (Inl e, s')"
  by (simp add: sbind_run)

lemma sbind_Inr [simp]: "m s = (Inr x, s') \<Longrightarrow> sbind m f s = f x s'"
  by (simp add: sbind_run)

lemma smap_err_Inl [simp]: "m s = (Inl e, s') \<Longrightarrow> smap_err g m s = (Inl (g e), s')"
  by (simp add: smap_err_def)

lemma smap_err_Inr [simp]: "m s = (Inr x, s') \<Longrightarrow> smap_err g m s = (Inr x, s')"
  by (simp add: smap_err_def)

lemma snd_smap_err [simp]: "snd (smap_err g m s) = snd (m s)"
  by (simp add: smap_err_def split: prod.splits sum.splits)

lemma snd_sis_ok [simp]: "snd (sis_ok m s) = snd (m s)"
  by (simp add: sis_ok_def split: prod.splits sum.splits)

lemma snd_signore [simp]: "snd (signore m s) = snd (m s)"
  by (simp add: signore_def)

lemma sget_run [simp]: "sget f s = (Inr (f s), s)"
  by (simp add: sget_def)

lemma smodify_run [simp]: "smodify f s = (Inr (), f s)"
  by (simp add: smodify_def)

lemma signore_run [simp]: "signore m s = (Inr (), snd (m s))"
  by (simp add: signore_def)

lemma unwrap_or_simps [simp]: "unwrap_or d None = d" "unwrap_or d (Some x) = x"
  by (simp_all add: unwrap_or_def)

lemma sunwrap_or_Inl [simp]: "m s = (Inl e, s') \<Longrightarrow> sunwrap_or d m s = (Inr d, s')"
  by (simp add: sunwrap_or_def)

lemma sunwrap_or_Inr [simp]: "m s = (Inr x, s') \<Longrightarrow> sunwrap_or d m s = (Inr x, s')"
  by (simp add: sunwrap_or_def)

lemma snd_sunwrap_or [simp]: "snd (sunwrap_or d m s) = snd (m s)"
  by (simp add: sunwrap_or_def split: prod.splits sum.splits)

lemma sok_or_None [simp]: "sok_or e None = sfail e"
  by (simp add: sok_or_def)

lemma sok_or_Some [simp]: "sok_or e (Some x) = sret x"
  by (simp add: sok_or_def)

lemma sguard_run [simp]: "sguard b e s = (if b then Inl e else Inr (), s)"
  by (simp add: sguard_def)

lemma sbind_eq_Inr:
  "sbind m f s = (Inr y, s'') \<longleftrightarrow> (\<exists>x s'. m s = (Inr x, s') \<and> f x s' = (Inr y, s''))"
  by (auto simp: sbind_run split: prod.splits sum.splits)

lemma sbind_eq_Inl:
  "sbind m f s = (Inl e, s'') \<longleftrightarrow>
     m s = (Inl e, s'') \<or> (\<exists>x s'. m s = (Inr x, s') \<and> f x s' = (Inl e, s''))"
  by (auto simp: sbind_run split: prod.splits sum.splits)

lemma smap_err_eq_Inr: "smap_err g m s = (Inr y, s') \<longleftrightarrow> m s = (Inr y, s')"
  by (auto simp: smap_err_def split: prod.splits sum.splits)

lemma smap_err_eq_Inl: "smap_err g m s = (Inl e, s') \<longleftrightarrow> (\<exists>e'. e = g e' \<and> m s = (Inl e', s'))"
  by (auto simp: smap_err_def split: prod.splits sum.splits)

lemma sok_or_eq_Inr: "sok_or e x s = (Inr y, s') \<longleftrightarrow> x = Some y \<and> s' = s"
  by (auto simp: sok_or_def split: option.splits)

lemma sok_or_eq_Inl: "sok_or e x s = (Inl e', s') \<longleftrightarrow> x = None \<and> e' = e \<and> s' = s"
  by (auto simp: sok_or_def split: option.splits)

lemma sguard_eq_Inr: "sguard b e s = (Inr y, s') \<longleftrightarrow> \<not> b \<and> s' = s"
  by auto

lemmas smonad_Inr = sbind_eq_Inr smap_err_eq_Inr sok_or_eq_Inr sguard_eq_Inr
lemmas smonad_Inl = sbind_eq_Inl smap_err_eq_Inl sok_or_eq_Inl

section \<open>Lemmas: simulation\<close>

lemma sim_atI:
  assumes "\<And>s. enat c \<le> budget s \<Longrightarrow>
    p (view s) = (fst (m s), view (snd (m s))) \<and> budget s \<le> budget (snd (m s)) + enat c"
  shows "sim_at view budget c m p"
  using assms by (simp add: sim_at_def)

lemma sim_atD:
  assumes "sim_at view budget c m p" "enat c \<le> budget s"
  shows "p (view s) = (fst (m s), view (snd (m s)))"
    and "budget s \<le> budget (snd (m s)) + enat c"
  using assms by (simp_all add: sim_at_def)

lemma sim_ret [sim_intros]: "sim_at view budget 0 (sret x) (sret x)"
  by (simp add: sim_at_def)

lemma sim_fail [sim_intros]: "sim_at view budget 0 (sfail e) (sfail e)"
  by (simp add: sim_at_def)

lemma enat_budget_split:
  assumes "enat (c + d) \<le> b" "b \<le> b' + enat c"
  shows "enat d \<le> b'"
proof (cases b')
  case (enat k)
  with assms have "enat (c + d) \<le> enat (k + c)"
    using order_trans by fastforce
  with enat show ?thesis by simp
qed simp

lemma enat_budget_trans:
  assumes "b \<le> b' + enat c" "b' \<le> b'' + enat d"
  shows "b \<le> b'' + enat (c + d)"
proof -
  have "b \<le> (b'' + enat d) + enat c"
    using assms by (meson add_right_mono order_trans)
  then show ?thesis
    by (simp add: ac_simps flip: plus_enat_simps(1))
qed

lemma sim_bind [sim_intros]:
  assumes m: "sim_at view budget c m p" and f: "\<And>x. sim_at view budget d (f x) (g x)"
  shows "sim_at view budget (c + d) (sbind m f) (sbind p g)"
proof (rule sim_atI)
  fix s
  assume b: "enat (c + d) \<le> budget s"
  then have "enat c \<le> budget s"
    by (rule order_trans [rotated]) simp
  note step = sim_atD [OF m this]
  have d: "enat d \<le> budget (snd (m s))"
    using b step(2) by (rule enat_budget_split)
  show "sbind p g (view s) = (fst (sbind m f s), view (snd (sbind m f s)))
    \<and> budget s \<le> budget (snd (sbind m f s)) + enat (c + d)"
  proof (cases "m s")
    case (Pair r s')
    show ?thesis
    proof (cases r)
      case (Inl e)
      have "budget s \<le> budget s' + enat (c + d)"
        using step(2) Pair by (auto intro: enat_budget_trans)
      with Inl Pair step(1) show ?thesis by simp
    next
      case (Inr x)
      have "enat d \<le> budget s'" using d Pair by simp
      note rest = sim_atD [OF f this]
      have "budget s \<le> budget s' + enat c" using step(2) Pair by simp
      from enat_budget_trans [OF this rest(2)] Inr Pair step(1) rest(1)
      show ?thesis by simp
    qed
  qed
qed

lemma sim_if [sim_intros]:
  assumes "sim_at view budget c m p" "sim_at view budget d m' p'"
  shows "sim_at view budget (max c d) (if b then m else m') (if b then p else p')"
proof (rule sim_atI)
  fix s
  assume mx: "enat (max c d) \<le> budget s"
  then have "enat c \<le> budget s" "enat d \<le> budget s"
    by (meson enat_ord_simps(1) max.cobounded1 max.cobounded2 order_trans)+
  note step = sim_atD [OF assms(1) this(1)] sim_atD [OF assms(2) this(2)]
  have "b1 \<le> b2 + enat c \<Longrightarrow> b1 \<le> b2 + enat (max c d)"
    and "b1 \<le> b2 + enat d \<Longrightarrow> b1 \<le> b2 + enat (max c d)" for b1 b2
    by (meson add_left_mono enat_ord_simps(1) max.cobounded1 max.cobounded2 order_trans)+
  with step show "(if b then p else p') (view s) =
      (fst ((if b then m else m') s), view (snd ((if b then m else m') s)))
    \<and> budget s \<le> budget (snd ((if b then m else m') s)) + enat (max c d)"
    by simp
qed

lemma sim_weaken:
  assumes "sim_at view budget c m p" "c \<le> d"
  shows "sim_at view budget d m p"
proof (rule sim_atI)
  fix s
  assume "enat d \<le> budget s"
  then have "enat c \<le> budget s"
    using assms(2) by (meson enat_ord_simps(1) order_trans)
  note step = sim_atD [OF assms(1) this]
  have "budget s \<le> budget (snd (m s)) + enat d"
    using step(2) assms(2) by (meson add_left_mono enat_ord_simps(1) order_trans)
  with step(1) show "p (view s) = (fst (m s), view (snd (m s)))
      \<and> budget s \<le> budget (snd (m s)) + enat d"
    by simp
qed

lemma sim_map_err [sim_intros]:
  assumes "sim_at view budget c m p"
  shows "sim_at view budget c (smap_err h m) (smap_err h p)"
proof (rule sim_atI)
  fix s
  assume "enat c \<le> budget s"
  note step = sim_atD [OF assms this]
  show "smap_err h p (view s) = (fst (smap_err h m s), view (snd (smap_err h m s)))
    \<and> budget s \<le> budget (snd (smap_err h m s)) + enat c"
    using step by (cases "m s"; cases "fst (m s)") (simp_all add: smap_err_def)
qed

lemma sim_ok_or [sim_intros]: "sim_at view budget 0 (sok_or e x) (sok_or e x)"
  by (cases x) (simp_all add: sim_at_def)

lemma sim_guard [sim_intros]: "sim_at view budget 0 (sguard b e) (sguard b e)"
  by (simp add: sim_at_def)

lemma sim_ignore [sim_intros]:
  assumes "sim_at view budget c m p"
  shows "sim_at view budget c (signore m) (signore p)"
  using assms by (auto simp: sim_at_def signore_def)

lemma sim_is_ok [sim_intros]:
  assumes "sim_at view budget c m p"
  shows "sim_at view budget c (sis_ok m) (sis_ok p)"
proof (rule sim_atI)
  fix s
  assume "enat c \<le> budget s"
  note step = sim_atD [OF assms this]
  show "sis_ok p (view s) = (fst (sis_ok m s), view (snd (sis_ok m s)))
    \<and> budget s \<le> budget (snd (sis_ok m s)) + enat c"
    using step by (cases "m s"; cases "fst (m s)") (simp_all add: sis_ok_def)
qed

lemma sim_unwrap_or [sim_intros]:
  assumes "sim_at view budget c m p"
  shows "sim_at view budget c (sunwrap_or x m) (sunwrap_or x p)"
proof (rule sim_atI)
  fix s
  assume "enat c \<le> budget s"
  note step = sim_atD [OF assms this]
  show "sunwrap_or x p (view s) = (fst (sunwrap_or x m s), view (snd (sunwrap_or x m s)))
    \<and> budget s \<le> budget (snd (sunwrap_or x m s)) + enat c"
    using step by (cases "m s"; cases "fst (m s)") (simp_all add: sunwrap_or_def)
qed

lemma sim_option [sim_intros]:
  assumes "sim_at view budget c m p" "\<And>x. sim_at view budget d (f x) (g x)"
  shows "sim_at view budget (max c d) (case y of None \<Rightarrow> m | Some x \<Rightarrow> f x) (case y of None \<Rightarrow> p | Some x \<Rightarrow> g x)"
  using sim_weaken [OF assms(1), of "max c d"] sim_weaken [OF assms(2), of "max c d"]
  by (cases y) simp_all

lemma sim_for:
  assumes "\<And>x. sim_at view budget c (f x) (g x)"
  shows "sim_at view budget (c * length xs) (sfor xs f) (sfor xs g)"
proof (induction xs)
  case Nil
  show ?case by (simp add: sim_at_def)
next
  case (Cons x xs)
  have "sim_at view budget (c + c * length xs) (sfor (x # xs) f) (sfor (x # xs) g)"
    using Cons assms by (simp add: sim_bind)
  then show ?case by (simp add: algebra_simps)
qed

section \<open>Lemmas: framing\<close>

lemma keepsI: "(\<And>s. obs (snd (m s)) = obs s) \<Longrightarrow> keeps obs m"
  by (simp add: keeps_def)

lemma keepsD: "keeps obs m \<Longrightarrow> m s = (r, s') \<Longrightarrow> obs s' = obs s"
  by (metis keeps_def snd_conv)

lemma keeps_ret [keep_intros]: "keeps obs (sret x)"
  and keeps_fail [keep_intros]: "keeps obs (sfail e)"
  and keeps_guard [keep_intros]: "keeps obs (sguard b e)"
  and keeps_ok_or [keep_intros]: "keeps obs (sok_or e y)"
  by (simp_all add: keeps_def sok_or_def split: option.splits)

lemma keeps_bind [keep_intros]:
  assumes "keeps obs m" "\<And>x. keeps obs (f x)"
  shows "keeps obs (sbind m f)"
proof (rule keepsI)
  fix s
  obtain r s' where ms: "m s = (r, s')" by (cases "m s")
  with assms(1) have "obs s' = obs s" by (rule keepsD)
  moreover have "obs (snd (f x s')) = obs s'" for x
    using assms(2) [of x] by (simp add: keeps_def)
  ultimately show "obs (snd (sbind m f s)) = obs s"
    using ms by (cases r) simp_all
qed

lemma keeps_if [keep_intros]:
  "keeps obs m \<Longrightarrow> keeps obs m' \<Longrightarrow> keeps obs (if b then m else m')"
  by simp

lemma keeps_map_err [keep_intros]: "keeps obs m \<Longrightarrow> keeps obs (smap_err h m)"
  by (simp add: keeps_def)

lemma keeps_ignore [keep_intros]: "keeps obs m \<Longrightarrow> keeps obs (signore m)"
  by (simp add: keeps_def signore_def)

lemma keeps_is_ok [keep_intros]: "keeps obs m \<Longrightarrow> keeps obs (sis_ok m)"
  by (simp add: keeps_def)

lemma keeps_for [keep_intros]: "(\<And>x. keeps obs (f x)) \<Longrightarrow> keeps obs (sfor xs f)"
  by (induction xs) (simp_all add: keeps_ret keeps_bind)

lemma keeps_get [keep_intros]: "keeps obs (sget f)"
  by (simp add: keeps_def)

lemma keeps_modify: "(\<And>s. obs (f s) = obs s) \<Longrightarrow> keeps obs (smodify f)"
  by (simp add: keeps_def)

lemma keeps_unwrap_or [keep_intros]: "keeps obs m \<Longrightarrow> keeps obs (sunwrap_or d m)"
  by (simp add: keeps_def)

lemma keeps_option [keep_intros]:
  "keeps obs m \<Longrightarrow> (\<And>x. keeps obs (f x)) \<Longrightarrow> keeps obs (case y of None \<Rightarrow> m | Some x \<Rightarrow> f x)"
  by (simp split: option.splits)

section \<open>Lemmas: invariants of runs\<close>

lemma maintainsI: "(\<And>s. Q s \<Longrightarrow> Q (snd (m s))) \<Longrightarrow> maintains Q m"
  by (simp add: maintains_def)

lemma maintainsD: "maintains Q m \<Longrightarrow> Q s \<Longrightarrow> m s = (r, s') \<Longrightarrow> Q s'"
  by (metis maintains_def snd_conv)

lemma maintains_ret [inv_intros]: "maintains Q (sret x)"
  and maintains_fail [inv_intros]: "maintains Q (sfail e)"
  and maintains_guard [inv_intros]: "maintains Q (sguard b e)"
  and maintains_ok_or [inv_intros]: "maintains Q (sok_or e y)"
  and maintains_get [inv_intros]: "maintains Q (sget f)"
  by (simp_all add: maintains_def sok_or_def split: option.splits)

lemma maintains_bind [inv_intros]:
  assumes "maintains Q m" "\<And>x. maintains Q (f x)"
  shows "maintains Q (sbind m f)"
proof (rule maintainsI)
  fix s
  assume "Q s"
  obtain r s' where ms: "m s = (r, s')" by (cases "m s")
  have "Q s'" using maintainsD [OF assms(1) \<open>Q s\<close> ms] .
  then have "Q (snd (f x s'))" for x
    using assms(2) by (simp add: maintains_def)
  with \<open>Q s'\<close> ms show "Q (snd (sbind m f s))"
    by (cases r) simp_all
qed

lemma maintains_if [inv_intros]:
  "(b \<Longrightarrow> maintains Q m) \<Longrightarrow> (\<not> b \<Longrightarrow> maintains Q m') \<Longrightarrow> maintains Q (if b then m else m')"
  by simp

lemma maintains_option [inv_intros]:
  "maintains Q m \<Longrightarrow> (\<And>x. maintains Q (f x)) \<Longrightarrow> maintains Q (case y of None \<Rightarrow> m | Some x \<Rightarrow> f x)"
  by (simp split: option.splits)

lemma maintains_map_err [inv_intros]: "maintains Q m \<Longrightarrow> maintains Q (smap_err h m)"
  by (simp add: maintains_def)

lemma maintains_ignore [inv_intros]: "maintains Q m \<Longrightarrow> maintains Q (signore m)"
  by (simp add: maintains_def signore_def)

lemma maintains_for [inv_intros]: "(\<And>x. maintains Q (f x)) \<Longrightarrow> maintains Q (sfor xs f)"
  by (induction xs) (simp_all add: maintains_ret maintains_bind)

lemma maintains_modify: "(\<And>s. Q s \<Longrightarrow> Q (f s)) \<Longrightarrow> maintains Q (smodify f)"
  by (simp add: maintains_def)

lemma keeps_maintains: "keeps obs m \<Longrightarrow> maintains (\<lambda>s. Q (obs s)) m"
  by (simp add: keeps_def maintains_def)

section \<open>Lemmas: atomicity\<close>

lemma atomicI: "(\<And>s e s'. m s = (Inl e, s') \<Longrightarrow> obs s' = obs s) \<Longrightarrow> atomic obs m"
  by (simp add: atomic_def)

lemma atomicD: "atomic obs m \<Longrightarrow> m s = (Inl e, s') \<Longrightarrow> obs s' = obs s"
  by (simp add: atomic_def)

lemma keeps_atomic: "keeps obs m \<Longrightarrow> atomic obs m"
  by (auto simp: atomic_def dest: keepsD)

lemma atomic_if [atomic_intros]: "atomic obs m \<Longrightarrow> atomic obs m' \<Longrightarrow> atomic obs (if b then m else m')"
  by simp

lemma atomic_fail [atomic_intros]: "atomic obs (sfail e)"
  by (simp add: atomic_def)

lemma atomic_bind:
  assumes "keeps obs m" "\<And>x. atomic obs (f x)"
  shows "atomic obs (sbind m f)"
proof (rule atomicI)
  fix s e s'
  assume r: "sbind m f s = (Inl e, s')"
  obtain q s1 where m: "m s = (q, s1)" by (cases "m s")
  have "obs s1 = obs s" using keepsD [OF assms(1) m] .
  with r m show "obs s' = obs s"
    by (cases q) (auto dest: atomicD [OF assms(2)])
qed

lemma atomic_bind_total:
  assumes "atomic obs m" "\<And>x s. \<exists>y. fst (f x s) = Inr y"
  shows "atomic obs (sbind m f)"
proof (rule atomicI)
  fix s e s'
  assume r: "sbind m f s = (Inl e, s')"
  obtain q s1 where m: "m s = (q, s1)" by (cases "m s")
  show "obs s' = obs s"
  proof (cases q)
    case (Inl e2)
    with r m have "m s = (Inl e, s')" by simp
    then show ?thesis by (rule atomicD [OF assms(1)])
  next
    case (Inr x)
    with r m assms(2) [of x s1] show ?thesis by auto
  qed
qed

lemma atomic_split [atomic_intros]:
  "(\<And>x y. atomic obs (f x y)) \<Longrightarrow> atomic obs (case p of (x, y) \<Rightarrow> f x y)"
  by (simp split: prod.splits)

section \<open>Lemmas: runs within a preorder\<close>

lemma movesI: "(\<And>s. R s (snd (m s))) \<Longrightarrow> moves R m"
  by (simp add: moves_def)

lemma movesD: "moves R m \<Longrightarrow> m s = (r, s') \<Longrightarrow> R s s'"
  by (metis moves_def snd_conv)

lemma moves_pure [moves_intros]:
  assumes "reflp R"
  shows "moves R (sret x)" and "moves R (sfail e)" and "moves R (sguard b e)" and "moves R (sok_or e y)"
    and "moves R (sget f)"
  using assms by (simp_all add: moves_def sok_or_def reflpD split: option.splits)

lemma moves_bind [moves_intros]:
  assumes "transp R" "moves R m" "\<And>x. moves R (f x)"
  shows "moves R (sbind m f)"
proof (rule movesI)
  fix s
  obtain r s' where ms: "m s = (r, s')" by (cases "m s")
  with assms(2) have "R s s'" by (rule movesD)
  moreover have "R s' (snd (f x s'))" for x
    using assms(3) [of x] by (simp add: moves_def)
  ultimately show "R s (snd (sbind m f s))"
    using ms transpD [OF assms(1)] by (cases r) simp_all
qed

lemma moves_if [moves_intros]: "moves R m \<Longrightarrow> moves R m' \<Longrightarrow> moves R (if b then m else m')"
  by simp

lemma moves_option [moves_intros]:
  "moves R m \<Longrightarrow> (\<And>x. moves R (f x)) \<Longrightarrow> moves R (case y of None \<Rightarrow> m | Some x \<Rightarrow> f x)"
  by (simp split: option.splits)

lemma moves_split [moves_intros]: "(\<And>x y. moves R (f x y)) \<Longrightarrow> moves R (case p of (x, y) \<Rightarrow> f x y)"
  by (simp split: prod.splits)

lemma moves_map_err [moves_intros]: "moves R m \<Longrightarrow> moves R (smap_err h m)"
  and moves_ignore [moves_intros]: "moves R m \<Longrightarrow> moves R (signore m)"
  and moves_is_ok [moves_intros]: "moves R m \<Longrightarrow> moves R (sis_ok m)"
  and moves_unwrap_or [moves_intros]: "moves R m \<Longrightarrow> moves R (sunwrap_or d m)"
  by (simp_all add: moves_def)

lemma moves_for [moves_intros]:
  "reflp R \<Longrightarrow> transp R \<Longrightarrow> (\<And>x. moves R (f x)) \<Longrightarrow> moves R (sfor xs f)"
  by (induction xs) (simp_all add: moves_bind, simp add: moves_def reflpD)

lemma keeps_moves: "keeps obs m = moves (\<lambda>s s'. obs s' = obs s) m"
  by (simp add: keeps_def moves_def)

lemma obs_preorder: "reflp (\<lambda>s s'. obs s' = obs s)" "transp (\<lambda>s s'. obs s' = obs s)"
  by (auto intro: reflpI transpI)

end
