(* ===== verification/Storage.thy ===== *)
theory Storage
  imports Prelude
begin

text \<open>
  EVM storage as the precompiles see it (\<^verbatim>\<open>crates/precompile/src/storage.rs\<close> and
  \<^verbatim>\<open>crates/protocol/src/storage_backend.rs\<close>). The \<^verbatim>\<open>StorageProvider\<close> trait is the record
  \<open>provider\<close> of its methods; \<open>hashmap_provider\<close> and \<open>evm_provider\<close> are its two implementations,
  the second over revm's journal, which is a parameter. The \<^verbatim>\<open>StorageBackend\<close> trait is the record
  \<open>backend\<close>, with the direct implementation on \<^verbatim>\<open>HashMapStorageProvider\<close> and the \<^verbatim>\<open>StorageRef\<close>
  wrapper, which discards every error of the provider below it.
\<close>

section \<open>Data\<close>

text \<open>
  revm's error type. \<open>Unwind\<close> is no value of it: it stands for a panic inside the call, which unwinds
  past every handler of errors.
\<close>

datatype precompile_error = OutOfGas | Fatal string | Other string | Unwind

record log_data =
  log_topics :: "u256 list"
  log_bytes :: bytes

text \<open>The gas costs the file imports from revm.\<close>

record gas_schedule =
  COLD_SLOAD_COST :: u64
  WARM_STORAGE_READ_COST :: u64
  LOG :: u64
  LOGDATA :: u64
  LOGTOPIC :: u64

type_synonym journal_checkpoint = "nat \<times> nat"

definition SSTORE_SET_GAS :: u64 where
  "SSTORE_SET_GAS = 20000"

definition TLOAD_GAS :: u64 where
  "TLOAD_GAS = 100"

definition TSTORE_GAS :: u64 where
  "TSTORE_GAS = 100"

definition BALANCE_ACCESS_GAS :: "gas_schedule \<Rightarrow> u64" where
  "BALANCE_ACCESS_GAS G = WARM_STORAGE_READ_COST G"

definition CODE_ACCESS_GAS :: "gas_schedule \<Rightarrow> u64" where
  "CODE_ACCESS_GAS G = WARM_STORAGE_READ_COST G"

type_synonym evm_storage = "address \<Rightarrow> u256 \<Rightarrow> u256"

section \<open>The StorageProvider trait\<close>

record 's provider =
  p_sload :: "address \<Rightarrow> u256 \<Rightarrow> ('s, precompile_error, u256) smonad"
  p_sstore :: "address \<Rightarrow> u256 \<Rightarrow> u256 \<Rightarrow> ('s, precompile_error, unit) smonad"
  p_tload :: "address \<Rightarrow> u256 \<Rightarrow> ('s, precompile_error, u256) smonad"
  p_tstore :: "address \<Rightarrow> u256 \<Rightarrow> u256 \<Rightarrow> ('s, precompile_error, unit) smonad"
  p_emit_event :: "address \<Rightarrow> log_data \<Rightarrow> ('s, precompile_error, unit) smonad"
  p_checkpoint :: "'s \<Rightarrow> journal_checkpoint \<times> 's"
  p_checkpoint_commit :: "journal_checkpoint \<Rightarrow> 's \<Rightarrow> 's"
  p_checkpoint_revert :: "journal_checkpoint \<Rightarrow> 's \<Rightarrow> 's"
  p_charge_gas :: "u64 \<Rightarrow> ('s, precompile_error, unit) smonad"
  p_refund_gas :: "int \<Rightarrow> 's \<Rightarrow> 's"
  p_gas_used :: "'s \<Rightarrow> u64"
  p_gas_refunded :: "'s \<Rightarrow> int"
  p_is_static :: "'s \<Rightarrow> bool"
  p_chain_id :: "'s \<Rightarrow> u64"
  p_timestamp :: "'s \<Rightarrow> u256"
  p_block_number :: "'s \<Rightarrow> u64"
  p_beneficiary :: "'s \<Rightarrow> address"
  p_reset_gas_counters :: "'s \<Rightarrow> 's"
  p_gas_counters :: "'s \<Rightarrow> u64 \<times> u64"
  p_balance_add :: "address \<Rightarrow> u256 \<Rightarrow> ('s, precompile_error, unit) smonad"
  p_balance_sub :: "address \<Rightarrow> u256 \<Rightarrow> ('s, precompile_error, unit) smonad"
  p_balance_get :: "address \<Rightarrow> ('s, precompile_error, u256) smonad"
  p_code_get :: "address \<Rightarrow> ('s, precompile_error, bytes) smonad"
  p_raw_sload :: "address \<Rightarrow> u256 \<Rightarrow> ('s, precompile_error, u256) smonad"
  p_raw_balance_get :: "address \<Rightarrow> ('s, precompile_error, u256) smonad"
  p_raw_code_get :: "address \<Rightarrow> ('s, precompile_error, bytes) smonad"
  p_raw_sstore :: "address \<Rightarrow> u256 \<Rightarrow> u256 \<Rightarrow> ('s, precompile_error, unit) smonad"

section \<open>HashMapStorageProvider\<close>

record hm_snapshot =
  sn_persistent :: "(address \<times> u256) \<rightharpoonup> u256"
  sn_transient :: "(address \<times> u256) \<rightharpoonup> u256"
  sn_events :: "address \<rightharpoonup> log_data list"
  sn_balances :: "address \<rightharpoonup> u256"
  sn_codes :: "address \<rightharpoonup> bytes"
  sn_accessed_slots :: "(address \<times> u256) \<rightharpoonup> u256"
  sn_gas_remaining :: u64
  sn_gas_refunded :: int
  sn_sload_count :: u64
  sn_sstore_count :: u64

record hm =
  hm_persistent :: "(address \<times> u256) \<rightharpoonup> u256"
  hm_transient :: "(address \<times> u256) \<rightharpoonup> u256"
  hm_events :: "address \<rightharpoonup> log_data list"
  hm_balances :: "address \<rightharpoonup> u256"
  hm_codes :: "address \<rightharpoonup> bytes"
  hm_gas_remaining :: u64
  hm_gas_refunded :: int
  hm_gas_limit :: u64
  hm_is_static :: bool
  hm_chain_id :: u64
  hm_timestamp :: u256
  hm_block_number :: u64
  hm_beneficiary :: address
  hm_accessed_slots :: "(address \<times> u256) \<rightharpoonup> u256"
  hm_sload_count :: u64
  hm_sstore_count :: u64
  hm_checkpoints :: "hm_snapshot list"

definition hm_with_block :: "u64 \<Rightarrow> u64 \<Rightarrow> u64 \<Rightarrow> hm" where
  "hm_with_block gas_limit chain_id block_number =
     \<lparr>hm_persistent = Map.empty, hm_transient = Map.empty, hm_events = Map.empty,
      hm_balances = Map.empty, hm_codes = Map.empty, hm_gas_remaining = gas_limit,
      hm_gas_refunded = 0, hm_gas_limit = gas_limit, hm_is_static = False,
      hm_chain_id = chain_id, hm_timestamp = 0, hm_block_number = block_number,
      hm_beneficiary = 0, hm_accessed_slots = Map.empty, hm_sload_count = 0,
      hm_sstore_count = 0, hm_checkpoints = []\<rparr>"

definition hm_new :: "u64 \<Rightarrow> hm" where
  "hm_new gas_limit = hm_with_block gas_limit 0 0"

definition hm_is_warm :: "hm \<Rightarrow> address \<Rightarrow> u256 \<Rightarrow> bool" where
  "hm_is_warm s a k \<longleftrightarrow> hm_accessed_slots s (a, k) \<noteq> None"

definition hm_warm_slot :: "address \<Rightarrow> u256 \<Rightarrow> hm \<Rightarrow> hm" where
  "hm_warm_slot a k s =
     (if hm_accessed_slots s (a, k) = None
      then s\<lparr>hm_accessed_slots := (hm_accessed_slots s)((a, k) \<mapsto> unwrap_or 0 (hm_persistent s (a, k)))\<rparr>
      else s)"

definition hm_set_block_number :: "u64 \<Rightarrow> hm \<Rightarrow> hm" where
  "hm_set_block_number n s = s\<lparr>hm_block_number := n\<rparr>"

definition hm_set_timestamp :: "u256 \<Rightarrow> hm \<Rightarrow> hm" where
  "hm_set_timestamp t s = s\<lparr>hm_timestamp := t\<rparr>"

definition hm_get :: "hm \<Rightarrow> address \<Rightarrow> u256 \<Rightarrow> u256 option" where
  "hm_get s a k = hm_persistent s (a, k)"

definition hm_set :: "address \<Rightarrow> u256 \<Rightarrow> u256 \<Rightarrow> hm \<Rightarrow> hm" where
  "hm_set a k v s = s\<lparr>hm_persistent := (hm_persistent s)((a, k) \<mapsto> v)\<rparr>"

definition hm_events_of :: "hm \<Rightarrow> address \<Rightarrow> log_data list" where
  "hm_events_of s a = unwrap_or [] (hm_events s a)"

definition hm_get_balance :: "hm \<Rightarrow> address \<Rightarrow> u256" where
  "hm_get_balance s a = unwrap_or 0 (hm_balances s a)"

definition hm_set_code :: "address \<Rightarrow> bytes \<Rightarrow> hm \<Rightarrow> hm" where
  "hm_set_code a c s = s\<lparr>hm_codes := (hm_codes s)(a \<mapsto> c)\<rparr>"

definition hm_get_code :: "hm \<Rightarrow> address \<Rightarrow> bytes" where
  "hm_get_code s a = unwrap_or [] (hm_codes s a)"

definition hm_deduct_gas :: "u64 \<Rightarrow> (hm, precompile_error, unit) smonad" where
  "hm_deduct_gas gas = (\<lambda>s. case checked_sub (hm_gas_remaining s) gas of
       None \<Rightarrow> (Inl OutOfGas, s)
     | Some g \<Rightarrow> (Inr (), s\<lparr>hm_gas_remaining := g\<rparr>))"

definition hm_refund_gas :: "int \<Rightarrow> hm \<Rightarrow> hm" where
  "hm_refund_gas gas s = s\<lparr>hm_gas_refunded := sat_i 64 (hm_gas_refunded s + gas)\<rparr>"

definition hm_sload :: "gas_schedule \<Rightarrow> address \<Rightarrow> u256 \<Rightarrow> (hm, precompile_error, u256) smonad" where
  "hm_sload G a k =
     sbind (smodify (\<lambda>s. s\<lparr>hm_sload_count := hm_sload_count s + 1\<rparr>)) (\<lambda>_.
     sbind (sget (\<lambda>s. hm_is_warm s a k)) (\<lambda>is_warm.
     sbind (hm_deduct_gas (if is_warm then WARM_STORAGE_READ_COST G else COLD_SLOAD_COST G)) (\<lambda>_.
     sbind (smodify (hm_warm_slot a k)) (\<lambda>_.
     sget (\<lambda>s. unwrap_or 0 (hm_persistent s (a, k)))))))"

definition hm_sstore :: "gas_schedule \<Rightarrow> address \<Rightarrow> u256 \<Rightarrow> u256 \<Rightarrow> (hm, precompile_error, unit) smonad" where
  "hm_sstore G a k v =
     sbind (smodify (\<lambda>s. s\<lparr>hm_sstore_count := hm_sstore_count s + 1\<rparr>)) (\<lambda>_.
     sbind (sget hm_is_static) (\<lambda>static.
     sbind (sguard static (Other ''static call'')) (\<lambda>_.
     sbind (sget (\<lambda>s. hm_is_warm s a k)) (\<lambda>is_warm.
     sbind (hm_deduct_gas (SSTORE_SET_GAS + (if is_warm then 0 else COLD_SLOAD_COST G))) (\<lambda>_.
     sbind (sget (\<lambda>s. unwrap_or 0 (hm_persistent s (a, k)))) (\<lambda>present.
     sbind (sget (\<lambda>s. unwrap_or 0 (hm_accessed_slots s (a, k)))) (\<lambda>original.
     sbind (if original = v \<and> present \<noteq> v \<or> present \<noteq> 0 \<and> v = 0
            then smodify (hm_refund_gas 4800) else sret ()) (\<lambda>_.
     sbind (smodify (hm_warm_slot a k)) (\<lambda>_.
     smodify (hm_set a k v))))))))))"

definition hm_tload :: "address \<Rightarrow> u256 \<Rightarrow> (hm, precompile_error, u256) smonad" where
  "hm_tload a k =
     sbind (hm_deduct_gas TLOAD_GAS) (\<lambda>_. sget (\<lambda>s. unwrap_or 0 (hm_transient s (a, k))))"

definition hm_tstore :: "address \<Rightarrow> u256 \<Rightarrow> u256 \<Rightarrow> (hm, precompile_error, unit) smonad" where
  "hm_tstore a k v =
     sbind (sget hm_is_static) (\<lambda>static.
     sbind (sguard static (Other ''static call'')) (\<lambda>_.
     sbind (hm_deduct_gas TSTORE_GAS) (\<lambda>_.
     smodify (\<lambda>s. s\<lparr>hm_transient := (hm_transient s)((a, k) \<mapsto> v)\<rparr>))))"

definition event_gas :: "gas_schedule \<Rightarrow> log_data \<Rightarrow> u64" where
  "event_gas G e = LOG G + LOGTOPIC G * of_nat (length (log_topics e))
     + LOGDATA G * of_nat (length (log_bytes e))"

definition hm_emit_event :: "gas_schedule \<Rightarrow> address \<Rightarrow> log_data \<Rightarrow> (hm, precompile_error, unit) smonad" where
  "hm_emit_event G a e =
     sbind (hm_deduct_gas (event_gas G e)) (\<lambda>_.
     smodify (\<lambda>s. s\<lparr>hm_events := (hm_events s)(a \<mapsto> hm_events_of s a @ [e])\<rparr>))"

definition hm_snap :: "hm \<Rightarrow> hm_snapshot" where
  "hm_snap s =
     \<lparr>sn_persistent = hm_persistent s, sn_transient = hm_transient s, sn_events = hm_events s,
      sn_balances = hm_balances s, sn_codes = hm_codes s, sn_accessed_slots = hm_accessed_slots s,
      sn_gas_remaining = hm_gas_remaining s, sn_gas_refunded = hm_gas_refunded s,
      sn_sload_count = hm_sload_count s, sn_sstore_count = hm_sstore_count s\<rparr>"

definition hm_checkpoint :: "hm \<Rightarrow> journal_checkpoint \<times> hm" where
  "hm_checkpoint s = ((0, 0), s\<lparr>hm_checkpoints := hm_snap s # hm_checkpoints s\<rparr>)"

definition hm_checkpoint_commit :: "journal_checkpoint \<Rightarrow> hm \<Rightarrow> hm" where
  "hm_checkpoint_commit c s = s\<lparr>hm_checkpoints := tl (hm_checkpoints s)\<rparr>"

definition hm_checkpoint_revert :: "journal_checkpoint \<Rightarrow> hm \<Rightarrow> hm" where
  "hm_checkpoint_revert c s = (case hm_checkpoints s of
       [] \<Rightarrow> s
     | sn # rest \<Rightarrow>
         s\<lparr>hm_persistent := sn_persistent sn, hm_transient := sn_transient sn,
           hm_events := sn_events sn, hm_balances := sn_balances sn, hm_codes := sn_codes sn,
           hm_accessed_slots := sn_accessed_slots sn, hm_gas_remaining := sn_gas_remaining sn,
           hm_gas_refunded := sn_gas_refunded sn, hm_sload_count := sn_sload_count sn,
           hm_sstore_count := sn_sstore_count sn, hm_checkpoints := rest\<rparr>)"

definition hm_balance_add :: "gas_schedule \<Rightarrow> address \<Rightarrow> u256 \<Rightarrow> (hm, precompile_error, unit) smonad" where
  "hm_balance_add G a amount =
     sbind (sget hm_is_static) (\<lambda>static.
     sbind (sguard static (Other ''static call cannot mutate balance'')) (\<lambda>_.
     sbind (sget (\<lambda>s. hm_get_balance s a)) (\<lambda>current.
     sbind (sok_or (Other ''balance overflow'') (checked_add current amount)) (\<lambda>new.
     sbind (smodify (\<lambda>s. s\<lparr>hm_balances := (hm_balances s)(a \<mapsto> new)\<rparr>)) (\<lambda>_.
     hm_deduct_gas (BALANCE_ACCESS_GAS G))))))"

definition hm_balance_sub :: "gas_schedule \<Rightarrow> address \<Rightarrow> u256 \<Rightarrow> (hm, precompile_error, unit) smonad" where
  "hm_balance_sub G a amount =
     sbind (sget hm_is_static) (\<lambda>static.
     sbind (sguard static (Other ''static call cannot mutate balance'')) (\<lambda>_.
     sbind (sget (\<lambda>s. hm_get_balance s a)) (\<lambda>current.
     sbind (sok_or (Other ''insufficient native balance'') (checked_sub current amount)) (\<lambda>new.
     sbind (smodify (\<lambda>s. s\<lparr>hm_balances := (hm_balances s)(a \<mapsto> new)\<rparr>)) (\<lambda>_.
     hm_deduct_gas (BALANCE_ACCESS_GAS G))))))"

definition hm_balance_get :: "gas_schedule \<Rightarrow> address \<Rightarrow> (hm, precompile_error, u256) smonad" where
  "hm_balance_get G a =
     sbind (hm_deduct_gas (BALANCE_ACCESS_GAS G)) (\<lambda>_. sget (\<lambda>s. hm_get_balance s a))"

definition hm_code_get :: "gas_schedule \<Rightarrow> address \<Rightarrow> (hm, precompile_error, bytes) smonad" where
  "hm_code_get G a =
     sbind (hm_deduct_gas (CODE_ACCESS_GAS G)) (\<lambda>_. sget (\<lambda>s. hm_get_code s a))"

definition hashmap_provider :: "gas_schedule \<Rightarrow> hm provider" where
  "hashmap_provider G =
     \<lparr>p_sload = hm_sload G, p_sstore = hm_sstore G, p_tload = hm_tload, p_tstore = hm_tstore,
      p_emit_event = hm_emit_event G, p_checkpoint = hm_checkpoint,
      p_checkpoint_commit = hm_checkpoint_commit, p_checkpoint_revert = hm_checkpoint_revert,
      p_charge_gas = hm_deduct_gas, p_refund_gas = hm_refund_gas,
      p_gas_used = (\<lambda>s. hm_gas_limit s - hm_gas_remaining s), p_gas_refunded = hm_gas_refunded,
      p_is_static = hm_is_static, p_chain_id = hm_chain_id, p_timestamp = hm_timestamp,
      p_block_number = hm_block_number, p_beneficiary = hm_beneficiary,
      p_reset_gas_counters = (\<lambda>s. s\<lparr>hm_sload_count := 0, hm_sstore_count := 0\<rparr>),
      p_gas_counters = (\<lambda>s. (hm_sload_count s, hm_sstore_count s)),
      p_balance_add = hm_balance_add G, p_balance_sub = hm_balance_sub G,
      p_balance_get = hm_balance_get G, p_code_get = hm_code_get G,
      p_raw_sload = (\<lambda>a k. sget (\<lambda>s. unwrap_or 0 (hm_persistent s (a, k)))),
      p_raw_balance_get = (\<lambda>a. sget (\<lambda>s. hm_get_balance s a)),
      p_raw_code_get = (\<lambda>a. sget (\<lambda>s. hm_get_code s a)),
      p_raw_sstore = (\<lambda>a k v. smodify (hm_set a k v))\<rparr>"

section \<open>EvmStorageProvider\<close>

text \<open>
  revm's journal. \<open>j_sload\<close> and \<open>j_sstore\<close> return the value and whether the slot was cold;
  \<open>j_sstore\<close> also returns the original and the present value. The two balance updates are
  \<^verbatim>\<open>load_account_mut\<close> followed by \<^verbatim>\<open>incr_balance\<close> or \<^verbatim>\<open>decr_balance\<close>. An error is its debug text.
\<close>

record 'j journal_tr =
  j_load_account :: "address \<Rightarrow> ('j, string, u256 \<times> bytes option) smonad"
  j_sload :: "address \<Rightarrow> u256 \<Rightarrow> ('j, string, u256 \<times> bool) smonad"
  j_sstore :: "address \<Rightarrow> u256 \<Rightarrow> u256 \<Rightarrow> ('j, string, (u256 \<times> u256) \<times> bool) smonad"
  j_tload :: "address \<Rightarrow> u256 \<Rightarrow> 'j \<Rightarrow> u256"
  j_tstore :: "address \<Rightarrow> u256 \<Rightarrow> u256 \<Rightarrow> 'j \<Rightarrow> 'j"
  j_log :: "address \<Rightarrow> log_data \<Rightarrow> 'j \<Rightarrow> 'j"
  j_checkpoint :: "'j \<Rightarrow> journal_checkpoint \<times> 'j"
  j_checkpoint_commit :: "'j \<Rightarrow> 'j"
  j_checkpoint_revert :: "journal_checkpoint \<Rightarrow> 'j \<Rightarrow> 'j"
  j_incr_balance :: "address \<Rightarrow> u256 \<Rightarrow> ('j, string, bool) smonad"
  j_decr_balance :: "address \<Rightarrow> u256 \<Rightarrow> ('j, string, bool) smonad"

record 'j evm =
  ev_journal :: 'j
  ev_gas_remaining :: u64
  ev_gas_refunded :: int
  ev_gas_limit :: u64
  ev_is_static :: bool
  ev_chain_id :: u64
  ev_timestamp :: u256
  ev_block_number :: u64
  ev_beneficiary :: address
  ev_sload_count :: u64
  ev_sstore_count :: u64

definition ev_new :: "'j \<Rightarrow> u64 \<Rightarrow> bool \<Rightarrow> u64 \<Rightarrow> u256 \<Rightarrow> u64 \<Rightarrow> address \<Rightarrow> 'j evm" where
  "ev_new j gas_limit static chain_id timestamp block_number beneficiary =
     \<lparr>ev_journal = j, ev_gas_remaining = gas_limit, ev_gas_refunded = 0,
      ev_gas_limit = gas_limit, ev_is_static = static, ev_chain_id = chain_id,
      ev_timestamp = timestamp, ev_block_number = block_number, ev_beneficiary = beneficiary,
      ev_sload_count = 0, ev_sstore_count = 0\<rparr>"

definition ev_deduct_gas :: "u64 \<Rightarrow> ('j evm, precompile_error, unit) smonad" where
  "ev_deduct_gas gas = (\<lambda>s. case checked_sub (ev_gas_remaining s) gas of
       None \<Rightarrow> (Inl OutOfGas, s)
     | Some g \<Rightarrow> (Inr (), s\<lparr>ev_gas_remaining := g\<rparr>))"

text \<open>A journal call with its error formatted and propagated.\<close>

definition ev_call :: "string \<Rightarrow> ('j, string, 'a) smonad \<Rightarrow> ('j evm, precompile_error, 'a) smonad" where
  "ev_call what m = (\<lambda>s. case m (ev_journal s) of
       (Inl e, j) \<Rightarrow> (Inl (Other (what @ '' error: '' @ e)), s\<lparr>ev_journal := j\<rparr>)
     | (Inr x, j) \<Rightarrow> (Inr x, s\<lparr>ev_journal := j\<rparr>))"

definition ev_refund_gas :: "int \<Rightarrow> 'j evm \<Rightarrow> 'j evm" where
  "ev_refund_gas gas s = s\<lparr>ev_gas_refunded := sat_i 64 (ev_gas_refunded s + gas)\<rparr>"

definition ev_sload :: "gas_schedule \<Rightarrow> 'j journal_tr \<Rightarrow> address \<Rightarrow> u256 \<Rightarrow>
    ('j evm, precompile_error, u256) smonad" where
  "ev_sload G J a k =
     sbind (smodify (\<lambda>s. s\<lparr>ev_sload_count := ev_sload_count s + 1\<rparr>)) (\<lambda>_.
     sbind (ev_call ''load_account'' (j_load_account J a)) (\<lambda>_.
     sbind (ev_call ''sload'' (j_sload J a k)) (\<lambda>(data, is_cold).
     sbind (ev_deduct_gas (if is_cold then COLD_SLOAD_COST G else WARM_STORAGE_READ_COST G)) (\<lambda>_.
     sret data))))"

definition ev_sstore :: "gas_schedule \<Rightarrow> 'j journal_tr \<Rightarrow> address \<Rightarrow> u256 \<Rightarrow> u256 \<Rightarrow>
    ('j evm, precompile_error, unit) smonad" where
  "ev_sstore G J a k v =
     sbind (smodify (\<lambda>s. s\<lparr>ev_sstore_count := ev_sstore_count s + 1\<rparr>)) (\<lambda>_.
     sbind (sget ev_is_static) (\<lambda>static.
     sbind (sguard static (Other ''static call cannot mutate state'')) (\<lambda>_.
     sbind (ev_call ''load_account'' (j_load_account J a)) (\<lambda>_.
     sbind (ev_call ''sstore'' (j_sstore J a k v)) (\<lambda>((original_value, present_value), is_cold).
     sbind (ev_deduct_gas (SSTORE_SET_GAS + (if is_cold then COLD_SLOAD_COST G else 0))) (\<lambda>_.
     if original_value = v \<and> present_value \<noteq> v \<or> present_value \<noteq> 0 \<and> v = 0
     then smodify (ev_refund_gas 4800) else sret ()))))))"

definition ev_tload :: "'j journal_tr \<Rightarrow> address \<Rightarrow> u256 \<Rightarrow> ('j evm, precompile_error, u256) smonad" where
  "ev_tload J a k =
     sbind (ev_deduct_gas TLOAD_GAS) (\<lambda>_. sget (\<lambda>s. j_tload J a k (ev_journal s)))"

definition ev_tstore :: "'j journal_tr \<Rightarrow> address \<Rightarrow> u256 \<Rightarrow> u256 \<Rightarrow>
    ('j evm, precompile_error, unit) smonad" where
  "ev_tstore J a k v =
     sbind (sget ev_is_static) (\<lambda>static.
     sbind (sguard static (Other ''static call cannot mutate state'')) (\<lambda>_.
     sbind (ev_deduct_gas TSTORE_GAS) (\<lambda>_.
     smodify (\<lambda>s. s\<lparr>ev_journal := j_tstore J a k v (ev_journal s)\<rparr>))))"

definition ev_emit_event :: "gas_schedule \<Rightarrow> 'j journal_tr \<Rightarrow> address \<Rightarrow> log_data \<Rightarrow>
    ('j evm, precompile_error, unit) smonad" where
  "ev_emit_event G J a e =
     sbind (ev_deduct_gas (event_gas G e)) (\<lambda>_.
     smodify (\<lambda>s. s\<lparr>ev_journal := j_log J a e (ev_journal s)\<rparr>))"

definition ev_checkpoint :: "'j journal_tr \<Rightarrow> 'j evm \<Rightarrow> journal_checkpoint \<times> 'j evm" where
  "ev_checkpoint J s = (case j_checkpoint J (ev_journal s) of (c, j) \<Rightarrow> (c, s\<lparr>ev_journal := j\<rparr>))"

definition ev_balance_add :: "gas_schedule \<Rightarrow> 'j journal_tr \<Rightarrow> address \<Rightarrow> u256 \<Rightarrow>
    ('j evm, precompile_error, unit) smonad" where
  "ev_balance_add G J a amount =
     sbind (sget ev_is_static) (\<lambda>static.
     sbind (sguard static (Other ''static call cannot mutate balance'')) (\<lambda>_.
     sbind (ev_call ''load_account_mut'' (j_incr_balance J a amount)) (\<lambda>success.
     sbind (sguard (\<not> success) (Other ''balance overflow'')) (\<lambda>_.
     ev_deduct_gas (BALANCE_ACCESS_GAS G)))))"

definition ev_balance_sub :: "gas_schedule \<Rightarrow> 'j journal_tr \<Rightarrow> address \<Rightarrow> u256 \<Rightarrow>
    ('j evm, precompile_error, unit) smonad" where
  "ev_balance_sub G J a amount =
     sbind (sget ev_is_static) (\<lambda>static.
     sbind (sguard static (Other ''static call cannot mutate balance'')) (\<lambda>_.
     sbind (ev_call ''load_account_mut'' (j_decr_balance J a amount)) (\<lambda>success.
     sbind (sguard (\<not> success) (Other ''insufficient native balance'')) (\<lambda>_.
     ev_deduct_gas (BALANCE_ACCESS_GAS G)))))"

definition ev_balance_get :: "gas_schedule \<Rightarrow> 'j journal_tr \<Rightarrow> address \<Rightarrow>
    ('j evm, precompile_error, u256) smonad" where
  "ev_balance_get G J a =
     sbind (ev_call ''load_account'' (j_load_account J a)) (\<lambda>(balance, _).
     sbind (ev_deduct_gas (BALANCE_ACCESS_GAS G)) (\<lambda>_. sret balance))"

definition ev_code_get :: "gas_schedule \<Rightarrow> 'j journal_tr \<Rightarrow> address \<Rightarrow>
    ('j evm, precompile_error, bytes) smonad" where
  "ev_code_get G J a =
     sbind (ev_call ''load_account'' (j_load_account J a)) (\<lambda>(_, code).
     sbind (ev_deduct_gas (CODE_ACCESS_GAS G)) (\<lambda>_. sret (unwrap_or [] code)))"

definition ev_raw_sload :: "'j journal_tr \<Rightarrow> address \<Rightarrow> u256 \<Rightarrow>
    ('j evm, precompile_error, u256) smonad" where
  "ev_raw_sload J a k =
     sbind (ev_call ''load_account'' (j_load_account J a)) (\<lambda>_.
     sbind (ev_call ''sload'' (j_sload J a k)) (\<lambda>(data, _). sret data))"

definition ev_raw_sstore :: "'j journal_tr \<Rightarrow> address \<Rightarrow> u256 \<Rightarrow> u256 \<Rightarrow>
    ('j evm, precompile_error, unit) smonad" where
  "ev_raw_sstore J a k v =
     sbind (sget ev_is_static) (\<lambda>static.
     sbind (sguard static (Other ''static call cannot mutate state'')) (\<lambda>_.
     sbind (ev_call ''load_account'' (j_load_account J a)) (\<lambda>_.
     sbind (ev_call ''sstore'' (j_sstore J a k v)) (\<lambda>_. sret ()))))"

definition evm_provider :: "gas_schedule \<Rightarrow> 'j journal_tr \<Rightarrow> 'j evm provider" where
  "evm_provider G J =
     \<lparr>p_sload = ev_sload G J, p_sstore = ev_sstore G J, p_tload = ev_tload J,
      p_tstore = ev_tstore J, p_emit_event = ev_emit_event G J, p_checkpoint = ev_checkpoint J,
      p_checkpoint_commit = (\<lambda>_ s. s\<lparr>ev_journal := j_checkpoint_commit J (ev_journal s)\<rparr>),
      p_checkpoint_revert = (\<lambda>c s. s\<lparr>ev_journal := j_checkpoint_revert J c (ev_journal s)\<rparr>),
      p_charge_gas = ev_deduct_gas, p_refund_gas = ev_refund_gas,
      p_gas_used = (\<lambda>s. ev_gas_limit s - ev_gas_remaining s), p_gas_refunded = ev_gas_refunded,
      p_is_static = ev_is_static, p_chain_id = ev_chain_id, p_timestamp = ev_timestamp,
      p_block_number = ev_block_number, p_beneficiary = ev_beneficiary,
      p_reset_gas_counters = (\<lambda>s. s\<lparr>ev_sload_count := 0, ev_sstore_count := 0\<rparr>),
      p_gas_counters = (\<lambda>s. (ev_sload_count s, ev_sstore_count s)),
      p_balance_add = ev_balance_add G J, p_balance_sub = ev_balance_sub G J,
      p_balance_get = ev_balance_get G J, p_code_get = ev_code_get G J,
      p_raw_sload = ev_raw_sload J,
      p_raw_balance_get = (\<lambda>a. sbind (ev_call ''load_account'' (j_load_account J a)) (\<lambda>(b, _). sret b)),
      p_raw_code_get = (\<lambda>a. sbind (ev_call ''load_account'' (j_load_account J a))
                                   (\<lambda>(_, c). sret (unwrap_or [] c))),
      p_raw_sstore = ev_raw_sstore J\<rparr>"

section \<open>Helpers of the file\<close>

definition INPUT_PER_WORD_COST :: u64 where
  "INPUT_PER_WORD_COST = 6"

definition input_cost :: "nat \<Rightarrow> u64" where
  "input_cost len = of_nat (min (((len + 31) div 32) * unat INPUT_PER_WORD_COST) (2 ^ 64 - 1))"

definition storage_slot :: "(bytes \<Rightarrow> u256) \<Rightarrow> bytes list \<Rightarrow> u256" where
  "storage_slot H parts = H (concat parts)"

record precompile_output =
  out_gas_used :: u64
  out_gas_refunded :: int
  out_bytes :: bytes
  out_reverted :: bool

definition new_precompile_output :: "u64 \<Rightarrow> bytes \<Rightarrow> precompile_output" where
  "new_precompile_output g b =
     \<lparr>out_gas_used = g, out_gas_refunded = 0, out_bytes = b, out_reverted = False\<rparr>"

definition fill_precompile_output :: "'s provider \<Rightarrow> precompile_output \<Rightarrow> 's \<Rightarrow> precompile_output" where
  "fill_precompile_output P output s =
     (let output = output\<lparr>out_gas_used := p_gas_used P s\<rparr> in
      if \<not> out_reverted output then output\<lparr>out_gas_refunded := p_gas_refunded P s\<rparr> else output)"

section \<open>The StorageBackend trait\<close>

record 'b backend =
  b_load :: "address \<Rightarrow> u256 \<Rightarrow> 'b \<Rightarrow> u256 \<times> 'b"
  b_store :: "address \<Rightarrow> u256 \<Rightarrow> u256 \<Rightarrow> 'b \<Rightarrow> 'b"

definition hashmap_backend :: "hm backend" where
  "hashmap_backend =
     \<lparr>b_load = (\<lambda>a k s. (unwrap_or 0 (hm_persistent s (a, k)), s)),
      b_store = (\<lambda>a k v s. hm_set a k v s)\<rparr>"

definition storage_ref :: "'s provider \<Rightarrow> 's backend" where
  "storage_ref P =
     \<lparr>b_load = (\<lambda>a k s. case p_sload P a k s of (Inl _, s') \<Rightarrow> (0, s') | (Inr v, s') \<Rightarrow> (v, s')),
      b_store = (\<lambda>a k v s. snd (p_sstore P a k v s))\<rparr>"

text \<open>The backend that is a storage map and nothing else: what a lawful backend refines.\<close>

definition pure_backend :: "evm_storage backend" where
  "pure_backend =
     \<lparr>b_load = (\<lambda>a k m. (m a k, m)),
      b_store = (\<lambda>a k v m. m(a := (m a)(k := v)))\<rparr>"

definition mload :: "'b backend \<Rightarrow> address \<Rightarrow> u256 \<Rightarrow> ('b, 'e, u256) smonad" where
  "mload B a k = (\<lambda>s. case b_load B a k s of (v, s') \<Rightarrow> (Inr v, s'))"

definition mstore :: "'b backend \<Rightarrow> address \<Rightarrow> u256 \<Rightarrow> u256 \<Rightarrow> ('b, 'e, unit) smonad" where
  "mstore B a k v = (\<lambda>s. (Inr (), b_store B a k v s))"

end
