(* ===== verification/Storage_Laws.thy ===== *)
theory Storage_Laws
  imports Storage
begin

text \<open>
  What the storage layer promises to its clients. \<open>storage_backend\<close> is the contract of a
  \<^verbatim>\<open>StorageBackend\<close>: while the access budget lasts, loads and stores are those of a storage map,
  so every domain function simulates its run on \<open>pure_backend\<close>. It is interpreted for the direct
  hash-map backend (no metering), for \<open>pure_backend\<close> itself and for \<^verbatim>\<open>StorageRef\<close> over
  \<^verbatim>\<open>HashMapStorageProvider\<close>, whose budget is the remaining gas of a non-static call.
  \<open>checkpointed\<close> is the contract of the journal checkpoints of a \<^verbatim>\<open>StorageProvider\<close>.
\<close>

section \<open>Definitions\<close>

definition hm_view :: "hm \<Rightarrow> evm_storage" where
  "hm_view s = (\<lambda>a k. unwrap_or 0 (hm_persistent s (a, k)))"

text \<open>One word of a storage map replaced.\<close>

definition sput :: "address \<Rightarrow> u256 \<Rightarrow> u256 \<Rightarrow> evm_storage \<Rightarrow> evm_storage" where
  "sput a k v m = m(a := (m a)(k := v))"

text \<open>An upper bound on the gas of one storage access through a provider.\<close>

definition access_cost :: "gas_schedule \<Rightarrow> nat" where
  "access_cost G = unat SSTORE_SET_GAS + unat (COLD_SLOAD_COST G) + unat (WARM_STORAGE_READ_COST G)"

definition hm_budget :: "gas_schedule \<Rightarrow> hm \<Rightarrow> enat" where
  "hm_budget G s = (if hm_is_static s then 0 else enat (unat (hm_gas_remaining s) div access_cost G))"

definition ev_budget :: "gas_schedule \<Rightarrow> 'j evm \<Rightarrow> enat" where
  "ev_budget G s = (if ev_is_static s then 0 else enat (unat (ev_gas_remaining s) div access_cost G))"

text \<open>The part of the provider state that a transaction can see: what a revert must restore.\<close>

type_synonym ledger = "((address \<times> u256) \<rightharpoonup> u256) \<times> ((address \<times> u256) \<rightharpoonup> u256) \<times>
  (address \<rightharpoonup> log_data list) \<times> (address \<rightharpoonup> u256) \<times> (address \<rightharpoonup> bytes)"

definition hm_ledger :: "hm \<Rightarrow> ledger" where
  "hm_ledger s = (hm_persistent s, hm_transient s, hm_events s, hm_balances s, hm_codes s)"

definition sn_ledger :: "hm_snapshot \<Rightarrow> ledger" where
  "sn_ledger s = (sn_persistent s, sn_transient s, sn_events s, sn_balances s, sn_codes s)"

definition hm_stack :: "hm \<Rightarrow> (journal_checkpoint \<times> ledger) list" where
  "hm_stack s = map (\<lambda>sn. ((0, 0), sn_ledger sn)) (hm_checkpoints s)"

text \<open>
  The documented behaviour of revm's journal that the production provider relies on, relative to
  the storage map \<open>jview\<close> the journal stands for: loading an account succeeds, a load returns the
  stored word, a store replaces it, a log leaves it.
\<close>

definition journal_ok :: "'j journal_tr \<Rightarrow> ('j \<Rightarrow> evm_storage) \<Rightarrow> bool" where
  "journal_ok J jview \<longleftrightarrow>
     (\<forall>a j. \<exists>x j'. j_load_account J a j = (Inr x, j') \<and> jview j' = jview j) \<and>
     (\<forall>a k j. \<exists>c j'. j_sload J a k j = (Inr (jview j a k, c), j') \<and> jview j' = jview j) \<and>
     (\<forall>a k v j. \<exists>x j'. j_sstore J a k v j = (Inr x, j') \<and>
        jview j' = (jview j)(a := (jview j a)(k := v))) \<and>
     (\<forall>a e j. jview (j_log J a e j) = jview j)"

text \<open>
  The documented behaviour of the journal's checkpoints, relative to what is observed of a journal
  and to the stack of open checkpoints: a checkpoint records the observation, a commit forgets it, a
  revert restores it, a read observes nothing new, and no access touches the stack.
\<close>

definition journal_checkpoints_ok :: "'j journal_tr \<Rightarrow> ('j \<Rightarrow> 'o) \<Rightarrow> ('j \<Rightarrow> (journal_checkpoint \<times> 'o) list) \<Rightarrow> bool" where
  "journal_checkpoints_ok J jobs jstack \<longleftrightarrow>
     (\<forall>j c j'. j_checkpoint J j = (c, j') \<longrightarrow> jobs j' = jobs j \<and> jstack j' = (c, jobs j) # jstack j) \<and>
     (\<forall>j. jobs (j_checkpoint_commit J j) = jobs j \<and> jstack (j_checkpoint_commit J j) = tl (jstack j)) \<and>
     (\<forall>j c x st. jstack j = (c, x) # st \<longrightarrow>
        jobs (j_checkpoint_revert J c j) = x \<and> jstack (j_checkpoint_revert J c j) = st) \<and>
     (\<forall>a. keeps jobs (j_load_account J a) \<and> keeps jstack (j_load_account J a)) \<and>
     (\<forall>a k. keeps jobs (j_sload J a k) \<and> keeps jstack (j_sload J a k)) \<and>
     (\<forall>a k v. keeps jstack (j_sstore J a k v)) \<and>
     (\<forall>a e j. jstack (j_log J a e j) = jstack j) \<and>
     (\<forall>a n. keeps jstack (j_incr_balance J a n) \<and> keeps jstack (j_decr_balance J a n))"

section \<open>The contract of a storage backend\<close>

locale storage_backend =
  fixes B :: "'s backend"
    and view :: "'s \<Rightarrow> evm_storage"
    and budget :: "'s \<Rightarrow> enat"
  assumes load_law: "1 \<le> budget s \<Longrightarrow> b_load B a k s = (v, s') \<Longrightarrow>
      v = view s a k \<and> view s' = view s \<and> budget s \<le> budget s' + 1"
    and store_law: "1 \<le> budget s \<Longrightarrow>
      view (b_store B a k v s) = (view s)(a := (view s a)(k := v)) \<and>
      budget s \<le> budget (b_store B a k v s) + 1"
begin

lemma sim_load [sim_intros]: "sim_at view budget 1 (mload B a k) (mload pure_backend a k)"
proof (rule sim_atI)
  fix s
  assume "enat 1 \<le> budget s"
  then have "1 \<le> budget s" by (simp add: one_enat_def)
  obtain v s' where l: "b_load B a k s = (v, s')" by (cases "b_load B a k s")
  from load_law [OF \<open>1 \<le> budget s\<close> l] l
  show "mload pure_backend a k (view s) = (fst (mload B a k s), view (snd (mload B a k s)))
      \<and> budget s \<le> budget (snd (mload B a k s)) + enat 1"
    by (simp add: mload_def pure_backend_def one_enat_def)
qed

lemma sim_store [sim_intros]: "sim_at view budget 1 (mstore B a k v) (mstore pure_backend a k v)"
proof (rule sim_atI)
  fix s
  assume "enat 1 \<le> budget s"
  then have "1 \<le> budget s" by (simp add: one_enat_def)
  from store_law [OF this]
  show "mstore pure_backend a k v (view s) =
      (fst (mstore B a k v s), view (snd (mstore B a k v s)))
      \<and> budget s \<le> budget (snd (mstore B a k v s)) + enat 1"
    by (simp add: mstore_def pure_backend_def one_enat_def)
qed

end

section \<open>The contract of checkpoints\<close>

locale checkpointed =
  fixes P :: "'s provider"
    and obs :: "'s \<Rightarrow> 'o"
    and stack :: "'s \<Rightarrow> (journal_checkpoint \<times> 'o) list"
  assumes checkpoint_law: "p_checkpoint P s = (c, s') \<Longrightarrow> obs s' = obs s \<and> stack s' = (c, obs s) # stack s"
    and commit_law: "obs (p_checkpoint_commit P c s) = obs s \<and>
      stack (p_checkpoint_commit P c s) = tl (stack s)"
    and revert_law: "stack s = (c, x) # st \<Longrightarrow>
      obs (p_checkpoint_revert P c s) = x \<and> stack (p_checkpoint_revert P c s) = st"
    and reset_law: "obs (p_reset_gas_counters P s) = obs s \<and>
      stack (p_reset_gas_counters P s) = stack s"
    and charge_law: "p_charge_gas P g s = (r, s') \<Longrightarrow> obs s' = obs s \<and> stack s' = stack s"
    and sload_obs: "keeps obs (p_sload P a k)"
    and sload_keeps [keep_intros]: "keeps stack (p_sload P a k)"
    and sstore_keeps [keep_intros]: "keeps stack (p_sstore P a k v)"
    and emit_keeps [keep_intros]: "keeps stack (p_emit_event P a e)"
    and balance_add_keeps [keep_intros]: "keeps stack (p_balance_add P a n)"
    and balance_sub_keeps [keep_intros]: "keeps stack (p_balance_sub P a n)"
    and balance_get_keeps [keep_intros]: "keeps stack (p_balance_get P a)"
    and code_get_keeps [keep_intros]: "keeps stack (p_code_get P a)"
    and raw_sstore_keeps [keep_intros]: "keeps stack (p_raw_sstore P a k v)"
begin

lemma charge_keeps [keep_intros]: "keeps stack (p_charge_gas P g)"
  by (rule keepsI) (metis charge_law prod.collapse)

lemma ref_load_keeps [keep_intros]: "keeps stack (mload (storage_ref P) a k)"
proof (rule keepsI)
  fix s
  obtain r s' where "p_sload P a k s = (r, s')" by (cases "p_sload P a k s")
  with keepsD [OF sload_keeps this] show "stack (snd (mload (storage_ref P) a k s)) = stack s"
    by (cases r) (simp_all add: mload_def storage_ref_def)
qed

lemma ref_load_obs: "keeps obs (mload (storage_ref P) a k)"
proof (rule keepsI)
  fix s
  obtain r s' where "p_sload P a k s = (r, s')" by (cases "p_sload P a k s")
  with keepsD [OF sload_obs this] show "obs (snd (mload (storage_ref P) a k s)) = obs s"
    by (cases r) (simp_all add: mload_def storage_ref_def)
qed

lemma charge_obs: "keeps obs (p_charge_gas P g)"
  by (rule keepsI) (metis charge_law prod.collapse)

lemma ref_store_keeps [keep_intros]: "keeps stack (mstore (storage_ref P) a k v)"
  using sstore_keeps [of a k v] by (simp add: keeps_def mstore_def storage_ref_def)

end

section \<open>The providers meet the contracts\<close>

lemma pure_load_run [simp]: "mload pure_backend a k m = (Inr (m a k), m)"
  by (simp add: mload_def pure_backend_def)

lemma pure_store_run [simp]: "mstore pure_backend a k v m = (Inr (), sput a k v m)"
  by (simp add: mstore_def pure_backend_def sput_def)

lemma sput_apply: "sput a k v m b l = (if b = a \<and> l = k then v else m b l)"
  by (simp add: sput_def)

lemma sput_other [simp]: "b \<noteq> a \<Longrightarrow> sput a k v m b = m b"
  by (simp add: sput_def)

interpretation pb: storage_backend pure_backend "\<lambda>m. m" "\<lambda>_. \<infinity>"
  by unfold_locales (auto simp: pure_backend_def)

interpretation hb: storage_backend hashmap_backend hm_view "\<lambda>_. \<infinity>"
  by unfold_locales (auto simp: hashmap_backend_def hm_view_def hm_set_def fun_eq_iff)

lemma div_budget_step:
  fixes g x M :: nat
  assumes "M \<le> g" "x \<le> M" "0 < M"
  shows "g div M \<le> (g - x) div M + 1"
proof -
  have "g - M \<le> g - x" using assms by simp
  then have "(g - M) div M \<le> (g - x) div M" by (rule div_le_mono)
  moreover have "g div M = (g - M) div M + 1"
    using assms by (simp add: le_div_geq)
  ultimately show ?thesis by simp
qed

lemma access_cost_pos: "0 < access_cost G"
  by (simp add: access_cost_def SSTORE_SET_GAS_def)

lemma access_cost_bounds:
  "unat (WARM_STORAGE_READ_COST G) \<le> access_cost G"
  "unat (COLD_SLOAD_COST G) \<le> access_cost G"
  "unat (SSTORE_SET_GAS + (if w then 0 else COLD_SLOAD_COST G)) \<le> access_cost G"
  "unat (SSTORE_SET_GAS + (if w then COLD_SLOAD_COST G else 0)) \<le> access_cost G"
  by (simp_all add: access_cost_def unat_word_ariths(1) trans_le_add1 mod_le_divisor order_trans [OF mod_less_eq_dividend])

lemma hm_budget_spend:
  assumes "1 \<le> hm_budget G s" "unat x \<le> access_cost G"
  shows "checked_sub (hm_gas_remaining s) x = Some (hm_gas_remaining s - x)"
    and "hm_budget G s \<le> hm_budget G (s\<lparr>hm_gas_remaining := hm_gas_remaining s - x\<rparr>) + 1"
    and "\<not> hm_is_static s"
proof -
  show st: "\<not> hm_is_static s"
    using assms(1) by (auto simp: hm_budget_def)
  with assms(1) have "1 \<le> unat (hm_gas_remaining s) div access_cost G"
    by (simp add: hm_budget_def one_enat_def)
  then have M: "access_cost G \<le> unat (hm_gas_remaining s)"
    using access_cost_pos [of G] by (metis div_less linorder_not_le not_one_le_zero)
  with assms(2) have le: "x \<le> hm_gas_remaining s"
    by (simp add: word_le_nat_alt)
  then show "checked_sub (hm_gas_remaining s) x = Some (hm_gas_remaining s - x)"
    by simp
  show "hm_budget G s \<le> hm_budget G (s\<lparr>hm_gas_remaining := hm_gas_remaining s - x\<rparr>) + 1"
    using st div_budget_step [OF M assms(2) access_cost_pos] le
    by (simp add: hm_budget_def one_enat_def unat_sub)
qed


lemma hm_deduct_gas_run:
  "hm_deduct_gas x s = (case checked_sub (hm_gas_remaining s) x of
       None \<Rightarrow> (Inl OutOfGas, s) | Some g \<Rightarrow> (Inr (), s\<lparr>hm_gas_remaining := g\<rparr>))"
  by (simp add: hm_deduct_gas_def)

lemma hm_warm_slot_frame [simp]:
  "hm_persistent (hm_warm_slot a k s) = hm_persistent s"
  "hm_is_static (hm_warm_slot a k s) = hm_is_static s"
  "hm_gas_remaining (hm_warm_slot a k s) = hm_gas_remaining s"
  "hm_checkpoints (hm_warm_slot a k s) = hm_checkpoints s"
  by (simp_all add: hm_warm_slot_def)

lemma hm_is_warm_frame [simp]:
  "hm_is_warm (s\<lparr>hm_sload_count := n\<rparr>) = hm_is_warm s"
  "hm_is_warm (s\<lparr>hm_sstore_count := n\<rparr>) = hm_is_warm s"
  "hm_is_warm (s\<lparr>hm_gas_remaining := g\<rparr>) = hm_is_warm s"
  by (simp_all add: hm_is_warm_def fun_eq_iff)

lemma hm_view_cong: "hm_persistent s = hm_persistent t \<Longrightarrow> hm_view s = hm_view t"
  by (simp add: hm_view_def)

lemma hm_budget_cong:
  "hm_gas_remaining s = hm_gas_remaining t \<Longrightarrow> hm_is_static s = hm_is_static t \<Longrightarrow>
     hm_budget G s = hm_budget G t"
  by (simp add: hm_budget_def)

lemma hm_budget_frame [simp]:
  "hm_budget G (s\<lparr>hm_sload_count := n\<rparr>) = hm_budget G s"
  "hm_budget G (s\<lparr>hm_sstore_count := n\<rparr>) = hm_budget G s"
  "hm_budget G (s\<lparr>hm_sload_count := n, hm_gas_remaining := g\<rparr>) = hm_budget G (s\<lparr>hm_gas_remaining := g\<rparr>)"
  "hm_budget G (s\<lparr>hm_sstore_count := n, hm_gas_remaining := g\<rparr>) = hm_budget G (s\<lparr>hm_gas_remaining := g\<rparr>)"
  "hm_budget G (hm_warm_slot a k s) = hm_budget G s"
  "hm_budget G (hm_set a k v s) = hm_budget G s"
  "hm_budget G (hm_refund_gas i s) = hm_budget G s"
  by (simp_all add: hm_budget_def hm_set_def hm_refund_gas_def)

lemma hm_sload_law:
  assumes "1 \<le> hm_budget G s"
  shows "\<exists>s'. hm_sload G a k s = (Inr (hm_view s a k), s') \<and> hm_view s' = hm_view s \<and>
    hm_budget G s \<le> hm_budget G s' + 1"
proof -
  let ?x = "if hm_is_warm s a k then WARM_STORAGE_READ_COST G else COLD_SLOAD_COST G"
  let ?s = "s\<lparr>hm_sload_count := hm_sload_count s + 1\<rparr>"
  have x: "unat ?x \<le> access_cost G" by (simp add: access_cost_bounds)
  have b: "1 \<le> hm_budget G ?s" using assms by simp
  note spend = hm_budget_spend [OF b x]
  let ?t = "hm_warm_slot a k (?s\<lparr>hm_gas_remaining := hm_gas_remaining s - ?x\<rparr>)"
  have "hm_sload G a k s = (Inr (hm_view s a k), ?t)"
    using spend(1) by (cases "hm_is_warm s a k")
      (simp_all add: hm_sload_def sbind_run hm_deduct_gas_run hm_view_def del: checked_sub_Some)
  moreover have "hm_view ?t = hm_view s" by (simp add: hm_view_def)
  moreover have "hm_budget G s \<le> hm_budget G ?t + 1"
    using spend(2) by simp
  ultimately show ?thesis by blast
qed

lemma hm_sstore_law:
  assumes "1 \<le> hm_budget G s"
  shows "\<exists>s'. hm_sstore G a k v s = (Inr (), s') \<and>
    hm_view s' = (hm_view s)(a := (hm_view s a)(k := v)) \<and> hm_budget G s \<le> hm_budget G s' + 1"
proof -
  let ?x = "SSTORE_SET_GAS + (if hm_is_warm s a k then 0 else COLD_SLOAD_COST G)"
  let ?s = "s\<lparr>hm_sstore_count := hm_sstore_count s + 1\<rparr>"
  have x: "unat ?x \<le> access_cost G" by (rule access_cost_bounds)
  have b: "1 \<le> hm_budget G ?s" using assms by simp
  note spend = hm_budget_spend [OF b x]
  let ?t = "?s\<lparr>hm_gas_remaining := hm_gas_remaining s - ?x\<rparr>"
  let ?r = "if unwrap_or 0 (hm_accessed_slots s (a, k)) = v \<and> unwrap_or 0 (hm_persistent s (a, k)) \<noteq> v
      \<or> unwrap_or 0 (hm_persistent s (a, k)) \<noteq> 0 \<and> v = 0 then hm_refund_gas 4800 ?t else ?t"
  have "hm_sstore G a k v s = (Inr (), hm_set a k v (hm_warm_slot a k ?r))"
    using spend(1,3)
    by (cases "hm_is_warm s a k")
      (simp_all add: hm_sstore_def sbind_run hm_deduct_gas_run del: checked_sub_Some)
  moreover have "hm_view (hm_set a k v (hm_warm_slot a k ?r)) = (hm_view s)(a := (hm_view s a)(k := v))"
    by (auto simp: hm_view_def hm_set_def hm_refund_gas_def fun_eq_iff)
  moreover have "hm_budget G s \<le> hm_budget G (hm_set a k v (hm_warm_slot a k ?r)) + 1"
    using spend(2) by simp
  ultimately show ?thesis by blast
qed

interpretation sr: storage_backend "storage_ref (hashmap_provider G)" hm_view "hm_budget G" for G
proof
  fix s a k v s'
  assume "1 \<le> hm_budget G s" "b_load (storage_ref (hashmap_provider G)) a k s = (v, s')"
  with hm_sload_law [OF this(1), of a k]
  show "v = hm_view s a k \<and> hm_view s' = hm_view s \<and> hm_budget G s \<le> hm_budget G s' + 1"
    by (auto simp: storage_ref_def hashmap_provider_def)
next
  fix s a k v
  assume "1 \<le> hm_budget G s"
  from hm_sstore_law [OF this, of a k v]
  show "hm_view (b_store (storage_ref (hashmap_provider G)) a k v s) = (hm_view s)(a := (hm_view s a)(k := v))
      \<and> hm_budget G s \<le> hm_budget G (b_store (storage_ref (hashmap_provider G)) a k v s) + 1"
    by (auto simp: storage_ref_def hashmap_provider_def)
qed

lemma keeps_hm_deduct:
  "(\<And>s g. obs (s\<lparr>hm_gas_remaining := g\<rparr>) = obs s) \<Longrightarrow> keeps obs (hm_deduct_gas x)"
  by (auto simp: keeps_def hm_deduct_gas_run split: option.splits)

lemma hm_stack_frame [simp]:
  "hm_stack (s\<lparr>hm_gas_remaining := g\<rparr>) = hm_stack s"
  "hm_stack (s\<lparr>hm_sload_count := n\<rparr>) = hm_stack s"
  "hm_stack (s\<lparr>hm_sstore_count := n\<rparr>) = hm_stack s"
  "hm_stack (s\<lparr>hm_events := ev\<rparr>) = hm_stack s"
  "hm_stack (s\<lparr>hm_balances := bl\<rparr>) = hm_stack s"
  "hm_stack (hm_warm_slot a k s) = hm_stack s"
  "hm_stack (hm_refund_gas i s) = hm_stack s"
  "hm_stack (hm_set a k v s) = hm_stack s"
  by (simp_all add: hm_stack_def hm_refund_gas_def hm_set_def)

lemma hm_ops_keep_stack:
  "keeps hm_stack (hm_deduct_gas x)"
  "keeps hm_stack (hm_sload G a k)"
  "keeps hm_stack (hm_sstore G a k v)"
  "keeps hm_stack (hm_emit_event G a e)"
  "keeps hm_stack (hm_balance_add G a n)"
  "keeps hm_stack (hm_balance_sub G a n)"
  "keeps hm_stack (hm_balance_get G a)"
  "keeps hm_stack (hm_code_get G a)"
  by (unfold hm_sload_def hm_sstore_def hm_emit_event_def hm_balance_add_def hm_balance_sub_def
        hm_balance_get_def hm_code_get_def)
     (intro keep_intros keeps_modify keeps_hm_deduct; simp)+

lemma hm_ledger_frame [simp]:
  "hm_ledger (s\<lparr>hm_gas_remaining := g\<rparr>) = hm_ledger s"
  "hm_ledger (s\<lparr>hm_sload_count := n\<rparr>) = hm_ledger s"
  "hm_ledger (hm_warm_slot a k s) = hm_ledger s"
  by (simp_all add: hm_ledger_def hm_warm_slot_def)

lemma hm_sload_keeps_ledger: "keeps hm_ledger (hm_sload G a k)"
  unfolding hm_sload_def by (intro keep_intros keeps_modify keeps_hm_deduct; simp)

interpretation cp: checkpointed "hashmap_provider G" hm_ledger hm_stack for G
proof
  fix s c s'
  assume "p_checkpoint (hashmap_provider G) s = (c, s')"
  then show "hm_ledger s' = hm_ledger s \<and> hm_stack s' = (c, hm_ledger s) # hm_stack s"
    by (auto simp: hashmap_provider_def hm_checkpoint_def hm_ledger_def hm_stack_def sn_ledger_def
        hm_snap_def)
next
  fix c s
  show "hm_ledger (p_checkpoint_commit (hashmap_provider G) c s) = hm_ledger s \<and>
      hm_stack (p_checkpoint_commit (hashmap_provider G) c s) = tl (hm_stack s)"
    by (simp add: hashmap_provider_def hm_checkpoint_commit_def hm_ledger_def hm_stack_def map_tl)
next
  fix s c x st
  assume "hm_stack s = (c, x) # st"
  then show "hm_ledger (p_checkpoint_revert (hashmap_provider G) c s) = x \<and>
      hm_stack (p_checkpoint_revert (hashmap_provider G) c s) = st"
    by (auto simp: hashmap_provider_def hm_checkpoint_revert_def hm_ledger_def hm_stack_def
        sn_ledger_def split: list.splits)
next
  fix s
  show "hm_ledger (p_reset_gas_counters (hashmap_provider G) s) = hm_ledger s \<and>
      hm_stack (p_reset_gas_counters (hashmap_provider G) s) = hm_stack s"
    by (simp add: hashmap_provider_def hm_ledger_def hm_stack_def)
next
  fix g s r s'
  assume "p_charge_gas (hashmap_provider G) g s = (r, s')"
  then show "hm_ledger s' = hm_ledger s \<and> hm_stack s' = hm_stack s"
    by (auto simp: hashmap_provider_def hm_deduct_gas_run hm_ledger_def hm_stack_def
        split: option.splits)
qed (simp_all add: hashmap_provider_def hm_ops_keep_stack hm_sload_keeps_ledger keeps_modify)

text \<open>The production provider meets the backend contract on every journal that behaves.\<close>

lemma ev_call_run:
  "ev_call what m s = (case m (ev_journal s) of
       (Inl e, j) \<Rightarrow> (Inl (Other (what @ '' error: '' @ e)), s\<lparr>ev_journal := j\<rparr>)
     | (Inr x, j) \<Rightarrow> (Inr x, s\<lparr>ev_journal := j\<rparr>))"
  by (simp add: ev_call_def)

lemma ev_budget_spend:
  assumes "1 \<le> ev_budget G s" "unat x \<le> access_cost G"
  shows "ev_deduct_gas x s = (Inr (), s\<lparr>ev_gas_remaining := ev_gas_remaining s - x\<rparr>)"
    and "ev_budget G s \<le> ev_budget G (s\<lparr>ev_gas_remaining := ev_gas_remaining s - x\<rparr>) + 1"
    and "\<not> ev_is_static s"
proof -
  show st: "\<not> ev_is_static s"
    using assms(1) by (auto simp: ev_budget_def)
  with assms(1) have "1 \<le> unat (ev_gas_remaining s) div access_cost G"
    by (simp add: ev_budget_def one_enat_def)
  then have M: "access_cost G \<le> unat (ev_gas_remaining s)"
    by (metis div_less linorder_not_le not_one_le_zero)
  with assms(2) have le: "x \<le> ev_gas_remaining s"
    by (simp add: word_le_nat_alt)
  then show "ev_deduct_gas x s = (Inr (), s\<lparr>ev_gas_remaining := ev_gas_remaining s - x\<rparr>)"
    by (simp add: ev_deduct_gas_def checked_sub_def)
  show "ev_budget G s \<le> ev_budget G (s\<lparr>ev_gas_remaining := ev_gas_remaining s - x\<rparr>) + 1"
    using st div_budget_step [OF M assms(2) access_cost_pos] le
    by (simp add: ev_budget_def one_enat_def unat_sub)
qed

lemma ev_sload_law:
  assumes J: "journal_ok J jview" and b: "1 \<le> ev_budget G s"
  shows "\<exists>s'. ev_sload G J a k s = (Inr (jview (ev_journal s) a k), s') \<and>
    jview (ev_journal s') = jview (ev_journal s) \<and> ev_budget G s \<le> ev_budget G s' + 1"
proof -
  let ?s = "s\<lparr>ev_sload_count := ev_sload_count s + 1\<rparr>"
  obtain x j where 1: "j_load_account J a (ev_journal s) = (Inr x, j)"
    and v1: "jview j = jview (ev_journal s)"
    using J unfolding journal_ok_def by blast
  obtain c j' where 2: "j_sload J a k j = (Inr (jview j a k, c), j')" and v2: "jview j' = jview j"
    using J unfolding journal_ok_def by blast
  let ?x = "if c then COLD_SLOAD_COST G else WARM_STORAGE_READ_COST G"
  let ?t = "?s\<lparr>ev_journal := j'\<rparr>"
  have "1 \<le> ev_budget G ?t" using b by (simp add: ev_budget_def split: if_splits)
  moreover have "unat ?x \<le> access_cost G" by (simp add: access_cost_bounds)
  ultimately have sp: "ev_deduct_gas ?x ?t = (Inr (), ?t\<lparr>ev_gas_remaining := ev_gas_remaining ?t - ?x\<rparr>)"
      "ev_budget G ?t \<le> ev_budget G (?t\<lparr>ev_gas_remaining := ev_gas_remaining ?t - ?x\<rparr>) + 1"
    by (rule ev_budget_spend)+
  have "ev_sload G J a k s =
      (Inr (jview (ev_journal s) a k), ?t\<lparr>ev_gas_remaining := ev_gas_remaining ?t - ?x\<rparr>)"
    using 1 2 v1 sp(1) by (simp add: ev_sload_def sbind_run ev_call_run)
  with v1 v2 sp(2) show ?thesis
    by (auto simp: ev_budget_def)
qed

lemma ev_sstore_law:
  assumes J: "journal_ok J jview" and b: "1 \<le> ev_budget G s"
  shows "\<exists>s'. ev_sstore G J a k v s = (Inr (), s') \<and>
    jview (ev_journal s') = (jview (ev_journal s))(a := (jview (ev_journal s) a)(k := v)) \<and>
    ev_budget G s \<le> ev_budget G s' + 1"
proof -
  let ?s = "s\<lparr>ev_sstore_count := ev_sstore_count s + 1\<rparr>"
  obtain x j where 1: "j_load_account J a (ev_journal s) = (Inr x, j)"
    and v1: "jview j = jview (ev_journal s)"
    using J unfolding journal_ok_def by blast
  obtain y j' where 2: "j_sstore J a k v j = (Inr y, j')"
    and v2: "jview j' = (jview j)(a := (jview j a)(k := v))"
    using J unfolding journal_ok_def by blast
  obtain orig pres c where y: "y = ((orig, pres), c)" by (metis prod.collapse)
  let ?x = "SSTORE_SET_GAS + (if c then COLD_SLOAD_COST G else 0)"
  let ?t = "?s\<lparr>ev_journal := j'\<rparr>"
  have "1 \<le> ev_budget G ?t" using b by (simp add: ev_budget_def split: if_splits)
  moreover have "unat ?x \<le> access_cost G" by (rule access_cost_bounds)
  ultimately have sp: "ev_deduct_gas ?x ?t = (Inr (), ?t\<lparr>ev_gas_remaining := ev_gas_remaining ?t - ?x\<rparr>)"
      "ev_budget G ?t \<le> ev_budget G (?t\<lparr>ev_gas_remaining := ev_gas_remaining ?t - ?x\<rparr>) + 1"
      "\<not> ev_is_static ?t"
    by (rule ev_budget_spend)+
  let ?u = "?t\<lparr>ev_gas_remaining := ev_gas_remaining ?t - ?x\<rparr>"
  have "\<exists>i. ev_sstore G J a k v s = (Inr (), ?u\<lparr>ev_gas_refunded := i\<rparr>)"
  proof (cases "orig = v \<and> pres \<noteq> v \<or> pres \<noteq> 0 \<and> v = 0")
    case True
    then show ?thesis
      using 1 2 y sp(1,3) by (auto simp: ev_sstore_def sbind_run ev_call_run ev_refund_gas_def)
  next
    case False
    then have "ev_sstore G J a k v s = (Inr (), ?u)"
      using 1 2 y sp(1,3) by (auto simp: ev_sstore_def sbind_run ev_call_run)
    moreover have "?u = ?u\<lparr>ev_gas_refunded := ev_gas_refunded s\<rparr>" by simp
    ultimately show ?thesis by metis
  qed
  with v1 v2 sp(2) show ?thesis
    by (auto simp: ev_budget_def)
qed

lemma evm_storage_backend:
  fixes J :: "'j journal_tr"
  assumes "journal_ok J jview"
  shows "storage_backend (storage_ref (evm_provider G J)) (\<lambda>s. jview (ev_journal s)) (ev_budget G)"
proof
  fix s a k v s'
  assume "1 \<le> ev_budget G s" "b_load (storage_ref (evm_provider G J)) a k s = (v, s')"
  with ev_sload_law [OF assms this(1), of a k]
  show "v = jview (ev_journal s) a k \<and> jview (ev_journal s') = jview (ev_journal s) \<and>
      ev_budget G s \<le> ev_budget G s' + 1"
    by (auto simp: storage_ref_def evm_provider_def)
next
  fix s :: "'j evm" and a k v
  assume "1 \<le> ev_budget G s"
  from ev_sstore_law [OF assms this, of a k v]
  show "jview (ev_journal (b_store (storage_ref (evm_provider G J)) a k v s)) =
        (jview (ev_journal s))(a := (jview (ev_journal s) a)(k := v))
      \<and> ev_budget G s \<le> ev_budget G (b_store (storage_ref (evm_provider G J)) a k v s) + 1"
    by (auto simp: storage_ref_def evm_provider_def)
qed

lemma keeps_ev_call [keep_intros]: "keeps jobs m \<Longrightarrow> keeps (\<lambda>s. jobs (ev_journal s)) (ev_call what m)"
  by (auto simp: keeps_def ev_call_run split: prod.splits sum.splits) (metis snd_conv)+

lemma keeps_ev_deduct [keep_intros]: "keeps (\<lambda>s. jobs (ev_journal s)) (ev_deduct_gas x)"
  by (simp add: keeps_def ev_deduct_gas_def split: option.splits)

lemma keeps_split [keep_intros]: "(\<And>x y. keeps obs (f x y)) \<Longrightarrow> keeps obs (case p of (x, y) \<Rightarrow> f x y)"
  by (simp split: prod.splits)

lemma keeps_split_app [keep_intros]:
  "(\<And>x y. keeps obs (f x y z)) \<Longrightarrow> keeps obs ((case p of (x, y) \<Rightarrow> f x y) z)"
  by (simp split: prod.splits)

lemma evm_checkpointed:
  fixes J :: "'j journal_tr"
  assumes "journal_checkpoints_ok J jobs jstack"
  shows "checkpointed (evm_provider G J) (\<lambda>s. jobs (ev_journal s)) (\<lambda>s. jstack (ev_journal s))"
proof -
  note J = assms [unfolded journal_checkpoints_ok_def]
  have k: "keeps jobs (j_load_account J a)" "keeps jstack (j_load_account J a)" "keeps jobs (j_sload J a k)"
      "keeps jstack (j_sload J a k)" "keeps jstack (j_sstore J a k v)"
      "keeps jstack (j_incr_balance J a n)" "keeps jstack (j_decr_balance J a n)" for a k v n
    using J by auto
  have l: "jstack (j_log J a e j) = jstack j" for a e j using J by auto
  have ops: "keeps (\<lambda>s. jobs (ev_journal s)) (ev_sload G J a k)" "keeps (\<lambda>s. jstack (ev_journal s)) (ev_sload G J a k)"
      "keeps (\<lambda>s. jstack (ev_journal s)) (ev_sstore G J a k v)" "keeps (\<lambda>s. jstack (ev_journal s)) (ev_emit_event G J a e)"
      "keeps (\<lambda>s. jstack (ev_journal s)) (ev_balance_add G J a n)" "keeps (\<lambda>s. jstack (ev_journal s)) (ev_balance_sub G J a n)"
      "keeps (\<lambda>s. jstack (ev_journal s)) (ev_balance_get G J a)" "keeps (\<lambda>s. jstack (ev_journal s)) (ev_code_get G J a)"
      "keeps (\<lambda>s. jstack (ev_journal s)) (ev_raw_sstore J a k v)" for a k v e n
    unfolding ev_sload_def ev_sstore_def ev_emit_event_def ev_balance_add_def ev_balance_sub_def
      ev_balance_get_def ev_code_get_def ev_raw_sstore_def
    by (intro keep_intros keeps_modify k; simp add: ev_refund_gas_def l)+
  have cpl: "jobs j' = jobs j \<and> jstack j' = (c, jobs j) # jstack j" if "j_checkpoint J j = (c, j')" for j c j'
    using J that by blast
  have rvl: "jobs (j_checkpoint_revert J c j) = x \<and> jstack (j_checkpoint_revert J c j) = st"
    if "jstack j = (c, x) # st" for j c x st
    using J that by blast
  show ?thesis
  proof
    fix s c s'
    assume "p_checkpoint (evm_provider G J) s = (c, s')"
    then show "jobs (ev_journal s') = jobs (ev_journal s) \<and>
        jstack (ev_journal s') = (c, jobs (ev_journal s)) # jstack (ev_journal s)"
      by (auto simp: evm_provider_def ev_checkpoint_def dest: cpl split: prod.splits)
  next
    fix g s r s'
    assume "p_charge_gas (evm_provider G J) g s = (r, s')"
    then show "jobs (ev_journal s') = jobs (ev_journal s) \<and> jstack (ev_journal s') = jstack (ev_journal s)"
      by (auto simp: evm_provider_def ev_deduct_gas_def split: option.splits)
  next
    fix s :: "'j evm" and c x st
    assume "jstack (ev_journal s) = (c, x) # st"
    from rvl [OF this] show "jobs (ev_journal (p_checkpoint_revert (evm_provider G J) c s)) = x \<and>
        jstack (ev_journal (p_checkpoint_revert (evm_provider G J) c s)) = st"
      by (simp add: evm_provider_def)
  qed (use J ops in \<open>auto simp: evm_provider_def\<close>)
qed

section \<open>Gas of the production provider\<close>

text \<open>No access gives gas back, so gas that is left at the end was there all along.\<close>

definition ev_gas_le :: "'j evm \<Rightarrow> 'j evm \<Rightarrow> bool" where
  "ev_gas_le s s' \<longleftrightarrow> unat (ev_gas_remaining s') \<le> unat (ev_gas_remaining s)"

lemma ev_gas_preorder: "reflp ev_gas_le" "transp ev_gas_le"
  by (auto simp: ev_gas_le_def intro: reflpI transpI)

lemma ev_gas_call [moves_intros]: "moves ev_gas_le (ev_call what m)"
  by (auto simp: moves_def ev_gas_le_def ev_call_run split: prod.splits sum.splits)

lemma ev_gas_deduct [moves_intros]: "moves ev_gas_le (ev_deduct_gas x)"
  by (auto simp: moves_def ev_gas_le_def ev_deduct_gas_def unat_sub word_le_nat_alt split: option.splits)

lemma ev_gas_modify:
  "(\<And>s. ev_gas_remaining (f s) = ev_gas_remaining s) \<Longrightarrow> moves ev_gas_le (smodify f)"
  by (simp add: moves_def ev_gas_le_def)

lemma moves_split_app [moves_intros]:
  "(\<And>x y. moves R (f x y z)) \<Longrightarrow> moves R ((case p of (x, y) \<Rightarrow> f x y) z)"
  by (simp split: prod.splits)

lemma ev_gas_access:
  "moves ev_gas_le (ev_sload G J a k)" "moves ev_gas_le (ev_sstore G J a k v)" "moves ev_gas_le (ev_emit_event G J a e)"
  unfolding ev_sload_def ev_sstore_def ev_emit_event_def
  by (intro moves_intros ev_gas_preorder ev_gas_modify; simp add: ev_refund_gas_def)+

lemma moves_storage_ref:
  assumes "\<And>a k. moves R (p_sload P a k)" "\<And>a k v. moves R (p_sstore P a k v)"
  shows "moves R (mload (storage_ref P) a k)" and "moves R (mstore (storage_ref P) a k v)"
proof -
  show "moves R (mload (storage_ref P) a k)"
  proof (rule movesI)
    fix s
    obtain r s' where "p_sload P a k s = (r, s')" by (cases "p_sload P a k s")
    with movesD [OF assms(1) this] show "R s (snd (mload (storage_ref P) a k s))"
      by (cases r) (simp_all add: mload_def storage_ref_def)
  qed
  show "moves R (mstore (storage_ref P) a k v)"
    using assms(2) by (simp add: moves_def mstore_def storage_ref_def)
qed

text \<open>A load that can pay the dearest access returns the stored word.\<close>

lemma ev_sload_paid:
  assumes J: "journal_ok J jview" and g: "COLD_SLOAD_COST G \<le> ev_gas_remaining s" "WARM_STORAGE_READ_COST G \<le> ev_gas_remaining s"
  shows "\<exists>s'. ev_sload G J a k s = (Inr (jview (ev_journal s) a k), s') \<and> jview (ev_journal s') = jview (ev_journal s)"
proof -
  let ?s = "s\<lparr>ev_sload_count := ev_sload_count s + 1\<rparr>"
  obtain x j where 1: "j_load_account J a (ev_journal s) = (Inr x, j)" "jview j = jview (ev_journal s)"
    using J unfolding journal_ok_def by blast
  obtain c j' where 2: "j_sload J a k j = (Inr (jview j a k, c), j')" "jview j' = jview j"
    using J unfolding journal_ok_def by blast
  from 1 2 g show ?thesis
    by (cases c) (simp_all add: ev_sload_def sbind_run ev_call_run ev_deduct_gas_def checked_sub_def)
qed

text \<open>
  A store that cannot pay still writes: the journal is updated before the gas is taken, and the
  wrapper drops the error.
\<close>

lemma ev_store_unpaid:
  assumes J: "journal_ok J jview" and g: "ev_gas_remaining s < SSTORE_SET_GAS" "COLD_SLOAD_COST G \<le> SSTORE_SET_GAS"
    and st: "\<not> ev_is_static s"
  shows "\<exists>s'. mstore (storage_ref (evm_provider G J)) a k v s = (Inr (), s') \<and>
    jview (ev_journal s') = sput a k v (jview (ev_journal s)) \<and> ev_gas_remaining s' = ev_gas_remaining s"
proof -
  obtain x j where 1: "j_load_account J a (ev_journal s) = (Inr x, j)" "jview j = jview (ev_journal s)"
    using J unfolding journal_ok_def by blast
  obtain y j' where 2: "j_sstore J a k v j = (Inr y, j')" "jview j' = (jview j)(a := (jview j a)(k := v))"
    using J unfolding journal_ok_def by blast
  obtain orig pres c where y: "y = ((orig, pres), c)" by (metis prod.collapse)
  have "checked_sub (ev_gas_remaining s) (SSTORE_SET_GAS + (if c then COLD_SLOAD_COST G else 0)) = None"
    using g by (auto simp: checked_sub_def SSTORE_SET_GAS_def word_le_nat_alt word_less_nat_alt unat_word_ariths)
  with 1 2 y st show ?thesis
    by (simp add: mstore_def storage_ref_def evm_provider_def ev_sstore_def sbind_run ev_call_run
        ev_deduct_gas_def sput_def)
qed

end
