(* ===== verification/Utf8.thy ===== *)
theory Utf8
  imports Prelude
begin

text \<open>
  The part of the Rust standard library's string type that the sources rely on. A \<^verbatim>\<open>String\<close> is its
  UTF-8 byte sequence. \<open>utf8_scan\<close> is one step of the standard library's chunk iterator: whether the
  input starts with a well-formed code point, and how many bytes that code point or the maximal
  ill-formed prefix takes. \<open>from_utf8\<close> and \<open>from_utf8_lossy\<close> are the two conversions, \<open>show_dec\<close> is
  the decimal rendering used in error texts.
\<close>

section \<open>Definitions\<close>

definition cont_byte :: "bytes \<Rightarrow> nat \<Rightarrow> u8 \<Rightarrow> u8 \<Rightarrow> bool" where
  "cont_byte bs i lo hi \<longleftrightarrow> i < length bs \<and> lo \<le> bs ! i \<and> bs ! i \<le> hi"

definition second_range :: "u8 \<Rightarrow> u8 \<times> u8" where
  "second_range b =
     (if b = 0xE0 then (0xA0, 0xBF) else if b = 0xED then (0x80, 0x9F)
      else if b = 0xF0 then (0x90, 0xBF) else if b = 0xF4 then (0x80, 0x8F) else (0x80, 0xBF))"

definition utf8_char_width :: "u8 \<Rightarrow> nat" where
  "utf8_char_width b =
     (if b < 0x80 then 1 else if 0xC2 \<le> b \<and> b \<le> 0xDF then 2
      else if 0xE0 \<le> b \<and> b \<le> 0xEF then 3 else if 0xF0 \<le> b \<and> b \<le> 0xF4 then 4 else 0)"

definition utf8_scan :: "bytes \<Rightarrow> bool \<times> nat" where
  "utf8_scan bs = (let b = hd bs; w = utf8_char_width b; (lo, hi) = second_range b in
     if w = 0 then (False, 1)
     else if w = 1 then (True, 1)
     else if \<not> cont_byte bs 1 lo hi then (False, 1)
     else if w = 2 then (True, 2)
     else if \<not> cont_byte bs 2 0x80 0xBF then (False, 2)
     else if w = 3 then (True, 3)
     else if \<not> cont_byte bs 3 0x80 0xBF then (False, 3)
     else (True, 4))"

text \<open>A step always consumes something, so walking the chunks ends.\<close>

lemma utf8_scan_pos: "utf8_scan bs = (ok, n) \<Longrightarrow> 0 < n"
  by (auto simp: utf8_scan_def Let_def split: prod.splits if_splits)

function utf8_valid :: "bytes \<Rightarrow> bool" where
  "utf8_valid [] = True"
| "utf8_valid (b # bs) = (case utf8_scan (b # bs) of (ok, n) \<Rightarrow> ok \<and> utf8_valid (drop n (b # bs)))"
  by pat_completeness auto
termination
  by (relation "measure length") (auto dest!: utf8_scan_pos [OF sym])

definition from_utf8 :: "bytes \<Rightarrow> bytes option" where
  "from_utf8 bs = (if utf8_valid bs then Some bs else None)"

function from_utf8_lossy :: "bytes \<Rightarrow> bytes" where
  "from_utf8_lossy [] = []"
| "from_utf8_lossy (b # bs) = (case utf8_scan (b # bs) of (ok, n) \<Rightarrow>
     (if ok then take n (b # bs) else [0xEF, 0xBF, 0xBD]) @ from_utf8_lossy (drop n (b # bs)))"
  by pat_completeness auto
termination
  by (relation "measure length") (auto dest!: utf8_scan_pos [OF sym])

text \<open>Decimal digits of a number, most significant first.\<close>

fun show_dec :: "nat \<Rightarrow> string" where
  "show_dec n = (if n < 10 then [char_of (48 + n)] else show_dec (n div 10) @ [char_of (48 + n mod 10)])"

definition ascii :: "bytes \<Rightarrow> bool" where
  "ascii bs \<longleftrightarrow> (\<forall>b \<in> set bs. b < 0x80)"

section \<open>Lemmas\<close>

declare show_dec.simps [simp del]
declare utf8_valid.simps(2) [simp del]
declare from_utf8_lossy.simps(2) [simp del]

lemma utf8_scan_ascii: "b < 0x80 \<Longrightarrow> utf8_scan (b # bs) = (True, 1)"
  by (simp add: utf8_scan_def utf8_char_width_def Let_def split: prod.splits)

lemma utf8_valid_ascii_Cons: "b < 0x80 \<Longrightarrow> utf8_valid (b # bs) = utf8_valid bs"
  by (simp add: utf8_valid.simps utf8_scan_ascii)

lemma utf8_valid_ascii: "ascii bs \<Longrightarrow> utf8_valid bs"
  by (induction bs) (simp_all add: ascii_def utf8_valid_ascii_Cons)

lemma from_utf8_lossy_valid: "utf8_valid bs \<Longrightarrow> from_utf8_lossy bs = bs"
proof (induction bs rule: from_utf8_lossy.induct)
  case 1
  then show ?case by simp
next
  case (2 b bs)
  obtain ok n where sc: "utf8_scan (b # bs) = (ok, n)" by (cases "utf8_scan (b # bs)")
  with 2(2) have "ok" "utf8_valid (drop n (b # bs))"
    by (simp_all add: utf8_valid.simps(2))
  with 2(1) [OF sc [symmetric]] sc show ?case
    by (simp add: from_utf8_lossy.simps(2))
qed

lemma utf8_scan_append:
  assumes "bs \<noteq> []" "utf8_scan bs = (True, n)"
  shows "n \<le> length bs" and "utf8_scan (bs @ cs) = (True, n)"
proof -
  show le: "n \<le> length bs"
    using assms by (cases bs) (auto simp: utf8_scan_def Let_def cont_byte_def Suc_le_eq split: prod.splits if_splits)
  have "hd (bs @ cs) = hd bs" using assms(1) by simp
  moreover have "cont_byte bs i lo hi \<Longrightarrow> cont_byte (bs @ cs) i lo hi" for i lo hi
    by (simp add: cont_byte_def nth_append)
  ultimately show "utf8_scan (bs @ cs) = (True, n)"
    using assms(2) by (auto simp: utf8_scan_def Let_def split: prod.splits if_splits)
qed

lemma utf8_scan_take:
  assumes "bs \<noteq> []" "utf8_scan bs = (True, n)"
  shows "utf8_scan (take n bs) = (True, n)"
proof -
  have "0 < n" using assms(2) by (rule utf8_scan_pos)
  then have "hd (take n bs) = hd bs" using assms(1) by (cases bs; cases n) simp_all
  moreover have "i < n \<Longrightarrow> cont_byte bs i lo hi \<Longrightarrow> cont_byte (take n bs) i lo hi" for i lo hi
    by (simp add: cont_byte_def)
  ultimately show ?thesis
    using assms(2) by (auto simp: utf8_scan_def Let_def split: prod.splits if_splits)
qed

lemma utf8_valid_chunk:
  assumes "c \<noteq> []" "utf8_scan c = (True, length c)"
  shows "utf8_valid (c @ bs) = utf8_valid bs"
proof -
  obtain x xs where "c @ bs = x # xs" using assms(1) by (cases c) simp_all
  with utf8_scan_append(2) [OF assms, of bs] show ?thesis
    by (metis append_eq_conv_conj case_prod_conv utf8_valid.simps(2))
qed

lemma utf8_valid_lossy: "utf8_valid (from_utf8_lossy bs)"
proof (induction bs rule: from_utf8_lossy.induct)
  case 1
  then show ?case by simp
next
  case (2 b bs)
  obtain ok n where sc: "utf8_scan (b # bs) = (ok, n)" by (cases "utf8_scan (b # bs)")
  note IH = 2 [OF sc [symmetric]]
  show ?case
  proof (cases ok)
    case True
    let ?c = "take n (b # bs)"
    have "length ?c = n" "?c \<noteq> []"
      using utf8_scan_append(1) [of "b # bs" n] utf8_scan_pos [OF sc] sc True by simp_all
    moreover have "utf8_scan ?c = (True, n)"
      using utf8_scan_take [of "b # bs" n] sc True by simp
    ultimately show ?thesis
      using IH sc True utf8_valid_chunk [of ?c "from_utf8_lossy (drop n (b # bs))"]
      by (simp add: from_utf8_lossy.simps(2))
  next
    case False
    have "utf8_valid ([0xEF, 0xBF, 0xBD] @ from_utf8_lossy (drop n (b # bs)))"
      by (subst utf8_valid_chunk)
         (simp_all add: IH utf8_scan_def utf8_char_width_def second_range_def cont_byte_def)
    with sc False show ?thesis
      by (simp add: from_utf8_lossy.simps(2))
  qed
qed

end
