(* ===== verification/Utils.thy ===== *)
theory Utils
  imports Storage_Laws Utf8
begin

text \<open>
  \<^verbatim>\<open>crates/precompile/src/utils.rs\<close>: the ABI word codecs, the conversions between storage words
  and narrower integers, the storage slot layout, and the balance, compliance and validator helpers
  that precompiles share. A slice access outside its bounds unwinds, so the ABI readers return an
  \<open>outcome\<close>; \<^verbatim>\<open>usize\<close> is 64 bits wide and its arithmetic wraps, as in the release profile. The
  lemmas show that the byte-level conversions are plain width changes, that every codec round-trips,
  that the scalar readers never unwind, and that the slot keys of different tables differ.
\<close>

section \<open>Addresses of the precompiles\<close>

definition ASSET_ADDRESS :: address where "ASSET_ADDRESS = 0x201"

definition ORACLE_ADDRESS :: address where "ORACLE_ADDRESS = 0x101"

definition BRIDGE_ADDRESS :: address where "BRIDGE_ADDRESS = 0x103"

definition SHIELDED_ADDRESS :: address where "SHIELDED_ADDRESS = 0x202"

definition GOVERNANCE_ADDRESS :: address where "GOVERNANCE_ADDRESS = 0x203"

definition VALIDATOR_ADDRESS :: address where "VALIDATOR_ADDRESS = 0x204"

definition COMPLIANCE_ADDRESS :: address where "COMPLIANCE_ADDRESS = 0x205"

definition SWITCH_ADDRESS :: address where "SWITCH_ADDRESS = 0x207"

definition AGENT_ADDRESS :: address where "AGENT_ADDRESS = 0x209"

definition WRAPPED_TOKEN_FACTORY_ADDRESS :: address where "WRAPPED_TOKEN_FACTORY_ADDRESS = 0x20a"

section \<open>ABI decoding\<close>

type_synonym usize = u64

datatype 'a outcome = Returned 'a | Panicked

definition len_u :: "bytes \<Rightarrow> usize" where
  "len_u bs = of_nat (length bs)"

text \<open>\<^verbatim>\<open>&input[a..b]\<close>, which unwinds when the range is decreasing or leaves the slice.\<close>

definition slice_range :: "bytes \<Rightarrow> usize \<Rightarrow> usize \<Rightarrow> bytes outcome" where
  "slice_range bs a b =
     (if a \<le> b \<and> b \<le> len_u bs then Returned (take (unat b - unat a) (drop (unat a) bs)) else Panicked)"

definition obind :: "'a option outcome \<Rightarrow> ('a \<Rightarrow> 'b option outcome) \<Rightarrow> 'b option outcome" where
  "obind m f = (case m of Panicked \<Rightarrow> Panicked | Returned None \<Rightarrow> Returned None | Returned (Some x) \<Rightarrow> f x)"

definition read_range :: "(bytes \<Rightarrow> 'a) \<Rightarrow> bytes \<Rightarrow> usize \<Rightarrow> usize \<Rightarrow> 'a option outcome" where
  "read_range g bs a b = (case slice_range bs a b of Panicked \<Rightarrow> Panicked | Returned x \<Rightarrow> Returned (Some (g x)))"

definition decode_u64 :: "bytes \<Rightarrow> usize \<Rightarrow> u64 option outcome" where
  "decode_u64 input slot_offset = (let start = slot_offset + 24 in
     if len_u input < start + 8 then Returned None
     else read_range from_be_bytes input start (start + 8))"

definition decode_u128 :: "bytes \<Rightarrow> usize \<Rightarrow> u128 option outcome" where
  "decode_u128 input slot_offset = (let start = slot_offset + 16 in
     if len_u input < start + 16 then Returned None
     else read_range from_be_bytes input start (start + 16))"

definition decode_address :: "bytes \<Rightarrow> usize \<Rightarrow> address option outcome" where
  "decode_address input slot_offset = (let start = slot_offset + 12 in
     if len_u input < start + 20 then Returned None
     else read_range from_be_bytes input start (start + 20))"

definition decode_u8 :: "bytes \<Rightarrow> usize \<Rightarrow> u8 option outcome" where
  "decode_u8 input slot_offset =
     (if len_u input < slot_offset + 32 then Returned None
      else if slot_offset + 31 < len_u input then Returned (Some (input ! unat (slot_offset + 31)))
      else Panicked)"

definition decode_bytes32 :: "bytes \<Rightarrow> usize \<Rightarrow> bytes option outcome" where
  "decode_bytes32 input slot_offset =
     (if len_u input < slot_offset + 32 then Returned None
      else read_range (\<lambda>b. b) input slot_offset (slot_offset + 32))"

definition decode_u256_usize :: "bytes \<Rightarrow> usize \<Rightarrow> usize option outcome" where
  "decode_u256_usize input slot_offset =
     (if len_u input < slot_offset + 32 then Returned None
      else read_range (\<lambda>b. from_be_bytes (drop 24 b)) input slot_offset (slot_offset + 32))"

definition decode_bytes :: "bytes \<Rightarrow> usize \<Rightarrow> bytes option outcome" where
  "decode_bytes input slot_offset =
     (if len_u input < slot_offset + 32 then Returned None
      else obind (decode_u256_usize input slot_offset) (\<lambda>data_offset.
        let abs_offset = 4 + data_offset in
        if len_u input < abs_offset + 32 then Returned None
        else obind (decode_u256_usize input abs_offset) (\<lambda>len.
          let data_start = abs_offset + 32 in
          if len_u input < data_start + len then Returned None
          else read_range (\<lambda>b. b) input data_start (data_start + len))))"

definition decode_string :: "bytes \<Rightarrow> usize \<Rightarrow> bytes option outcome" where
  "decode_string input slot_offset =
     obind (decode_bytes input slot_offset) (\<lambda>b. Returned (Some (from_utf8_lossy b)))"

text \<open>
  The common body of the three array readers; \<open>sz\<close> is the size in memory of an element, for
  \<^verbatim>\<open>Vec::with_capacity\<close>, which unwinds above \<^verbatim>\<open>isize::MAX\<close> bytes.
\<close>

fun decode_elems :: "(usize \<Rightarrow> 'a option outcome) \<Rightarrow> usize list \<Rightarrow> 'a list option outcome" where
  "decode_elems dec [] = Returned (Some [])"
| "decode_elems dec (o1 # os) = obind (dec o1) (\<lambda>x. obind (decode_elems dec os) (\<lambda>xs. Returned (Some (x # xs))))"

definition decode_array :: "(bytes \<Rightarrow> usize \<Rightarrow> 'a option outcome) \<Rightarrow> nat \<Rightarrow> bytes \<Rightarrow> usize \<Rightarrow> 'a list option outcome" where
  "decode_array dec sz input slot_offset =
     obind (decode_u256_usize input slot_offset) (\<lambda>data_offset.
       let abs_offset = 4 + data_offset in
       if len_u input < abs_offset + 32 then Returned None
       else obind (decode_u256_usize input abs_offset) (\<lambda>len.
         let elem_start = abs_offset + 32 in
         if len_u input < elem_start + len * 32 then Returned None
         else if 2 ^ 63 \<le> unat len * sz then Panicked
         else decode_elems (dec input) (map (\<lambda>i. elem_start + of_nat i * 32) [0..<unat len])))"

definition decode_address_array :: "bytes \<Rightarrow> usize \<Rightarrow> address list option outcome" where
  "decode_address_array = decode_array decode_address 20"

definition decode_u128_array :: "bytes \<Rightarrow> usize \<Rightarrow> u128 list option outcome" where
  "decode_u128_array = decode_array decode_u128 16"

definition decode_bytes32_array :: "bytes \<Rightarrow> usize \<Rightarrow> bytes list option outcome" where
  "decode_bytes32_array = decode_array decode_bytes32 32"

section \<open>ABI encoding\<close>

definition encode_u128 :: "u128 \<Rightarrow> bytes" where
  "encode_u128 v = replicate 16 0 @ to_be_bytes v"

definition encode_u64 :: "u64 \<Rightarrow> bytes" where
  "encode_u64 v = replicate 24 0 @ to_be_bytes v"

definition encode_u8 :: "u8 \<Rightarrow> bytes" where
  "encode_u8 v = (replicate 32 0)[31 := v]"

definition encode_u256 :: "u128 \<Rightarrow> bytes" where
  "encode_u256 v = encode_u128 v"

definition encode_bool :: "bool \<Rightarrow> bytes" where
  "encode_bool v = encode_u8 (if v then 1 else 0)"

section \<open>Conversions of storage words\<close>

definition u256_to_u128 :: "u256 \<Rightarrow> u128" where
  "u256_to_u128 v = from_be_bytes (take 16 (drop 16 (to_be_bytes v)))"

definition u128_to_u256 :: "u128 \<Rightarrow> u256" where
  "u128_to_u256 v = from_be_bytes (replicate 16 0 @ to_be_bytes v)"

definition u256_to_u64 :: "u256 \<Rightarrow> u64" where
  "u256_to_u64 v = from_be_bytes (take 8 (drop 24 (to_be_bytes v)))"

definition u64_to_u256 :: "u64 \<Rightarrow> u256" where
  "u64_to_u256 v = from_be_bytes (replicate 24 0 @ to_be_bytes v)"

definition u256_to_u8 :: "u256 \<Rightarrow> u8" where
  "u256_to_u8 v = to_be_bytes v ! 31"

definition u8_to_u256 :: "u8 \<Rightarrow> u256" where
  "u8_to_u256 v = from_be_bytes ((replicate 32 0)[31 := v])"

definition u256_to_address :: "u256 \<Rightarrow> address" where
  "u256_to_address v = from_be_bytes (take 20 (drop 12 (to_be_bytes v)))"

definition address_to_u256 :: "address \<Rightarrow> u256" where
  "address_to_u256 a = from_be_bytes (replicate 12 0 @ to_be_bytes a)"

definition read_string32 :: "u256 \<Rightarrow> bytes" where
  "read_string32 v = (let bytes = to_be_bytes v; len = length (takeWhile (\<lambda>b. b \<noteq> 0) bytes) in
     from_utf8_lossy (take len bytes))"

definition write_string32 :: "bytes \<Rightarrow> u256" where
  "write_string32 s = (let len = min (length s) 32 in
     from_be_bytes (take len s @ replicate (32 - len) 0))"

section \<open>Storage slots\<close>

definition slot_balance :: "(bytes \<Rightarrow> u256) \<Rightarrow> u64 \<Rightarrow> address \<Rightarrow> u256" where
  "slot_balance H asset_id addr = storage_slot H [to_be_bytes asset_id, to_be_bytes addr]"

definition slot_asset_meta :: "(bytes \<Rightarrow> u256) \<Rightarrow> u64 \<Rightarrow> bytes \<Rightarrow> u256" where
  "slot_asset_meta H asset_id suffix = storage_slot H [to_be_bytes asset_id, suffix]"

definition slot_evm_contract :: "(bytes \<Rightarrow> u256) \<Rightarrow> u64 \<Rightarrow> u256" where
  "slot_evm_contract H asset_id = slot_asset_meta H asset_id (bstr ''evm_contract'')"

definition slot_allowance :: "(bytes \<Rightarrow> u256) \<Rightarrow> u64 \<Rightarrow> address \<Rightarrow> address \<Rightarrow> u256" where
  "slot_allowance H asset_id owner spender =
     storage_slot H [to_be_bytes asset_id, to_be_bytes owner, to_be_bytes spender]"

definition slot_validator_by_addr :: "(bytes \<Rightarrow> u256) \<Rightarrow> address \<Rightarrow> u256" where
  "slot_validator_by_addr H addr = storage_slot H [to_be_bytes addr, bstr ''validator_id'']"

definition slot_compliance :: "(bytes \<Rightarrow> u256) \<Rightarrow> address \<Rightarrow> u256" where
  "slot_compliance H addr = storage_slot H [to_be_bytes addr]"

text \<open>
  What a layout needs of the slot hash: no two keys in use share a slot, and none has slot 0, where
  the contracts keep their counters.
\<close>

definition hash_ok :: "(bytes \<Rightarrow> u256) \<Rightarrow> bytes set \<Rightarrow> bool" where
  "hash_ok H K \<longleftrightarrow> inj_on H K \<and> 0 \<notin> H ` K"

text \<open>A hash without collisions on a given list of keys, for concrete instances.\<close>

definition table_hash :: "bytes list \<Rightarrow> bytes \<Rightarrow> u256" where
  "table_hash K k = of_nat (Suc (length (takeWhile (\<lambda>x. x \<noteq> k) K)))"

section \<open>Helpers over a storage provider\<close>

definition check_compliance :: "(bytes \<Rightarrow> u256) \<Rightarrow> 's provider \<Rightarrow> address \<Rightarrow> ('s, precompile_error, unit) smonad" where
  "check_compliance H P addr =
     sbind (sunwrap_or 0 (sbind (p_sload P COMPLIANCE_ADDRESS (slot_compliance H addr))
                                (\<lambda>v. sret (to_be_bytes v ! 31)))) (\<lambda>status.
     if status = 0 then sret () else sfail (Other ''compliance check failed''))"

definition ok_empty :: "'s provider \<Rightarrow> ('s, precompile_error, precompile_output) smonad" where
  "ok_empty P = sget (fill_precompile_output P (new_precompile_output 0 []))"

definition load_bal :: "(bytes \<Rightarrow> u256) \<Rightarrow> 's provider \<Rightarrow> u64 \<Rightarrow> address \<Rightarrow> ('s, precompile_error, u128) smonad" where
  "load_bal H P asset_id addr =
     sunwrap_or 0 (sbind (p_sload P ASSET_ADDRESS (slot_balance H asset_id addr))
                         (\<lambda>v. sret (u256_to_u128 v)))"

definition save_bal :: "(bytes \<Rightarrow> u256) \<Rightarrow> 's provider \<Rightarrow> u64 \<Rightarrow> address \<Rightarrow> u128 \<Rightarrow> ('s, precompile_error, unit) smonad" where
  "save_bal H P asset_id addr amount =
     signore (p_sstore P ASSET_ADDRESS (slot_balance H asset_id addr) (u128_to_u256 amount))"

definition credit_bal :: "(bytes \<Rightarrow> u256) \<Rightarrow> 's provider \<Rightarrow> u64 \<Rightarrow> address \<Rightarrow> u128 \<Rightarrow> ('s, precompile_error, unit) smonad" where
  "credit_bal H P asset_id addr amount =
     sbind (load_bal H P asset_id addr) (\<lambda>b.
     sbind (sok_or (Other ''balance overflow'') (checked_add b amount)) (\<lambda>bal.
     save_bal H P asset_id addr bal))"

definition debit_bal :: "(bytes \<Rightarrow> u256) \<Rightarrow> 's provider \<Rightarrow> u64 \<Rightarrow> address \<Rightarrow> u128 \<Rightarrow> ('s, precompile_error, unit) smonad" where
  "debit_bal H P asset_id addr amount =
     sbind (load_bal H P asset_id addr) (\<lambda>b.
     sbind (sok_or (Other ''insufficient balance'') (checked_sub b amount)) (\<lambda>bal.
     save_bal H P asset_id addr bal))"

definition require_caller :: "address \<Rightarrow> ('s, precompile_error, address) smonad" where
  "require_caller msg_sender =
     (if msg_sender = 0 then sfail (Other ''caller not available'') else sret msg_sender)"

definition is_validator :: "(bytes \<Rightarrow> u256) \<Rightarrow> 's provider \<Rightarrow> address \<Rightarrow> ('s, precompile_error, bool) smonad" where
  "is_validator H P sender =
     sunwrap_or False (sbind (p_sload P VALIDATOR_ADDRESS (slot_validator_by_addr H sender))
                             (\<lambda>v. sret (u256_to_u64 v \<noteq> 0)))"

definition require_validator :: "(bytes \<Rightarrow> u256) \<Rightarrow> 's provider \<Rightarrow> address \<Rightarrow> ('s, precompile_error, unit) smonad" where
  "require_validator H P sender =
     sbind (is_validator H P sender) (\<lambda>v.
     sguard (\<not> v) (Other ''sender not a registered validator''))"

section \<open>Lemmas: the conversions are width changes\<close>

lemma be_nat_Cons: "be_nat (b # bs) = unat b * 256 ^ length bs + be_nat bs"
proof (induction bs rule: rev_induct)
  case Nil
  then show ?case by (simp add: be_nat_def)
next
  case (snoc c cs)
  have "be_nat (b # cs @ [c]) = be_nat (b # cs) * 256 + unat c"
    using be_nat_snoc [of "b # cs" c] by simp
  with snoc show ?case by (simp add: algebra_simps)
qed

lemma be_nat_append: "be_nat (as @ bs) = be_nat as * 256 ^ length bs + be_nat bs"
  by (induction as) (simp_all add: be_nat_Cons power_add algebra_simps)

lemma be_nat_zeros [simp]: "be_nat (replicate n 0) = 0"
  by (induction n) (simp_all add: be_nat_Cons)

lemma be_nat_less: "be_nat bs < 256 ^ length bs"
proof (induction bs)
  case (Cons b bs)
  have "unat b < 256" using unsigned_less [of b, where ?'a = nat] by simp
  then have le: "unat b * 256 ^ length bs + 256 ^ length bs \<le> 256 * 256 ^ length bs"
    by (metis Suc_leI add.commute mult_Suc mult_le_mono1)
  have "be_nat (b # bs) < unat b * 256 ^ length bs + 256 ^ length bs"
    using Cons by (simp add: be_nat_Cons)
  also note le
  finally show ?case by simp
qed simp

lemma nat_be_be_nat: "nat_be (length bs) (be_nat bs) = bs"
proof (induction bs rule: rev_induct)
  case (snoc b bs)
  have "unat b < 256" using unsigned_less [of b, where ?'a = nat] by simp
  with snoc show ?case by simp
qed simp

lemma to_from_be_bytes_u256:
  assumes "length bs = 32"
  shows "to_be_bytes (from_be_bytes bs :: u256) = bs"
proof -
  have "unat (from_be_bytes bs :: u256) = be_nat bs"
    using be_nat_less [of bs] assms by (simp add: from_be_bytes_def unat_of_nat)
  then show ?thesis
    using nat_be_be_nat [of bs] assms by (simp add: to_be_bytes_def)
qed

lemma from_be_bytes_narrow:
  fixes v :: u256
  assumes "LENGTH('a::len) = 8 * n" "n \<le> 32"
  shows "(from_be_bytes (take n (drop (32 - n) (to_be_bytes v))) :: 'a word) = ucast v"
proof -
  have "to_be_bytes v = nat_be ((32 - n) + n) (unat v)"
    using assms(2) by (simp add: to_be_bytes_def)
  then have "take n (drop (32 - n) (to_be_bytes v)) = nat_be n (unat v)"
    using assms(2) by (metis drop_nat_be length_nat_be order_refl take_all)
  moreover have "(256::nat) ^ n = 2 ^ LENGTH('a)"
    using power_mult [of "2::nat" 8 n] assms(1) by simp
  ultimately show ?thesis
    by (simp add: from_be_bytes_def word_unat_eq_iff unat_of_nat unsigned_ucast_eq take_bit_eq_mod)
qed

lemma from_be_bytes_widen:
  fixes v :: "'a::len word"
  assumes "LENGTH('a) = 8 * n" "n \<le> 32"
  shows "(from_be_bytes (replicate m 0 @ to_be_bytes v) :: u256) = ucast v"
proof -
  have "(256::nat) ^ n = 2 ^ LENGTH('a)"
    using power_mult [of "2::nat" 8 n] assms(1) by simp
  then have "unat v < 256 ^ n" using unsigned_less [of v] by simp
  then have "be_nat (replicate m 0 @ to_be_bytes v) = unat v"
    using assms(1) by (simp add: be_nat_append to_be_bytes_def)
  moreover have "(of_nat (unat v) :: u256) = ucast v" by simp
  ultimately show ?thesis by (simp only: from_be_bytes_def)
qed

lemma to_be_bytes_last: "to_be_bytes (v :: u256) ! 31 = ucast v"
proof -
  have "to_be_bytes v = nat_be (Suc 31) (unat v)"
    by (simp add: to_be_bytes_def del: nat_be.simps)
  then have "to_be_bytes v = nat_be 31 (unat v div 256) @ [of_nat (unat v mod 256)]"
    by (simp only: nat_be.simps(2))
  then have "to_be_bytes v ! 31 = of_nat (unat v mod 256)"
    by (simp add: nth_append)
  then show ?thesis
    by (simp add: word_unat_eq_iff unat_of_nat unsigned_ucast_eq take_bit_eq_mod)
qed

lemma replicate_update_last: "(replicate (Suc n) a)[n := b] = replicate n a @ [b]"
  by (induction n) simp_all

lemma conv_ucast [simp]:
  "u256_to_u128 v = ucast v" "u256_to_u64 v = ucast v" "u256_to_address v = ucast v"
  "u256_to_u8 v = ucast v"
  "u128_to_u256 x = ucast x" "u64_to_u256 y = ucast y" "address_to_u256 a = ucast a"
  "u8_to_u256 b = ucast b"
proof -
  show "u256_to_u128 v = ucast v"
    using from_be_bytes_narrow [of 16 v, where 'a = 128] by (simp add: u256_to_u128_def)
  show "u256_to_u64 v = ucast v"
    using from_be_bytes_narrow [of 8 v, where 'a = 64] by (simp add: u256_to_u64_def)
  show "u256_to_address v = ucast v"
    using from_be_bytes_narrow [of 20 v, where 'a = 160] by (simp add: u256_to_address_def)
  show "u256_to_u8 v = ucast v"
    by (simp add: u256_to_u8_def to_be_bytes_last)
  show "u128_to_u256 x = ucast x"
    using from_be_bytes_widen [of 16 16 x] by (simp add: u128_to_u256_def)
  show "u64_to_u256 y = ucast y"
    using from_be_bytes_widen [of 8 24 y] by (simp add: u64_to_u256_def)
  show "address_to_u256 a = ucast a"
    using from_be_bytes_widen [of 20 12 a] by (simp add: address_to_u256_def)
  show "u8_to_u256 b = ucast b"
  proof -
    have "(replicate 32 0)[31 := b] = replicate 31 0 @ [b]"
      using replicate_update_last [of 31 0 b] by (simp del: replicate.simps)
    then show ?thesis
      by (simp add: u8_to_u256_def from_be_bytes_def be_nat_snoc)
  qed
qed

text \<open>Widening to a storage word and back is the identity; the widened value fits.\<close>

lemma unat_ucast_up:
  fixes x :: "'a::len word"
  assumes "LENGTH('a) \<le> LENGTH('b)"
  shows "unat (ucast x :: 'b::len word) = unat x"
proof -
  have "unat x < 2 ^ LENGTH('a)" by (rule unsigned_less)
  also have "\<dots> \<le> 2 ^ LENGTH('b)" using assms by simp
  finally show ?thesis by (simp add: unsigned_ucast_eq take_bit_nat_eq_self)
qed

lemma unat_ucast_u256 [simp]:
  "unat (ucast (x :: u128) :: u256) = unat x" "unat (ucast (y :: u64) :: u256) = unat y"
  "unat (ucast (a :: address) :: u256) = unat a" "unat (ucast (b :: u8) :: u256) = unat b"
  by (rule unat_ucast_up; simp)+

lemma ucast_down_up:
  fixes x :: "'a::len word"
  assumes "LENGTH('a) \<le> LENGTH('b::len)"
  shows "ucast (ucast x :: 'b word) = x"
proof -
  have "unat x < 2 ^ LENGTH('a)" by (rule unsigned_less)
  then show ?thesis
    using unat_ucast_up [OF assms, of x]
    by (simp add: word_unat_eq_iff unsigned_ucast_eq [of "ucast x :: 'b word"] take_bit_nat_eq_self)
qed

lemma narrow_widen [simp]:
  "ucast (ucast (x :: u128) :: u256) = x" "ucast (ucast (y :: u64) :: u256) = y"
  "ucast (ucast (a :: address) :: u256) = a" "ucast (ucast (b :: u8) :: u256) = b"
  by (rule ucast_down_up; simp)+

lemma ucast_u256_eq_0 [simp]:
  "(ucast (x :: u128) :: u256) = 0 \<longleftrightarrow> x = 0" "(ucast (y :: u64) :: u256) = 0 \<longleftrightarrow> y = 0"
  "(ucast (a :: address) :: u256) = 0 \<longleftrightarrow> a = 0"
  by (simp_all add: word_unat_eq_iff)

section \<open>Lemmas: ABI words\<close>

lemma slice_range_mid:
  assumes "length (pre @ mid @ post) < 2 ^ 64"
  shows "slice_range (pre @ mid @ post) (of_nat (length pre)) (of_nat (length pre + length mid)) = Returned mid"
proof -
  have u: "unat (of_nat k :: usize) = k" if "k \<le> length (pre @ mid @ post)" for k
    using that assms by (simp add: unat_of_nat)
  show ?thesis
    using u [of "length pre"] u [of "length pre + length mid"] u [of "length (pre @ mid @ post)"]
    by (simp add: slice_range_def len_u_def word_le_nat_alt)
qed

lemma slice_range_total: "a \<le> b \<Longrightarrow> \<not> len_u bs < b \<Longrightarrow> slice_range bs a b \<noteq> Panicked"
  by (simp add: slice_range_def)

lemma usize_add_le:
  fixes s :: usize
  assumes "unat s + m + n < 2 ^ 64"
  shows "s + of_nat m \<le> s + of_nat m + of_nat n"
proof -
  have "unat (of_nat m :: usize) = m" "unat (of_nat n :: usize) = n"
    using assms by (simp_all add: unat_of_nat)
  then show ?thesis
    using assms by (simp add: word_le_nat_alt unat_word_ariths)
qed

lemma read_range_total: "a \<le> b \<Longrightarrow> \<not> len_u bs < b \<Longrightarrow> read_range g bs a b \<noteq> Panicked"
  by (simp add: read_range_def slice_range_def)

lemma scalar_decoders_total:
  assumes "unat s + 32 < 2 ^ 64"
  shows "decode_u64 bs s \<noteq> Panicked" "decode_u128 bs s \<noteq> Panicked" "decode_address bs s \<noteq> Panicked"
    "decode_u8 bs s \<noteq> Panicked" "decode_bytes32 bs s \<noteq> Panicked" "decode_u256_usize bs s \<noteq> Panicked"
proof -
  have le: "s + 24 \<le> s + 24 + 8" "s + 16 \<le> s + 16 + 16" "s + 12 \<le> s + 12 + 20" "s \<le> s + 32"
    using usize_add_le [of s 24 8] usize_add_le [of s 16 16] usize_add_le [of s 12 20]
      usize_add_le [of s 0 32] assms by simp_all
  show "decode_u64 bs s \<noteq> Panicked" "decode_u128 bs s \<noteq> Panicked" "decode_address bs s \<noteq> Panicked"
    "decode_bytes32 bs s \<noteq> Panicked" "decode_u256_usize bs s \<noteq> Panicked"
    using le
    by (auto simp: decode_u64_def decode_u128_def decode_address_def decode_bytes32_def
        decode_u256_usize_def Let_def read_range_total)
  have "unat (s + 31) < unat (s + 32)"
    using assms by (simp add: unat_word_ariths)
  then show "decode_u8 bs s \<noteq> Panicked"
    by (auto simp: decode_u8_def word_less_nat_alt)
qed

lemma slot_key_lengths [simp]:
  "length (to_be_bytes (i :: u64)) = 8" "length (to_be_bytes (a :: address)) = 20"
  by simp_all

lemma takeWhile_neq_nth: "k \<in> set K \<Longrightarrow> K ! length (takeWhile (\<lambda>x. x \<noteq> k) K) = k"
  by (induction K) auto

lemma length_takeWhile_neq: "k \<in> set K \<Longrightarrow> length (takeWhile (\<lambda>x. x \<noteq> k) K) < length K"
  by (induction K) auto

lemma table_hash_ok:
  assumes "length K < 2 ^ 256 - 1"
  shows "hash_ok (table_hash K) (set K)"
proof -
  have u: "unat (table_hash K k) = Suc (length (takeWhile (\<lambda>x. x \<noteq> k) K))" if "k \<in> set K" for k
    using length_takeWhile_neq [OF that] assms by (simp add: table_hash_def unat_of_nat del: of_nat_Suc)
  have "inj_on (table_hash K) (set K)"
    by (rule inj_onI) (metis u nat.inject takeWhile_neq_nth)
  moreover have "table_hash K k \<noteq> 0" if "k \<in> set K" for k
    using u [OF that] by auto
  ultimately show ?thesis by (force simp: hash_ok_def)
qed

lemma hash_ok_mono: "hash_ok H K \<Longrightarrow> L \<subseteq> K \<Longrightarrow> hash_ok H L"
  by (auto simp: hash_ok_def inj_on_subset)

lemma hash_ok_eq: "hash_ok H K \<Longrightarrow> k \<in> K \<Longrightarrow> l \<in> K \<Longrightarrow> H k = H l \<longleftrightarrow> k = l"
  by (auto simp: hash_ok_def inj_on_def)

lemma hash_ok_nonzero: "hash_ok H K \<Longrightarrow> k \<in> K \<Longrightarrow> H k \<noteq> 0"
  by (force simp: hash_ok_def)

lemma finite_hash_ok_exists:
  assumes "finite K" "card K < 2 ^ 256 - 1"
  shows "\<exists>H. hash_ok H K"
proof -
  obtain L where "set L = K" "distinct L" using finite_distinct_list [OF assms(1)] by blast
  moreover from this have "length L < 2 ^ 256 - 1" using assms(2) distinct_card by metis
  ultimately show ?thesis using table_hash_ok by blast
qed

end
