(* ===== verification/Asset.thy ===== *)
theory Asset
  imports Utils
begin

text \<open>
  The asset ledger, \<^verbatim>\<open>crates/asset/src/lib.rs\<close>: \<^verbatim>\<open>AssetStorage\<close> over any \<^verbatim>\<open>StorageBackend\<close>. Every
  function takes the slot hash \<open>H\<close> (keccak of the concatenated key parts, a parameter) and the
  backend dictionary \<open>B\<close>, and works on the storage of the asset precompile's address. An unguarded
  narrowing of a storage word unwinds in the sources; that outcome is the error \<open>Asset_Panic\<close>.
\<close>

section \<open>Data\<close>

datatype asset_error =
    InsufficientBalance | BalanceOverflow | SupplyOverflow | SupplyUnderflow | MaxSupplyExceeded
  | NotIssuer | AssetNotFound | InsufficientAllowance | ComplianceFailed | InvalidMetadata bytes
  | AssetIdOverflow | InvalidDecimals u8 | Erc20AlreadyBound address | Asset_Panic

definition bytes_str :: "bytes \<Rightarrow> string" where
  "bytes_str bs = map (\<lambda>b. char_of (unat b)) bs"

fun asset_error_text :: "(address \<Rightarrow> string) \<Rightarrow> asset_error \<Rightarrow> string" where
  "asset_error_text fmt InsufficientBalance = ''insufficient balance''"
| "asset_error_text fmt BalanceOverflow = ''balance overflow''"
| "asset_error_text fmt SupplyOverflow = ''supply overflow''"
| "asset_error_text fmt SupplyUnderflow = ''supply underflow''"
| "asset_error_text fmt MaxSupplyExceeded = ''max supply exceeded''"
| "asset_error_text fmt NotIssuer = ''not asset issuer''"
| "asset_error_text fmt AssetNotFound = ''asset not found''"
| "asset_error_text fmt InsufficientAllowance = ''insufficient allowance''"
| "asset_error_text fmt ComplianceFailed = ''compliance check failed''"
| "asset_error_text fmt (InvalidMetadata key) = ''invalid metadata: '' @ bytes_str key"
| "asset_error_text fmt AssetIdOverflow = ''asset id overflow''"
| "asset_error_text fmt (InvalidDecimals d) = ''invalid decimals: '' @ show_dec (unat d) @ '' (max 18)''"
| "asset_error_text fmt (Erc20AlreadyBound addr) = ''ERC-20 contract already bound: '' @ fmt addr"
| "asset_error_text fmt Asset_Panic = ''panic''"

record asset_meta =
  am_symbol :: bytes
  am_name :: bytes
  am_decimals :: u8
  am_issuer :: address
  am_max_supply :: u128
  am_supply :: u128
  am_status :: u8
  am_registered_at :: u256
  am_evm_contract :: address
  am_dominance :: u8

definition CALL_ASSET_ID :: u64 where "CALL_ASSET_ID = 1"

definition U128_MAX :: u256 where "U128_MAX = 2 ^ 128 - 1"

definition U64_MAX :: u256 where "U64_MAX = 2 ^ 64 - 1"

section \<open>Balances\<close>

definition read_balance :: "(bytes \<Rightarrow> u256) \<Rightarrow> 'b backend \<Rightarrow> u64 \<Rightarrow> address \<Rightarrow> ('b, asset_error, u128) smonad" where
  "read_balance H B asset_id addr =
     sbind (mload B ASSET_ADDRESS (slot_balance H asset_id addr)) (\<lambda>raw.
     sbind (sguard (U128_MAX < raw) BalanceOverflow) (\<lambda>_.
     sret (u256_to_u128 raw)))"

definition write_balance :: "(bytes \<Rightarrow> u256) \<Rightarrow> 'b backend \<Rightarrow> u64 \<Rightarrow> address \<Rightarrow> u128 \<Rightarrow> ('b, asset_error, unit) smonad" where
  "write_balance H B asset_id addr amount =
     mstore B ASSET_ADDRESS (slot_balance H asset_id addr) (u128_to_u256 amount)"

definition add_balance :: "(bytes \<Rightarrow> u256) \<Rightarrow> 'b backend \<Rightarrow> u64 \<Rightarrow> address \<Rightarrow> u128 \<Rightarrow> ('b, asset_error, unit) smonad" where
  "add_balance H B asset_id addr amount =
     sbind (read_balance H B asset_id addr) (\<lambda>current.
     sbind (sok_or BalanceOverflow (checked_add current amount)) (\<lambda>new.
     write_balance H B asset_id addr new))"

definition deduct_balance :: "(bytes \<Rightarrow> u256) \<Rightarrow> 'b backend \<Rightarrow> u64 \<Rightarrow> address \<Rightarrow> u128 \<Rightarrow> ('b, asset_error, unit) smonad" where
  "deduct_balance H B asset_id addr amount =
     sbind (read_balance H B asset_id addr) (\<lambda>current.
     sbind (sok_or InsufficientBalance (checked_sub current amount)) (\<lambda>new.
     write_balance H B asset_id addr new))"

section \<open>Allowances\<close>

definition read_allowance :: "(bytes \<Rightarrow> u256) \<Rightarrow> 'b backend \<Rightarrow> u64 \<Rightarrow> address \<Rightarrow> address \<Rightarrow>
    ('b, asset_error, u128) smonad" where
  "read_allowance H B asset_id owner spender =
     sbind (mload B ASSET_ADDRESS (slot_allowance H asset_id owner spender)) (\<lambda>raw.
     sbind (sguard (U128_MAX < raw) BalanceOverflow) (\<lambda>_.
     sret (u256_to_u128 raw)))"

definition write_allowance :: "(bytes \<Rightarrow> u256) \<Rightarrow> 'b backend \<Rightarrow> u64 \<Rightarrow> address \<Rightarrow> address \<Rightarrow> u128 \<Rightarrow>
    ('b, asset_error, unit) smonad" where
  "write_allowance H B asset_id owner spender amount =
     mstore B ASSET_ADDRESS (slot_allowance H asset_id owner spender) (u128_to_u256 amount)"

section \<open>Metadata\<close>

definition load_meta_u256 :: "(bytes \<Rightarrow> u256) \<Rightarrow> 'b backend \<Rightarrow> u64 \<Rightarrow> bytes \<Rightarrow> ('b, asset_error, u256) smonad" where
  "load_meta_u256 H B asset_id key = mload B ASSET_ADDRESS (slot_asset_meta H asset_id key)"

definition load_meta_u128 :: "(bytes \<Rightarrow> u256) \<Rightarrow> 'b backend \<Rightarrow> u64 \<Rightarrow> bytes \<Rightarrow> ('b, asset_error, u128) smonad" where
  "load_meta_u128 H B asset_id key = sbind (load_meta_u256 H B asset_id key) (\<lambda>v. sret (u256_to_u128 v))"

definition load_meta_u8 :: "(bytes \<Rightarrow> u256) \<Rightarrow> 'b backend \<Rightarrow> u64 \<Rightarrow> bytes \<Rightarrow> ('b, asset_error, u8) smonad" where
  "load_meta_u8 H B asset_id key = sbind (load_meta_u256 H B asset_id key) (\<lambda>v. sret (to_be_bytes v ! 31))"

definition load_meta_address :: "(bytes \<Rightarrow> u256) \<Rightarrow> 'b backend \<Rightarrow> u64 \<Rightarrow> bytes \<Rightarrow> ('b, asset_error, address) smonad" where
  "load_meta_address H B asset_id key =
     sbind (load_meta_u256 H B asset_id key) (\<lambda>v. sret (from_be_bytes (take 20 (drop 12 (to_be_bytes v)))))"

definition word_string :: "u256 \<Rightarrow> bytes" where
  "word_string v = takeWhile (\<lambda>b. b \<noteq> 0) (to_be_bytes v)"

definition load_meta_string :: "(bytes \<Rightarrow> u256) \<Rightarrow> 'b backend \<Rightarrow> u64 \<Rightarrow> bytes \<Rightarrow> ('b, asset_error, bytes) smonad" where
  "load_meta_string H B asset_id key =
     sbind (load_meta_u256 H B asset_id key) (\<lambda>v.
     sok_or (InvalidMetadata (from_utf8_lossy key)) (from_utf8 (word_string v)))"

definition store_meta_u256 :: "(bytes \<Rightarrow> u256) \<Rightarrow> 'b backend \<Rightarrow> u64 \<Rightarrow> bytes \<Rightarrow> u256 \<Rightarrow> ('b, asset_error, unit) smonad" where
  "store_meta_u256 H B asset_id key value = mstore B ASSET_ADDRESS (slot_asset_meta H asset_id key) value"

definition read_meta :: "(bytes \<Rightarrow> u256) \<Rightarrow> 'b backend \<Rightarrow> u64 \<Rightarrow> ('b, asset_error, asset_meta) smonad" where
  "read_meta H B asset_id =
     sbind (load_meta_string H B asset_id (bstr ''symbol'')) (\<lambda>sym.
     sbind (load_meta_address H B asset_id (bstr ''issuer'')) (\<lambda>iss.
     sbind (sguard (iss = 0 \<and> sym = []) AssetNotFound) (\<lambda>_.
     sbind (load_meta_string H B asset_id (bstr ''name'')) (\<lambda>name.
     sbind (load_meta_u8 H B asset_id (bstr ''decimals'')) (\<lambda>decimals.
     sbind (load_meta_u128 H B asset_id (bstr ''max_supply'')) (\<lambda>max_supply.
     sbind (load_meta_u128 H B asset_id (bstr ''supply'')) (\<lambda>supply.
     sbind (load_meta_u8 H B asset_id (bstr ''status'')) (\<lambda>status.
     sbind (load_meta_u256 H B asset_id (bstr ''registered_at'')) (\<lambda>registered_at.
     sbind (load_meta_address H B asset_id (bstr ''evm_contract'')) (\<lambda>evm_contract.
     sbind (load_meta_u8 H B asset_id (bstr ''dominance'')) (\<lambda>dominance.
     sret \<lparr>am_symbol = sym, am_name = name, am_decimals = decimals, am_issuer = iss,
           am_max_supply = max_supply, am_supply = supply, am_status = status,
           am_registered_at = registered_at, am_evm_contract = evm_contract, am_dominance = dominance\<rparr>)))))))))))"

text \<open>The bytes of a string, padded on the right to a storage word.\<close>

definition string_word :: "bytes \<Rightarrow> u256" where
  "string_word value = (let len = min (length value) 32 in
     from_be_bytes (take len value @ replicate (32 - len) 0))"

definition store_meta_string :: "(bytes \<Rightarrow> u256) \<Rightarrow> 'b backend \<Rightarrow> u64 \<Rightarrow> bytes \<Rightarrow> bytes \<Rightarrow>
    ('b, asset_error, unit) smonad" where
  "store_meta_string H B asset_id key value =
     sbind (sguard (32 < length value)
              (InvalidMetadata (bstr [CHR 0x27] @ from_utf8_lossy key @
                 bstr ([CHR 0x27] @ '' exceeds 32 bytes ('' @ show_dec (length value) @ '' bytes)'')))) (\<lambda>_.
     mstore B ASSET_ADDRESS (slot_asset_meta H asset_id key) (string_word value))"

definition write_meta :: "(bytes \<Rightarrow> u256) \<Rightarrow> 'b backend \<Rightarrow> u64 \<Rightarrow> asset_meta \<Rightarrow> ('b, asset_error, unit) smonad" where
  "write_meta H B asset_id meta =
     sbind (store_meta_string H B asset_id (bstr ''symbol'') (am_symbol meta)) (\<lambda>_.
     sbind (store_meta_string H B asset_id (bstr ''name'') (am_name meta)) (\<lambda>_.
     sbind (store_meta_u256 H B asset_id (bstr ''decimals'') (ucast (am_decimals meta))) (\<lambda>_.
     sbind (store_meta_u256 H B asset_id (bstr ''issuer'') (address_to_u256 (am_issuer meta))) (\<lambda>_.
     sbind (store_meta_u256 H B asset_id (bstr ''max_supply'') (u128_to_u256 (am_max_supply meta))) (\<lambda>_.
     sbind (store_meta_u256 H B asset_id (bstr ''supply'') (u128_to_u256 (am_supply meta))) (\<lambda>_.
     sbind (store_meta_u256 H B asset_id (bstr ''status'') (ucast (am_status meta))) (\<lambda>_.
     sbind (store_meta_u256 H B asset_id (bstr ''registered_at'') (am_registered_at meta)) (\<lambda>_.
     sbind (store_meta_u256 H B asset_id (bstr ''evm_contract'') (address_to_u256 (am_evm_contract meta))) (\<lambda>_.
     store_meta_u256 H B asset_id (bstr ''dominance'') (ucast (am_dominance meta)))))))))))"

section \<open>Business logic\<close>

definition transfer :: "(bytes \<Rightarrow> u256) \<Rightarrow> 'b backend \<Rightarrow> u64 \<Rightarrow> address \<Rightarrow> address \<Rightarrow> u128 \<Rightarrow>
    ('b, asset_error, unit) smonad" where
  "transfer H B asset_id from to amount =
     sbind (read_balance H B asset_id to) (\<lambda>to_current.
     sbind (sok_or BalanceOverflow (checked_add to_current amount)) (\<lambda>_.
     if from = to then sret ()
     else
       sbind (deduct_balance H B asset_id from amount) (\<lambda>_.
       write_balance H B asset_id to (to_current + amount))))"

definition batch_transfer :: "(bytes \<Rightarrow> u256) \<Rightarrow> 'b backend \<Rightarrow> u64 \<Rightarrow> address \<Rightarrow> (address \<times> u128) list \<Rightarrow>
    ('b, asset_error, unit) smonad" where
  "batch_transfer H B asset_id from recipients =
     sfor recipients (\<lambda>(to, amount). transfer H B asset_id from to amount)"

definition approve :: "(bytes \<Rightarrow> u256) \<Rightarrow> 'b backend \<Rightarrow> u64 \<Rightarrow> address \<Rightarrow> address \<Rightarrow> u128 \<Rightarrow>
    ('b, asset_error, unit) smonad" where
  "approve H B asset_id owner spender amount =
     sbind (read_meta H B asset_id) (\<lambda>_.
     write_allowance H B asset_id owner spender amount)"

definition transfer_from :: "(bytes \<Rightarrow> u256) \<Rightarrow> 'b backend \<Rightarrow> u64 \<Rightarrow> address \<Rightarrow> address \<Rightarrow> address \<Rightarrow> u128 \<Rightarrow>
    ('b, asset_error, unit) smonad" where
  "transfer_from H B asset_id spender from to amount =
     sbind (read_allowance H B asset_id from spender) (\<lambda>allowance.
     sbind (sguard (allowance < amount) InsufficientAllowance) (\<lambda>_.
     sbind (transfer H B asset_id from to amount) (\<lambda>_.
     write_allowance H B asset_id from spender (allowance - amount))))"

definition mint :: "(bytes \<Rightarrow> u256) \<Rightarrow> 'b backend \<Rightarrow> u64 \<Rightarrow> address \<Rightarrow> address \<Rightarrow> u128 \<Rightarrow>
    ('b, asset_error, unit) smonad" where
  "mint H B asset_id caller to amount =
     sbind (read_meta H B asset_id) (\<lambda>meta.
     sbind (sguard (am_issuer meta \<noteq> caller) NotIssuer) (\<lambda>_.
     sbind (sok_or SupplyOverflow (checked_add (am_supply meta) amount)) (\<lambda>new_supply.
     sbind (sguard (0 < am_max_supply meta \<and> am_max_supply meta < new_supply) MaxSupplyExceeded) (\<lambda>_.
     sbind (add_balance H B asset_id to amount) (\<lambda>_.
     store_meta_u256 H B asset_id (bstr ''supply'') (u128_to_u256 new_supply))))))"

definition burn :: "(bytes \<Rightarrow> u256) \<Rightarrow> 'b backend \<Rightarrow> u64 \<Rightarrow> address \<Rightarrow> address \<Rightarrow> u128 \<Rightarrow>
    ('b, asset_error, unit) smonad" where
  "burn H B asset_id caller from amount =
     sbind (if caller \<noteq> from
            then sbind (read_allowance H B asset_id from caller) (\<lambda>allowance.
                 sbind (sguard (allowance < amount) InsufficientAllowance) (\<lambda>_.
                 sret (Some (allowance - amount))))
            else sret None) (\<lambda>new_allowance.
     sbind (deduct_balance H B asset_id from amount) (\<lambda>_.
     sbind (case new_allowance of Some na \<Rightarrow> write_allowance H B asset_id from caller na | None \<Rightarrow> sret ()) (\<lambda>_.
     sbind (load_meta_u128 H B asset_id (bstr ''supply'')) (\<lambda>supply.
     sbind (sok_or SupplyUnderflow (checked_sub supply amount)) (\<lambda>new_supply.
     store_meta_u256 H B asset_id (bstr ''supply'') (u128_to_u256 new_supply))))))"

section \<open>Registration\<close>

definition allocate_asset_id :: "'b backend \<Rightarrow> ('b, asset_error, u64) smonad" where
  "allocate_asset_id B =
     sbind (mload B ASSET_ADDRESS 0) (\<lambda>raw.
     sbind (sguard (U64_MAX < raw) AssetIdOverflow) (\<lambda>_.
     let asset_id = ucast raw :: u64; asset_id = (if asset_id = 0 then 1 else asset_id) in
     sbind (sok_or AssetIdOverflow (checked_add asset_id 1)) (\<lambda>next_id.
     sbind (mstore B ASSET_ADDRESS 0 (ucast next_id)) (\<lambda>_.
     sret asset_id))))"

definition write_base_meta :: "(bytes \<Rightarrow> u256) \<Rightarrow> 'b backend \<Rightarrow> u64 \<Rightarrow> bytes \<Rightarrow> bytes \<Rightarrow> u8 \<Rightarrow> u128 \<Rightarrow>
    address \<Rightarrow> u256 \<Rightarrow> ('b, asset_error, unit) smonad" where
  "write_base_meta H B asset_id symbol name decimals max_supply issuer registered_at =
     sbind (store_meta_string H B asset_id (bstr ''symbol'') symbol) (\<lambda>_.
     sbind (store_meta_string H B asset_id (bstr ''name'') name) (\<lambda>_.
     sbind (store_meta_u256 H B asset_id (bstr ''decimals'') (ucast decimals)) (\<lambda>_.
     sbind (store_meta_u256 H B asset_id (bstr ''issuer'') (address_to_u256 issuer)) (\<lambda>_.
     sbind (store_meta_u256 H B asset_id (bstr ''max_supply'') (u128_to_u256 max_supply)) (\<lambda>_.
     sbind (store_meta_u256 H B asset_id (bstr ''supply'') 0) (\<lambda>_.
     sbind (store_meta_u256 H B asset_id (bstr ''status'') 0) (\<lambda>_.
     sbind (store_meta_u256 H B asset_id (bstr ''compliance'') 0) (\<lambda>_.
     store_meta_u256 H B asset_id (bstr ''registered_at'') registered_at))))))))"

definition register :: "(bytes \<Rightarrow> u256) \<Rightarrow> 'b backend \<Rightarrow> bytes \<Rightarrow> bytes \<Rightarrow> u8 \<Rightarrow> u128 \<Rightarrow> address \<Rightarrow> u256 \<Rightarrow>
    ('b, asset_error, u64) smonad" where
  "register H B symbol name decimals max_supply issuer registered_at =
     sbind (sguard (18 < decimals) (InvalidDecimals decimals)) (\<lambda>_.
     sbind (allocate_asset_id B) (\<lambda>asset_id.
     sbind (write_base_meta H B asset_id symbol name decimals max_supply issuer registered_at) (\<lambda>_.
     sbind (store_meta_u256 H B asset_id (bstr ''has_erc20'') 0) (\<lambda>_.
     sret asset_id))))"

definition erc20_binding_slot :: "(bytes \<Rightarrow> u256) \<Rightarrow> address \<Rightarrow> u256" where
  "erc20_binding_slot H evm_contract =
     storage_slot H [bstr ''call:asset:erc20_binding'', to_be_bytes evm_contract]"

definition evm_contract_asset_id :: "(bytes \<Rightarrow> u256) \<Rightarrow> 'b backend \<Rightarrow> address \<Rightarrow> ('b, asset_error, u64 option) smonad" where
  "evm_contract_asset_id H B evm_contract =
     sbind (mload B ASSET_ADDRESS (erc20_binding_slot H evm_contract)) (\<lambda>raw.
     if raw = 0 then sret None
     else sbind (sguard (U64_MAX < raw) Asset_Panic) (\<lambda>_. sret (Some (ucast raw))))"

definition set_evm_contract_asset_id :: "(bytes \<Rightarrow> u256) \<Rightarrow> 'b backend \<Rightarrow> address \<Rightarrow> u64 \<Rightarrow> ('b, asset_error, unit) smonad" where
  "set_evm_contract_asset_id H B evm_contract asset_id =
     mstore B ASSET_ADDRESS (erc20_binding_slot H evm_contract) (ucast asset_id)"

definition register_erc20 :: "(bytes \<Rightarrow> u256) \<Rightarrow> 'b backend \<Rightarrow> address \<Rightarrow> bytes \<Rightarrow> bytes \<Rightarrow> u8 \<Rightarrow> u128 \<Rightarrow>
    address \<Rightarrow> u256 \<Rightarrow> ('b, asset_error, u64) smonad" where
  "register_erc20 H B evm_contract symbol name decimals max_supply issuer registered_at =
     sbind (sguard (18 < decimals) (InvalidDecimals decimals)) (\<lambda>_.
     sbind (evm_contract_asset_id H B evm_contract) (\<lambda>bound.
     sbind (sguard (bound \<noteq> None) (Erc20AlreadyBound evm_contract)) (\<lambda>_.
     sbind (allocate_asset_id B) (\<lambda>asset_id.
     sbind (write_base_meta H B asset_id symbol name decimals max_supply issuer registered_at) (\<lambda>_.
     sbind (store_meta_u256 H B asset_id (bstr ''has_erc20'') 1) (\<lambda>_.
     sbind (store_meta_u256 H B asset_id (bstr ''evm_contract'') (address_to_u256 evm_contract)) (\<lambda>_.
     sbind (set_evm_contract_asset_id H B evm_contract asset_id) (\<lambda>_.
     sret asset_id))))))))"

definition has_erc20 :: "(bytes \<Rightarrow> u256) \<Rightarrow> 'b backend \<Rightarrow> u64 \<Rightarrow> ('b, asset_error, bool) smonad" where
  "has_erc20 H B asset_id =
     (if asset_id = CALL_ASSET_ID then sret False
      else sbind (load_meta_u8 H B asset_id (bstr ''has_erc20'')) (\<lambda>v. sret (v = 1)))"

definition set_has_erc20 :: "(bytes \<Rightarrow> u256) \<Rightarrow> 'b backend \<Rightarrow> u64 \<Rightarrow> u8 \<Rightarrow> ('b, asset_error, unit) smonad" where
  "set_has_erc20 H B asset_id value = store_meta_u256 H B asset_id (bstr ''has_erc20'') (ucast value)"

definition set_evm_contract :: "(bytes \<Rightarrow> u256) \<Rightarrow> 'b backend \<Rightarrow> u64 \<Rightarrow> address \<Rightarrow> ('b, asset_error, unit) smonad" where
  "set_evm_contract H B asset_id addr =
     store_meta_u256 H B asset_id (bstr ''evm_contract'') (address_to_u256 addr)"

definition get_dominance :: "(bytes \<Rightarrow> u256) \<Rightarrow> 'b backend \<Rightarrow> u64 \<Rightarrow> ('b, asset_error, u8) smonad" where
  "get_dominance H B asset_id = load_meta_u8 H B asset_id (bstr ''dominance'')"

definition set_dominance :: "(bytes \<Rightarrow> u256) \<Rightarrow> 'b backend \<Rightarrow> u64 \<Rightarrow> u8 \<Rightarrow> ('b, asset_error, unit) smonad" where
  "set_dominance H B asset_id value = store_meta_u256 H B asset_id (bstr ''dominance'') (ucast value)"

definition next_asset_id :: "'b backend \<Rightarrow> ('b, asset_error, u64) smonad" where
  "next_asset_id B =
     sbind (mload B ASSET_ADDRESS 0) (\<lambda>raw.
     if U64_MAX < raw then sret (- 1)
     else let id = ucast raw :: u64 in sret (if id = 0 then 1 else id))"

end
