(* ===== verification/Asset_Laws.thy ===== *)
theory Asset_Laws
  imports Asset
begin

text \<open>
  Facts about the asset ledger. The slot layout: the keys hashed for different table entries are
  different byte strings, so a hash without collisions on the keys in use gives every entry its own
  slot. The functions run on \<open>pure_backend\<close> in closed form, and every lawful backend simulates them.
  The ledger invariant relates the balances of an asset to its recorded supply; all operations,
  failed ones included, keep it.
\<close>

section \<open>Definitions\<close>

datatype asset_key = Bal_Key u64 address | Allow_Key u64 address address | Meta_Key u64 string | Bind_Key address

fun asset_key_bytes :: "asset_key \<Rightarrow> bytes" where
  "asset_key_bytes (Bal_Key i a) = to_be_bytes i @ to_be_bytes a"
| "asset_key_bytes (Allow_Key i a b) = to_be_bytes i @ to_be_bytes a @ to_be_bytes b"
| "asset_key_bytes (Meta_Key i s) = to_be_bytes i @ bstr s"
| "asset_key_bytes (Bind_Key c) = bstr ''call:asset:erc20_binding'' @ to_be_bytes c"

fun asset_key_table :: "asset_key \<Rightarrow> nat" where
  "asset_key_table (Bal_Key i a) = 0"
| "asset_key_table (Allow_Key i a b) = 1"
| "asset_key_table (Meta_Key i s) = 2"
| "asset_key_table (Bind_Key c) = 3"

definition meta_names :: "string list" where
  "meta_names = [''symbol'', ''name'', ''decimals'', ''issuer'', ''max_supply'', ''supply'', ''status'',
     ''registered_at'', ''evm_contract'', ''dominance'', ''has_erc20'', ''compliance'']"

definition asset_keys :: "u64 set \<Rightarrow> address set \<Rightarrow> asset_key set" where
  "asset_keys ids accts =
     {Bal_Key i a | i a. i \<in> ids \<and> a \<in> accts} \<union>
     {Allow_Key i a b | i a b. i \<in> ids \<and> a \<in> accts \<and> b \<in> accts} \<union>
     {Meta_Key i s | i s. i \<in> ids \<and> s \<in> set meta_names} \<union> {Bind_Key a | a. a \<in> accts}"

text \<open>The hash has no collision on the keys in use, and does not hit the counter slot 0.\<close>

definition asset_hash_ok :: "(bytes \<Rightarrow> u256) \<Rightarrow> u64 set \<Rightarrow> address set \<Rightarrow> bool" where
  "asset_hash_ok H ids accts \<longleftrightarrow> hash_ok H (asset_key_bytes ` asset_keys ids accts)"

definition asset_slot :: "(bytes \<Rightarrow> u256) \<Rightarrow> asset_key \<Rightarrow> u256" where
  "asset_slot H k = H (asset_key_bytes k)"

abbreviation aload :: "(bytes \<Rightarrow> u256) \<Rightarrow> evm_storage \<Rightarrow> asset_key \<Rightarrow> u256" where
  "aload H m k \<equiv> m ASSET_ADDRESS (asset_slot H k)"

abbreviation aput :: "u256 \<Rightarrow> u256 \<Rightarrow> evm_storage \<Rightarrow> evm_storage" where
  "aput k v m \<equiv> sput ASSET_ADDRESS k v m"

text \<open>The state-changing operations, as values, and their dispatch.\<close>

datatype asset_op =
    Transfer u64 address address u128
  | Batch_Transfer u64 address "(address \<times> u128) list"
  | Approve u64 address address u128
  | Transfer_From u64 address address address u128
  | Mint u64 address address u128
  | Burn u64 address address u128
  | Register bytes bytes u8 u128 address u256
  | Register_Erc20 address bytes bytes u8 u128 address u256

fun run_op :: "(bytes \<Rightarrow> u256) \<Rightarrow> 'b backend \<Rightarrow> asset_op \<Rightarrow> ('b, asset_error, unit) smonad" where
  "run_op H B (Transfer i f t x) = transfer H B i f t x"
| "run_op H B (Batch_Transfer i f rs) = batch_transfer H B i f rs"
| "run_op H B (Approve i a b x) = approve H B i a b x"
| "run_op H B (Transfer_From i s f t x) = transfer_from H B i s f t x"
| "run_op H B (Mint i c t x) = mint H B i c t x"
| "run_op H B (Burn i c f x) = burn H B i c f x"
| "run_op H B (Register sy nm d mx iss ra) = sbind (register H B sy nm d mx iss ra) (\<lambda>_. sret ())"
| "run_op H B (Register_Erc20 e sy nm d mx iss ra) = sbind (register_erc20 H B e sy nm d mx iss ra) (\<lambda>_. sret ())"

text \<open>An upper bound on the storage accesses of an operation.\<close>

fun op_cost :: "asset_op \<Rightarrow> nat" where
  "op_cost (Batch_Transfer i f rs) = 4 * length rs"
| "op_cost op = 15"

text \<open>The first identifier that no registration has taken.\<close>

definition next_free :: "evm_storage \<Rightarrow> nat" where
  "next_free m = (let raw = m ASSET_ADDRESS 0 in if raw = 0 then 1 else unat raw)"

definition unassigned :: "evm_storage \<Rightarrow> u64 \<Rightarrow> bool" where
  "unassigned m i \<longleftrightarrow> i = 0 \<or> next_free m \<le> unat i"

text \<open>The assets and accounts an operation touches lie in the given sets.\<close>

fun op_within :: "u64 set \<Rightarrow> address set \<Rightarrow> evm_storage \<Rightarrow> asset_op \<Rightarrow> bool" where
  "op_within I A m (Transfer i f t x) \<longleftrightarrow> i \<in> I \<and> f \<in> A \<and> t \<in> A"
| "op_within I A m (Batch_Transfer i f rs) \<longleftrightarrow> i \<in> I \<and> f \<in> A \<and> fst ` set rs \<subseteq> A"
| "op_within I A m (Approve i a b x) \<longleftrightarrow> i \<in> I \<and> a \<in> A \<and> b \<in> A"
| "op_within I A m (Transfer_From i s f t x) \<longleftrightarrow> i \<in> I \<and> s \<in> A \<and> f \<in> A \<and> t \<in> A"
| "op_within I A m (Mint i c t x) \<longleftrightarrow> i \<in> I \<and> c \<in> A \<and> t \<in> A"
| "op_within I A m (Burn i c f x) \<longleftrightarrow> i \<in> I \<and> c \<in> A \<and> f \<in> A"
| "op_within I A m (Register sy nm d mx iss ra) \<longleftrightarrow> of_nat (next_free m) \<in> I"
| "op_within I A m (Register_Erc20 e sy nm d mx iss ra) \<longleftrightarrow> of_nat (next_free m) \<in> I \<and> e \<in> A"

text \<open>Storage maps reached from an empty asset contract by any sequence of calls, failed ones included.\<close>

inductive asset_reach :: "(bytes \<Rightarrow> u256) \<Rightarrow> u64 set \<Rightarrow> address set \<Rightarrow> evm_storage \<Rightarrow> bool"
  for H I A where
  empty: "(\<And>k. m ASSET_ADDRESS k = 0) \<Longrightarrow> asset_reach H I A m"
| step: "asset_reach H I A m \<Longrightarrow> op_within I A m op \<Longrightarrow> run_op H pure_backend op m = (r, m') \<Longrightarrow>
    asset_reach H I A m'"

definition total_balance :: "(bytes \<Rightarrow> u256) \<Rightarrow> address set \<Rightarrow> evm_storage \<Rightarrow> u64 \<Rightarrow> nat" where
  "total_balance H A m i = (\<Sum>a\<in>A. unat (aload H m (Bal_Key i a)))"

text \<open>
  The ledger of one asset: the balances add up to the recorded supply, which respects the 128-bit
  range and the cap; an identifier not yet given out has no supply, no issuer and no symbol.
\<close>

definition asset_inv1 :: "(bytes \<Rightarrow> u256) \<Rightarrow> address set \<Rightarrow> u64 \<Rightarrow> evm_storage \<Rightarrow> bool" where
  "asset_inv1 H A i m \<longleftrightarrow>
     (let w = (\<lambda>s. aload H m (Meta_Key i s)) in
      total_balance H A m i = unat (w ''supply'') \<and> unat (w ''supply'') < 2 ^ 128 \<and>
      (w ''max_supply'' \<noteq> 0 \<longrightarrow> w ''supply'' \<le> w ''max_supply'') \<and> unat (w ''max_supply'') < 2 ^ 128 \<and>
      (unassigned m i \<longrightarrow> w ''supply'' = 0 \<and> w ''issuer'' = 0 \<and> w ''symbol'' = 0))"

definition asset_inv :: "(bytes \<Rightarrow> u256) \<Rightarrow> u64 set \<Rightarrow> address set \<Rightarrow> evm_storage \<Rightarrow> bool" where
  "asset_inv H I A m \<longleftrightarrow> (\<forall>i\<in>I. asset_inv1 H A i m)"

text \<open>What \<^verbatim>\<open>read_meta\<close> returns on a storage map.\<close>

definition meta_of :: "(bytes \<Rightarrow> u256) \<Rightarrow> evm_storage \<Rightarrow> u64 \<Rightarrow> asset_error + asset_meta" where
  "meta_of H m i =
     (let w = (\<lambda>s. aload H m (Meta_Key i s)) in
      case from_utf8 (word_string (w ''symbol'')) of
        None \<Rightarrow> Inl (InvalidMetadata (from_utf8_lossy (bstr ''symbol'')))
      | Some sy \<Rightarrow>
          if (ucast (w ''issuer'') :: address) = 0 \<and> sy = [] then Inl AssetNotFound
          else (case from_utf8 (word_string (w ''name'')) of
             None \<Rightarrow> Inl (InvalidMetadata (from_utf8_lossy (bstr ''name'')))
           | Some nm \<Rightarrow> Inr \<lparr>am_symbol = sy, am_name = nm, am_decimals = ucast (w ''decimals''),
               am_issuer = ucast (w ''issuer''), am_max_supply = ucast (w ''max_supply''),
               am_supply = ucast (w ''supply''), am_status = ucast (w ''status''),
               am_registered_at = w ''registered_at'', am_evm_contract = ucast (w ''evm_contract''),
               am_dominance = ucast (w ''dominance'')\<rparr>))"

section \<open>The slot layout\<close>

lemma asset_slots:
  "slot_balance H i a = asset_slot H (Bal_Key i a)"
  "slot_allowance H i a b = asset_slot H (Allow_Key i a b)"
  "slot_asset_meta H i (bstr s) = asset_slot H (Meta_Key i s)"
  "erc20_binding_slot H c = asset_slot H (Bind_Key c)"
  by (simp_all add: asset_slot_def slot_balance_def slot_allowance_def slot_asset_meta_def
      erc20_binding_slot_def storage_slot_def)

lemma bstr_inject: "bstr s = bstr t \<longleftrightarrow> s = t"
proof -
  have "inj (\<lambda>c :: char. of_nat (of_char c) :: u8)"
  proof (rule injI)
    fix c d :: char
    assume "(of_nat (of_char c) :: u8) = of_nat (of_char d)"
    then have "unat (of_nat (of_char c) :: u8) = unat (of_nat (of_char d) :: u8)" by simp
    then have "(of_char c :: nat) = of_char d" by (simp add: unat_of_nat)
    then show "c = d" by simp
  qed
  then show ?thesis by (simp add: bstr_def inj_map_eq_map)
qed

lemma meta_name_lengths: "s \<in> set meta_names \<Longrightarrow> length s < 14"
  by (auto simp: meta_names_def)

lemma asset_key_bytes_inj: "inj_on asset_key_bytes (asset_keys ids accts)"
proof (rule inj_onI)
  fix k l
  assume "k \<in> asset_keys ids accts" "l \<in> asset_keys ids accts" and eq: "asset_key_bytes k = asset_key_bytes l"
  then have nm: "\<forall>i s. k = Meta_Key i s \<longrightarrow> length s < 14" "\<forall>i s. l = Meta_Key i s \<longrightarrow> length s < 14"
    by (auto simp: asset_keys_def dest: meta_name_lengths)
  from eq have "length (asset_key_bytes k) = length (asset_key_bytes l)" by simp
  with nm have "asset_key_table k = asset_key_table l"
    by (cases k; cases l) simp_all
  with eq show "k = l"
    by (cases k; cases l) (auto simp: bstr_inject)
qed

lemma asset_slot_eq:
  assumes "asset_hash_ok H ids accts" "k \<in> asset_keys ids accts" "l \<in> asset_keys ids accts"
  shows "asset_slot H k = asset_slot H l \<longleftrightarrow> k = l"
  using assms asset_key_bytes_inj [of ids accts] hash_ok_eq
  by (metis asset_hash_ok_def asset_slot_def imageI inj_onD)

lemma asset_slot_nonzero:
  assumes "asset_hash_ok H ids accts" "k \<in> asset_keys ids accts"
  shows "asset_slot H k \<noteq> 0"
  using assms by (auto simp: asset_hash_ok_def asset_slot_def hash_ok_nonzero)

lemma asset_keys_iff [simp]:
  "Bal_Key i a \<in> asset_keys ids accts \<longleftrightarrow> i \<in> ids \<and> a \<in> accts"
  "Allow_Key i a b \<in> asset_keys ids accts \<longleftrightarrow> i \<in> ids \<and> a \<in> accts \<and> b \<in> accts"
  "Meta_Key i s \<in> asset_keys ids accts \<longleftrightarrow> i \<in> ids \<and> s \<in> set meta_names"
  "Bind_Key a \<in> asset_keys ids accts \<longleftrightarrow> a \<in> accts"
  by (auto simp: asset_keys_def)

lemma aload_aput:
  assumes "asset_hash_ok H ids accts" "k \<in> asset_keys ids accts" "l \<in> asset_keys ids accts"
  shows "aload H (aput (asset_slot H k) v m) l = (if l = k then v else aload H m l)"
  using asset_slot_eq [OF assms] by (auto simp: sput_apply)

lemma aload_aput_counter:
  assumes "asset_hash_ok H ids accts" "k \<in> asset_keys ids accts"
  shows "aload H (aput 0 v m) k = aload H m k"
    and "aput (asset_slot H k) v m ASSET_ADDRESS 0 = m ASSET_ADDRESS 0"
  using asset_slot_nonzero [OF assms] by (simp_all add: sput_apply)

section \<open>Runs on the storage map\<close>

lemma U128_MAX_less: "U128_MAX < raw \<longleftrightarrow> 2 ^ 128 \<le> unat raw"
  by (simp add: U128_MAX_def word_less_nat_alt) linarith

lemma U64_MAX_less: "U64_MAX < raw \<longleftrightarrow> 2 ^ 64 \<le> unat raw"
  by (simp add: U64_MAX_def word_less_nat_alt) linarith

lemma read_balance_pure [pure_simps]:
  "read_balance H pure_backend i a m =
     (if 2 ^ 128 \<le> unat (aload H m (Bal_Key i a)) then Inl BalanceOverflow
      else Inr (ucast (aload H m (Bal_Key i a))), m)"
  by (simp add: read_balance_def asset_slots U128_MAX_less)

lemma read_allowance_pure [pure_simps]:
  "read_allowance H pure_backend i a b m =
     (if 2 ^ 128 \<le> unat (aload H m (Allow_Key i a b)) then Inl BalanceOverflow
      else Inr (ucast (aload H m (Allow_Key i a b))), m)"
  by (simp add: read_allowance_def asset_slots U128_MAX_less)

lemma write_balance_pure [pure_simps]:
  "write_balance H pure_backend i a v m = (Inr (), aput (asset_slot H (Bal_Key i a)) (ucast v) m)"
  by (simp add: write_balance_def asset_slots pure_simps)

lemma write_allowance_pure [pure_simps]:
  "write_allowance H pure_backend i a b v m = (Inr (), aput (asset_slot H (Allow_Key i a b)) (ucast v) m)"
  by (simp add: write_allowance_def asset_slots pure_simps)

lemma store_meta_u256_pure [pure_simps]:
  "store_meta_u256 H pure_backend i (bstr s) v m = (Inr (), aput (asset_slot H (Meta_Key i s)) v m)"
  by (simp add: store_meta_u256_def asset_slots pure_simps)

lemma load_meta_pure [pure_simps]:
  "load_meta_u256 H pure_backend i (bstr s) m = (Inr (aload H m (Meta_Key i s)), m)"
  "load_meta_u128 H pure_backend i (bstr s) m = (Inr (ucast (aload H m (Meta_Key i s))), m)"
  "load_meta_u8 H pure_backend i (bstr s) m = (Inr (ucast (aload H m (Meta_Key i s))), m)"
  "load_meta_address H pure_backend i (bstr s) m = (Inr (ucast (aload H m (Meta_Key i s))), m)"
  using u256_to_address_def
  by (simp_all add: load_meta_u256_def load_meta_u128_def load_meta_u8_def load_meta_address_def
      asset_slots to_be_bytes_last flip: u256_to_address_def)

lemma load_meta_string_pure [pure_simps]:
  "load_meta_string H pure_backend i (bstr s) m =
     (case from_utf8 (word_string (aload H m (Meta_Key i s))) of
        None \<Rightarrow> Inl (InvalidMetadata (from_utf8_lossy (bstr s))) | Some x \<Rightarrow> Inr x, m)"
  by (simp add: load_meta_string_def pure_simps split: option.splits)

lemma unat_ucast_u128_le:
  fixes x :: u256
  assumes "unat x < 2 ^ 128"
  shows "unat (ucast x :: u128) = unat x" and "(ucast (ucast x :: u128) :: u256) = x"
proof -
  show u: "unat (ucast x :: u128) = unat x"
    using assms by (simp add: unsigned_ucast_eq take_bit_nat_eq_self)
  show "(ucast (ucast x :: u128) :: u256) = x"
    by (simp only: word_unat_eq_iff unat_ucast_u256 u)
qed

text \<open>Balance arithmetic in 128 bits agrees with the arithmetic of storage words.\<close>

lemma widen_add:
  fixes r :: u256 and x :: u128
  assumes "unat r + unat x < 2 ^ 128"
  shows "(ucast (ucast r + x) :: u256) = r + ucast x"
proof -
  have r: "unat (ucast r :: u128) = unat r" using assms by (intro unat_ucast_u128_le) simp
  have "unat (ucast r + x) = unat r + unat x"
    using assms r by (simp add: unat_add_no_overflow)
  moreover have "unat (r + ucast x) = unat r + unat x"
    using assms by (simp add: unat_add_no_overflow)
  ultimately show ?thesis by (simp only: word_unat_eq_iff unat_ucast_u256)
qed

lemma widen_sub:
  fixes r :: u256 and x :: u128
  assumes "unat r < 2 ^ 128" "unat x \<le> unat r"
  shows "(ucast (ucast r - x) :: u256) = r - ucast x"
proof -
  have r: "unat (ucast r :: u128) = unat r" using assms by (intro unat_ucast_u128_le) simp
  have "unat (ucast r - x) = unat r - unat x" and "unat (r - ucast x) = unat r - unat x"
    using assms r by (simp_all add: unat_sub word_le_nat_alt)
  then show ?thesis by (simp only: word_unat_eq_iff unat_ucast_u256)
qed

lemma checked_add_narrow:
  fixes r :: u256 and x :: u128
  assumes "unat r < 2 ^ 128"
  shows "checked_add (ucast r) x = (if unat r + unat x < 2 ^ 128 then Some (ucast r + x) else None)"
  using unat_ucast_u128_le(1) [OF assms] by (simp add: checked_add_def)

lemma checked_sub_narrow:
  fixes r :: u256 and x :: u128
  assumes "unat r < 2 ^ 128"
  shows "checked_sub (ucast r) x = (if unat x \<le> unat r then Some (ucast r - x) else None)"
  using unat_ucast_u128_le(1) [OF assms] by (simp add: checked_sub_def word_le_nat_alt)

lemma add_balance_pure:
  "add_balance H pure_backend i a x m =
     (let b = aload H m (Bal_Key i a) in
      if 2 ^ 128 \<le> unat b + unat x then (Inl BalanceOverflow, m)
      else (Inr (), aput (asset_slot H (Bal_Key i a)) (b + ucast x) m))"
  by (simp add: add_balance_def sbind_run pure_simps checked_add_narrow widen_add Let_def not_le)

lemma deduct_balance_pure:
  "deduct_balance H pure_backend i a x m =
     (let b = aload H m (Bal_Key i a) in
      if 2 ^ 128 \<le> unat b then (Inl BalanceOverflow, m)
      else if unat b < unat x then (Inl InsufficientBalance, m)
      else (Inr (), aput (asset_slot H (Bal_Key i a)) (b - ucast x) m))"
  by (simp add: deduct_balance_def sbind_run pure_simps checked_sub_narrow widen_sub Let_def not_le)

lemma transfer_pure:
  "transfer H pure_backend i f t x m =
     (let bt = aload H m (Bal_Key i t); bf = aload H m (Bal_Key i f) in
      if 2 ^ 128 \<le> unat bt + unat x then (Inl BalanceOverflow, m)
      else if f = t then (Inr (), m)
      else if 2 ^ 128 \<le> unat bf then (Inl BalanceOverflow, m)
      else if unat bf < unat x then (Inl InsufficientBalance, m)
      else (Inr (), aput (asset_slot H (Bal_Key i t)) (bt + ucast x)
                      (aput (asset_slot H (Bal_Key i f)) (bf - ucast x) m)))"
proof -
  let ?bt = "aload H m (Bal_Key i t)"
  consider (big) "2 ^ 128 \<le> unat ?bt" | (over) "unat ?bt < 2 ^ 128" "2 ^ 128 \<le> unat ?bt + unat x"
    | (fits) "unat ?bt + unat x < 2 ^ 128" by linarith
  then show ?thesis
  proof cases
    case big
    then show ?thesis by (simp add: transfer_def sbind_run pure_simps)
  next
    case over
    then show ?thesis by (simp add: transfer_def sbind_run pure_simps checked_add_narrow)
  next
    case fits
    then have "unat ?bt < 2 ^ 128" by simp
    with fits show ?thesis
      by (simp add: transfer_def sbind_run pure_simps checked_add_narrow deduct_balance_pure widen_add Let_def)
  qed
qed

lemma read_meta_pure [pure_simps]: "read_meta H pure_backend i m = (meta_of H m i, m)"
  by (simp add: read_meta_def meta_of_def sbind_run pure_simps Let_def split: option.splits)

lemma approve_pure:
  "approve H pure_backend i a b x m = (case meta_of H m i of
     Inl e \<Rightarrow> (Inl e, m) | Inr _ \<Rightarrow> (Inr (), aput (asset_slot H (Allow_Key i a b)) (ucast x) m))"
  by (simp add: approve_def sbind_run pure_simps split: sum.splits)

lemma transfer_from_pure:
  "transfer_from H pure_backend i sp f t x m =
     (let al = aload H m (Allow_Key i f sp) in
      if 2 ^ 128 \<le> unat al then (Inl BalanceOverflow, m)
      else if unat al < unat x then (Inl InsufficientAllowance, m)
      else (case transfer H pure_backend i f t x m of
          (Inl e, m') \<Rightarrow> (Inl e, m')
        | (Inr _, m') \<Rightarrow> (Inr (), aput (asset_slot H (Allow_Key i f sp)) (al - ucast x) m')))"
proof (cases "2 ^ 128 \<le> unat (aload H m (Allow_Key i f sp))")
  case True
  then show ?thesis by (simp add: transfer_from_def sbind_run pure_simps)
next
  case False
  then have l: "unat (aload H m (Allow_Key i f sp)) < 2 ^ 128" by simp
  note u = unat_ucast_u128_le(1) [OF l] widen_sub [OF l]
  from False u show ?thesis
    by (simp add: transfer_from_def sbind_run pure_simps word_less_nat_alt Let_def not_less
        split: prod.splits sum.splits)
qed

lemma mint_pure:
  "mint H pure_backend i c t x m = (case meta_of H m i of
     Inl e \<Rightarrow> (Inl e, m)
   | Inr meta \<Rightarrow>
       if am_issuer meta \<noteq> c then (Inl NotIssuer, m)
       else if 2 ^ 128 \<le> unat (am_supply meta) + unat x then (Inl SupplyOverflow, m)
       else if 0 < am_max_supply meta \<and> unat (am_max_supply meta) < unat (am_supply meta) + unat x
       then (Inl MaxSupplyExceeded, m)
       else if 2 ^ 128 \<le> unat (aload H m (Bal_Key i t)) + unat x then (Inl BalanceOverflow, m)
       else (Inr (), aput (asset_slot H (Meta_Key i ''supply'')) (ucast (am_supply meta + x))
              (aput (asset_slot H (Bal_Key i t)) (aload H m (Bal_Key i t) + ucast x) m)))"
proof (cases "meta_of H m i")
  case (Inl e)
  then show ?thesis by (simp add: mint_def sbind_run pure_simps)
next
  case (Inr meta)
  show ?thesis
  proof (cases "unat (am_supply meta) + unat x < 2 ^ 128")
    case True
    then have "unat (am_supply meta + x) = unat (am_supply meta) + unat x"
      by (simp add: unat_add_no_overflow)
    with True Inr show ?thesis
      by (simp add: mint_def sbind_run pure_simps add_balance_pure checked_add_def word_less_nat_alt Let_def)
  next
    case False
    with Inr show ?thesis
      by (simp add: mint_def sbind_run pure_simps checked_add_def)
  qed
qed

lemma burn_pure:
  "burn H pure_backend i c f x m =
     (let al = aload H m (Allow_Key i f c); b = aload H m (Bal_Key i f);
          m1 = aput (asset_slot H (Bal_Key i f)) (b - ucast x) m;
          m2 = (if c \<noteq> f then aput (asset_slot H (Allow_Key i f c)) (al - ucast x) m1 else m1);
          sup = (ucast (aload H m2 (Meta_Key i ''supply'')) :: u128) in
      if c \<noteq> f \<and> 2 ^ 128 \<le> unat al then (Inl BalanceOverflow, m)
      else if c \<noteq> f \<and> unat al < unat x then (Inl InsufficientAllowance, m)
      else if 2 ^ 128 \<le> unat b then (Inl BalanceOverflow, m)
      else if unat b < unat x then (Inl InsufficientBalance, m)
      else if sup < x then (Inl SupplyUnderflow, m2)
      else (Inr (), aput (asset_slot H (Meta_Key i ''supply'')) (ucast (sup - x)) m2))"
proof (cases "c = f")
  case True
  then show ?thesis
    by (auto simp: burn_def sbind_run pure_simps deduct_balance_pure checked_sub_def Let_def)
next
  case False
  let ?al = "aload H m (Allow_Key i f c)"
  show ?thesis
  proof (cases "2 ^ 128 \<le> unat ?al")
    case True
    with False show ?thesis by (simp add: burn_def sbind_run pure_simps)
  next
    case small: False
    then have l: "unat ?al < 2 ^ 128" by simp
    note u = unat_ucast_u128_le(1) [OF l] widen_sub [OF l]
    show ?thesis
    proof (cases "unat ?al < unat x")
      case True
      with False small u show ?thesis
        by (simp add: burn_def sbind_run pure_simps word_less_nat_alt)
    next
      case enough: False
      with False small u show ?thesis
        by (simp add: burn_def sbind_run pure_simps word_less_nat_alt deduct_balance_pure Let_def)
           (auto simp: pure_simps checked_sub_def word_less_nat_alt word_le_nat_alt)
    qed
  qed
qed

lemma allocate_pure:
  "allocate_asset_id pure_backend m =
     (let raw = m ASSET_ADDRESS 0; i = (if raw = 0 then 1 else ucast raw :: u64) in
      if 2 ^ 64 \<le> unat raw \<or> unat i = 2 ^ 64 - 1 then (Inl AssetIdOverflow, m)
      else (Inr i, aput 0 (ucast (i + 1)) m))"
proof (cases "2 ^ 64 \<le> unat (m ASSET_ADDRESS 0)")
  case True
  then show ?thesis
    by (simp add: allocate_asset_id_def sbind_run U64_MAX_less Let_def)
next
  case False
  let ?raw = "m ASSET_ADDRESS 0"
  from False have u: "unat (ucast ?raw :: u64) = unat ?raw"
    by (simp add: unsigned_ucast_eq take_bit_nat_eq_self)
  then have z: "(ucast ?raw :: u64) = 0 \<longleftrightarrow> ?raw = 0"
    by (metis unat_eq_zero)
  have c: "checked_add j 1 = (if unat j = 2 ^ 64 - 1 then None else Some (j + 1))" for j :: u64
    using unsigned_less [of j, where ?'a = nat] by (auto simp: checked_add_def)
  from False z show ?thesis
    by (simp add: allocate_asset_id_def sbind_run U64_MAX_less Let_def c del: One_nat_def)
qed

section \<open>The ledger invariant\<close>

lemma sum_fun_upd_nat:
  fixes f :: "'a \<Rightarrow> nat"
  assumes "finite A" "x \<in> A"
  shows "(\<Sum>a\<in>A. if a = x then v else f a) + f x = (\<Sum>a\<in>A. f a) + v"
proof -
  have "(\<Sum>a\<in>A. if a = x then v else f a) = v + (\<Sum>a\<in>A - {x}. f a)"
    using assms by (simp add: sum.remove [of A x] if_distrib cong: if_cong)
  moreover have "(\<Sum>a\<in>A. f a) = f x + (\<Sum>a\<in>A - {x}. f a)"
    using assms by (rule sum.remove)
  ultimately show ?thesis by simp
qed

lemma total_balance_put:
  assumes "asset_hash_ok H I A" "i \<in> I" "x \<in> A" "finite A"
  shows "total_balance H A (aput (asset_slot H (Bal_Key i x)) v m) i + unat (aload H m (Bal_Key i x))
    = total_balance H A m i + unat v"
proof -
  have "unat (aload H (aput (asset_slot H (Bal_Key i x)) v m) (Bal_Key i a))
      = (if a = x then unat v else unat (aload H m (Bal_Key i a)))" if "a \<in> A" for a
    using that assms by (simp add: aload_aput [OF assms(1)])
  then have "total_balance H A (aput (asset_slot H (Bal_Key i x)) v m) i
      = (\<Sum>a\<in>A. if a = x then unat v else unat (aload H m (Bal_Key i a)))"
    by (simp add: total_balance_def)
  with sum_fun_upd_nat [OF assms(4,3), of "unat v" "\<lambda>a. unat (aload H m (Bal_Key i a))"]
  show ?thesis by (simp add: total_balance_def)
qed

lemma total_balance_frame:
  assumes "asset_hash_ok H I A" "i \<in> I" "k \<in> asset_keys I A" "\<And>a. k \<noteq> Bal_Key i a"
  shows "total_balance H A (aput (asset_slot H k) v m) i = total_balance H A m i"
  unfolding total_balance_def
  using assms by (intro sum.cong refl) (auto simp: aload_aput [OF assms(1,3)])

lemma total_balance_counter:
  assumes "asset_hash_ok H I A" "i \<in> I"
  shows "total_balance H A (aput 0 v m) i = total_balance H A m i"
  unfolding total_balance_def
  using assms by (intro sum.cong refl) (simp add: aload_aput_counter)

lemma balance_le_total:
  "finite A \<Longrightarrow> a \<in> A \<Longrightarrow> unat (aload H m (Bal_Key i a)) \<le> total_balance H A m i"
  unfolding total_balance_def by (rule member_le_sum) auto

lemma two_balances_le_total:
  assumes "finite A" "a \<in> A" "b \<in> A" "a \<noteq> b"
  shows "unat (aload H m (Bal_Key i a)) + unat (aload H m (Bal_Key i b)) \<le> total_balance H A m i"
proof -
  have "(\<Sum>x\<in>{a, b}. unat (aload H m (Bal_Key i x))) \<le> total_balance H A m i"
    unfolding total_balance_def using assms by (intro sum_mono2) auto
  with assms(4) show ?thesis by simp
qed

lemma next_free_frame:
  "asset_hash_ok H I A \<Longrightarrow> k \<in> asset_keys I A \<Longrightarrow> next_free (aput (asset_slot H k) v m) = next_free m"
  by (simp add: next_free_def aload_aput_counter)

lemma unassigned_frame:
  "asset_hash_ok H I A \<Longrightarrow> k \<in> asset_keys I A \<Longrightarrow> unassigned (aput (asset_slot H k) v m) i = unassigned m i"
  by (simp add: unassigned_def next_free_frame)

lemma meta_name_mem [simp]:
  "''symbol'' \<in> set meta_names" "''name'' \<in> set meta_names" "''decimals'' \<in> set meta_names"
  "''issuer'' \<in> set meta_names" "''max_supply'' \<in> set meta_names" "''supply'' \<in> set meta_names"
  "''status'' \<in> set meta_names" "''registered_at'' \<in> set meta_names" "''evm_contract'' \<in> set meta_names"
  "''dominance'' \<in> set meta_names" "''has_erc20'' \<in> set meta_names" "''compliance'' \<in> set meta_names"
  by (simp_all add: meta_names_def)

text \<open>Writing an entry outside the ledger proper of an asset keeps its invariant.\<close>

lemma asset_inv1_frame:
  assumes "asset_hash_ok H I A" "i \<in> I" "k \<in> asset_keys I A" "\<And>a. k \<noteq> Bal_Key i a"
    "\<And>s. s \<in> {''supply'', ''max_supply'', ''issuer'', ''symbol''} \<Longrightarrow> k \<noteq> Meta_Key i s"
  shows "asset_inv1 H A i (aput (asset_slot H k) v m) = asset_inv1 H A i m"
proof -
  have "aload H (aput (asset_slot H k) v m) (Meta_Key i s) = aload H m (Meta_Key i s)"
    if "s \<in> {''supply'', ''max_supply'', ''issuer'', ''symbol''}" for s
    using that assms(5) [OF that] assms(2) by (auto simp: aload_aput [OF assms(1,3)])
  then show ?thesis
    using assms(1-4) by (simp add: asset_inv1_def total_balance_frame unassigned_frame)
qed

lemma asset_inv1_D:
  assumes "asset_inv1 H A i m"
  shows "total_balance H A m i = unat (aload H m (Meta_Key i ''supply''))"
    and "unat (aload H m (Meta_Key i ''supply'')) < 2 ^ 128"
    and "aload H m (Meta_Key i ''max_supply'') \<noteq> 0 \<Longrightarrow>
      aload H m (Meta_Key i ''supply'') \<le> aload H m (Meta_Key i ''max_supply'')"
    and "unat (aload H m (Meta_Key i ''max_supply'')) < 2 ^ 128"
    and "unassigned m i \<Longrightarrow> aload H m (Meta_Key i ''supply'') = 0 \<and>
      aload H m (Meta_Key i ''issuer'') = 0 \<and> aload H m (Meta_Key i ''symbol'') = 0"
  using assms by (simp_all add: asset_inv1_def Let_def)

text \<open>A balance update together with a supply update of the same amount.\<close>

lemma asset_inv1_supply:
  assumes h: "asset_hash_ok H I A" "finite A" "i \<in> I" "x \<in> A" and inv: "asset_inv1 H A i m"
    and reg: "unassigned m i \<Longrightarrow> w = 0" and w: "unat w < 2 ^ 128"
    and sum: "unat v + unat (aload H m (Meta_Key i ''supply'')) = unat (aload H m (Bal_Key i x)) + unat w"
    and cap: "aload H m (Meta_Key i ''max_supply'') \<noteq> 0 \<Longrightarrow> w \<le> aload H m (Meta_Key i ''max_supply'')"
  shows "asset_inv1 H A i (aput (asset_slot H (Meta_Key i ''supply'')) w
    (aput (asset_slot H (Bal_Key i x)) v m))"
proof -
  let ?m1 = "aput (asset_slot H (Bal_Key i x)) v m"
  have "total_balance H A ?m1 i + unat (aload H m (Bal_Key i x)) = unat (aload H m (Meta_Key i ''supply'')) + unat v"
    using total_balance_put [OF h(1,3,4,2)] asset_inv1_D(1) [OF inv] by simp
  with sum have "total_balance H A ?m1 i = unat w" by linarith
  moreover have "total_balance H A (aput (asset_slot H (Meta_Key i ''supply'')) w ?m1) i = total_balance H A ?m1 i"
    using h by (intro total_balance_frame) simp_all
  moreover have "unassigned (aput (asset_slot H (Meta_Key i ''supply'')) w ?m1) i = unassigned m i"
    using h by (simp add: unassigned_frame [OF h(1)])
  ultimately show ?thesis
    using h w cap reg asset_inv1_D(4,5) [OF inv]
    by (simp add: asset_inv1_def Let_def aload_aput [OF h(1)])
qed

text \<open>Two balance updates that cancel.\<close>

lemma asset_inv1_move:
  assumes h: "asset_hash_ok H I A" "finite A" "i \<in> I" "f \<in> A" "t \<in> A" "f \<noteq> t" and inv: "asset_inv1 H A i m"
    and sum: "unat v + unat w = unat (aload H m (Bal_Key i f)) + unat (aload H m (Bal_Key i t))"
  shows "asset_inv1 H A i (aput (asset_slot H (Bal_Key i t)) w (aput (asset_slot H (Bal_Key i f)) v m))"
proof -
  let ?m1 = "aput (asset_slot H (Bal_Key i f)) v m" and ?m2 = "aput (asset_slot H (Bal_Key i t)) w (aput (asset_slot H (Bal_Key i f)) v m)"
  have "total_balance H A ?m1 i + unat (aload H m (Bal_Key i f)) = total_balance H A m i + unat v"
    using total_balance_put [OF h(1,3,4,2)] .
  moreover have "total_balance H A ?m2 i + unat (aload H m (Bal_Key i t)) = total_balance H A ?m1 i + unat w"
    using total_balance_put [OF h(1,3,5,2), of w ?m1] h by (simp add: aload_aput [OF h(1)])
  ultimately have "total_balance H A ?m2 i = total_balance H A m i" using sum by linarith
  moreover have "unassigned ?m2 i = unassigned m i" using h by (simp add: unassigned_frame [OF h(1)])
  ultimately show ?thesis
    using h inv by (simp add: asset_inv1_def Let_def aload_aput [OF h(1)])
qed

lemma asset_inv1_two_assets:
  assumes h: "asset_hash_ok H I A" "i \<in> I" "j \<in> I" "j \<noteq> i" "k \<in> asset_keys I A"
    and k: "k \<in> {Bal_Key i a, Allow_Key i b c, Meta_Key i s, Bind_Key d}"
  shows "asset_inv1 H A j (aput (asset_slot H k) v m) = asset_inv1 H A j m"
  using h k by (intro asset_inv1_frame [OF h(1,3,5)]) auto

lemma transfer_inv:
  assumes h: "asset_hash_ok H I A" "finite A" "i \<in> I" "f \<in> A" "t \<in> A"
    and inv: "asset_inv H I A m" and r: "transfer H pure_backend i f t x m = (r, m')"
  shows "asset_inv H I A m'"
proof (cases "m' = m")
  case False
  let ?bf = "aload H m (Bal_Key i f)" and ?bt = "aload H m (Bal_Key i t)"
  from r False have ft: "f \<noteq> t" and b: "unat ?bt + unat x < 2 ^ 128" "unat x \<le> unat ?bf"
    and m': "m' = aput (asset_slot H (Bal_Key i t)) (?bt + ucast x) (aput (asset_slot H (Bal_Key i f)) (?bf - ucast x) m)"
    by (simp_all add: transfer_pure Let_def split: if_splits)
  have u: "unat (?bt + ucast x) = unat ?bt + unat x" "unat (?bf - ucast x) = unat ?bf - unat x"
    using b by (simp_all add: unat_add_no_overflow unat_sub word_le_nat_alt)
  have "asset_inv1 H A i m'"
    unfolding m' using h ft inv b u
    by (intro asset_inv1_move [OF h(1-5)]) (auto simp: asset_inv_def)
  moreover have "asset_inv1 H A j m'" if "j \<in> I" "j \<noteq> i" for j
    using h that inv by (simp add: m' asset_inv1_two_assets [OF h(1,3) that] asset_inv_def)
  ultimately show ?thesis by (auto simp: asset_inv_def)
qed (use inv in simp)

lemma allowance_inv:
  assumes h: "asset_hash_ok H I A" "i \<in> I" "a \<in> A" "b \<in> A"
  shows "asset_inv H I A (aput (asset_slot H (Allow_Key i a b)) v m) = asset_inv H I A m"
  using h by (simp add: asset_inv_def asset_inv1_frame [OF h(1)])

lemma batch_transfer_inv:
  assumes h: "asset_hash_ok H I A" "finite A" "i \<in> I" "f \<in> A" "fst ` set rs \<subseteq> A"
  shows "maintains (asset_inv H I A) (batch_transfer H pure_backend i f rs)"
  using h(5)
proof (induction rs)
  case Nil
  show ?case by (simp add: batch_transfer_def maintains_def)
next
  case (Cons p rs)
  obtain t x where p: "p = (t, x)" by (cases p)
  have "maintains (asset_inv H I A) (transfer H pure_backend i f t x)"
    using transfer_inv [OF h(1-4), of t] Cons.prems p by (fastforce intro: maintainsI simp: prod_eq_iff)
  with Cons p show ?case
    by (simp add: batch_transfer_def maintains_bind)
qed

lemma transfer_from_inv:
  assumes h: "asset_hash_ok H I A" "finite A" "i \<in> I" "s \<in> A" "f \<in> A" "t \<in> A"
    and inv: "asset_inv H I A m" and r: "transfer_from H pure_backend i s f t x m = (r, m')"
  shows "asset_inv H I A m'"
proof (cases "transfer H pure_backend i f t x m")
  case (Pair r1 m1)
  have "asset_inv H I A m1" using transfer_inv [OF h(1,2,3,5,6) inv Pair] .
  with r Pair inv h show ?thesis
    by (cases r1) (auto simp: transfer_from_pure Let_def allowance_inv [OF h(1)] split: if_splits)
qed

lemma word_string_0: "word_string 0 = []"
proof -
  have "nat_be n 0 = replicate n 0" for n
    by (induction n) (simp_all add: replicate_append_same)
  then show ?thesis by (simp add: word_string_def to_be_bytes_def)
qed

lemma meta_of_unassigned:
  assumes "asset_inv1 H A i m" "unassigned m i"
  shows "meta_of H m i = Inl AssetNotFound"
  using asset_inv1_D(5) [OF assms] by (simp add: meta_of_def Let_def word_string_0 from_utf8_def)

lemma meta_of_fields:
  "meta_of H m i = Inr meta \<Longrightarrow> am_supply meta = ucast (aload H m (Meta_Key i ''supply'')) \<and>
     am_max_supply meta = ucast (aload H m (Meta_Key i ''max_supply''))
     \<and> am_issuer meta = ucast (aload H m (Meta_Key i ''issuer''))"
  by (auto simp: meta_of_def Let_def split: option.splits if_splits)

lemma mint_inv:
  assumes h: "asset_hash_ok H I A" "finite A" "i \<in> I" "t \<in> A"
    and inv: "asset_inv H I A m" and r: "mint H pure_backend i c t x m = (r, m')"
  shows "asset_inv H I A m'"
proof (cases "m' = m")
  case False
  let ?b = "aload H m (Bal_Key i t)" and ?s = "aload H m (Meta_Key i ''supply'')"
    and ?mx = "aload H m (Meta_Key i ''max_supply'')"
  have inv1: "asset_inv1 H A i m" using inv h by (simp add: asset_inv_def)
  note D = asset_inv1_D [OF inv1]
  from r False obtain meta where meta: "meta_of H m i = Inr meta"
    by (auto simp: mint_pure split: sum.splits)
  note f = meta_of_fields [OF meta]
  have reg: "\<not> unassigned m i" using meta meta_of_unassigned [OF inv1] by auto
  have us: "unat (am_supply meta) = unat ?s" "unat (am_max_supply meta) = unat ?mx"
    using f D(2,4) by (simp_all add: unat_ucast_u128_le)
  have mx0: "am_max_supply meta = 0 \<longleftrightarrow> ?mx = 0" using us(2) by (metis unat_eq_zero)
  from r False meta us mx0 have c: "unat ?s + unat x < 2 ^ 128" "unat ?b + unat x < 2 ^ 128"
      "?mx \<noteq> 0 \<Longrightarrow> unat ?s + unat x \<le> unat ?mx"
    and m': "m' = aput (asset_slot H (Meta_Key i ''supply'')) (ucast (am_supply meta + x))
              (aput (asset_slot H (Bal_Key i t)) (?b + ucast x) m)"
    by (auto simp: mint_pure word_gt_0 split: if_splits)
  have w: "unat (ucast (am_supply meta + x) :: u256) = unat ?s + unat x"
    using c(1) us(1) by (simp add: unat_add_no_overflow)
  have "unat (?b + ucast x) = unat ?b + unat x" using c(2) by (simp add: unat_add_no_overflow)
  then have "asset_inv1 H A i m'"
    unfolding m' using h inv1 reg c w
    by (intro asset_inv1_supply [OF h(1-4)]) (auto simp: word_le_nat_alt)
  moreover have "asset_inv1 H A j m'" if "j \<in> I" "j \<noteq> i" for j
    using h that inv by (simp add: m' asset_inv1_two_assets [OF h(1,3) that] asset_inv_def)
  ultimately show ?thesis by (auto simp: asset_inv_def)
qed (use inv in simp)

text \<open>
  Under the invariant the last check of a burn never fails: the supply covers every balance. So a
  failed burn changes nothing, and a successful one moves balance, allowance and supply together.
\<close>

lemma burn_run:
  assumes h: "asset_hash_ok H I A" "finite A" "i \<in> I" "c \<in> A" "f \<in> A"
    and inv: "asset_inv H I A m" and r: "burn H pure_backend i c f x m = (r, m')"
  shows "(\<exists>e. r = Inl e \<and> e \<noteq> SupplyUnderflow \<and> m' = m) \<or>
    (r = Inr () \<and> unat x \<le> unat (aload H m (Bal_Key i f)) \<and> (c \<noteq> f \<longrightarrow> unat x \<le> unat (aload H m (Allow_Key i f c))) \<and>
     m' = aput (asset_slot H (Meta_Key i ''supply'')) (aload H m (Meta_Key i ''supply'') - ucast x)
       ((if c \<noteq> f then aput (asset_slot H (Allow_Key i f c)) (aload H m (Allow_Key i f c) - ucast x) else (\<lambda>m. m))
         (aput (asset_slot H (Bal_Key i f)) (aload H m (Bal_Key i f) - ucast x) m)))"
proof -
  let ?b = "aload H m (Bal_Key i f)" and ?s = "aload H m (Meta_Key i ''supply'')"
  let ?m2 = "(if c \<noteq> f then aput (asset_slot H (Allow_Key i f c)) (aload H m (Allow_Key i f c) - ucast x) else (\<lambda>m. m))
         (aput (asset_slot H (Bal_Key i f)) (?b - ucast x) m)"
  have inv1: "asset_inv1 H A i m" using inv h by (simp add: asset_inv_def)
  note D = asset_inv1_D [OF inv1]
  have s2: "aload H ?m2 (Meta_Key i ''supply'') = ?s"
    using h by (simp add: aload_aput [OF h(1)])
  have us: "unat (ucast ?s :: u128) = unat ?s" using D(2) by (rule unat_ucast_u128_le)
  have "unat ?b \<le> unat ?s" using balance_le_total [OF h(2,5), of m H i] D(1) by simp
  then have "\<not> (ucast ?s :: u128) < x" if "unat x \<le> unat ?b"
    using that us by (simp add: word_less_nat_alt)
  moreover have "unat x \<le> unat ?b \<Longrightarrow> (ucast (ucast ?s - x) :: u256) = ?s - ucast x"
    using \<open>unat ?b \<le> unat ?s\<close> by (intro widen_sub D(2)) simp
  ultimately show ?thesis
    using r s2 by (cases "c = f") (auto simp: burn_pure Let_def split: if_splits)
qed

lemma burn_inv:
  assumes h: "asset_hash_ok H I A" "finite A" "i \<in> I" "c \<in> A" "f \<in> A"
    and inv: "asset_inv H I A m" and r: "burn H pure_backend i c f x m = (r, m')"
  shows "asset_inv H I A m'"
proof -
  let ?b = "aload H m (Bal_Key i f)" and ?s = "aload H m (Meta_Key i ''supply'')"
  let ?al = "aload H m (Allow_Key i f c)"
  consider "m' = m"
    | "unat x \<le> unat ?b" "m' = aput (asset_slot H (Meta_Key i ''supply'')) (?s - ucast x)
       ((if c \<noteq> f then aput (asset_slot H (Allow_Key i f c)) (?al - ucast x) else (\<lambda>m. m))
         (aput (asset_slot H (Bal_Key i f)) (?b - ucast x) m))"
    using burn_run [OF h inv r] by blast
  then show ?thesis
  proof cases
    case 2
    let ?m0 = "aput (asset_slot H (Meta_Key i ''supply'')) (?s - ucast x) (aput (asset_slot H (Bal_Key i f)) (?b - ucast x) m)"
    have inv1: "asset_inv1 H A i m" using inv h by (simp add: asset_inv_def)
    note D = asset_inv1_D [OF inv1]
    have le: "unat ?b \<le> unat ?s" using balance_le_total [OF h(2,5), of m H i] D(1) by simp
    have u: "unat (?b - ucast x) = unat ?b - unat x" "unat (?s - ucast x) = unat ?s - unat x"
      using 2(1) le by (simp_all add: unat_sub word_le_nat_alt)
    have "asset_inv1 H A i ?m0"
    proof (rule asset_inv1_supply [OF h(1,2,3,5) inv1])
      show "unassigned m i \<Longrightarrow> ?s - ucast x = 0" using D(5) u(2) by (metis diff_0_eq_0 unat_0 unat_eq_zero)
      show "unat (?s - ucast x) < 2 ^ 128" using u(2) D(2) by simp
      show "unat (?b - ucast x) + unat ?s = unat ?b + unat (?s - ucast x)" using u 2(1) le by simp
      show "?s - ucast x \<le> aload H m (Meta_Key i ''max_supply'')"
        if "aload H m (Meta_Key i ''max_supply'') \<noteq> 0"
        using D(3) [OF that] u(2) by (simp add: word_le_nat_alt)
    qed
    moreover have "asset_inv1 H A j ?m0" if "j \<in> I" "j \<noteq> i" for j
      using h that inv by (simp add: asset_inv1_two_assets [OF h(1,3) that] asset_inv_def)
    ultimately have "asset_inv H I A ?m0" by (auto simp: asset_inv_def)
    moreover have "m' = (if c \<noteq> f then aput (asset_slot H (Allow_Key i f c)) (?al - ucast x) ?m0 else ?m0)"
      using 2(2) asset_slot_eq [OF h(1), of "Meta_Key i ''supply''" "Allow_Key i f c"] h
      by (auto simp: sput_def fun_eq_iff)
    ultimately show ?thesis using h by (simp add: allowance_inv)
  qed (use inv in simp)
qed

text \<open>
  Registration. While the metadata of a fresh identifier \<open>i\<close> is written, \<open>i\<close> has no balances and
  no supply, and the other assets keep their invariant.
\<close>

definition registering :: "(bytes \<Rightarrow> u256) \<Rightarrow> u64 set \<Rightarrow> address set \<Rightarrow> u64 \<Rightarrow> evm_storage \<Rightarrow> bool" where
  "registering H I A i m \<longleftrightarrow> total_balance H A m i = 0 \<and> aload H m (Meta_Key i ''supply'') = 0 \<and>
     unat (aload H m (Meta_Key i ''max_supply'')) < 2 ^ 128 \<and> \<not> unassigned m i \<and>
     (\<forall>j\<in>I. j \<noteq> i \<longrightarrow> asset_inv1 H A j m)"

lemma registering_inv: "i \<in> I \<Longrightarrow> registering H I A i m \<Longrightarrow> asset_inv H I A m"
  by (auto simp: registering_def asset_inv_def asset_inv1_def Let_def)

lemma registering_store:
  assumes h: "asset_hash_ok H I A" "i \<in> I" "s \<in> set meta_names"
    and v: "s = ''supply'' \<Longrightarrow> v = 0" "s = ''max_supply'' \<Longrightarrow> unat v < 2 ^ 128"
  shows "registering H I A i m \<Longrightarrow> registering H I A i (aput (asset_slot H (Meta_Key i s)) v m)"
  using h v unfolding registering_def
  by (auto simp: total_balance_frame [OF h(1)] aload_aput [OF h(1)] unassigned_frame [OF h(1)]
      asset_inv1_two_assets [OF h(1,2)])

lemma registering_meta [inv_intros]:
  assumes h: "asset_hash_ok H I A" "i \<in> I" "s \<in> set meta_names"
    and v: "s = ''supply'' \<Longrightarrow> v = 0" "s = ''max_supply'' \<Longrightarrow> unat v < 2 ^ 128"
  shows "maintains (registering H I A i) (store_meta_u256 H pure_backend i (bstr s) v)"
  using registering_store [OF h v] by (auto simp: maintains_def pure_simps)

lemma registering_string [inv_intros]:
  assumes h: "asset_hash_ok H I A" "i \<in> I" "s \<in> set meta_names" "s \<notin> {''supply'', ''max_supply''}"
  shows "maintains (registering H I A i) (store_meta_string H pure_backend i (bstr s) x)"
  using registering_store [OF h(1-3)] h(4)
  by (auto simp: maintains_def store_meta_string_def sbind_run asset_slots)

lemma u128_word_less [simp]: "unat (ucast (x :: u128) :: u256) < 2 ^ 128"
  using unsigned_less [of x, where ?'a = nat] by simp

lemma registering_base [inv_intros]:
  assumes h: "asset_hash_ok H I A" "i \<in> I"
  shows "maintains (registering H I A i) (write_base_meta H pure_backend i sy nm d mx iss ra)"
  unfolding write_base_meta_def
  by (intro maintains_bind registering_meta registering_string h; use u128_word_less in simp)

lemma registering_bind [inv_intros]:
  assumes h: "asset_hash_ok H I A" "i \<in> I" "e \<in> A"
  shows "maintains (registering H I A i) (set_evm_contract_asset_id H pure_backend e j)"
  using h by (auto simp: maintains_def set_evm_contract_asset_id_def asset_slots registering_def
      total_balance_frame [OF h(1)] aload_aput [OF h(1)] unassigned_frame [OF h(1)]
      asset_inv1_two_assets [OF h(1,2)])

lemma allocate_registering:
  assumes h: "asset_hash_ok H I A" "of_nat (next_free m) \<in> I" and inv: "asset_inv H I A m"
    and r: "allocate_asset_id pure_backend m = (Inr i, m')"
  shows "i \<in> I" and "registering H I A i m'" and "unat i = next_free m"
proof -
  let ?raw = "m ASSET_ADDRESS 0"
  from r have raw: "unat ?raw < 2 ^ 64" and i: "i = (if ?raw = 0 then 1 else ucast ?raw)"
    and top: "unat i \<noteq> 2 ^ 64 - 1" and m': "m' = aput 0 (ucast (i + 1)) m"
    by (auto simp: allocate_pure Let_def split: if_splits)
  show nf: "unat i = next_free m"
    using raw by (auto simp: i next_free_def Let_def unsigned_ucast_eq take_bit_nat_eq_self)
  then have "of_nat (next_free m) = i" by (simp add: nf [symmetric])
  with h(2) show I: "i \<in> I" by simp
  have lt: "unat i + 1 < 2 ^ 64"
    using unsigned_less [of i, where ?'a = nat] top by simp
  then have "unat (i + 1) = unat i + 1" by (simp add: unat_add_no_overflow)
  then have nf': "next_free m' = unat i + 1"
    by (auto simp: m' next_free_def Let_def sput_apply simp flip: unat_eq_zero)
  have keep: "aload H m' k = aload H m k" if "k \<in> asset_keys I A" for k
    unfolding m' using aload_aput_counter(1) [OF h(1) that] .
  have tot: "total_balance H A m' j = total_balance H A m j" if "j \<in> I" for j
    unfolding m' by (rule total_balance_counter [OF h(1) that])
  have un: "unassigned m i" using nf by (simp add: unassigned_def)
  have inv1: "asset_inv1 H A i m" using inv I by (simp add: asset_inv_def)
  note D = asset_inv1_D [OF inv1]
  have "i \<noteq> 0" using nf by (auto simp: next_free_def Let_def unat_eq_zero split: if_splits)
  then have "\<not> unassigned m' i" by (simp add: unassigned_def nf')
  moreover have "asset_inv1 H A j m'" if "j \<in> I" "j \<noteq> i" for j
  proof -
    have "unassigned m' j \<Longrightarrow> unassigned m j" using nf' nf by (auto simp: unassigned_def)
    moreover have "asset_inv1 H A j m" using inv that by (simp add: asset_inv_def)
    ultimately show ?thesis
      using that by (simp add: asset_inv1_def Let_def keep tot)
  qed
  ultimately show "registering H I A i m'"
    using D(1,4) D(5) [OF un] I by (auto simp: registering_def keep tot)
qed

lemma allocate_error_same: "allocate_asset_id pure_backend m = (Inl e, m') \<Longrightarrow> m' = m"
  by (auto simp: allocate_pure Let_def split: if_splits)

lemma register_inv:
  assumes h: "asset_hash_ok H I A" "of_nat (next_free m) \<in> I" and inv: "asset_inv H I A m"
    and r: "register H pure_backend sy nm d mx iss ra m = (r, m')"
  shows "asset_inv H I A m'"
proof (cases "18 < d")
  case True
  with r inv show ?thesis by (simp add: register_def sbind_run)
next
  case d: False
  obtain a m1 where al: "allocate_asset_id pure_backend m = (a, m1)" by (cases "allocate_asset_id pure_backend m")
  show ?thesis
  proof (cases a)
    case (Inl e)
    with d al r inv allocate_error_same show ?thesis by (auto simp: register_def sbind_run)
  next
    case (Inr i)
    note A = allocate_registering [OF h inv al [unfolded Inr]]
    have "maintains (registering H I A i)
      (sbind (write_base_meta H pure_backend i sy nm d mx iss ra) (\<lambda>_.
       sbind (store_meta_u256 H pure_backend i (bstr ''has_erc20'') 0) (\<lambda>_. sret i)))"
      by (intro inv_intros h A(1); simp)
    from maintainsD [OF this, OF A(2)] r d al Inr have "registering H I A i m'"
      by (simp add: register_def)
    with A(1) show ?thesis by (rule registering_inv)
  qed
qed

lemma evm_contract_asset_id_same: "evm_contract_asset_id H pure_backend e m = (b, m') \<Longrightarrow> m' = m"
  by (auto simp: evm_contract_asset_id_def sbind_run split: if_splits)

lemma register_erc20_inv:
  assumes h: "asset_hash_ok H I A" "of_nat (next_free m) \<in> I" "e \<in> A" and inv: "asset_inv H I A m"
    and r: "register_erc20 H pure_backend e sy nm d mx iss ra m = (r, m')"
  shows "asset_inv H I A m'"
proof -
  obtain b where b: "evm_contract_asset_id H pure_backend e m = (b, m)"
    using evm_contract_asset_id_same by (metis surj_pair)
  obtain a m1 where al: "allocate_asset_id pure_backend m = (a, m1)" by (cases "allocate_asset_id pure_backend m")
  show ?thesis
  proof (cases "18 < d \<or> b \<noteq> Inr None")
    case True
    with r inv b show ?thesis by (cases b) (auto simp: register_erc20_def sbind_run split: if_splits)
  next
    case d: False
    show ?thesis
    proof (cases a)
      case (Inl err)
      with d al b r inv allocate_error_same show ?thesis by (auto simp: register_erc20_def sbind_run)
    next
      case (Inr i)
      note A = allocate_registering [OF h(1,2) inv al [unfolded Inr]]
      have "maintains (registering H I A i)
        (sbind (write_base_meta H pure_backend i sy nm d mx iss ra) (\<lambda>_.
         sbind (store_meta_u256 H pure_backend i (bstr ''has_erc20'') 1) (\<lambda>_.
         sbind (store_meta_u256 H pure_backend i (bstr ''evm_contract'') (address_to_u256 e)) (\<lambda>_.
         sbind (set_evm_contract_asset_id H pure_backend e i) (\<lambda>_. sret i)))))"
        by (intro inv_intros h A(1); simp)
      from maintainsD [OF this, OF A(2)] r d al b Inr have "registering H I A i m'"
        by (simp add: register_erc20_def)
      with A(1) show ?thesis by (rule registering_inv)
    qed
  qed
qed

lemma run_op_inv:
  assumes h: "asset_hash_ok H I A" "finite A" and inv: "asset_inv H I A m"
    and w: "op_within I A m op" and r: "run_op H pure_backend op m = (r, m')"
  shows "asset_inv H I A m'"
proof (cases op)
  case (Register sy nm d mx iss ra)
  obtain q where "register H pure_backend sy nm d mx iss ra m = (q, m')"
    using r Register by (auto simp: sbind_run split: prod.splits sum.splits)
  from register_inv [OF h(1) _ inv this] Register w show ?thesis by simp
next
  case (Register_Erc20 e sy nm d mx iss ra)
  obtain q where "register_erc20 H pure_backend e sy nm d mx iss ra m = (q, m')"
    using r Register_Erc20 by (auto simp: sbind_run split: prod.splits sum.splits)
  from register_erc20_inv [OF h(1) _ _ inv this] Register_Erc20 w show ?thesis by simp
next
  case (Batch_Transfer i f rs)
  with batch_transfer_inv [OF h(1,2), of i f rs] w inv r show ?thesis
    by (auto dest: maintainsD)
next
  case (Transfer i f t x)
  with transfer_inv [OF h, of i f t m x r m'] w inv r show ?thesis by simp
next
  case (Approve i a b x)
  with w inv r h allowance_inv [of H I A i a b] show ?thesis
    by (auto simp: approve_pure split: sum.splits)
next
  case (Transfer_From i s f t x)
  with transfer_from_inv [OF h, of i s f t m x r m'] w inv r show ?thesis by simp
next
  case (Mint i c t x)
  with mint_inv [OF h, of i t m c x r m'] w inv r show ?thesis by simp
next
  case (Burn i c f x)
  with burn_inv [OF h, of i c f m x r m'] w inv r show ?thesis by simp
qed

lemma asset_reach_invariant:
  assumes "asset_hash_ok H I A" "finite A" "asset_reach H I A m"
  shows "asset_inv H I A m"
  using assms(3)
proof (induction rule: asset_reach.induct)
  case (empty m)
  then show ?case by (simp add: asset_inv_def asset_inv1_def total_balance_def)
next
  case (step m op r m')
  then show ?case using run_op_inv [OF assms(1,2)] by blast
qed

section \<open>Registration and metadata\<close>

lemma word_string_round_trip:
  assumes "length s \<le> 32" "0 \<notin> set s"
  shows "word_string (string_word s) = s"
proof -
  have "to_be_bytes (string_word s) = s @ replicate (32 - length s) 0"
    using assms(1) by (simp add: string_word_def to_from_be_bytes_u256 min_absorb1)
  moreover have "takeWhile (\<lambda>b. b \<noteq> 0) (s @ replicate n 0) = s" for n
    using assms(2) by (induction s) (simp_all add: takeWhile_replicate)
  ultimately show ?thesis by (simp add: word_string_def)
qed

definition base_writes :: "bytes \<Rightarrow> bytes \<Rightarrow> u8 \<Rightarrow> u128 \<Rightarrow> address \<Rightarrow> u256 \<Rightarrow> (string \<times> u256) list" where
  "base_writes sy nm d mx iss ra =
     [(''symbol'', string_word sy), (''name'', string_word nm), (''decimals'', ucast d), (''issuer'', ucast iss),
      (''max_supply'', ucast mx), (''supply'', 0), (''status'', 0), (''compliance'', 0), (''registered_at'', ra)]"

definition put_meta :: "(bytes \<Rightarrow> u256) \<Rightarrow> u64 \<Rightarrow> (string \<times> u256) list \<Rightarrow> evm_storage \<Rightarrow> evm_storage" where
  "put_meta H i ws m = fold (\<lambda>(s, v). aput (asset_slot H (Meta_Key i s)) v) ws m"

lemma put_meta_load:
  assumes h: "asset_hash_ok H I A" "i \<in> I" "fst ` set ws \<subseteq> set meta_names" "k \<in> asset_keys I A"
  shows "aload H (put_meta H i ws m) k =
    (case k of Meta_Key j s \<Rightarrow> if j = i then unwrap_or (aload H m k) (map_of (rev ws) s) else aload H m k
     | _ \<Rightarrow> aload H m k)"
  using h(3)
proof (induction ws rule: rev_induct)
  case Nil
  then show ?case by (simp add: put_meta_def split: asset_key.splits)
next
  case (snoc w ws)
  obtain s v where w: "w = (s, v)" by (cases w)
  have "aload H (put_meta H i (ws @ [w]) m) k = (if k = Meta_Key i s then v else aload H (put_meta H i ws m) k)"
    using h snoc.prems w by (simp add: put_meta_def aload_aput [OF h(1)])
  with snoc w show ?case by (auto split: asset_key.splits)
qed

lemma put_meta_counter:
  assumes h: "asset_hash_ok H I A" "i \<in> I" "fst ` set ws \<subseteq> set meta_names"
  shows "put_meta H i ws m ASSET_ADDRESS 0 = m ASSET_ADDRESS 0"
  using h(3)
proof (induction ws rule: rev_induct)
  case (snoc w ws)
  with h show ?case by (cases w) (simp add: put_meta_def aload_aput_counter [OF h(1)])
qed (simp add: put_meta_def)

lemma write_base_meta_pure:
  assumes "length sy \<le> 32" "length nm \<le> 32"
  shows "write_base_meta H pure_backend i sy nm d mx iss ra m = (Inr (), put_meta H i (base_writes sy nm d mx iss ra) m)"
  using assms
  by (simp add: write_base_meta_def store_meta_string_def sbind_run pure_simps put_meta_def base_writes_def asset_slots)

lemma register_pure:
  assumes "d \<le> 18" "length sy \<le> 32" "length nm \<le> 32" "allocate_asset_id pure_backend m = (Inr i, m1)"
  shows "register H pure_backend sy nm d mx iss ra m =
    (Inr i, put_meta H i (base_writes sy nm d mx iss ra @ [(''has_erc20'', 0)]) m1)"
  using assms by (simp add: register_def sbind_run not_less write_base_meta_pure pure_simps put_meta_def)

lemma register_erc20_pure:
  assumes "d \<le> 18" "length sy \<le> 32" "length nm \<le> 32" "allocate_asset_id pure_backend m = (Inr i, m1)"
    "aload H m (Bind_Key e) = 0"
  shows "register_erc20 H pure_backend e sy nm d mx iss ra m =
    (Inr i, aput (asset_slot H (Bind_Key e)) (ucast i)
       (put_meta H i (base_writes sy nm d mx iss ra @ [(''has_erc20'', 1), (''evm_contract'', ucast e)]) m1))"
  using assms
  by (simp add: register_erc20_def sbind_run not_less write_base_meta_pure pure_simps put_meta_def
      evm_contract_asset_id_def set_evm_contract_asset_id_def asset_slots)

lemma base_writes_names: "fst ` set (base_writes sy nm d mx iss ra) \<subseteq> set meta_names"
  by (simp add: base_writes_def)

section \<open>Framing of the operations\<close>

lemma asset_reads_move:
  assumes R: "reflp R" "transp R" and l: "\<And>a k. moves R (mload B a k :: ('b, asset_error, u256) smonad)"
  shows "moves R (read_balance H B i a)" "moves R (read_meta H B i)"
    "moves R (evm_contract_asset_id H B e)" "moves R (has_erc20 H B i)"
  unfolding read_balance_def read_meta_def load_meta_string_def load_meta_u128_def load_meta_address_def
    load_meta_u8_def load_meta_u256_def evm_contract_asset_id_def has_erc20_def
  by (intro moves_intros R l)+

lemma asset_ops_move:
  assumes R: "reflp R" "transp R" and l: "\<And>a k. moves R (mload B a k :: ('b, asset_error, u256) smonad)"
    and s: "\<And>a k v. moves R (mstore B a k v :: ('b, asset_error, unit) smonad)"
  shows "moves R (transfer H B i f t x)" "moves R (batch_transfer H B i f rs)"
    "moves R (approve H B i f t x)" "moves R (transfer_from H B i sp f t x)"
    "moves R (mint H B i c t x)" "moves R (burn H B i c f x)"
    "moves R (register H B sy nm d mx iss ra)" "moves R (register_erc20 H B e sy nm d mx iss ra)"
    "moves R (set_has_erc20 H B i v)" "moves R (set_evm_contract H B i e)" "moves R (set_dominance H B i v)"
  unfolding batch_transfer_def approve_def transfer_from_def mint_def burn_def register_def register_erc20_def
    transfer_def deduct_balance_def add_balance_def write_balance_def read_allowance_def write_allowance_def
    allocate_asset_id_def write_base_meta_def store_meta_string_def set_evm_contract_asset_id_def
    set_has_erc20_def set_evm_contract_def set_dominance_def store_meta_u256_def load_meta_u128_def load_meta_u256_def
    Let_def
  by (intro moves_intros asset_reads_move [OF R l] R l s)+

lemmas asset_reads_keep = asset_reads_move [OF obs_preorder, folded keeps_moves]
lemmas asset_ops_keep = asset_ops_move [OF obs_preorder, folded keeps_moves]

section \<open>Contract bindings\<close>

lemma keeps_pure_load [keep_intros]: "keeps obs (mload pure_backend a k)"
  by (simp add: keeps_def)

lemma keeps_reads [keep_intros]:
  "keeps obs (read_balance H pure_backend i a)" "keeps obs (read_allowance H pure_backend i a b)"
  "keeps obs (load_meta_u256 H pure_backend i s)" "keeps obs (load_meta_u128 H pure_backend i s)"
  "keeps obs (read_meta H pure_backend i)" "keeps obs (evm_contract_asset_id H pure_backend e)"
  unfolding read_balance_def read_allowance_def read_meta_def load_meta_string_def load_meta_u128_def
    load_meta_address_def load_meta_u8_def load_meta_u256_def evm_contract_asset_id_def
  by (intro keep_intros)+

lemma keeps_aput:
  assumes "asset_hash_ok H I A" "k \<in> asset_keys I A" "l \<in> asset_keys I A" "k \<noteq> l"
  shows "keeps (\<lambda>m. aload H m l) (mstore pure_backend ASSET_ADDRESS (asset_slot H k) v)"
  using assms by (simp add: keeps_def aload_aput)

text \<open>Only \<^verbatim>\<open>register_erc20\<close> of a contract touches its binding, and only when there is none.\<close>

lemma binding_balance:
  assumes h: "asset_hash_ok H I A" "e \<in> A" "i \<in> I" "a \<in> A"
  shows "keeps (\<lambda>m. aload H m (Bind_Key e)) (write_balance H pure_backend i a v)"
  using h unfolding write_balance_def asset_slots by (intro keeps_aput [OF h(1)]) simp_all

lemma binding_allowance:
  assumes h: "asset_hash_ok H I A" "e \<in> A" "i \<in> I" "a \<in> A" "b \<in> A"
  shows "keeps (\<lambda>m. aload H m (Bind_Key e)) (write_allowance H pure_backend i a b v)"
  using h unfolding write_allowance_def asset_slots by (intro keeps_aput [OF h(1)]) simp_all

lemma binding_meta:
  assumes h: "asset_hash_ok H I A" "e \<in> A" "i \<in> I" "s \<in> set meta_names"
  shows "keeps (\<lambda>m. aload H m (Bind_Key e)) (store_meta_u256 H pure_backend i (bstr s) w)"
    and "keeps (\<lambda>m. aload H m (Bind_Key e)) (store_meta_string H pure_backend i (bstr s) x)"
  using h unfolding store_meta_u256_def store_meta_string_def asset_slots
  by (auto intro!: keep_intros keeps_aput [OF h(1)])

lemma binding_allocate:
  assumes "asset_hash_ok H I A" "e \<in> A"
  shows "keeps (\<lambda>m. aload H m (Bind_Key e)) (allocate_asset_id pure_backend)"
  using assms by (auto simp: keeps_def allocate_pure Let_def aload_aput_counter)

lemma binding_transfer:
  assumes h: "asset_hash_ok H I A" "e \<in> A" "i \<in> I" "f \<in> A" "t \<in> A"
  shows "keeps (\<lambda>m. aload H m (Bind_Key e)) (transfer H pure_backend i f t x)"
  unfolding transfer_def deduct_balance_def by (intro keep_intros binding_balance [OF h(1-3)] h(4,5))

lemma binding_batch:
  assumes h: "asset_hash_ok H I A" "e \<in> A" "i \<in> I" "f \<in> A" "fst ` set rs \<subseteq> A"
  shows "keeps (\<lambda>m. aload H m (Bind_Key e)) (batch_transfer H pure_backend i f rs)"
  using h(5)
proof (induction rs)
  case (Cons p rs)
  then show ?case
    using binding_transfer [OF h(1-4)] by (cases p) (simp add: batch_transfer_def keeps_bind)
qed (simp add: batch_transfer_def keeps_def)

lemma binding_base:
  assumes h: "asset_hash_ok H I A" "e \<in> A" "i \<in> I"
  shows "keeps (\<lambda>m. aload H m (Bind_Key e)) (write_base_meta H pure_backend i sy nm d mx iss ra)"
  unfolding write_base_meta_def by (intro keep_intros binding_meta [OF h] meta_name_mem)

lemma allocate_within:
  assumes "of_nat (next_free m) \<in> I" "allocate_asset_id pure_backend m = (Inr i, m')"
  shows "i \<in> I"
  using assms by (auto simp: allocate_pure next_free_def Let_def split: if_splits)

section \<open>Every lawful backend runs the ledger of the storage map\<close>

context storage_backend
begin

lemma sim_read_balance [sim_intros]:
  "sim_at view budget 1 (read_balance H B i a) (read_balance H pure_backend i a)"
  unfolding read_balance_def by (rule sim_weaken, (rule sim_intros)+) simp

lemma sim_read_allowance [sim_intros]:
  "sim_at view budget 1 (read_allowance H B i a b) (read_allowance H pure_backend i a b)"
  unfolding read_allowance_def by (rule sim_weaken, (rule sim_intros)+) simp

lemma sim_write_balance [sim_intros]:
  "sim_at view budget 1 (write_balance H B i a v) (write_balance H pure_backend i a v)"
  unfolding write_balance_def by (rule sim_intros)

lemma sim_write_allowance [sim_intros]:
  "sim_at view budget 1 (write_allowance H B i a b v) (write_allowance H pure_backend i a b v)"
  unfolding write_allowance_def by (rule sim_intros)

lemma sim_add_balance [sim_intros]:
  "sim_at view budget 2 (add_balance H B i a v) (add_balance H pure_backend i a v)"
  unfolding add_balance_def by (rule sim_weaken, (rule sim_intros)+) simp

lemma sim_deduct_balance [sim_intros]:
  "sim_at view budget 2 (deduct_balance H B i a v) (deduct_balance H pure_backend i a v)"
  unfolding deduct_balance_def by (rule sim_weaken, (rule sim_intros)+) simp

lemma sim_load_meta [sim_intros]:
  "sim_at view budget 1 (load_meta_u256 H B i s) (load_meta_u256 H pure_backend i s)"
  "sim_at view budget 1 (load_meta_u128 H B i s) (load_meta_u128 H pure_backend i s)"
  "sim_at view budget 1 (load_meta_u8 H B i s) (load_meta_u8 H pure_backend i s)"
  "sim_at view budget 1 (load_meta_address H B i s) (load_meta_address H pure_backend i s)"
  "sim_at view budget 1 (load_meta_string H B i s) (load_meta_string H pure_backend i s)"
  unfolding load_meta_u128_def load_meta_u8_def load_meta_address_def load_meta_string_def load_meta_u256_def
  by ((rule sim_weaken, (rule sim_intros)+); simp)+

lemma sim_store_meta [sim_intros]:
  "sim_at view budget 1 (store_meta_u256 H B i s v) (store_meta_u256 H pure_backend i s v)"
  "sim_at view budget 1 (store_meta_string H B i s x) (store_meta_string H pure_backend i s x)"
  unfolding store_meta_u256_def store_meta_string_def
  by ((rule sim_weaken, (rule sim_intros)+); simp)+

lemma sim_read_meta [sim_intros]:
  "sim_at view budget 10 (read_meta H B i) (read_meta H pure_backend i)"
  unfolding read_meta_def by (rule sim_weaken, (rule sim_intros)+) simp

lemma sim_transfer [sim_intros]:
  "sim_at view budget 4 (transfer H B i f t x) (transfer H pure_backend i f t x)"
  unfolding transfer_def by (rule sim_weaken, (rule sim_intros)+) simp

lemma sim_approve: "sim_at view budget 11 (approve H B i a b x) (approve H pure_backend i a b x)"
  unfolding approve_def by (rule sim_weaken, (rule sim_intros)+) simp

lemma sim_transfer_from:
  "sim_at view budget 6 (transfer_from H B i s f t x) (transfer_from H pure_backend i s f t x)"
  unfolding transfer_from_def by (rule sim_weaken, (rule sim_intros)+) simp

lemma sim_mint: "sim_at view budget 13 (mint H B i c t x) (mint H pure_backend i c t x)"
  unfolding mint_def by (rule sim_weaken, (rule sim_intros)+) simp

lemma sim_burn: "sim_at view budget 6 (burn H B i c f x) (burn H pure_backend i c f x)"
  unfolding burn_def by (rule sim_weaken, (rule sim_intros)+) simp

lemma sim_allocate [sim_intros]:
  "sim_at view budget 2 (allocate_asset_id B) (allocate_asset_id pure_backend)"
  unfolding allocate_asset_id_def Let_def by (rule sim_weaken, (rule sim_intros)+) simp

lemma sim_write_base_meta [sim_intros]:
  "sim_at view budget 9 (write_base_meta H B i sy nm d mx iss ra) (write_base_meta H pure_backend i sy nm d mx iss ra)"
  unfolding write_base_meta_def by (rule sim_weaken, (rule sim_intros)+) simp

lemma sim_register [sim_intros]:
  "sim_at view budget 12 (register H B sy nm d mx iss ra) (register H pure_backend sy nm d mx iss ra)"
  unfolding register_def by (rule sim_weaken, (rule sim_intros)+) simp

lemma sim_register_erc20 [sim_intros]:
  "sim_at view budget 15 (register_erc20 H B e sy nm d mx iss ra) (register_erc20 H pure_backend e sy nm d mx iss ra)"
  unfolding register_erc20_def evm_contract_asset_id_def set_evm_contract_asset_id_def
  by (rule sim_weaken, (rule sim_intros)+) simp

lemma sim_batch_transfer:
  "sim_at view budget (4 * length rs) (batch_transfer H B i f rs) (batch_transfer H pure_backend i f rs)"
  unfolding batch_transfer_def by (rule sim_for) (auto split: prod.splits intro: sim_transfer)

text \<open>The storage accesses of an operation.\<close>

lemma sim_run_op:
  "sim_at view budget (op_cost op) (run_op H B op) (run_op H pure_backend op)"
proof (cases op)
  case (Batch_Transfer i f rs)
  then show ?thesis by (simp add: sim_batch_transfer)
next
  case (Register sy nm d mx iss ra)
  have "sim_at view budget (12 + 0) (run_op H B op) (run_op H pure_backend op)"
    unfolding Register run_op.simps by (intro sim_bind sim_register sim_ret)
  then show ?thesis using Register by (auto intro: sim_weaken)
next
  case (Register_Erc20 e sy nm d mx iss ra)
  have "sim_at view budget (15 + 0) (run_op H B op) (run_op H pure_backend op)"
    unfolding Register_Erc20 run_op.simps by (intro sim_bind sim_register_erc20 sim_ret)
  then show ?thesis using Register_Erc20 by (auto intro: sim_weaken)
qed (auto intro: sim_weaken sim_transfer sim_approve sim_transfer_from sim_mint sim_burn)

end

end
