(* ===== verification/Dispatch.thy ===== *)
theory Dispatch
  imports Storage_Laws Utils
begin

text \<open>
  \<^verbatim>\<open>crates/precompile/src/dispatch.rs\<close>: the four wrappers every precompile method runs in. The ABI
  decoder of a call type is a parameter (the \<^verbatim>\<open>sol!\<close> macro generates it), so is the encoder of the
  return type. Inside the contract \<open>checkpointed\<close>, a mutating call that returns an error leaves the
  observable ledger as it was, and a successful one keeps exactly what its handler did.
\<close>

section \<open>Definitions\<close>

definition decode_call :: "(bytes \<Rightarrow> string + 'c) \<Rightarrow> bytes \<Rightarrow> ('s, precompile_error, 'c) smonad" where
  "decode_call abi_decode calldata =
     (case abi_decode calldata of Inl e \<Rightarrow> sfail (Other (''decode error: '' @ e)) | Inr c \<Rightarrow> sret c)"

definition encode_return :: "('r \<Rightarrow> bytes) \<Rightarrow> 'r \<Rightarrow> bytes" where
  "encode_return abi_encode r = abi_encode r"

definition view :: "'s provider \<Rightarrow> (bytes \<Rightarrow> string + 'c) \<Rightarrow> ('r \<Rightarrow> bytes) \<Rightarrow> bytes \<Rightarrow> u64 \<Rightarrow>
    ('c \<Rightarrow> ('s, precompile_error, 'r) smonad) \<Rightarrow> ('s, precompile_error, precompile_output) smonad" where
  "view P dec enc calldata gas handler =
     sbind (smodify (p_reset_gas_counters P)) (\<lambda>_.
     sbind (decode_call dec calldata) (\<lambda>decoded.
     sbind (handler decoded) (\<lambda>result.
     sbind (p_charge_gas P gas) (\<lambda>_.
     sget (fill_precompile_output P (new_precompile_output 0 (encode_return enc result)))))))"

definition view_void :: "'s provider \<Rightarrow> (bytes \<Rightarrow> string + 'c) \<Rightarrow> bytes \<Rightarrow> u64 \<Rightarrow>
    ('c \<Rightarrow> ('s, precompile_error, unit) smonad) \<Rightarrow> ('s, precompile_error, precompile_output) smonad" where
  "view_void P dec calldata gas handler =
     sbind (smodify (p_reset_gas_counters P)) (\<lambda>_.
     sbind (decode_call dec calldata) (\<lambda>decoded.
     sbind (handler decoded) (\<lambda>_.
     sbind (p_charge_gas P gas) (\<lambda>_.
     sget (fill_precompile_output P (new_precompile_output 0 []))))))"

text \<open>
  The handler runs under a checkpoint; its result decides between commit and revert. A panic of the handler
  (\<open>Unwind\<close>) leaves the source before it reaches \<^verbatim>\<open>checkpoint_revert\<close>; here it takes the branch of the errors. The
  state after it is of no consequence: \<open>cps_run\<close> turns it into the panic of the whole execution, whose journal
  nobody reads.
\<close>

definition with_checkpoint :: "'s provider \<Rightarrow> u64 \<Rightarrow> ('r \<Rightarrow> bytes) \<Rightarrow> ('s, precompile_error, 'r) smonad \<Rightarrow>
    ('s, precompile_error, precompile_output) smonad" where
  "with_checkpoint P gas enc body = (\<lambda>s.
     case p_checkpoint P s of (checkpoint, s1) \<Rightarrow>
     (case body s1 of
        (Inr value, s2) \<Rightarrow>
          (case p_charge_gas P gas s2 of
             (Inr _, s3) \<Rightarrow>
               (let s4 = p_checkpoint_commit P checkpoint s3 in
                (Inr (fill_precompile_output P (new_precompile_output 0 (enc value)) s4), s4))
           | (Inl _, s3) \<Rightarrow> (Inl OutOfGas, p_checkpoint_revert P checkpoint s3))
      | (Inl e, s2) \<Rightarrow> (Inl e, p_checkpoint_revert P checkpoint s2)))"

definition mutate :: "'s provider \<Rightarrow> (bytes \<Rightarrow> string + 'c) \<Rightarrow> ('r \<Rightarrow> bytes) \<Rightarrow> bytes \<Rightarrow> u64 \<Rightarrow>
    ('c \<Rightarrow> ('s, precompile_error, 'r) smonad) \<Rightarrow> ('s, precompile_error, precompile_output) smonad" where
  "mutate P dec enc calldata gas handler =
     sbind (smodify (p_reset_gas_counters P)) (\<lambda>_.
     sbind (decode_call dec calldata) (\<lambda>decoded.
     with_checkpoint P gas (encode_return enc) (handler decoded)))"

definition mutate_void :: "'s provider \<Rightarrow> (bytes \<Rightarrow> string + 'c) \<Rightarrow> bytes \<Rightarrow> u64 \<Rightarrow>
    ('c \<Rightarrow> ('s, precompile_error, unit) smonad) \<Rightarrow> ('s, precompile_error, precompile_output) smonad" where
  "mutate_void P dec calldata gas handler =
     sbind (smodify (p_reset_gas_counters P)) (\<lambda>_.
     sbind (decode_call dec calldata) (\<lambda>decoded.
     with_checkpoint P gas (\<lambda>_. []) (handler decoded)))"

text \<open>
  The pattern of methods that manage their checkpoint themselves: open it, run the body, commit on
  success, revert and return the error otherwise.
\<close>

definition run_checkpointed :: "'s provider \<Rightarrow> ('s, 'e, 'a) smonad \<Rightarrow> ('s, 'e, 'a) smonad" where
  "run_checkpointed P body = (\<lambda>s.
     case p_checkpoint P s of (cp, s1) \<Rightarrow>
     (case body s1 of
        (Inr x, s2) \<Rightarrow> (Inr x, p_checkpoint_commit P cp s2)
      | (Inl e, s2) \<Rightarrow> (Inl e, p_checkpoint_revert P cp s2)))"

section \<open>Atomicity under the checkpoint contract\<close>

lemma decode_call_run:
  "decode_call dec cd s = (case dec cd of Inl e \<Rightarrow> (Inl (Other (''decode error: '' @ e)), s) | Inr c \<Rightarrow> (Inr c, s))"
  by (simp add: decode_call_def split: sum.splits)

lemma keeps_decode_call [keep_intros]: "keeps obs (decode_call dec cd)"
  by (simp add: keeps_def decode_call_run split: sum.splits)

context checkpointed
begin

lemma with_checkpoint_error:
  assumes k: "keeps stack body" and r: "with_checkpoint P gas enc body s = (Inl e, s')"
  shows "obs s' = obs s" and "stack s' = stack s"
proof -
  obtain c s1 where cp: "p_checkpoint P s = (c, s1)" by (cases "p_checkpoint P s")
  note cl = checkpoint_law [OF cp]
  obtain r2 s2 where b: "body s1 = (r2, s2)" by (cases "body s1")
  have st2: "stack s2 = (c, obs s) # stack s" using keepsD [OF k b] cl by simp
  have "\<exists>s3. stack s3 = stack s2 \<and> s' = p_checkpoint_revert P c s3"
  proof (cases r2)
    case (Inl e2)
    with r cp b show ?thesis by (auto simp: with_checkpoint_def)
  next
    case (Inr v)
    obtain r3 s3 where g: "p_charge_gas P gas s2 = (r3, s3)" by (cases "p_charge_gas P gas s2")
    have "stack s3 = stack s2" using charge_law [OF g] by simp
    with r cp b g Inr show ?thesis
      by (cases r3) (auto simp: with_checkpoint_def Let_def)
  qed
  then obtain s3 where "stack s3 = (c, obs s) # stack s" "s' = p_checkpoint_revert P c s3"
    using st2 by auto
  with revert_law [of s3 c "obs s" "stack s"] show "obs s' = obs s" and "stack s' = stack s"
    by simp_all
qed

lemma with_checkpoint_ok:
  assumes k: "keeps stack body" and r: "with_checkpoint P gas enc body s = (Inr y, s')"
  shows "\<exists>c s1 v s2. p_checkpoint P s = (c, s1) \<and> body s1 = (Inr v, s2) \<and> obs s' = obs s2
      \<and> stack s' = stack s \<and> out_bytes y = enc v"
proof -
  obtain c s1 where cp: "p_checkpoint P s = (c, s1)" by (cases "p_checkpoint P s")
  note cl = checkpoint_law [OF cp]
  obtain r2 s2 where b: "body s1 = (r2, s2)" by (cases "body s1")
  have st2: "stack s2 = (c, obs s) # stack s" using keepsD [OF k b] cl by simp
  from r cp b obtain v where v: "r2 = Inr v"
    by (cases r2) (auto simp: with_checkpoint_def)
  obtain r3 s3 where g: "p_charge_gas P gas s2 = (r3, s3)" by (cases "p_charge_gas P gas s2")
  note gl = charge_law [OF g]
  have s': "s' = p_checkpoint_commit P c s3" and
    y: "y = fill_precompile_output P (new_precompile_output 0 (enc v)) s'"
    using r cp b g v by (cases r3; simp add: with_checkpoint_def Let_def)+
  have "out_bytes y = enc v"
    by (simp add: y fill_precompile_output_def new_precompile_output_def Let_def)
  with cp b v s' gl st2 commit_law [of c s3] show ?thesis by auto
qed

lemma with_checkpoint_keeps [keep_intros]:
  assumes "keeps stack body"
  shows "keeps stack (with_checkpoint P gas enc body)"
proof (rule keepsI)
  fix s
  obtain r s' where w: "with_checkpoint P gas enc body s = (r, s')"
    by (cases "with_checkpoint P gas enc body s")
  then show "stack (snd (with_checkpoint P gas enc body s)) = stack s"
    using with_checkpoint_error(2) [OF assms, of gas enc s] with_checkpoint_ok [OF assms, of gas enc s]
    by (cases r) fastforce+
qed

lemma view_obs:
  assumes "\<And>c. keeps obs (handler c)"
  shows "keeps obs (view P dec enc cd gas handler)"
  unfolding view_def
  by (intro keep_intros keeps_modify assms charge_obs) (simp add: reset_law)

lemma view_void_obs:
  assumes "\<And>c. keeps obs (handler c)"
  shows "keeps obs (view_void P dec cd gas handler)"
  unfolding view_void_def
  by (intro keep_intros keeps_modify assms charge_obs) (simp add: reset_law)

lemma mutate_error:
  assumes k: "\<And>c. keeps stack (handler c)" and r: "mutate P dec enc cd gas handler s = (Inl e, s')"
  shows "obs s' = obs s \<and> stack s' = stack s"
proof -
  let ?s = "p_reset_gas_counters P s"
  have r': "sbind (decode_call dec cd) (\<lambda>c. with_checkpoint P gas (encode_return enc) (handler c)) ?s = (Inl e, s')"
    using r by (simp add: mutate_def)
  show ?thesis
  proof (cases "dec cd")
    case (Inl m)
    with r' reset_law [of s] show ?thesis by (simp add: sbind_run decode_call_run)
  next
    case (Inr c)
    with r' have "with_checkpoint P gas (encode_return enc) (handler c) ?s = (Inl e, s')"
      by (simp add: sbind_run decode_call_run)
    from with_checkpoint_error [OF k this] reset_law [of s] show ?thesis by simp
  qed
qed

lemma mutate_ok:
  assumes k: "\<And>c. keeps stack (handler c)" and r: "mutate P dec enc cd gas handler s = (Inr y, s')"
  shows "\<exists>c s1 v s2. dec cd = Inr c \<and> obs s1 = obs s \<and> handler c s1 = (Inr v, s2) \<and> obs s' = obs s2
      \<and> stack s' = stack s \<and> out_bytes y = enc v"
proof -
  let ?s = "p_reset_gas_counters P s"
  have r': "sbind (decode_call dec cd) (\<lambda>c. with_checkpoint P gas (encode_return enc) (handler c)) ?s = (Inr y, s')"
    using r by (simp add: mutate_def)
  then obtain c where c: "dec cd = Inr c"
    by (auto simp: sbind_run decode_call_run split: sum.splits)
  with r' have "with_checkpoint P gas (encode_return enc) (handler c) ?s = (Inr y, s')"
    by (simp add: sbind_run decode_call_run)
  from with_checkpoint_ok [OF k this] obtain cp s1 v s2 where
    "p_checkpoint P ?s = (cp, s1)" "handler c s1 = (Inr v, s2)" "obs s' = obs s2"
    "stack s' = stack ?s" "out_bytes y = encode_return enc v" by blast
  moreover from this(1) have "obs s1 = obs s" using checkpoint_law reset_law by metis
  ultimately show ?thesis
    using c reset_law [of s] by (auto simp: encode_return_def)
qed

lemma mutate_keeps [keep_intros]:
  assumes "\<And>c. keeps stack (handler c)"
  shows "keeps stack (mutate P dec enc cd gas handler)"
  unfolding mutate_def
  by (intro keep_intros keeps_modify assms) (simp add: reset_law)

end

lemma keeps_check_compliance:
  assumes "\<And>a k. keeps obs (p_sload P a k)"
  shows "keeps obs (check_compliance H P addr)"
  unfolding check_compliance_def by (intro keep_intros assms)

lemma keeps_require_caller [keep_intros]: "keeps obs (require_caller a)"
  unfolding require_caller_def by (intro keep_intros)

text \<open>The wrapper without a return value is the other one with an empty encoding.\<close>

lemma mutate_void_mutate: "mutate_void P dec cd gas h = mutate P dec (\<lambda>_. []) cd gas h"
proof -
  have "encode_return (\<lambda>_::unit. []) = (\<lambda>_. [])" by (rule ext) (simp add: encode_return_def)
  then show ?thesis by (simp add: mutate_void_def mutate_def)
qed

context checkpointed
begin

lemma mutate_void_error:
  assumes "\<And>c. keeps stack (handler c)" "mutate_void P dec cd gas handler s = (Inl e, s')"
  shows "obs s' = obs s \<and> stack s' = stack s"
  using assms(2) unfolding mutate_void_mutate by (rule mutate_error [OF assms(1)])

lemma mutate_atomic [atomic_intros]:
  "(\<And>c. keeps stack (handler c)) \<Longrightarrow> atomic obs (mutate P dec enc cd gas handler)"
  using mutate_error by (metis atomicI)

lemma mutate_void_atomic [atomic_intros]:
  "(\<And>c. keeps stack (handler c)) \<Longrightarrow> atomic obs (mutate_void P dec cd gas handler)"
  using mutate_void_error by (metis atomicI)

lemma mutate_void_keeps [keep_intros]:
  assumes "\<And>c. keeps stack (handler c)"
  shows "keeps stack (mutate_void P dec cd gas handler)"
  unfolding mutate_void_mutate using assms by (rule mutate_keeps)

lemma run_checkpointed_atomic [atomic_intros]:
  assumes "keeps stack body"
  shows "atomic obs (run_checkpointed P body)"
proof (rule atomicI)
  fix s e s'
  assume r: "run_checkpointed P body s = (Inl e, s')"
  obtain c s1 where cp: "p_checkpoint P s = (c, s1)" by (cases "p_checkpoint P s")
  obtain q s2 where b: "body s1 = (q, s2)" by (cases "body s1")
  have "stack s2 = (c, obs s) # stack s" using keepsD [OF assms b] checkpoint_law [OF cp] by simp
  from revert_law [OF this] r cp b show "obs s' = obs s"
    by (cases q) (auto simp: run_checkpointed_def)
qed

lemma run_checkpointed_keeps [keep_intros]:
  assumes "keeps stack body"
  shows "keeps stack (run_checkpointed P body)"
proof (rule keepsI)
  fix s
  obtain c s1 where cp: "p_checkpoint P s = (c, s1)" by (cases "p_checkpoint P s")
  obtain q s2 where b: "body s1 = (q, s2)" by (cases "body s1")
  have "stack s2 = (c, obs s) # stack s" using keepsD [OF assms b] checkpoint_law [OF cp] by simp
  with revert_law [OF this] commit_law [of c s2] cp b show "stack (snd (run_checkpointed P body s)) = stack s"
    by (cases q) (auto simp: run_checkpointed_def)
qed

lemma check_compliance_keeps [keep_intros]: "keeps stack (check_compliance H P addr)"
  by (rule keeps_check_compliance) (rule sload_keeps)

end

lemma mutate_success:
  assumes "mutate P dec enc cd gas h s = (Inr y, s')"
  shows "\<exists>c cp s1 v s2 u s3. dec cd = Inr c \<and> p_checkpoint P (p_reset_gas_counters P s) = (cp, s1) \<and>
    h c s1 = (Inr v, s2) \<and> p_charge_gas P gas s2 = (Inr u, s3) \<and> s' = p_checkpoint_commit P cp s3"
proof -
  let ?s = "p_reset_gas_counters P s"
  have r: "sbind (decode_call dec cd) (\<lambda>c. with_checkpoint P gas (encode_return enc) (h c)) ?s = (Inr y, s')"
    using assms by (simp add: mutate_def)
  then obtain c where c: "dec cd = Inr c"
    by (auto simp: sbind_run decode_call_run split: sum.splits)
  obtain cp s1 where cp: "p_checkpoint P ?s = (cp, s1)" by (cases "p_checkpoint P ?s")
  obtain q s2 where b: "h c s1 = (q, s2)" by (cases "h c s1")
  from r c have w: "with_checkpoint P gas (encode_return enc) (h c) ?s = (Inr y, s')"
    by (simp add: sbind_run decode_call_run)
  with cp b obtain v where v: "q = Inr v" by (cases q) (auto simp: with_checkpoint_def)
  obtain g s3 where g: "p_charge_gas P gas s2 = (g, s3)" by (cases "p_charge_gas P gas s2")
  with w cp b v obtain u where "g = Inr u" "s' = p_checkpoint_commit P cp s3"
    by (cases g) (auto simp: with_checkpoint_def Let_def)
  with c cp b v g show ?thesis by blast
qed

end
