(* ===== verification/Evm_Caller.thy ===== *)
theory Evm_Caller
  imports Dispatch
begin

text \<open>
  Calls from a precompile into EVM contracts: \<^verbatim>\<open>crates/precompile/src/evm_caller.rs\<close>, with the database
  adapter and the replay of the nested state, and \<^verbatim>\<open>crates/precompile/src/erc20_reader.rs\<close>, which
  reads the metadata of an ERC-20 contract by static calls or from its storage. The nested revm
  instance is the parameter \<open>X\<close>; its error is the text the sources put in \<^verbatim>\<open>PrecompileError::Other\<close>.
\<close>

section \<open>The nested EVM\<close>

datatype exec_result = Success bytes u64 | Revert u64 | Halt u64

record account_change =
  ac_address :: address
  ac_touched :: bool
  ac_storage :: "(u256 \<times> u256 \<times> u256) list"
  ac_old_balance :: u256
  ac_new_balance :: u256

type_synonym 's nested_evm = "address \<Rightarrow> address \<Rightarrow> bytes \<Rightarrow> u64 \<Rightarrow> u64 \<Rightarrow> u256 \<Rightarrow>
  ('s, string, exec_result \<times> account_change list) smonad"

definition NESTED_CALL_GAS_LIMIT :: u64 where
  "NESTED_CALL_GAS_LIMIT = 100000"

fun exec_gas :: "exec_result \<Rightarrow> u64" where
  "exec_gas (Success out gas) = gas"
| "exec_gas (Revert gas) = gas"
| "exec_gas (Halt gas) = gas"

text \<open>The account record the adapter hands to the nested EVM: no nonce, code by value.\<close>

record account_info =
  ai_balance :: u256
  ai_nonce :: u64
  ai_code_hash :: u256
  ai_code :: "bytes option"

definition db_basic :: "(bytes \<Rightarrow> u256) \<Rightarrow> 's provider \<Rightarrow> address \<Rightarrow> ('s, precompile_error, account_info option) smonad" where
  "db_basic H P address =
     sbind (p_raw_balance_get P address) (\<lambda>balance.
     sbind (p_raw_code_get P address) (\<lambda>code.
     sret (Some \<lparr>ai_balance = balance, ai_nonce = 0,
                 ai_code_hash = (if code = [] then H [] else H code),
                 ai_code = (if code = [] then None else Some code)\<rparr>)))"

definition db_code_by_hash :: "u256 \<Rightarrow> ('s, precompile_error, bytes) smonad" where
  "db_code_by_hash hash = sret []"

definition db_storage :: "'s provider \<Rightarrow> address \<Rightarrow> u256 \<Rightarrow> ('s, precompile_error, u256) smonad" where
  "db_storage P address index = p_raw_sload P address index"

definition db_block_hash :: "u64 \<Rightarrow> ('s, precompile_error, u256) smonad" where
  "db_block_hash number = sret 0"

definition execute_evm_call :: "'s nested_evm \<Rightarrow> 's provider \<Rightarrow> address \<Rightarrow> address \<Rightarrow> bytes \<Rightarrow>
    ('s, precompile_error, exec_result \<times> account_change list) smonad" where
  "execute_evm_call X P caller contract data =
     sbind (sget (p_block_number P)) (\<lambda>block_number.
     sbind (sget (p_timestamp P)) (\<lambda>timestamp.
     sbind (smap_err Other (X caller contract data NESTED_CALL_GAS_LIMIT block_number timestamp)) (\<lambda>(result, state).
     sbind (p_charge_gas P (exec_gas result)) (\<lambda>_.
     sret (result, state)))))"

definition apply_slot :: "'s provider \<Rightarrow> address \<Rightarrow> u256 \<times> u256 \<times> u256 \<Rightarrow> ('s, precompile_error, unit) smonad" where
  "apply_slot P address = (\<lambda>(slot, original_value, present_value).
     if present_value \<noteq> original_value then p_raw_sstore P address slot present_value else sret ())"

definition apply_account :: "'s provider \<Rightarrow> account_change \<Rightarrow> ('s, precompile_error, unit) smonad" where
  "apply_account P account =
     (if \<not> ac_touched account then sret ()
      else
        sbind (sfor (ac_storage account) (apply_slot P (ac_address account))) (\<lambda>_.
        let old_balance = ac_old_balance account; new_balance = ac_new_balance account in
        if old_balance \<noteq> new_balance
        then if old_balance < new_balance
             then p_balance_add P (ac_address account) (new_balance - old_balance)
             else p_balance_sub P (ac_address account) (old_balance - new_balance)
        else sret ()))"

definition apply_state_changes :: "'s provider \<Rightarrow> account_change list \<Rightarrow> ('s, precompile_error, unit) smonad" where
  "apply_state_changes P state = sfor state (apply_account P)"

section \<open>Reading ERC-20 metadata\<close>

record erc20_metadata =
  em_name :: bytes
  em_symbol :: bytes
  em_decimals :: u8

definition SELECTOR_NAME :: bytes where "SELECTOR_NAME = [0x06, 0xfd, 0xde, 0x03]"

definition SELECTOR_SYMBOL :: bytes where "SELECTOR_SYMBOL = [0x95, 0xd8, 0x9b, 0x41]"

definition SELECTOR_DECIMALS :: bytes where "SELECTOR_DECIMALS = [0x31, 0x3c, 0xe5, 0x67]"

text \<open>\<^verbatim>\<open>to::<usize>()\<close> of a 256-bit word, which unwinds when the word does not fit.\<close>

definition to_usize :: "u256 \<Rightarrow> usize outcome" where
  "to_usize v = (if unat v < 2 ^ 64 then Returned (ucast v) else Panicked)"

definition decode_abi_string :: "bytes \<Rightarrow> (precompile_error + bytes) outcome" where
  "decode_abi_string data =
     (if length data < 64 then Returned (Inl (Other ''string return too short''))
      else case to_usize (from_be_bytes (take 32 data)) of
        Panicked \<Rightarrow> Panicked
      | Returned offset \<Rightarrow>
          if len_u data < offset + 32 then Returned (Inl (Other ''string offset out of bounds''))
          else case slice_range data offset (offset + 32) of
            Panicked \<Rightarrow> Panicked
          | Returned word \<Rightarrow> (case to_usize (from_be_bytes word) of
              Panicked \<Rightarrow> Panicked
            | Returned len \<Rightarrow>
                if len_u data < offset + 32 + len then Returned (Inl (Other ''string length out of bounds''))
                else case slice_range data (offset + 32) (offset + 32 + len) of
                  Panicked \<Rightarrow> Panicked
                | Returned str_bytes \<Rightarrow> (case from_utf8 str_bytes of
                    None \<Rightarrow> Returned (Inl (Other ''invalid utf8 in string return''))
                  | Some s \<Rightarrow> Returned (Inr s))))"

definition decode_abi_uint8 :: "bytes \<Rightarrow> u8" where
  "decode_abi_uint8 data = (if 32 \<le> length data then data ! 31 else 18)"

definition execute_static_call :: "'s nested_evm \<Rightarrow> 's provider \<Rightarrow> address \<Rightarrow> bytes \<Rightarrow>
    ('s, precompile_error, bytes option) smonad" where
  "execute_static_call X P contract data =
     sbind (sget (p_block_number P)) (\<lambda>block_number.
     sbind (sget (p_timestamp P)) (\<lambda>timestamp.
     sbind (smap_err Other (X 0 contract data NESTED_CALL_GAS_LIMIT block_number timestamp)) (\<lambda>(result, _).
     sbind (p_charge_gas P (exec_gas result)) (\<lambda>_.
     sret (case result of Success bytes _ \<Rightarrow> if bytes = [] then None else Some bytes | _ \<Rightarrow> None)))))"

text \<open>The string an answer holds: \<^verbatim>\<open>None\<close> when there is no answer, no valid string or an empty one.\<close>

definition answer_string :: "bytes option \<Rightarrow> ('s, precompile_error, bytes option) smonad" where
  "answer_string ans = (case ans of None \<Rightarrow> sret None
     | Some data \<Rightarrow> (case decode_abi_string data of
         Panicked \<Rightarrow> sfail Unwind
       | Returned (Inl _) \<Rightarrow> sret None
       | Returned (Inr s) \<Rightarrow> sret (if s \<noteq> [] then Some s else None)))"

definition try_evm_call_metadata :: "'s nested_evm \<Rightarrow> 's provider \<Rightarrow> address \<Rightarrow>
    ('s, precompile_error, erc20_metadata option) smonad" where
  "try_evm_call_metadata X P contract =
     sbind (sbind (execute_static_call X P contract SELECTOR_NAME) answer_string) (\<lambda>n. case n of None \<Rightarrow> sret None
     | Some name \<Rightarrow>
     sbind (sbind (execute_static_call X P contract SELECTOR_SYMBOL) answer_string) (\<lambda>y. case y of None \<Rightarrow> sret None
     | Some symbol \<Rightarrow>
     sbind (execute_static_call X P contract SELECTOR_DECIMALS) (\<lambda>ans.
     sret (Some \<lparr>em_name = name, em_symbol = symbol,
                 em_decimals = (case ans of Some data \<Rightarrow> decode_abi_uint8 data | None \<Rightarrow> 18)\<rparr>))))"

text \<open>The \<^verbatim>\<open>while\<close> loop over the words of a long string.\<close>

function read_chunks :: "'s provider \<Rightarrow> address \<Rightarrow> u256 \<Rightarrow> nat \<Rightarrow> ('s, precompile_error, bytes) smonad" where
  "read_chunks P contract current_slot remaining =
     (if remaining = 0 then sret []
      else sbind (p_sload P contract current_slot) (\<lambda>w.
        let to_take = min remaining 32 in
        sbind (read_chunks P contract (current_slot + 1) (remaining - min remaining 32)) (\<lambda>rest.
        sret (take to_take (to_be_bytes w) @ rest))))"
  by pat_completeness auto
termination
  by (relation "measure (\<lambda>(P, c, k, n). n)") auto

declare read_chunks.simps [simp del]

definition read_solidity_string :: "(bytes \<Rightarrow> u256) \<Rightarrow> 's provider \<Rightarrow> address \<Rightarrow> u256 \<Rightarrow>
    ('s, precompile_error, bytes option) smonad" where
  "read_solidity_string H P contract base_slot =
     sbind (p_sload P contract base_slot) (\<lambda>header.
     let bytes = to_be_bytes header; flag = unat (bytes ! 31) in
     if flag mod 2 = 0
     then
       let len = flag div 2 in
       if 31 < len then sret None
       else if len = 0 then sret (Some [])
       else if \<exists>b \<in> set (drop len (take 31 bytes)). b \<noteq> 0 then sret None
       else sbind (sok_or (Other ''invalid utf8 in short string'') (from_utf8 (take len bytes))) (\<lambda>s. sret (Some s))
     else
       let len = (flag - 1) div 2 in
       if len = 0 then sret (Some [])
       else sbind (read_chunks P contract (H (to_be_bytes base_slot)) len) (\<lambda>result.
            sbind (sok_or (Other ''invalid utf8 in long string'') (from_utf8 result)) (\<lambda>s. sret (Some s))))"

definition read_solidity_uint8 :: "'s provider \<Rightarrow> address \<Rightarrow> u256 \<Rightarrow> ('s, precompile_error, u8) smonad" where
  "read_solidity_uint8 P contract slot =
     sunwrap_or 18 (sbind (p_sload P contract slot) (\<lambda>v. sret (to_be_bytes v ! 31)))"

text \<open>One layout: the two strings at the given slots, both present and nonempty.\<close>

definition read_layout :: "(bytes \<Rightarrow> u256) \<Rightarrow> 's provider \<Rightarrow> address \<Rightarrow> u256 \<Rightarrow> u256 \<Rightarrow>
    ('s, precompile_error, (bytes \<times> bytes) option) smonad" where
  "read_layout H P contract name_slot symbol_slot =
     sbind (read_solidity_string H P contract name_slot) (\<lambda>n. case n of None \<Rightarrow> sret None
     | Some name \<Rightarrow>
     sbind (read_solidity_string H P contract symbol_slot) (\<lambda>y. case y of None \<Rightarrow> sret None
     | Some symbol \<Rightarrow> sret (if name \<noteq> [] \<and> symbol \<noteq> [] then Some (name, symbol) else None)))"

definition try_storage_slot_metadata :: "(bytes \<Rightarrow> u256) \<Rightarrow> 's provider \<Rightarrow> address \<Rightarrow>
    ('s, precompile_error, erc20_metadata) smonad" where
  "try_storage_slot_metadata H P contract =
     sbind (read_layout H P contract 0 1) (\<lambda>v5. case v5 of
       Some (name, symbol) \<Rightarrow>
         sbind (read_solidity_uint8 P contract 2) (\<lambda>decimals.
         sret \<lparr>em_name = name, em_symbol = symbol, em_decimals = decimals\<rparr>)
     | None \<Rightarrow>
         sbind (read_layout H P contract 3 4) (\<lambda>v4. case v4 of
           Some (name, symbol) \<Rightarrow> sret \<lparr>em_name = name, em_symbol = symbol, em_decimals = 18\<rparr>
         | None \<Rightarrow> sfail (Other ''unable to read ERC-20 metadata from contract'')))"

definition read_erc20_metadata :: "(bytes \<Rightarrow> u256) \<Rightarrow> 's nested_evm \<Rightarrow> 's provider \<Rightarrow> address \<Rightarrow>
    ('s, precompile_error, erc20_metadata) smonad" where
  "read_erc20_metadata H X P contract =
     sbind (p_code_get P contract) (\<lambda>code.
     sbind (sguard (code = []) (Other ''no code at address'')) (\<lambda>_.
     sbind (try_evm_call_metadata X P contract) (\<lambda>m. case m of
       Some meta \<Rightarrow> if em_name meta \<noteq> [] \<and> em_symbol meta \<noteq> [] then sret meta
                    else try_storage_slot_metadata H P contract
     | None \<Rightarrow> try_storage_slot_metadata H P contract)))"

section \<open>Framing under the checkpoint contract\<close>

lemma keeps_answer_string [keep_intros]: "keeps obs (answer_string ans)"
  by (auto simp: answer_string_def keeps_def split: option.splits outcome.splits sum.splits)

context checkpointed
begin

lemma execute_evm_call_keeps [keep_intros]:
  assumes "\<And>c k d g b t. keeps stack (X c k d g b t)"
  shows "keeps stack (execute_evm_call X P caller contract data)"
  unfolding execute_evm_call_def by (intro keep_intros assms)

lemma execute_static_call_keeps [keep_intros]:
  assumes "\<And>c k d g b t. keeps stack (X c k d g b t)"
  shows "keeps stack (execute_static_call X P contract data)"
  unfolding execute_static_call_def by (intro keep_intros assms)

lemma apply_state_changes_keeps [keep_intros]: "keeps stack (apply_state_changes P state)"
  unfolding apply_state_changes_def apply_account_def apply_slot_def Let_def
  by (intro keep_intros)

lemma read_chunks_keeps [keep_intros]: "keeps stack (read_chunks P contract slot n)"
proof (induction n arbitrary: slot rule: less_induct)
  case (less n)
  show ?case
    by (subst read_chunks.simps, unfold Let_def, cases "n = 0")
       (use less in \<open>auto intro!: keep_intros\<close>)
qed

lemma read_solidity_string_keeps [keep_intros]: "keeps stack (read_solidity_string H P contract slot)"
  unfolding read_solidity_string_def Let_def by (intro keep_intros)

lemma read_erc20_metadata_keeps [keep_intros]:
  assumes "\<And>c k d g b t. keeps stack (X c k d g b t)"
  shows "keeps stack (read_erc20_metadata H X P contract)"
  unfolding read_erc20_metadata_def try_evm_call_metadata_def try_storage_slot_metadata_def
    read_layout_def read_solidity_uint8_def
  by (intro keep_intros assms)

end

section \<open>ABI strings\<close>

text \<open>The canonical ABI encoding of one returned string: offset, length, bytes, padding.\<close>

definition abi_string :: "bytes \<Rightarrow> nat \<Rightarrow> bytes" where
  "abi_string s pad = to_be_bytes (32 :: u256) @ to_be_bytes (of_nat (length s) :: u256) @ s @ replicate pad 0"

lemma from_to_be_bytes_u256: "from_be_bytes (to_be_bytes (v :: u256)) = v"
  by (rule from_to_be_bytes) simp

lemma length_to_be_bytes_u256 [simp]: "length (to_be_bytes (v :: u256)) = 32"
  by simp

lemma decode_abi_string_round_trip:
  assumes "utf8_valid s" "length s + pad + 64 < 2 ^ 64"
  shows "decode_abi_string (abi_string s pad) = Returned (Inr s)"
proof -
  let ?d = "abi_string s pad" and ?n = "of_nat (length s) :: u256"
  have len: "length ?d = 64 + length s + pad" by (simp add: abi_string_def)
  have t1: "to_usize (from_be_bytes (take 32 ?d)) = Returned 32"
    by (simp add: abi_string_def from_to_be_bytes_u256 to_usize_def)
  have u: "unat (of_nat k :: usize) = k" if "k < 2 ^ 64" for k using that by (simp add: unat_of_nat)
  have sl1: "slice_range ?d 32 64 = Returned (to_be_bytes ?n)"
    using slice_range_mid [of "to_be_bytes (32 :: u256)" "to_be_bytes ?n" "s @ replicate pad 0"] assms(2)
    by (simp add: abi_string_def)
  have n: "unat ?n = length s" using assms(2) by (simp add: unat_of_nat)
  then have "(ucast ?n :: usize) = of_nat (length s)" by (metis of_nat_unat)
  with n have t2: "to_usize (from_be_bytes (to_be_bytes ?n)) = Returned (of_nat (length s))"
    using assms(2) by (simp add: from_to_be_bytes_u256 to_usize_def)
  have sl2: "slice_range ?d 64 (64 + of_nat (length s)) = Returned s"
    using slice_range_mid [of "to_be_bytes (32 :: u256) @ to_be_bytes ?n" s "replicate pad 0"] assms(2)
    by (simp add: abi_string_def)
  have b: "\<not> len_u ?d < 64" "\<not> len_u ?d < 64 + of_nat (length s)"
    using u [of "64 + length s + pad"] u [of "64 + length s"] assms(2)
    by (simp_all add: len_u_def len word_less_nat_alt)
  show ?thesis
    using t1 sl1 t2 sl2 b assms(1) len by (simp add: decode_abi_string_def from_utf8_def)
qed

end
