(* ===== verification/Asset_Precompile.thy ===== *)
theory Asset_Precompile
  imports Asset_Laws Evm_Caller
begin

text \<open>
  The asset precompile, \<^verbatim>\<open>crates/asset/src/precompile.rs\<close>: one definition per method and the selector
  dispatch. The selectors, decoders and encoders that the \<^verbatim>\<open>sol!\<close> macro generates are the fields of
  \<open>asset_abi\<close>, with the library's renderings of addresses and errors; \<open>H\<close> is keccak and \<open>X\<close> the nested EVM. Errors of the ledger become their display text.
\<close>

section \<open>The generated interface\<close>

record asset_abi =
  sel_getBalance :: bytes
  sel_getTotalSupply :: bytes
  sel_getAssetInfo :: bytes
  sel_transfer :: bytes
  sel_batchTransfer :: bytes
  sel_approve :: bytes
  sel_transferFrom :: bytes
  sel_mint :: bytes
  sel_burn :: bytes
  sel_register :: bytes
  sel_registerErc20 :: bytes
  sel_createWrapper :: bytes
  dec_getBalance :: "bytes \<Rightarrow> string + u64 \<times> address"
  dec_getTotalSupply :: "bytes \<Rightarrow> string + u64"
  dec_getAssetInfo :: "bytes \<Rightarrow> string + u64"
  dec_transfer :: "bytes \<Rightarrow> string + u64 \<times> address \<times> u128"
  dec_batchTransfer :: "bytes \<Rightarrow> string + u64 \<times> address list \<times> u128 list"
  dec_approve :: "bytes \<Rightarrow> string + u64 \<times> address \<times> u128"
  dec_transferFrom :: "bytes \<Rightarrow> string + u64 \<times> address \<times> address \<times> u128"
  dec_mint :: "bytes \<Rightarrow> string + u64 \<times> address \<times> u128"
  dec_burn :: "bytes \<Rightarrow> string + u64 \<times> address \<times> u128"
  dec_register :: "bytes \<Rightarrow> string + bytes \<times> bytes \<times> u8 \<times> u128"
  dec_registerErc20 :: "bytes \<Rightarrow> string + address"
  dec_createWrapper :: "bytes \<Rightarrow> string + u64"
  enc_balance :: "u128 \<Rightarrow> bytes"
  enc_info :: "bytes \<times> bytes \<times> u256 \<times> address \<times> u128 \<times> u256 \<times> u256 \<Rightarrow> bytes"
  enc_id :: "u64 \<Rightarrow> bytes"
  enc_wrapper :: "address \<Rightarrow> bytes"
  enc_factoryCall :: "bytes \<Rightarrow> bytes \<Rightarrow> u8 \<Rightarrow> u256 \<Rightarrow> bytes"
  dec_factoryReturn :: "bytes \<Rightarrow> string + address"
  fmt_address :: "address \<Rightarrow> string"
  fmt_error :: "precompile_error \<Rightarrow> string"

section \<open>Events and errors\<close>

definition TRANSFER_TOPIC :: "(bytes \<Rightarrow> u256) \<Rightarrow> u256" where
  "TRANSFER_TOPIC H = H (bstr ''Transfer(uint64,address,address,uint128)'')"

definition APPROVAL_TOPIC :: "(bytes \<Rightarrow> u256) \<Rightarrow> u256" where
  "APPROVAL_TOPIC H = H (bstr ''Approval(uint64,address,address,uint128)'')"

definition MINT_TOPIC :: "(bytes \<Rightarrow> u256) \<Rightarrow> u256" where
  "MINT_TOPIC H = H (bstr ''Mint(uint64,address,uint128)'')"

definition BURN_TOPIC :: "(bytes \<Rightarrow> u256) \<Rightarrow> u256" where
  "BURN_TOPIC H = H (bstr ''Burn(uint64,address,uint128)'')"

definition REGISTER_TOPIC :: "(bytes \<Rightarrow> u256) \<Rightarrow> u256" where
  "REGISTER_TOPIC H = H (bstr ''Register(uint64,address,bytes32)'')"

definition WRAPPER_CREATED_TOPIC :: "(bytes \<Rightarrow> u256) \<Rightarrow> u256" where
  "WRAPPER_CREATED_TOPIC H = H (bstr ''WrapperCreated(uint64,address,address)'')"

definition asset_err :: "asset_abi \<Rightarrow> ('s, asset_error, 'a) smonad \<Rightarrow> ('s, precompile_error, 'a) smonad" where
  "asset_err abi m = smap_err (\<lambda>e. if e = Asset_Panic then Unwind else Other (asset_error_text (fmt_address abi) e)) m"

definition require_compliance :: "(bytes \<Rightarrow> u256) \<Rightarrow> asset_abi \<Rightarrow> 's provider \<Rightarrow> address \<Rightarrow> ('s, precompile_error, unit) smonad" where
  "require_compliance H abi P addr =
     smap_err (\<lambda>_. Other (asset_error_text (fmt_address abi) ComplianceFailed)) (check_compliance H P addr)"

definition emit_asset_event :: "'s provider \<Rightarrow> u256 \<Rightarrow> u256 list \<Rightarrow> bytes \<Rightarrow> ('s, precompile_error, unit) smonad" where
  "emit_asset_event P topic0 topics data =
     p_emit_event P ASSET_ADDRESS \<lparr>log_topics = topic0 # topics, log_bytes = data\<rparr>"

section \<open>Methods\<close>

definition pc_get_balance :: "(bytes \<Rightarrow> u256) \<Rightarrow> asset_abi \<Rightarrow> 's provider \<Rightarrow> bytes \<Rightarrow>
    ('s, precompile_error, precompile_output) smonad" where
  "pc_get_balance H abi P calldata =
     view P (dec_getBalance abi) (enc_balance abi) calldata 800 (\<lambda>(assetId, account).
       sbind (asset_err abi (read_meta H (storage_ref P) assetId)) (\<lambda>_.
       asset_err abi (read_balance H (storage_ref P) assetId account)))"

definition pc_get_total_supply :: "(bytes \<Rightarrow> u256) \<Rightarrow> asset_abi \<Rightarrow> 's provider \<Rightarrow> bytes \<Rightarrow>
    ('s, precompile_error, precompile_output) smonad" where
  "pc_get_total_supply H abi P calldata =
     view P (dec_getTotalSupply abi) (enc_balance abi) calldata 800 (\<lambda>assetId.
       sbind (asset_err abi (read_meta H (storage_ref P) assetId)) (\<lambda>meta.
       sret (am_supply meta)))"

definition pc_get_asset_info :: "(bytes \<Rightarrow> u256) \<Rightarrow> asset_abi \<Rightarrow> 's provider \<Rightarrow> bytes \<Rightarrow>
    ('s, precompile_error, precompile_output) smonad" where
  "pc_get_asset_info H abi P calldata =
     view P (dec_getAssetInfo abi) (enc_info abi) calldata 1000 (\<lambda>assetId.
       sbind (asset_err abi (read_meta H (storage_ref P) assetId)) (\<lambda>meta.
       sret (to_be_bytes (write_string32 (am_symbol meta)), to_be_bytes (write_string32 (am_name meta)),
             ucast (am_decimals meta), am_issuer meta, am_max_supply meta, ucast (am_status meta),
             am_registered_at meta)))"

definition pc_transfer :: "(bytes \<Rightarrow> u256) \<Rightarrow> asset_abi \<Rightarrow> 's provider \<Rightarrow> bytes \<Rightarrow> address \<Rightarrow>
    ('s, precompile_error, precompile_output) smonad" where
  "pc_transfer H abi P calldata msg_sender =
     mutate_void P (dec_transfer abi) calldata 5000 (\<lambda>(assetId, to, amount).
       sbind (require_caller msg_sender) (\<lambda>from.
       sbind (require_compliance H abi P from) (\<lambda>_.
       sbind (require_compliance H abi P to) (\<lambda>_.
       sbind (asset_err abi (read_meta H (storage_ref P) assetId)) (\<lambda>_.
       sbind (asset_err abi (transfer H (storage_ref P) assetId from to amount)) (\<lambda>_.
       emit_asset_event P (TRANSFER_TOPIC H)
         [u64_to_u256 assetId, address_to_u256 from, address_to_u256 to] (encode_u128 amount)))))))"

definition MAX_BATCH_SIZE :: nat where "MAX_BATCH_SIZE = 256"

definition pc_batch_transfer :: "(bytes \<Rightarrow> u256) \<Rightarrow> asset_abi \<Rightarrow> 's provider \<Rightarrow> bytes \<Rightarrow> address \<Rightarrow>
    ('s, precompile_error, precompile_output) smonad" where
  "pc_batch_transfer H abi P calldata msg_sender =
     sbind (decode_call (dec_batchTransfer abi) calldata) (\<lambda>(assetId, tos, amounts).
     sbind (sguard (length tos \<noteq> length amounts) (Other ''recipients and amounts length mismatch'')) (\<lambda>_.
     sbind (sguard (tos = []) (Other ''empty batch'')) (\<lambda>_.
     sbind (sguard (MAX_BATCH_SIZE < length tos) (Other (''batch size exceeds limit of '' @ show_dec MAX_BATCH_SIZE))) (\<lambda>_.
     sbind (sok_or (Other ''batch gas overflow'')
              (case checked_add 5000 1700 of None \<Rightarrow> None | Some g \<Rightarrow> checked_mul g (of_nat (length tos)))) (\<lambda>total_gas.
     sbind (p_charge_gas P total_gas) (\<lambda>_.
     sbind (require_caller msg_sender) (\<lambda>from.
     sbind (require_compliance H abi P from) (\<lambda>_.
     sbind (sfor tos (require_compliance H abi P)) (\<lambda>_.
     let pairs = zip tos amounts in
     sbind (run_checkpointed P
       (sbind (asset_err abi (read_meta H (storage_ref P) assetId)) (\<lambda>_.
        sbind (asset_err abi (batch_transfer H (storage_ref P) assetId from pairs)) (\<lambda>_.
        sfor pairs (\<lambda>(to, amount). emit_asset_event P (TRANSFER_TOPIC H)
          [u64_to_u256 assetId, address_to_u256 from, address_to_u256 to] (encode_u128 amount)))))) (\<lambda>_.
     ok_empty P))))))))))"

definition pc_approve :: "(bytes \<Rightarrow> u256) \<Rightarrow> asset_abi \<Rightarrow> 's provider \<Rightarrow> bytes \<Rightarrow> address \<Rightarrow>
    ('s, precompile_error, precompile_output) smonad" where
  "pc_approve H abi P calldata msg_sender =
     mutate_void P (dec_approve abi) calldata 3000 (\<lambda>(assetId, spender, amount).
       sbind (require_caller msg_sender) (\<lambda>owner.
       sbind (asset_err abi (approve H (storage_ref P) assetId owner spender amount)) (\<lambda>_.
       emit_asset_event P (APPROVAL_TOPIC H)
         [u64_to_u256 assetId, address_to_u256 owner, address_to_u256 spender] (encode_u128 amount))))"

definition pc_transfer_from :: "(bytes \<Rightarrow> u256) \<Rightarrow> asset_abi \<Rightarrow> 's provider \<Rightarrow> bytes \<Rightarrow> address \<Rightarrow>
    ('s, precompile_error, precompile_output) smonad" where
  "pc_transfer_from H abi P calldata msg_sender =
     mutate_void P (dec_transferFrom abi) calldata 6000 (\<lambda>(assetId, from, to, amount).
       sbind (require_caller msg_sender) (\<lambda>spender.
       sbind (require_compliance H abi P spender) (\<lambda>_.
       sbind (require_compliance H abi P from) (\<lambda>_.
       sbind (require_compliance H abi P to) (\<lambda>_.
       sbind (asset_err abi (read_meta H (storage_ref P) assetId)) (\<lambda>_.
       sbind (asset_err abi (transfer_from H (storage_ref P) assetId spender from to amount)) (\<lambda>_.
       emit_asset_event P (TRANSFER_TOPIC H)
         [u64_to_u256 assetId, address_to_u256 from, address_to_u256 to] (encode_u128 amount))))))))"

definition pc_mint :: "(bytes \<Rightarrow> u256) \<Rightarrow> asset_abi \<Rightarrow> 's provider \<Rightarrow> bytes \<Rightarrow> address \<Rightarrow>
    ('s, precompile_error, precompile_output) smonad" where
  "pc_mint H abi P calldata msg_sender =
     mutate_void P (dec_mint abi) calldata 10000 (\<lambda>(assetId, to, amount).
       sbind (require_caller msg_sender) (\<lambda>caller.
       sbind (sguard (to = 0) (Other ''mint to zero address'')) (\<lambda>_.
       sbind (require_compliance H abi P caller) (\<lambda>_.
       sbind (require_compliance H abi P to) (\<lambda>_.
       sbind (asset_err abi (mint H (storage_ref P) assetId caller to amount)) (\<lambda>_.
       emit_asset_event P (MINT_TOPIC H) [u64_to_u256 assetId, address_to_u256 to] (encode_u128 amount)))))))"

definition pc_burn :: "(bytes \<Rightarrow> u256) \<Rightarrow> asset_abi \<Rightarrow> 's provider \<Rightarrow> bytes \<Rightarrow> address \<Rightarrow>
    ('s, precompile_error, precompile_output) smonad" where
  "pc_burn H abi P calldata msg_sender =
     mutate_void P (dec_burn abi) calldata 8000 (\<lambda>(assetId, from, amount).
       sbind (require_caller msg_sender) (\<lambda>caller.
       sbind (sguard (from = 0) (Other ''burn from zero address'')) (\<lambda>_.
       sbind (require_compliance H abi P caller) (\<lambda>_.
       sbind (require_compliance H abi P from) (\<lambda>_.
       sbind (asset_err abi (read_meta H (storage_ref P) assetId)) (\<lambda>_.
       sbind (asset_err abi (burn H (storage_ref P) assetId caller from amount)) (\<lambda>_.
       emit_asset_event P (BURN_TOPIC H) [u64_to_u256 assetId, address_to_u256 from] (encode_u128 amount))))))))"

definition pc_register :: "(bytes \<Rightarrow> u256) \<Rightarrow> asset_abi \<Rightarrow> 's provider \<Rightarrow> bytes \<Rightarrow> address \<Rightarrow>
    ('s, precompile_error, precompile_output) smonad" where
  "pc_register H abi P calldata msg_sender =
     mutate P (dec_register abi) (enc_id abi) calldata 50000 (\<lambda>(symbol, name, decimals, maxSupply).
       sbind (require_caller msg_sender) (\<lambda>caller.
       sbind (sguard (32 < length symbol) (Other ''symbol exceeds 32 bytes'')) (\<lambda>_.
       sbind (sguard (32 < length name) (Other ''name exceeds 32 bytes'')) (\<lambda>_.
       sbind (sget (p_timestamp P)) (\<lambda>timestamp.
       sbind (asset_err abi (register H (storage_ref P) symbol name decimals maxSupply caller timestamp)) (\<lambda>asset_id.
       sbind (emit_asset_event P (REGISTER_TOPIC H) [u64_to_u256 asset_id, address_to_u256 caller]
                (to_be_bytes (write_string32 symbol))) (\<lambda>_.
       sret asset_id)))))))"

definition pc_register_erc20 :: "(bytes \<Rightarrow> u256) \<Rightarrow> 's nested_evm \<Rightarrow> asset_abi \<Rightarrow> 's provider \<Rightarrow> bytes \<Rightarrow> address \<Rightarrow>
    ('s, precompile_error, precompile_output) smonad" where
  "pc_register_erc20 H X abi P calldata msg_sender =
     mutate P (dec_registerErc20 abi) (enc_id abi) calldata 50000 (\<lambda>evmContract.
       sbind (require_caller msg_sender) (\<lambda>caller.
       sbind (smap_err (\<lambda>e. if e = Unwind then Unwind else Other (''ERC-20 read failed: '' @ fmt_error abi e))
                (read_erc20_metadata H X P evmContract)) (\<lambda>meta.
       sbind (sguard (32 < length (em_symbol meta)) (Other ''ERC-20 symbol exceeds 32 bytes'')) (\<lambda>_.
       sbind (sguard (32 < length (em_name meta)) (Other ''ERC-20 name exceeds 32 bytes'')) (\<lambda>_.
       sbind (asset_err abi (evm_contract_asset_id H (storage_ref P) evmContract)) (\<lambda>bound.
       sbind (sguard (bound \<noteq> None) (Other ''ERC-20 contract already bound to an asset'')) (\<lambda>_.
       sbind (sget (p_timestamp P)) (\<lambda>timestamp.
       sbind (asset_err abi (register_erc20 H (storage_ref P) evmContract (em_symbol meta) (em_name meta)
                (em_decimals meta) 0 0 timestamp)) (\<lambda>asset_id.
       sbind (emit_asset_event P (REGISTER_TOPIC H) [u64_to_u256 asset_id, address_to_u256 caller]
                (to_be_bytes (write_string32 (em_symbol meta)))) (\<lambda>_.
       sret asset_id))))))))))"

definition pc_create_wrapper :: "(bytes \<Rightarrow> u256) \<Rightarrow> 's nested_evm \<Rightarrow> asset_abi \<Rightarrow> 's provider \<Rightarrow> bytes \<Rightarrow> address \<Rightarrow>
    ('s, precompile_error, precompile_output) smonad" where
  "pc_create_wrapper H X abi P calldata msg_sender =
     mutate P (dec_createWrapper abi) (enc_wrapper abi) calldata 100000 (\<lambda>assetId.
       sbind (require_caller msg_sender) (\<lambda>caller.
       sbind (require_compliance H abi P caller) (\<lambda>_.
       sbind (asset_err abi (read_meta H (storage_ref P) assetId)) (\<lambda>meta.
       sbind (sguard (am_issuer meta \<noteq> caller) (Other ''not asset issuer'')) (\<lambda>_.
       sbind (asset_err abi (has_erc20 H (storage_ref P) assetId)) (\<lambda>bound.
       sbind (sguard bound (Other ''asset already has ERC-20 bridge'')) (\<lambda>_.
       sbind (asset_err abi (set_has_erc20 H (storage_ref P) assetId 1)) (\<lambda>_.
       sbind (execute_evm_call X P ASSET_ADDRESS WRAPPED_TOKEN_FACTORY_ADDRESS
                (enc_factoryCall abi (am_name meta) (am_symbol meta) (am_decimals meta) (ucast assetId))) (\<lambda>(result, state).
       sbind (case result of
                Success bytes _ \<Rightarrow> (case dec_factoryReturn abi bytes of
                    Inl e \<Rightarrow> sfail (Other (''factory decode failed: '' @ e)) | Inr a \<Rightarrow> sret a)
              | _ \<Rightarrow> sfail (Other ''factory call failed'')) (\<lambda>wrapper_addr.
       sbind (sguard (wrapper_addr = 0) (Other ''factory returned zero address'')) (\<lambda>_.
       sbind (apply_state_changes P state) (\<lambda>_.
       sbind (asset_err abi (set_evm_contract H (storage_ref P) assetId wrapper_addr)) (\<lambda>_.
       sbind (asset_err abi (set_dominance H (storage_ref P) assetId 1)) (\<lambda>_.
       sbind (emit_asset_event P (WRAPPER_CREATED_TOPIC H)
                [u64_to_u256 assetId, address_to_u256 wrapper_addr, address_to_u256 caller] []) (\<lambda>_.
       sret wrapper_addr)))))))))))))))"

section \<open>Selector dispatch\<close>

definition asset_call :: "(bytes \<Rightarrow> u256) \<Rightarrow> 's nested_evm \<Rightarrow> asset_abi \<Rightarrow> 's provider \<Rightarrow> bytes \<Rightarrow> address \<Rightarrow>
    ('s, precompile_error, precompile_output) smonad" where
  "asset_call H X abi P calldata msg_sender =
     (if length calldata < 4 then sfail (Other ''invalid input'')
      else let selector = take 4 calldata in
        if selector = sel_getBalance abi then pc_get_balance H abi P calldata
        else if selector = sel_getTotalSupply abi then pc_get_total_supply H abi P calldata
        else if selector = sel_getAssetInfo abi then pc_get_asset_info H abi P calldata
        else if selector = sel_transfer abi then pc_transfer H abi P calldata msg_sender
        else if selector = sel_batchTransfer abi then pc_batch_transfer H abi P calldata msg_sender
        else if selector = sel_approve abi then pc_approve H abi P calldata msg_sender
        else if selector = sel_transferFrom abi then pc_transfer_from H abi P calldata msg_sender
        else if selector = sel_mint abi then pc_mint H abi P calldata msg_sender
        else if selector = sel_burn abi then pc_burn H abi P calldata msg_sender
        else if selector = sel_register abi then pc_register H abi P calldata msg_sender
        else if selector = sel_registerErc20 abi then pc_register_erc20 H X abi P calldata msg_sender
        else if selector = sel_createWrapper abi then pc_create_wrapper H X abi P calldata msg_sender
        else sfail (Other ''unknown selector''))"

section \<open>Atomicity\<close>

lemma keeps_asset_err [keep_intros]: "keeps obs m \<Longrightarrow> keeps obs (asset_err abi m)"
  unfolding asset_err_def by (intro keep_intros)

lemma keeps_require_compliance:
  "(\<And>a k. keeps obs (p_sload P a k)) \<Longrightarrow> keeps obs (require_compliance H abi P addr)"
  unfolding require_compliance_def by (intro keep_intros keeps_check_compliance)

lemma keeps_case_exec [keep_intros]:
  "(\<And>b g. keeps obs (f b g)) \<Longrightarrow> (\<And>g. keeps obs (h g)) \<Longrightarrow> (\<And>g. keeps obs (k g)) \<Longrightarrow>
     keeps obs (case r of Success b g \<Rightarrow> f b g | Revert g \<Rightarrow> h g | Halt g \<Rightarrow> k g)"
  by (simp split: exec_result.splits)

lemma keeps_case_sum [keep_intros]:
  "(\<And>x. keeps obs (f x)) \<Longrightarrow> (\<And>y. keeps obs (g y)) \<Longrightarrow> keeps obs (case r of Inl x \<Rightarrow> f x | Inr y \<Rightarrow> g y)"
  by (simp split: sum.splits)

context checkpointed
begin

lemmas asset_keeps = asset_reads_keep [OF ref_load_keeps] asset_ops_keep [OF ref_load_keeps ref_store_keeps]

lemma emit_asset_event_keeps [keep_intros]: "keeps stack (emit_asset_event P tp ts d)"
  unfolding emit_asset_event_def by (intro keep_intros)

lemma require_compliance_keeps [keep_intros]: "keeps stack (require_compliance H abi P addr)"
  by (rule keeps_require_compliance) (rule sload_keeps)

lemma asset_views_obs:
  "keeps obs (pc_get_balance H abi P cd)" "keeps obs (pc_get_total_supply H abi P cd)"
  "keeps obs (pc_get_asset_info H abi P cd)"
  unfolding pc_get_balance_def pc_get_total_supply_def pc_get_asset_info_def
  by (intro view_obs keep_intros asset_reads_keep ref_load_obs)+

lemma batch_atomic: "atomic obs (pc_batch_transfer H abi P cd a)"
  unfolding pc_batch_transfer_def Let_def
  by (intro atomic_bind atomic_split atomic_bind_total run_checkpointed_atomic keep_intros charge_obs
      keeps_require_compliance sload_obs asset_keeps) (simp add: ok_empty_def)

lemma asset_call_atomic:
  assumes X: "\<And>c k d g b t. keeps stack (X c k d g b t)"
  shows "atomic obs (asset_call H X abi P cd a)"
  unfolding asset_call_def Let_def pc_transfer_def pc_approve_def pc_transfer_from_def pc_mint_def pc_burn_def
    pc_register_def pc_register_erc20_def pc_create_wrapper_def
  by (intro atomic_intros keep_intros asset_keeps X batch_atomic asset_views_obs [THEN keeps_atomic])

end

end
