(* ===== verification/Compliance.thy ===== *)
theory Compliance
  imports Dispatch
begin

text \<open>
  The compliance registry: \<^verbatim>\<open>crates/compliance/src/lib.rs\<close> (\<^verbatim>\<open>ComplianceStorage\<close> over any backend) and
  \<^verbatim>\<open>crates/compliance/src/precompile.rs\<close> (its precompile at 0x205). The lemmas give each operation in
  closed form on a storage map, show that only the governance address changes a status, and that the
  precompile is atomic.
\<close>

section \<open>The registry\<close>

datatype compliance_error = NotGovernance | InvalidStatus

fun compliance_error_text :: "compliance_error \<Rightarrow> string" where
  "compliance_error_text NotGovernance = ''not governance''"
| "compliance_error_text InvalidStatus = ''invalid compliance status value''"

definition slot_compliance_admin :: "(bytes \<Rightarrow> u256) \<Rightarrow> u256" where
  "slot_compliance_admin H = storage_slot H [bstr ''admin'']"

definition read_status :: "(bytes \<Rightarrow> u256) \<Rightarrow> 'b backend \<Rightarrow> address \<Rightarrow> ('b, 'e, u8) smonad" where
  "read_status H B addr =
     sbind (mload B COMPLIANCE_ADDRESS (slot_compliance H addr)) (\<lambda>v. sret (to_be_bytes v ! 31))"

definition read_admin :: "(bytes \<Rightarrow> u256) \<Rightarrow> 'b backend \<Rightarrow> ('b, 'e, address) smonad" where
  "read_admin H B =
     sbind (mload B COMPLIANCE_ADDRESS (slot_compliance_admin H)) (\<lambda>v.
     sret (from_be_bytes (take 20 (drop 12 (to_be_bytes v)))))"

definition cs_check_compliance :: "(bytes \<Rightarrow> u256) \<Rightarrow> 'b backend \<Rightarrow> address \<Rightarrow> ('b, 'e, bool) smonad" where
  "cs_check_compliance H B target = sbind (read_status H B target) (\<lambda>status. sret (status = 0))"

definition update_compliance :: "(bytes \<Rightarrow> u256) \<Rightarrow> 'b backend \<Rightarrow> address \<Rightarrow> u8 \<Rightarrow> address \<Rightarrow>
    ('b, compliance_error, unit) smonad" where
  "update_compliance H B target status_u8 caller =
     sbind (sguard (caller \<noteq> GOVERNANCE_ADDRESS) NotGovernance) (\<lambda>_.
     mstore B COMPLIANCE_ADDRESS (slot_compliance H target) (u8_to_u256 status_u8))"

definition set_admin :: "(bytes \<Rightarrow> u256) \<Rightarrow> 'b backend \<Rightarrow> address \<Rightarrow> address \<Rightarrow> ('b, compliance_error, unit) smonad" where
  "set_admin H B new_admin caller =
     sbind (read_admin H B) (\<lambda>current_admin.
     let expected = (if current_admin = 0 then GOVERNANCE_ADDRESS else current_admin) in
     sbind (sguard (caller \<noteq> expected) NotGovernance) (\<lambda>_.
     mstore B COMPLIANCE_ADDRESS (slot_compliance_admin H)
       (from_be_bytes (replicate 12 0 @ to_be_bytes new_admin))))"

section \<open>The precompile\<close>

record compliance_abi =
  sel_updateCompliance :: bytes
  sel_checkCompliance :: bytes
  sel_setComplianceAdmin :: bytes
  dec_updateCompliance :: "bytes \<Rightarrow> string + address \<times> u8"
  dec_checkCompliance :: "bytes \<Rightarrow> string + address"
  dec_setComplianceAdmin :: "bytes \<Rightarrow> string + address"
  enc_bool :: "bool \<Rightarrow> bytes"

definition compliance_err :: "('s, compliance_error, 'a) smonad \<Rightarrow> ('s, precompile_error, 'a) smonad" where
  "compliance_err m = smap_err (\<lambda>e. Other (compliance_error_text e)) m"

definition pc_update_compliance :: "(bytes \<Rightarrow> u256) \<Rightarrow> compliance_abi \<Rightarrow> 's provider \<Rightarrow> bytes \<Rightarrow> address \<Rightarrow>
    ('s, precompile_error, precompile_output) smonad" where
  "pc_update_compliance H abi P calldata msg_sender =
     mutate_void P (dec_updateCompliance abi) calldata 6000 (\<lambda>(target, status).
       sbind (require_caller msg_sender) (\<lambda>caller.
       compliance_err (update_compliance H (storage_ref P) target status caller)))"

definition pc_check_compliance :: "(bytes \<Rightarrow> u256) \<Rightarrow> compliance_abi \<Rightarrow> 's provider \<Rightarrow> bytes \<Rightarrow>
    ('s, precompile_error, precompile_output) smonad" where
  "pc_check_compliance H abi P calldata =
     view P (dec_checkCompliance abi) (enc_bool abi) calldata 1000 (\<lambda>target.
       cs_check_compliance H (storage_ref P) target)"

definition pc_set_compliance_admin :: "(bytes \<Rightarrow> u256) \<Rightarrow> compliance_abi \<Rightarrow> 's provider \<Rightarrow> bytes \<Rightarrow> address \<Rightarrow>
    ('s, precompile_error, precompile_output) smonad" where
  "pc_set_compliance_admin H abi P calldata msg_sender =
     mutate_void P (dec_setComplianceAdmin abi) calldata 4000 (\<lambda>newAdmin.
       sbind (require_caller msg_sender) (\<lambda>caller.
       compliance_err (set_admin H (storage_ref P) newAdmin caller)))"

definition compliance_call :: "(bytes \<Rightarrow> u256) \<Rightarrow> compliance_abi \<Rightarrow> 's provider \<Rightarrow> bytes \<Rightarrow> address \<Rightarrow>
    ('s, precompile_error, precompile_output) smonad" where
  "compliance_call H abi P calldata msg_sender =
     (if length calldata < 4 then sfail (Other ''invalid input'')
      else let selector = take 4 calldata in
        if selector = sel_updateCompliance abi then pc_update_compliance H abi P calldata msg_sender
        else if selector = sel_checkCompliance abi then pc_check_compliance H abi P calldata
        else if selector = sel_setComplianceAdmin abi then pc_set_compliance_admin H abi P calldata msg_sender
        else sfail (Other ''unknown selector''))"

section \<open>Lemmas\<close>

lemma compliance_slots: "slot_compliance H a = H (to_be_bytes a)" "slot_compliance_admin H = H (bstr ''admin'')"
  by (simp_all add: slot_compliance_def slot_compliance_admin_def storage_slot_def)

lemma read_admin_pure: "read_admin H pure_backend m = (Inr (ucast (m COMPLIANCE_ADDRESS (slot_compliance_admin H))), m)"
  using u256_to_address_def by (simp add: read_admin_def flip: u256_to_address_def)

lemma cs_check_pure:
  "cs_check_compliance H pure_backend a m = (Inr ((ucast (m COMPLIANCE_ADDRESS (slot_compliance H a)) :: u8) = 0), m)"
  by (simp add: cs_check_compliance_def read_status_def sbind_run to_be_bytes_last)

lemma update_compliance_pure:
  "update_compliance H pure_backend a st c m =
     (if c = GOVERNANCE_ADDRESS then (Inr (), sput COMPLIANCE_ADDRESS (slot_compliance H a) (ucast st) m)
      else (Inl NotGovernance, m))"
  by (simp add: update_compliance_def sbind_run)

lemma set_admin_pure:
  "set_admin H pure_backend n c m =
     (let adm = (ucast (m COMPLIANCE_ADDRESS (slot_compliance_admin H)) :: address) in
      if c = (if adm = 0 then GOVERNANCE_ADDRESS else adm)
      then (Inr (), sput COMPLIANCE_ADDRESS (slot_compliance_admin H) (ucast n) m)
      else (Inl NotGovernance, m))"
  by (simp add: set_admin_def sbind_run read_admin_pure Let_def flip: address_to_u256_def)

context storage_backend
begin

lemma sim_check_compliance [sim_intros]:
  "sim_at view budget 1 (cs_check_compliance H B a) (cs_check_compliance H pure_backend a)"
  unfolding cs_check_compliance_def read_status_def by (rule sim_weaken, (rule sim_intros)+) simp

lemma sim_update_compliance [sim_intros]:
  "sim_at view budget 1 (update_compliance H B a st c) (update_compliance H pure_backend a st c)"
  unfolding update_compliance_def by (rule sim_weaken, (rule sim_intros)+) simp

lemma sim_set_admin [sim_intros]:
  "sim_at view budget 2 (set_admin H B n c) (set_admin H pure_backend n c)"
  unfolding set_admin_def read_admin_def Let_def by (rule sim_weaken, (rule sim_intros)+) simp

end

context checkpointed
begin

lemma compliance_call_atomic: "atomic obs (compliance_call H abi P cd a)"
  unfolding compliance_call_def Let_def pc_update_compliance_def pc_check_compliance_def
    pc_set_compliance_admin_def compliance_err_def update_compliance_def set_admin_def read_admin_def
    cs_check_compliance_def read_status_def Let_def
  by (intro atomic_intros keep_intros keeps_atomic view_obs ref_load_obs)

end

end
