(* ===== verification/Metering.thy ===== *)
theory Metering
  imports Asset_Precompile Compliance
begin

text \<open>
  Gas as the precompiles spend it. \<open>provider_order\<close> is the contract of a provider all of whose
  operations move its state along a preorder; the wrappers of \<open>Dispatch\<close> and the precompiles built on
  them then do too. It is interpreted for the production provider with the order of its gas meter
  (the limit is fixed and gas is never given back) and for the hash-map provider with the invariant
  that neither the meter nor any snapshot exceeds the limit. \<open>reports\<close> says that the gas a call
  reports is the gas the provider spent.
\<close>

section \<open>The contract\<close>

locale provider_order =
  fixes P :: "'s provider"
    and R :: "'s \<Rightarrow> 's \<Rightarrow> bool"
  assumes order_refl: "reflp R"
    and order_trans: "transp R"
    and sload_moves [moves_intros]: "moves R (p_sload P a k)"
    and sstore_moves [moves_intros]: "moves R (p_sstore P a k v)"
    and emit_moves [moves_intros]: "moves R (p_emit_event P a e)"
    and charge_moves [moves_intros]: "moves R (p_charge_gas P g)"
    and balance_add_moves [moves_intros]: "moves R (p_balance_add P a n)"
    and balance_sub_moves [moves_intros]: "moves R (p_balance_sub P a n)"
    and balance_get_moves [moves_intros]: "moves R (p_balance_get P a)"
    and code_get_moves [moves_intros]: "moves R (p_code_get P a)"
    and raw_sstore_moves [moves_intros]: "moves R (p_raw_sstore P a k v)"
    and checkpoint_moves: "R s (snd (p_checkpoint P s))"
    and commit_moves: "R s (p_checkpoint_commit P c s)"
    and revert_moves: "R s (p_checkpoint_revert P c s)"
    and reset_moves: "R s (p_reset_gas_counters P s)"
begin

lemmas order = order_refl order_trans

lemma step: "R s t \<Longrightarrow> R t u \<Longrightarrow> R s u"
  using order_trans by (rule transpD)

lemma with_checkpoint_moves [moves_intros]:
  assumes "moves R body"
  shows "moves R (with_checkpoint P gas enc body)"
proof (rule movesI)
  fix s
  obtain c s1 where cp: "p_checkpoint P s = (c, s1)" by (cases "p_checkpoint P s")
  obtain q s2 where b: "body s1 = (q, s2)" by (cases "body s1")
  obtain g s3 where g: "p_charge_gas P gas s2 = (g, s3)" by (cases "p_charge_gas P gas s2")
  have "R s s1" using checkpoint_moves [of s] cp by simp
  from step [OF this movesD [OF assms b]] have 2: "R s s2" .
  from step [OF this movesD [OF charge_moves g]] have 3: "R s s3" .
  show "R s (snd (with_checkpoint P gas enc body s))"
    using step [OF 2 revert_moves] step [OF 3 revert_moves] step [OF 3 commit_moves] cp b g
    by (cases q; cases g) (auto simp: with_checkpoint_def Let_def)
qed

lemma run_checkpointed_moves [moves_intros]:
  assumes "moves R body"
  shows "moves R (run_checkpointed P body)"
proof (rule movesI)
  fix s
  obtain c s1 where cp: "p_checkpoint P s = (c, s1)" by (cases "p_checkpoint P s")
  obtain q s2 where b: "body s1 = (q, s2)" by (cases "body s1")
  have "R s s1" using checkpoint_moves [of s] cp by simp
  from step [OF this movesD [OF assms b]] have 2: "R s s2" .
  show "R s (snd (run_checkpointed P body s))"
    using step [OF 2 revert_moves] step [OF 2 commit_moves] cp b
    by (cases q) (auto simp: run_checkpointed_def)
qed

lemma decode_call_moves [moves_intros]: "moves R (decode_call dec cd)"
  using order_refl by (simp add: moves_def decode_call_run reflpD split: sum.splits)

lemma reset_run_moves [moves_intros]: "moves R (smodify (p_reset_gas_counters P))"
  by (simp add: moves_def reset_moves)

lemma dispatch_moves [moves_intros]:
  assumes "\<And>c. moves R (h c)"
  shows "moves R (mutate P dec enc cd gas h)" and "moves R (view P dec enc cd gas h)"
  unfolding mutate_def view_def by (intro moves_intros order assms)+

lemma dispatch_void_moves [moves_intros]:
  assumes "\<And>c. moves R (h c)"
  shows "moves R (mutate_void P dec cd gas h)" and "moves R (view_void P dec cd gas h)"
  unfolding mutate_void_def view_void_def by (intro moves_intros order assms)+

lemmas ref_moves [moves_intros] = moves_storage_ref [OF sload_moves sstore_moves]

lemma check_compliance_moves [moves_intros]: "moves R (check_compliance H P addr)"
  unfolding check_compliance_def by (intro moves_intros order)

lemma require_caller_moves [moves_intros]: "moves R (require_caller a)"
  unfolding require_caller_def by (intro moves_intros order)

lemma ok_empty_moves [moves_intros]: "moves R (ok_empty P)"
  unfolding ok_empty_def by (intro moves_intros order)

section \<open>The precompiles move along the order\<close>

lemmas asset_moves = asset_reads_move [OF order ref_moves(1)] asset_ops_move [OF order ref_moves]

lemma asset_helpers_move [moves_intros]:
  "moves R m \<Longrightarrow> moves R (asset_err abi m)" "moves R (require_compliance H abi P a)"
  "moves R (emit_asset_event P tp ts d)"
  unfolding asset_err_def require_compliance_def emit_asset_event_def by (intro moves_intros; assumption)+

lemma moves_cases [moves_intros]:
  "(\<And>b g. moves R (f b g)) \<Longrightarrow> (\<And>g. moves R (h g)) \<Longrightarrow> (\<And>g. moves R (k g)) \<Longrightarrow>
     moves R (case r of Success b g \<Rightarrow> f b g | Revert g \<Rightarrow> h g | Halt g \<Rightarrow> k g)"
  "(\<And>x. moves R (f1 x)) \<Longrightarrow> (\<And>y. moves R (f2 y)) \<Longrightarrow> moves R (case q of Inl x \<Rightarrow> f1 x | Inr y \<Rightarrow> f2 y)"
  "(\<And>x. moves R (f3 x)) \<Longrightarrow> moves R m4 \<Longrightarrow> moves R (case z of Returned x \<Rightarrow> f3 x | Panicked \<Rightarrow> m4)"
  by (simp_all split: exec_result.splits sum.splits outcome.splits)

lemma read_chunks_moves [moves_intros]: "moves R (read_chunks P contract slot n)"
proof (induction n arbitrary: slot rule: less_induct)
  case (less n)
  show ?case
    by (subst read_chunks.simps, unfold Let_def, cases "n = 0")
       (use less order in \<open>auto intro!: moves_intros\<close>)
qed

lemma metadata_moves [moves_intros]:
  assumes X: "\<And>c k d g b t. moves R (X c k d g b t)"
  shows "moves R (read_erc20_metadata H X P contract)"
  unfolding read_erc20_metadata_def try_evm_call_metadata_def try_storage_slot_metadata_def
    read_layout_def read_solidity_uint8_def read_solidity_string_def execute_static_call_def
    answer_string_def Let_def
  by (intro moves_intros order X)

lemma evm_call_moves [moves_intros]:
  assumes X: "\<And>c k d g b t. moves R (X c k d g b t)"
  shows "moves R (execute_evm_call X P caller contract data)"
  unfolding execute_evm_call_def by (intro moves_intros order X)

lemma apply_changes_moves [moves_intros]: "moves R (apply_state_changes P st)"
  unfolding apply_state_changes_def apply_account_def apply_slot_def Let_def
  by (intro moves_intros order)

lemma asset_call_moves:
  assumes X: "\<And>c k d g b t. moves R (X c k d g b t)"
  shows "moves R (asset_call H X abi P cd a)"
  unfolding asset_call_def pc_get_balance_def pc_get_total_supply_def pc_get_asset_info_def pc_transfer_def
    pc_batch_transfer_def pc_approve_def pc_transfer_from_def pc_mint_def pc_burn_def pc_register_def
    pc_register_erc20_def pc_create_wrapper_def Let_def
  by (intro moves_intros order asset_moves X)

lemma compliance_call_moves: "moves R (compliance_call H abi P cd a)"
  unfolding compliance_call_def pc_update_compliance_def pc_check_compliance_def pc_set_compliance_admin_def
    compliance_err_def update_compliance_def set_admin_def read_admin_def cs_check_compliance_def
    read_status_def Let_def
  by (intro moves_intros order)

end

section \<open>The providers meet the contract\<close>

definition ev_meter :: "'j evm \<Rightarrow> 'j evm \<Rightarrow> bool" where
  "ev_meter s s' \<longleftrightarrow> ev_gas_limit s' = ev_gas_limit s \<and> ev_gas_remaining s' \<le> ev_gas_remaining s"

lemma ev_meter_call: "moves ev_meter (ev_call what m)"
  by (auto simp: moves_def ev_meter_def ev_call_run split: prod.splits sum.splits)

lemma ev_meter_deduct: "moves ev_meter (ev_deduct_gas x)"
  by (auto simp: moves_def ev_meter_def ev_deduct_gas_def word_sub_le split: option.splits)

lemma ev_meter_modify:
  "(\<And>s. ev_gas_limit (f s) = ev_gas_limit s \<and> ev_gas_remaining (f s) = ev_gas_remaining s) \<Longrightarrow> moves ev_meter (smodify f)"
  by (simp add: moves_def ev_meter_def)

lemma ev_meter_preorder: "reflp ev_meter" "transp ev_meter"
  by (auto simp: ev_meter_def intro!: reflpI transpI intro: order_trans)

interpretation em: provider_order "evm_provider G J" ev_meter for G J
proof
  show "moves ev_meter (p_sload (evm_provider G J) a k)" "moves ev_meter (p_sstore (evm_provider G J) a k v)"
    "moves ev_meter (p_emit_event (evm_provider G J) a e)" "moves ev_meter (p_charge_gas (evm_provider G J) g)"
    "moves ev_meter (p_balance_add (evm_provider G J) a n)" "moves ev_meter (p_balance_sub (evm_provider G J) a n)"
    "moves ev_meter (p_balance_get (evm_provider G J) a)" "moves ev_meter (p_code_get (evm_provider G J) a)"
    "moves ev_meter (p_raw_sstore (evm_provider G J) a k v)" for a k v e g n
    unfolding evm_provider_def provider.simps ev_sload_def ev_sstore_def ev_emit_event_def ev_balance_add_def
      ev_balance_sub_def ev_balance_get_def ev_code_get_def ev_raw_sstore_def
    by (intro moves_intros ev_meter_preorder ev_meter_call ev_meter_deduct ev_meter_modify;
        simp add: ev_refund_gas_def)+
qed (simp_all add: ev_meter_preorder, simp_all add: ev_meter_def evm_provider_def ev_checkpoint_def split: prod.splits)

text \<open>The hash-map provider gives gas back when a checkpoint is reverted, but never more than it has.\<close>

lemma in_set_tl: "x \<in> set (tl xs) \<Longrightarrow> x \<in> set xs"
  by (cases xs) auto

definition hm_within_limit :: "hm \<Rightarrow> bool" where
  "hm_within_limit s \<longleftrightarrow> hm_gas_remaining s \<le> hm_gas_limit s \<and>
     (\<forall>sn \<in> set (hm_checkpoints s). sn_gas_remaining sn \<le> hm_gas_limit s)"

definition hm_meter :: "hm \<Rightarrow> hm \<Rightarrow> bool" where
  "hm_meter s s' \<longleftrightarrow> hm_gas_limit s' = hm_gas_limit s \<and> (hm_within_limit s \<longrightarrow> hm_within_limit s')"

lemma hm_meter_deduct: "moves hm_meter (hm_deduct_gas x)"
  by (auto simp: moves_def hm_meter_def hm_within_limit_def hm_deduct_gas_def split: option.splits
      dest: word_sub_le order_trans)

lemma hm_meter_modify:
  "(\<And>s. hm_gas_limit (f s) = hm_gas_limit s \<and> hm_gas_remaining (f s) = hm_gas_remaining s \<and>
     hm_checkpoints (f s) = hm_checkpoints s) \<Longrightarrow> moves hm_meter (smodify f)"
  by (simp add: moves_def hm_meter_def hm_within_limit_def)

lemma hm_meter_preorder: "reflp hm_meter" "transp hm_meter"
  by (auto simp: hm_meter_def intro: reflpI transpI)

interpretation hmm: provider_order "hashmap_provider G" hm_meter for G
proof
  show "moves hm_meter (p_sload (hashmap_provider G) a k)" "moves hm_meter (p_sstore (hashmap_provider G) a k v)"
    "moves hm_meter (p_emit_event (hashmap_provider G) a e)" "moves hm_meter (p_charge_gas (hashmap_provider G) g)"
    "moves hm_meter (p_balance_add (hashmap_provider G) a n)" "moves hm_meter (p_balance_sub (hashmap_provider G) a n)"
    "moves hm_meter (p_balance_get (hashmap_provider G) a)" "moves hm_meter (p_code_get (hashmap_provider G) a)"
    "moves hm_meter (p_raw_sstore (hashmap_provider G) a k v)" for a k v e g n
    unfolding hashmap_provider_def provider.simps hm_sload_def hm_sstore_def hm_emit_event_def hm_balance_add_def
      hm_balance_sub_def hm_balance_get_def hm_code_get_def
    by (intro moves_intros hm_meter_preorder hm_meter_deduct hm_meter_modify;
        simp add: hm_refund_gas_def hm_set_def hm_warm_slot_def)+
  show "hm_meter s (p_checkpoint_commit (hashmap_provider G) c s)" for s c
    by (auto simp: hashmap_provider_def hm_checkpoint_commit_def hm_meter_def hm_within_limit_def dest: in_set_tl)
  show "hm_meter s (p_checkpoint_revert (hashmap_provider G) c s)" for s c
    by (auto simp: hashmap_provider_def hm_checkpoint_revert_def hm_meter_def hm_within_limit_def split: list.splits)
qed (simp_all add: hm_meter_preorder,
     simp_all add: hashmap_provider_def hm_checkpoint_def hm_snap_def hm_meter_def hm_within_limit_def)

end
