(* ===== verification/Call_Precompiles.thy ===== *)
theory Call_Precompiles
  imports Metering
begin

text \<open>
  \<^verbatim>\<open>CallPrecompiles\<close> of \<^verbatim>\<open>crates/precompile/src/lib.rs\<close>: the table of custom precompiles behind revm's
  \<^verbatim>\<open>PrecompileProvider\<close> interface. revm's gas meter and its standard precompiles are parameters; the
  structures behind the trait objects have no fields, so a custom precompile is its \<^verbatim>\<open>call\<close> method.
  The lemmas show that a precompile that reports what it spends never trips the assertion on the gas
  meter, and that the caller is charged exactly what the provider spent.
\<close>

section \<open>Definitions\<close>

text \<open>revm's \<^verbatim>\<open>Gas\<close>: created with a limit; a cost is refused when it exceeds what remains.\<close>

record 'g gas_meter =
  gm_new :: "u64 \<Rightarrow> 'g"
  gm_record_refund :: "int \<Rightarrow> 'g \<Rightarrow> 'g"
  gm_record_cost :: "u64 \<Rightarrow> 'g \<Rightarrow> bool \<times> 'g"

datatype instruction_result = IR_Return | IR_Revert | IR_PrecompileOOG | IR_PrecompileError

record 'g interpreter_result =
  ir_result :: instruction_result
  ir_gas :: 'g
  ir_output :: bytes

datatype call_input = SharedBuffer "nat \<times> nat" | CallBytes bytes

record call_inputs =
  ci_bytecode_address :: address
  ci_input :: call_input
  ci_gas_limit :: u64
  ci_is_static :: bool
  ci_caller :: address

record 'j context_tr =
  cx_journal :: 'j
  cx_timestamp :: u256
  cx_number :: u256
  cx_beneficiary :: address
  cx_chain_id :: u64
  cx_shared_buffer :: "nat \<times> nat \<Rightarrow> bytes option"
  cx_error :: "string option"

type_synonym 'j stateful_precompile = "bytes \<Rightarrow> address \<Rightarrow> ('j evm, precompile_error, precompile_output) smonad"

record ('j, 'sp) call_precompiles =
  cps_standard :: "address \<Rightarrow> (bytes \<Rightarrow> u64 \<Rightarrow> precompile_error + precompile_output) option"
  cps_custom :: "address \<rightharpoonup> 'j stateful_precompile"
  cps_spec :: 'sp

definition all_precompiles :: "address list" where
  "all_precompiles =
     [ORACLE_ADDRESS, BRIDGE_ADDRESS, ASSET_ADDRESS, SHIELDED_ADDRESS, GOVERNANCE_ADDRESS, VALIDATOR_ADDRESS,
      COMPLIANCE_ADDRESS, SWITCH_ADDRESS, AGENT_ADDRESS]"

text \<open>\<open>std\<close> is revm's table of standard precompiles for a hard fork.\<close>

definition cps_new :: "('sp \<Rightarrow> address \<Rightarrow> (bytes \<Rightarrow> u64 \<Rightarrow> precompile_error + precompile_output) option) \<Rightarrow> 'sp \<Rightarrow>
    ('j, 'sp) call_precompiles" where
  "cps_new std spec = \<lparr>cps_standard = std spec, cps_custom = Map.empty, cps_spec = spec\<rparr>"

definition with_custom :: "address \<Rightarrow> 'j stateful_precompile \<Rightarrow> ('j, 'sp) call_precompiles \<Rightarrow> ('j, 'sp) call_precompiles" where
  "with_custom a p c = c\<lparr>cps_custom := (cps_custom c)(a \<mapsto> p)\<rparr>"

definition set_spec :: "('sp \<Rightarrow> address \<Rightarrow> (bytes \<Rightarrow> u64 \<Rightarrow> precompile_error + precompile_output) option) \<Rightarrow> 'sp \<Rightarrow>
    ('j, 'sp) call_precompiles \<Rightarrow> bool \<times> ('j, 'sp) call_precompiles" where
  "set_spec std spec c =
     (if spec = cps_spec c then (False, c) else (True, c\<lparr>cps_standard := std spec, cps_spec := spec\<rparr>))"

definition cps_contains :: "('j, 'sp) call_precompiles \<Rightarrow> address \<Rightarrow> bool" where
  "cps_contains c a \<longleftrightarrow> cps_standard c a \<noteq> None \<or> cps_custom c a \<noteq> None"

definition input_bytes :: "'j context_tr \<Rightarrow> call_input \<Rightarrow> bytes" where
  "input_bytes cx i = (case i of SharedBuffer r \<Rightarrow> unwrap_or [] (cx_shared_buffer cx r) | CallBytes b \<Rightarrow> b)"

text \<open>
  What follows an execution, for a custom and for a standard precompile alike: the refund and the cost
  are recorded and a refused cost unwinds; a fatal error is returned; any other error is a result.
\<close>

definition finish :: "'g gas_meter \<Rightarrow> (precompile_error \<Rightarrow> string) \<Rightarrow> u64 \<Rightarrow> precompile_error + precompile_output \<Rightarrow>
    'j context_tr \<Rightarrow> (string + 'g interpreter_result option) outcome \<times> 'j context_tr" where
  "finish M fmt gas_limit exec_result cx =
     (case exec_result of
        Inr output \<Rightarrow>
          (case gm_record_cost M (out_gas_used output) (gm_record_refund M (out_gas_refunded output) (gm_new M gas_limit)) of
             (False, _) \<Rightarrow> (Panicked, cx)
           | (True, gas) \<Rightarrow> (Returned (Inr (Some
               \<lparr>ir_result = (if out_reverted output then IR_Revert else IR_Return), ir_gas = gas,
                ir_output = out_bytes output\<rparr>)), cx))
      | Inl (Fatal e) \<Rightarrow> (Returned (Inl e), cx)
      | Inl Unwind \<Rightarrow> (Panicked, cx)
      | Inl OutOfGas \<Rightarrow> (Returned (Inr (Some
               \<lparr>ir_result = IR_PrecompileOOG, ir_gas = gm_new M gas_limit, ir_output = []\<rparr>)), cx)
      | Inl (Other e) \<Rightarrow> (Returned (Inr (Some
               \<lparr>ir_result = IR_PrecompileError, ir_gas = gm_new M gas_limit, ir_output = []\<rparr>)),
               cx\<lparr>cx_error := Some (fmt (Other e))\<rparr>))"

definition cps_run :: "'g gas_meter \<Rightarrow> (precompile_error \<Rightarrow> string) \<Rightarrow> ('j, 'sp) call_precompiles \<Rightarrow> call_inputs \<Rightarrow>
    'j context_tr \<Rightarrow> (string + 'g interpreter_result option) outcome \<times> 'j context_tr" where
  "cps_run M fmt c inputs cx =
     (case cps_custom c (ci_bytecode_address inputs) of
        Some precompile \<Rightarrow>
          (let calldata = input_bytes cx (ci_input inputs) in
           if 2 ^ 64 \<le> unat (cx_number cx) then (Panicked, cx)
           else
             let provider = ev_new (cx_journal cx) (ci_gas_limit inputs) (ci_is_static inputs) (cx_chain_id cx)
                   (cx_timestamp cx) (ucast (cx_number cx)) (cx_beneficiary cx) in
             case precompile calldata (ci_caller inputs) provider of
               (exec_result, provider') \<Rightarrow>
                 finish M fmt (ci_gas_limit inputs) exec_result (cx\<lparr>cx_journal := ev_journal provider'\<rparr>))
      | None \<Rightarrow>
          (case cps_standard c (ci_bytecode_address inputs) of
             Some precompile \<Rightarrow>
               finish M fmt (ci_gas_limit inputs) (precompile (input_bytes cx (ci_input inputs)) (ci_gas_limit inputs)) cx
           | None \<Rightarrow> (Returned (Inr None), cx)))"

text \<open>What the code relies on of revm's meter: a cost within the limit is accepted and deducted.\<close>

definition gas_meter_ok :: "'g gas_meter \<Rightarrow> ('g \<Rightarrow> u64) \<Rightarrow> bool" where
  "gas_meter_ok M remaining \<longleftrightarrow> (\<forall>limit refund cost. cost \<le> limit \<longrightarrow>
     (\<exists>g. gm_record_cost M cost (gm_record_refund M refund (gm_new M limit)) = (True, g) \<and> remaining g = limit - cost))"

section \<open>Reported gas\<close>

definition reports :: "'s provider \<Rightarrow> ('s, 'e, precompile_output) smonad \<Rightarrow> bool" where
  "reports P m \<longleftrightarrow> (\<forall>s y s'. m s = (Inr y, s') \<longrightarrow> out_gas_used y = p_gas_used P s')"

named_theorems report_intros

lemma reportsD: "reports P m \<Longrightarrow> m s = (Inr y, s') \<Longrightarrow> out_gas_used y = p_gas_used P s'"
  by (simp add: reports_def)

lemma reports_bind [report_intros]: "(\<And>x. reports P (f x)) \<Longrightarrow> reports P (sbind m f)"
  by (auto simp: reports_def smonad_Inr)

lemma reports_fail [report_intros]: "reports P (sfail e)"
  by (simp add: reports_def)

lemma reports_if [report_intros]: "reports P m \<Longrightarrow> reports P m' \<Longrightarrow> reports P (if b then m else m')"
  by simp

lemma reports_split [report_intros]: "(\<And>x y. reports P (f x y)) \<Longrightarrow> reports P (case p of (x, y) \<Rightarrow> f x y)"
  by (simp split: prod.splits)

lemma reports_fill [report_intros]: "reports P (sget (fill_precompile_output P out))"
  by (simp add: reports_def fill_precompile_output_def Let_def)

lemma reports_with_checkpoint [report_intros]: "reports P (with_checkpoint P gas enc body)"
  by (auto simp: reports_def with_checkpoint_def fill_precompile_output_def Let_def split: prod.splits sum.splits)

lemma reports_dispatch [report_intros]:
  "reports P (mutate P dec enc cd gas h)" "reports P (mutate_void P dec cd gas hv)"
  "reports P (view P dec enc cd gas h)" "reports P (view_void P dec cd gas hv)"
  unfolding mutate_def mutate_void_def view_def view_void_def by (intro report_intros)+

lemma reports_ok_empty [report_intros]: "reports P (ok_empty P)"
  unfolding ok_empty_def by (intro report_intros)

lemma asset_call_reports: "reports P (asset_call H X abi P cd a)"
  unfolding asset_call_def pc_get_balance_def pc_get_total_supply_def pc_get_asset_info_def pc_transfer_def
    pc_batch_transfer_def pc_approve_def pc_transfer_from_def pc_mint_def pc_burn_def pc_register_def
    pc_register_erc20_def pc_create_wrapper_def Let_def
  by (intro report_intros)

lemma compliance_call_reports: "reports P (compliance_call H abi P cd a)"
  unfolding compliance_call_def pc_update_compliance_def pc_check_compliance_def pc_set_compliance_admin_def Let_def
  by (intro report_intros)

section \<open>The assertion on the meter\<close>

lemma ev_reported_within_limit:
  assumes "reports (evm_provider G J) m" "moves ev_meter m" "m (ev_new j limit st ch ts n b) = (Inr y, s')"
  shows "out_gas_used y \<le> limit \<and> out_gas_used y = limit - ev_gas_remaining s' \<and> ev_gas_remaining s' \<le> limit"
proof -
  have "ev_gas_limit s' = limit" "ev_gas_remaining s' \<le> limit"
    using movesD [OF assms(2,3)] by (simp_all add: ev_meter_def ev_new_def)
  moreover have "out_gas_used y = ev_gas_limit s' - ev_gas_remaining s'"
    using reportsD [OF assms(1,3)] by (simp add: evm_provider_def)
  ultimately show ?thesis by (simp add: word_sub_le)
qed

lemma finish_ok:
  assumes "gas_meter_ok M remaining" "out_gas_used y \<le> limit"
  shows "\<exists>g. finish M fmt limit (Inr y) cx =
      (Returned (Inr (Some \<lparr>ir_result = (if out_reverted y then IR_Revert else IR_Return), ir_gas = g, ir_output = out_bytes y\<rparr>)), cx)
    \<and> remaining g = limit - out_gas_used y"
proof -
  from assms obtain g where
    "gm_record_cost M (out_gas_used y) (gm_record_refund M (out_gas_refunded y) (gm_new M limit)) = (True, g)"
    "remaining g = limit - out_gas_used y"
    unfolding gas_meter_ok_def by blast
  then show ?thesis by (simp add: finish_def)
qed

text \<open>
  A custom precompile that reports its gas and only spends it: a call through \<^verbatim>\<open>run\<close> ends with the
  caller charged exactly what the provider spent.
\<close>

lemma cps_run_charged:
  assumes M: "gas_meter_ok M remaining" and p: "cps_custom c (ci_bytecode_address i) = Some p"
    and r: "reports (evm_provider G J) (p (input_bytes cx (ci_input i)) (ci_caller i))"
    and m: "moves ev_meter (p (input_bytes cx (ci_input i)) (ci_caller i))"
    and n: "unat (cx_number cx) < 2 ^ 64"
    and run: "p (input_bytes cx (ci_input i)) (ci_caller i)
      (ev_new (cx_journal cx) (ci_gas_limit i) (ci_is_static i) (cx_chain_id cx) (cx_timestamp cx)
        (ucast (cx_number cx)) (cx_beneficiary cx)) = (q, s')"
    and q: "q \<noteq> Inl Unwind"
  shows "\<exists>res cx'. cps_run M fmt c i cx = (Returned res, cx') \<and> cx_journal cx' = ev_journal s' \<and>
    (\<forall>y. q = Inr y \<longrightarrow> (\<exists>ir. res = Inr (Some ir) \<and> remaining (ir_gas ir) = ev_gas_remaining s' \<and> ir_output ir = out_bytes y))"
proof (cases q)
  case (Inl e)
  with n p run q show ?thesis
    by (cases e) (simp_all add: cps_run_def finish_def Let_def)
next
  case (Inr y)
  note w = ev_reported_within_limit [OF r m run [unfolded Inr]]
  then have "ci_gas_limit i - out_gas_used y = ev_gas_remaining s'" by simp
  with finish_ok [OF M, of y "ci_gas_limit i" fmt "cx\<lparr>cx_journal := ev_journal s'\<rparr>"] w n p run Inr
  show ?thesis by (auto simp: cps_run_def Let_def)
qed

end
