(* ===== verification/Asset_Props.thy ===== *)
theory Asset_Props
  imports Asset_Laws
begin

text \<open>
  The properties of the asset ledger, with their instances: the supply invariant of every reachable
  storage, the exact effect of transfers, mints, burns and delegated transfers, the slot layout, the
  metadata round trip, and the refinement by the production storage provider.
\<close>

section \<open>Concrete parameters for the instances\<close>

definition asset_key_list :: "u64 list \<Rightarrow> address list \<Rightarrow> asset_key list" where
  "asset_key_list is as =
     [Bal_Key i a. i \<leftarrow> is, a \<leftarrow> as] @ [Allow_Key i a b. i \<leftarrow> is, a \<leftarrow> as, b \<leftarrow> as] @
     [Meta_Key i s. i \<leftarrow> is, s \<leftarrow> meta_names] @ [Bind_Key a. a \<leftarrow> as]"

definition sample_hash :: "bytes \<Rightarrow> u256" where
  "sample_hash = table_hash (map asset_key_bytes (asset_key_list [1, 2] [1, 2, 3]))"

definition empty_storage :: evm_storage where
  "empty_storage = (\<lambda>a k. 0)"

text \<open>A journal that is a storage map, with every slot cold.\<close>

definition map_journal :: "evm_storage journal_tr" where
  "map_journal =
     \<lparr>j_load_account = (\<lambda>a. sret (0, None)),
      j_sload = (\<lambda>a k. sget (\<lambda>m. (m a k, True))),
      j_sstore = (\<lambda>a k v m. (Inr ((m a k, m a k), True), sput a k v m)),
      j_tload = (\<lambda>a k m. 0), j_tstore = (\<lambda>a k v m. m), j_log = (\<lambda>a e m. m),
      j_checkpoint = (\<lambda>m. ((0, 0), m)), j_checkpoint_commit = (\<lambda>m. m),
      j_checkpoint_revert = (\<lambda>c m. m),
      j_incr_balance = (\<lambda>a n. sret True), j_decr_balance = (\<lambda>a n. sret True)\<rparr>"

definition berlin :: gas_schedule where
  "berlin = \<lparr>COLD_SLOAD_COST = 2100, WARM_STORAGE_READ_COST = 100, LOG = 375, LOGDATA = 8, LOGTOPIC = 375\<rparr>"

lemma set_asset_key_list: "set (asset_key_list is as) = asset_keys (set is) (set as)"
  by (auto simp: asset_key_list_def asset_keys_def image_iff)

lemma sample_hash_ok: "asset_hash_ok sample_hash {1, 2} {1, 2, 3}"
proof -
  have "hash_ok sample_hash (set (map asset_key_bytes (asset_key_list [1, 2] [1, 2, 3])))"
    unfolding sample_hash_def
    by (rule table_hash_ok) (simp add: asset_key_list_def meta_names_def)
  then show ?thesis
    by (simp add: asset_hash_ok_def set_asset_key_list)
qed

lemma map_journal_ok: "journal_ok map_journal (\<lambda>m. m)"
  by (auto simp: journal_ok_def map_journal_def sput_def)

lemma sample_reach:
  "asset_reach sample_hash {1, 2} {1, 2, 3}
     (snd (run_op sample_hash pure_backend (Register [67] [67] 6 0 1 0) empty_storage))"
proof (rule asset_reach.step)
  show "asset_reach sample_hash {1, 2} {1, 2, 3} empty_storage"
    by (rule asset_reach.empty) (simp add: empty_storage_def)
  show "op_within {1, 2} {1, 2, 3} empty_storage (Register [67] [67] 6 0 1 0)"
    by (simp add: next_free_def empty_storage_def)
qed (rule prod.collapse [symmetric])

lemma sample_allocate: "allocate_asset_id pure_backend empty_storage = (Inr 1, aput 0 2 empty_storage)"
  by (simp add: allocate_pure empty_storage_def Let_def)

lemma sample_register:
  "register sample_hash pure_backend [67] [67] 6 0 1 0 empty_storage =
     (Inr 1, put_meta sample_hash 1 (base_writes [67] [67] 6 0 1 0 @ [(''has_erc20'', 0)]) (aput 0 2 empty_storage))"
  by (rule register_pure) (simp_all add: sample_allocate)

abbreviation sample_storage :: evm_storage where
  "sample_storage \<equiv> snd (run_op sample_hash pure_backend (Register [67] [67] 6 0 1 0) empty_storage)"

lemma sample_storage_eq:
  "sample_storage = put_meta sample_hash 1 (base_writes [67] [67] 6 0 1 0 @ [(''has_erc20'', 0)]) (aput 0 2 empty_storage)"
  by (simp add: sbind_run sample_register)

lemma sample_load:
  assumes "k \<in> asset_keys {1, 2} {1, 2, 3}"
  shows "aload sample_hash sample_storage k =
    (case k of Meta_Key j s \<Rightarrow>
       if j = 1 then unwrap_or 0 (map_of (rev (base_writes [67] [67] 6 0 1 0 @ [(''has_erc20'', 0)])) s) else 0
     | _ \<Rightarrow> 0)"
proof -
  let ?ws = "base_writes [67] [67] 6 0 1 0 @ [(''has_erc20'', 0)]"
  have ws: "fst ` set ?ws \<subseteq> set meta_names" using base_writes_names by (simp add: image_Un)
  have "aload sample_hash (aput 0 2 empty_storage) k = 0"
    using aload_aput_counter(1) [OF sample_hash_ok assms] by (simp add: empty_storage_def)
  then show ?thesis
    unfolding sample_storage_eq put_meta_load [OF sample_hash_ok insertI1 ws assms]
    by (cases k) (auto simp del: rev_append)
qed

lemma ascii_C: "utf8_valid [67]"
  by (rule utf8_valid_ascii) (simp add: ascii_def)

lemma sample_meta:
  "meta_of sample_hash sample_storage 1 = Inr \<lparr>am_symbol = [67], am_name = [67], am_decimals = 6, am_issuer = 1,
     am_max_supply = 0, am_supply = 0, am_status = 0, am_registered_at = 0, am_evm_contract = 0, am_dominance = 0\<rparr>"
  by (simp add: meta_of_def Let_def sample_load base_writes_def word_string_round_trip from_utf8_def ascii_C
      del: run_op.simps)

section \<open>Properties\<close>

text \<open>
  C1. In every storage that any sequence of asset calls, failed ones included, leads to from an empty
  asset contract, the balances of an asset add up to its recorded supply, which fits 128 bits and
  never exceeds a nonzero cap.
\<close>

theorem supply_is_sum_of_balances:
  assumes "asset_hash_ok H I A" "finite A" "asset_reach H I A m" "i \<in> I"
  shows "total_balance H A m i = unat (aload H m (Meta_Key i ''supply'')) \<and>
    unat (aload H m (Meta_Key i ''supply'')) < 2 ^ 128 \<and>
    (aload H m (Meta_Key i ''max_supply'') \<noteq> 0 \<longrightarrow>
      aload H m (Meta_Key i ''supply'') \<le> aload H m (Meta_Key i ''max_supply''))"
  using asset_reach_invariant [OF assms(1-3)] assms(4) asset_inv1_D(1-3) [of H A i m]
  by (simp add: asset_inv_def)

theorem supply_is_sum_of_balances_witness:
  "total_balance sample_hash {1, 2, 3}
     (snd (run_op sample_hash pure_backend (Register [67] [67] 6 0 1 0) empty_storage)) 1
   = unat (aload sample_hash
       (snd (run_op sample_hash pure_backend (Register [67] [67] 6 0 1 0) empty_storage)) (Meta_Key 1 ''supply''))"
  using supply_is_sum_of_balances [OF sample_hash_ok _ sample_reach, of 1] by simp

text \<open>
  C5. The ledger code that runs in production, on \<^verbatim>\<open>StorageRef\<close> over \<^verbatim>\<open>EvmStorageProvider\<close>, refines
  the ledger on a plain storage map: with a journal that loads and stores as documented and gas for
  the accesses of the call, every asset operation returns the same result and leaves the journal
  with the storage the map run computes.
\<close>

theorem evm_asset_refines:
  assumes "journal_ok J jview" "enat (op_cost op) \<le> ev_budget G s"
  shows "run_op H pure_backend op (jview (ev_journal s)) =
    (fst (run_op H (storage_ref (evm_provider G J)) op s),
     jview (ev_journal (snd (run_op H (storage_ref (evm_provider G J)) op s))))"
  using sim_atD(1) [OF storage_backend.sim_run_op [OF evm_storage_backend [OF assms(1)]] assms(2)] .

theorem evm_asset_refines_witness:
  "run_op sample_hash pure_backend (Transfer 1 1 2 5) empty_storage =
    (fst (run_op sample_hash (storage_ref (evm_provider berlin map_journal)) (Transfer 1 1 2 5)
        (ev_new empty_storage 1000000 False 1 0 1 0)),
     ev_journal (snd (run_op sample_hash (storage_ref (evm_provider berlin map_journal)) (Transfer 1 1 2 5)
        (ev_new empty_storage 1000000 False 1 0 1 0))))"
proof -
  have "enat (op_cost (Transfer 1 1 2 5)) \<le> ev_budget berlin (ev_new empty_storage 1000000 False 1 0 1 0)"
    by (simp add: ev_budget_def ev_new_def access_cost_def berlin_def SSTORE_SET_GAS_def)
  from evm_asset_refines [OF map_journal_ok this, of sample_hash] show ?thesis
    by (simp add: ev_new_def)
qed

text \<open>
  C29. A transfer between two accounts either changes nothing and reports why, or takes exactly the
  amount from the sender's balance and adds exactly it to the receiver's, without wrap-around, and
  leaves every other balance, allowance and metadata entry as it was.
\<close>

theorem transfer_effect:
  assumes h: "asset_hash_ok H I A" "i \<in> I" "f \<in> A" "t \<in> A" "f \<noteq> t"
    and r: "transfer H pure_backend i f t x m = (r, m')"
  shows "(r \<in> {Inl BalanceOverflow, Inl InsufficientBalance} \<and> m' = m) \<or>
    (r = Inr () \<and>
     unat x \<le> unat (aload H m (Bal_Key i f)) \<and>
     unat (aload H m' (Bal_Key i f)) = unat (aload H m (Bal_Key i f)) - unat x \<and>
     unat (aload H m' (Bal_Key i t)) = unat (aload H m (Bal_Key i t)) + unat x \<and>
     (\<forall>k. k \<in> asset_keys I A \<and> k \<noteq> Bal_Key i f \<and> k \<noteq> Bal_Key i t \<longrightarrow> aload H m' k = aload H m k))"
proof -
  let ?bf = "aload H m (Bal_Key i f)" and ?bt = "aload H m (Bal_Key i t)"
  consider "r \<in> {Inl BalanceOverflow, Inl InsufficientBalance}" "m' = m"
    | "r = Inr ()" "unat ?bt + unat x < 2 ^ 128" "unat x \<le> unat ?bf"
      "m' = aput (asset_slot H (Bal_Key i t)) (?bt + ucast x) (aput (asset_slot H (Bal_Key i f)) (?bf - ucast x) m)"
    using r h(5) by (auto simp: transfer_pure Let_def split: if_splits)
  then show ?thesis
  proof cases
    case 2
    have "unat (?bt + ucast x) = unat ?bt + unat x" "unat (?bf - ucast x) = unat ?bf - unat x"
      using 2(2,3) by (simp_all add: unat_add_no_overflow unat_sub word_le_nat_alt)
    with 2 h show ?thesis by (auto simp: aload_aput [OF h(1)])
  qed simp
qed

theorem transfer_effect_witness:
  "unat (aload sample_hash (snd (transfer sample_hash pure_backend 1 1 2 5
      (aput (asset_slot sample_hash (Bal_Key 1 1)) 7 empty_storage))) (Bal_Key 1 1)) = 2"
proof -
  let ?m = "aput (asset_slot sample_hash (Bal_Key 1 1)) 7 empty_storage"
  have k: "asset_slot sample_hash (Bal_Key 1 1) \<noteq> asset_slot sample_hash (Bal_Key 1 2)"
    using asset_slot_eq [OF sample_hash_ok, of "Bal_Key 1 1" "Bal_Key 1 2"] by simp
  obtain r m' where r: "transfer sample_hash pure_backend 1 1 2 5 ?m = (r, m')" by (metis surj_pair)
  have "r = Inr ()"
    using r k by (auto simp: transfer_pure Let_def sput_apply empty_storage_def split: if_splits)
  with transfer_effect [OF sample_hash_ok _ _ _ _ r] r show ?thesis
    by (simp add: sput_apply)
qed

text \<open>
  C9. Minting needs the issuer: when it succeeds, the caller is the issuer on record, the supply and
  the receiver's balance both grow by exactly the amount, and the new supply is within the cap; in
  every other case the storage is untouched. On a reachable ledger the balance addition can never
  overflow once the supply check has passed.
\<close>

theorem mint_effect:
  assumes h: "asset_hash_ok H I A" "finite A" "i \<in> I" "t \<in> A" and reach: "asset_reach H I A m"
    and r: "mint H pure_backend i c t x m = (r, m')"
  shows "(\<exists>e. r = Inl e \<and> e \<noteq> BalanceOverflow \<and> m' = m) \<or>
    (r = Inr () \<and> ucast (aload H m (Meta_Key i ''issuer'')) = c \<and>
     unat (aload H m' (Meta_Key i ''supply'')) = unat (aload H m (Meta_Key i ''supply'')) + unat x \<and>
     unat (aload H m' (Bal_Key i t)) = unat (aload H m (Bal_Key i t)) + unat x \<and>
     (aload H m (Meta_Key i ''max_supply'') \<noteq> 0 \<longrightarrow>
       aload H m' (Meta_Key i ''supply'') \<le> aload H m (Meta_Key i ''max_supply'')))"
proof (cases "meta_of H m i")
  case (Inl e)
  with r show ?thesis
    by (auto simp: mint_pure meta_of_def Let_def split: option.splits if_splits)
next
  case (Inr meta)
  let ?b = "aload H m (Bal_Key i t)" and ?s = "aload H m (Meta_Key i ''supply'')"
    and ?mx = "aload H m (Meta_Key i ''max_supply'')"
  have inv1: "asset_inv1 H A i m"
    using asset_reach_invariant [OF h(1,2) reach] h(3) by (simp add: asset_inv_def)
  note D = asset_inv1_D [OF inv1] and f = meta_of_fields [OF Inr]
  have us: "unat (am_supply meta) = unat ?s" "unat (am_max_supply meta) = unat ?mx"
    using f D(2,4) by (simp_all add: unat_ucast_u128_le)
  have mx0: "am_max_supply meta = 0 \<longleftrightarrow> ?mx = 0" using us(2) by (metis unat_eq_zero)
  have le: "unat ?b \<le> unat ?s" using balance_le_total [OF h(2,4), of m H i] D(1) by simp
  consider "\<exists>e. r = Inl e \<and> e \<noteq> BalanceOverflow" "m' = m"
    | "r = Inr ()" "am_issuer meta = c" "unat ?s + unat x < 2 ^ 128" "?mx \<noteq> 0 \<longrightarrow> unat ?s + unat x \<le> unat ?mx"
      "m' = aput (asset_slot H (Meta_Key i ''supply'')) (ucast (am_supply meta + x))
        (aput (asset_slot H (Bal_Key i t)) (?b + ucast x) m)"
    using r Inr us mx0 le by (auto simp: mint_pure word_gt_0 split: if_splits)
  then show ?thesis
  proof cases
    case 2
    have "unat (ucast (am_supply meta + x) :: u256) = unat ?s + unat x" "unat (?b + ucast x) = unat ?b + unat x"
      using 2(3) us(1) le by (simp_all add: unat_add_no_overflow)
    with 2 f h show ?thesis by (auto simp: aload_aput [OF h(1)] word_le_nat_alt)
  qed simp
qed

theorem mint_effect_witness:
  "unat (aload sample_hash (snd (mint sample_hash pure_backend 1 1 2 5 sample_storage)) (Meta_Key 1 ''supply'')) = 5"
proof -
  have "fst (mint sample_hash pure_backend 1 1 2 5 sample_storage) = Inr ()"
    by (simp add: mint_pure sample_meta sample_load del: run_op.simps)
  then show ?thesis
    using mint_effect [OF sample_hash_ok _ _ _ sample_reach prod.collapse [symmetric], of 1 2 1 5]
    by (auto simp: sample_load base_writes_def simp del: run_op.simps)
qed

text \<open>
  C30. On a reachable ledger a burn never fails half way: it either changes nothing, for a reason
  other than a supply underflow, or takes the amount from the holder's balance, from the caller's
  allowance when the caller is not the holder, and from the supply.
\<close>

theorem burn_effect:
  assumes h: "asset_hash_ok H I A" "finite A" "i \<in> I" "c \<in> A" "f \<in> A" and reach: "asset_reach H I A m"
    and r: "burn H pure_backend i c f x m = (r, m')"
  shows "(\<exists>e. r = Inl e \<and> e \<noteq> SupplyUnderflow \<and> m' = m) \<or>
    (r = Inr () \<and>
     unat (aload H m' (Bal_Key i f)) + unat x = unat (aload H m (Bal_Key i f)) \<and>
     unat (aload H m' (Meta_Key i ''supply'')) + unat x = unat (aload H m (Meta_Key i ''supply'')) \<and>
     (if c = f then aload H m' (Allow_Key i f c) = aload H m (Allow_Key i f c)
      else unat (aload H m' (Allow_Key i f c)) + unat x = unat (aload H m (Allow_Key i f c))))"
proof -
  have inv: "asset_inv H I A m" using asset_reach_invariant [OF h(1,2) reach] .
  then have inv1: "asset_inv1 H A i m" using h(3) by (simp add: asset_inv_def)
  have le: "unat (aload H m (Bal_Key i f)) \<le> unat (aload H m (Meta_Key i ''supply''))"
    using balance_le_total [OF h(2,5), of m H i] asset_inv1_D(1) [OF inv1] by simp
  have sub: "unat (w - ucast x) + unat x = unat w" if "unat x \<le> unat w" for w :: u256
    using that by (simp add: unat_sub word_le_nat_alt)
  from burn_run [OF h inv r] show ?thesis
  proof (elim disjE)
    assume "\<exists>e. r = Inl e \<and> e \<noteq> SupplyUnderflow \<and> m' = m"
    then show ?thesis by blast
  qed (cases "c = f"; use h le sub in \<open>auto simp: aload_aput [OF h(1)]\<close>)
qed

theorem burn_effect_witness:
  "snd (burn sample_hash pure_backend 1 1 2 5 sample_storage) = sample_storage"
proof -
  have "fst (burn sample_hash pure_backend 1 1 2 5 sample_storage) = Inl InsufficientAllowance"
    by (simp add: burn_pure sample_load Let_def del: run_op.simps)
  then show ?thesis
    using burn_effect [OF sample_hash_ok _ _ _ _ sample_reach prod.collapse [symmetric], of 1 1 2 5]
    by (auto simp del: run_op.simps)
qed

text \<open>
  C31. A delegated transfer spends the allowance it uses: it succeeds only if the spender's allowance
  covers the amount, and then lowers it by exactly the amount; when it fails nothing changes.
\<close>

theorem transfer_from_effect:
  assumes h: "asset_hash_ok H I A" "i \<in> I" "s \<in> A" "f \<in> A" "t \<in> A"
    and r: "transfer_from H pure_backend i s f t x m = (r, m')"
  shows "(\<exists>e. r = Inl e \<and> m' = m) \<or>
    (r = Inr () \<and> unat x \<le> unat (aload H m (Allow_Key i f s)) \<and>
     unat (aload H m' (Allow_Key i f s)) = unat (aload H m (Allow_Key i f s)) - unat x \<and>
     (\<exists>m1. transfer H pure_backend i f t x m = (Inr (), m1) \<and>
       (\<forall>k. k \<in> asset_keys I A \<and> k \<noteq> Allow_Key i f s \<longrightarrow> aload H m' k = aload H m1 k)))"
proof -
  let ?al = "aload H m (Allow_Key i f s)"
  have sub: "unat (?al - ucast x) = unat ?al - unat x" if "unat x \<le> unat ?al"
    using that by (simp add: unat_sub word_le_nat_alt)
  obtain r1 m1 where t: "transfer H pure_backend i f t x m = (r1, m1)"
    by (cases "transfer H pure_backend i f t x m")
  have same: "r1 = Inl e \<Longrightarrow> m1 = m" for e
    using t by (auto simp: transfer_pure Let_def split: if_splits)
  show ?thesis
  proof (cases "2 ^ 128 \<le> unat ?al \<or> unat ?al < unat x")
    case True
    with r show ?thesis by (auto simp: transfer_from_pure Let_def split: if_splits)
  next
    case False
    with r t same sub h show ?thesis
      by (cases r1) (auto simp: transfer_from_pure Let_def aload_aput [OF h(1)])
  qed
qed

theorem transfer_from_effect_witness:
  "snd (transfer_from sample_hash pure_backend 1 1 2 3 5 empty_storage) = empty_storage"
proof -
  have "fst (transfer_from sample_hash pure_backend 1 1 2 3 5 empty_storage) = Inl InsufficientAllowance"
    by (simp add: transfer_from_pure empty_storage_def Let_def)
  then show ?thesis
    using transfer_from_effect [OF sample_hash_ok _ _ _ _ prod.collapse [symmetric], of 1 1 2 3 5 empty_storage] by auto
qed

text \<open>
  C35. The slot layout of the asset contract: with a hash that does not collide on the keys in use, two
  table entries (balances, allowances, metadata, contract bindings) share a storage slot only if they
  are the same entry of the same table, for every pair of tables and within each table, and none of them
  is the identifier counter in slot 0.
\<close>

theorem asset_slots_separate:
  assumes "asset_hash_ok H I A" "i \<in> I" "j \<in> I" "a \<in> A" "b \<in> A" "c \<in> A" "d \<in> A" "s \<in> set meta_names" "u \<in> set meta_names"
  shows "(slot_balance H i a = slot_balance H j b \<longleftrightarrow> i = j \<and> a = b) \<and>
    (slot_allowance H i a b = slot_allowance H j c d \<longleftrightarrow> i = j \<and> a = c \<and> b = d) \<and>
    (slot_asset_meta H i (bstr s) = slot_asset_meta H j (bstr u) \<longleftrightarrow> i = j \<and> s = u) \<and>
    (erc20_binding_slot H a = erc20_binding_slot H b \<longleftrightarrow> a = b) \<and>
    slot_balance H i a \<noteq> slot_allowance H j b c \<and>
    slot_balance H i a \<noteq> slot_asset_meta H j (bstr s) \<and>
    slot_allowance H i a b \<noteq> slot_asset_meta H j (bstr s) \<and>
    erc20_binding_slot H a \<noteq> slot_balance H i b \<and>
    erc20_binding_slot H a \<noteq> slot_allowance H i b c \<and>
    erc20_binding_slot H a \<noteq> slot_asset_meta H i (bstr s) \<and>
    0 \<notin> {slot_balance H i a, slot_allowance H i a b, slot_asset_meta H i (bstr s), erc20_binding_slot H a}"
  using assms
  by (simp add: asset_slots asset_slot_eq [OF assms(1)] asset_slot_nonzero [OF assms(1), THEN not_sym])

theorem asset_slots_separate_witness:
  "slot_balance sample_hash 1 2 \<noteq> slot_allowance sample_hash 2 1 3 \<and>
   slot_allowance sample_hash 1 2 1 \<noteq> slot_allowance sample_hash 2 3 1 \<and>
   slot_asset_meta sample_hash 1 (bstr ''name'') \<noteq> slot_asset_meta sample_hash 1 (bstr ''symbol'') \<and>
   erc20_binding_slot sample_hash 2 \<noteq> erc20_binding_slot sample_hash 1"
  using asset_slots_separate [OF sample_hash_ok, of 1 2 2 1 3 1 "''name''" "''symbol''"]
    asset_slots_separate [OF sample_hash_ok, of 1 1 2 1 3 1 "''name''" "''symbol''"] by simp

lemma register_reads_back:
  assumes h: "asset_hash_ok H I A" "of_nat (next_free m) \<in> I" and reach: "unat (m ASSET_ADDRESS 0) < 2 ^ 64 - 1"
    and args: "d \<le> 18" "length sy \<le> 32" "length nm \<le> 32" "utf8_valid sy" "utf8_valid nm"
      "0 \<notin> set sy" "0 \<notin> set nm" "iss \<noteq> 0 \<or> sy \<noteq> []"
    and r: "register H pure_backend sy nm d mx iss ra m = (r, m')"
  shows "\<exists>i meta. r = Inr i \<and> unat i = next_free m \<and> next_free m' = next_free m + 1 \<and>
    read_meta H pure_backend i m' = (Inr meta, m') \<and>
    am_symbol meta = sy \<and> am_name meta = nm \<and> am_decimals meta = d \<and> am_issuer meta = iss \<and>
    am_max_supply meta = mx \<and> am_supply meta = 0 \<and> am_registered_at meta = ra"
proof -
  define i :: u64 where "i = of_nat (next_free m)"
  let ?ws = "base_writes sy nm d mx iss ra @ [(''has_erc20'', 0)]"
  have nf: "next_free m < 2 ^ 64 - 1" using reach by (simp add: next_free_def Let_def)
  then have i: "unat i = next_free m" by (simp add: i_def unat_of_nat)
  have I: "i \<in> I" using h(2) by (simp add: i_def)
  have "i = (if m ASSET_ADDRESS 0 = 0 then 1 else ucast (m ASSET_ADDRESS 0))"
    by (simp add: i_def next_free_def Let_def)
  then have al: "allocate_asset_id pure_backend m = (Inr i, aput 0 (ucast (i + 1)) m)"
    using reach nf i by (simp add: allocate_pure Let_def)
  have r': "r = Inr i" "m' = put_meta H i ?ws (aput 0 (ucast (i + 1)) m)"
    using register_pure [OF args(1-3) al] r by simp_all
  have ws: "fst ` set ?ws \<subseteq> set meta_names" using base_writes_names by (simp add: image_Un)
  have load: "aload H m' (Meta_Key i s) = unwrap_or (aload H (aput 0 (ucast (i + 1)) m) (Meta_Key i s)) (map_of (rev ?ws) s)"
    if "s \<in> set meta_names" for s
    unfolding r'(2) by (subst put_meta_load [OF h(1) I ws]) (use I that in simp_all)
  have w: "aload H m' (Meta_Key i ''symbol'') = string_word sy" "aload H m' (Meta_Key i ''name'') = string_word nm"
      "aload H m' (Meta_Key i ''decimals'') = ucast d" "aload H m' (Meta_Key i ''issuer'') = ucast iss"
      "aload H m' (Meta_Key i ''max_supply'') = ucast mx" "aload H m' (Meta_Key i ''supply'') = 0"
      "aload H m' (Meta_Key i ''registered_at'') = ra"
    by (subst load; simp add: base_writes_def)+
  have "next_free m' = next_free m + 1"
  proof -
    have "unat (i + 1) = next_free m + 1" using nf i by (simp add: unat_add_no_overflow)
    moreover have "m' ASSET_ADDRESS 0 = ucast (i + 1)"
      unfolding r'(2) put_meta_counter [OF h(1) I ws] by (simp add: sput_apply)
    ultimately have "unat (m' ASSET_ADDRESS 0) = next_free m + 1" by simp
    then show ?thesis by (auto simp: next_free_def [of m'] Let_def)
  qed
  moreover obtain meta where "meta_of H m' i = Inr meta" "am_symbol meta = sy" "am_name meta = nm"
    "am_decimals meta = d" "am_issuer meta = iss" "am_max_supply meta = mx" "am_supply meta = 0"
    "am_registered_at meta = ra"
    using args(2-8) by (simp add: meta_of_def Let_def w word_string_round_trip from_utf8_def)
  ultimately show ?thesis using r'(1) i by (simp add: read_meta_pure)
qed

text \<open>
  C33. What a registration writes is what a reader gets back: after registering an asset with at most 18
  decimals and a symbol and name of at most 32 bytes of UTF-8 without NUL, not both the symbol empty
  and the issuer zero, the call returns the next free identifier and \<^verbatim>\<open>read_meta\<close> of it returns the
  registered values with supply zero.
\<close>

theorem register_round_trip:
  assumes h: "asset_hash_ok H I A" "of_nat (next_free m) \<in> I" and reach: "unat (m ASSET_ADDRESS 0) < 2 ^ 64 - 1"
    and args: "d \<le> 18" "length sy \<le> 32" "length nm \<le> 32" "utf8_valid sy" "utf8_valid nm"
      "0 \<notin> set sy" "0 \<notin> set nm" "iss \<noteq> 0 \<or> sy \<noteq> []"
    and r: "register H pure_backend sy nm d mx iss ra m = (r, m')"
  shows "\<exists>i meta. r = Inr i \<and> unat i = next_free m \<and> next_free m' = next_free m + 1 \<and>
    read_meta H pure_backend i m' = (Inr meta, m') \<and>
    am_symbol meta = sy \<and> am_name meta = nm \<and> am_decimals meta = d \<and> am_issuer meta = iss \<and>
    am_max_supply meta = mx \<and> am_supply meta = 0 \<and> am_registered_at meta = ra"
  by (rule register_reads_back [OF h reach args r])

theorem register_round_trip_witness:
  "\<exists>meta. read_meta sample_hash pure_backend 1 sample_storage = (Inr meta, sample_storage) \<and> am_symbol meta = [67]"
proof -
  have n: "next_free empty_storage = 1" "empty_storage ASSET_ADDRESS 0 = 0"
    by (simp_all add: next_free_def empty_storage_def)
  have e: "sample_storage = snd (register sample_hash pure_backend [67] [67] 6 0 1 0 empty_storage)"
    by (simp add: sbind_run sample_register)
  show ?thesis
    unfolding e
    using register_round_trip [OF sample_hash_ok _ _ _ _ _ ascii_C ascii_C _ _ _ prod.collapse [symmetric],
        of empty_storage 6 1 0 0]
    by (auto simp: n sample_register)
qed

lemma binding_register:
  assumes h: "asset_hash_ok H I A" "e \<in> A" and w: "of_nat (next_free m) \<in> I"
    and r: "register H pure_backend sy nm d mx iss ra m = (r, m')"
  shows "aload H m' (Bind_Key e) = aload H m (Bind_Key e)"
proof (cases "18 < d")
  case False
  obtain q m1 where al: "allocate_asset_id pure_backend m = (q, m1)" by (cases "allocate_asset_id pure_backend m")
  note k = keepsD [OF binding_allocate [OF h] al]
  show ?thesis
  proof (cases q)
    case (Inr i)
    have I: "i \<in> I" using allocate_within [OF w] al Inr by simp
    have "keeps (\<lambda>m. aload H m (Bind_Key e))
      (sbind (write_base_meta H pure_backend i sy nm d mx iss ra) (\<lambda>_.
       sbind (store_meta_u256 H pure_backend i (bstr ''has_erc20'') 0) (\<lambda>_. sret i)))"
      by (intro keep_intros binding_base [OF h I] binding_meta [OF h I] meta_name_mem)
    from keepsD [OF this, of m1 r m'] r False al Inr k show ?thesis by (simp add: register_def)
  qed (use r False al k in \<open>simp add: register_def\<close>)
qed (use r in \<open>simp add: register_def\<close>)

lemma binding_register_erc20:
  assumes h: "asset_hash_ok H I A" "e \<in> A" "c \<in> A" "c \<noteq> e \<or> aload H m (Bind_Key c) \<noteq> 0" and w: "of_nat (next_free m) \<in> I"
    and r: "register_erc20 H pure_backend c sy nm d mx iss ra m = (r, m')"
  shows "aload H m' (Bind_Key e) = aload H m (Bind_Key e)"
proof -
  obtain b where b: "evm_contract_asset_id H pure_backend c m = (b, m)"
    using evm_contract_asset_id_same by (metis surj_pair)
  show ?thesis
  proof (cases "18 < d \<or> b \<noteq> Inr None")
    case True
    with r b show ?thesis by (cases b) (auto simp: register_erc20_def sbind_run split: if_splits)
  next
    case False
    then have "aload H m (Bind_Key c) = 0"
      using b by (auto simp: evm_contract_asset_id_def asset_slots sbind_run split: if_splits)
    with h(4) have ce: "c \<noteq> e" by simp
    obtain q m1 where al: "allocate_asset_id pure_backend m = (q, m1)" by (cases "allocate_asset_id pure_backend m")
    note k = keepsD [OF binding_allocate [OF h(1,2)] al]
    show ?thesis
    proof (cases q)
      case (Inr i)
      have I: "i \<in> I" using allocate_within [OF w] al Inr by simp
      have bk: "keeps (\<lambda>m. aload H m (Bind_Key e)) (set_evm_contract_asset_id H pure_backend c i)"
        unfolding set_evm_contract_asset_id_def asset_slots using h ce by (intro keeps_aput [OF h(1)]) simp_all
      have "keeps (\<lambda>m. aload H m (Bind_Key e))
        (sbind (write_base_meta H pure_backend i sy nm d mx iss ra) (\<lambda>_.
         sbind (store_meta_u256 H pure_backend i (bstr ''has_erc20'') 1) (\<lambda>_.
         sbind (store_meta_u256 H pure_backend i (bstr ''evm_contract'') (address_to_u256 c)) (\<lambda>_.
         sbind (set_evm_contract_asset_id H pure_backend c i) (\<lambda>_. sret i)))))"
        by (intro keep_intros bk binding_base [OF h(1,2) I] binding_meta [OF h(1,2) I] meta_name_mem)
      from keepsD [OF this, of m1 r m'] r False al b Inr k show ?thesis by (simp add: register_erc20_def)
    qed (use r False al b k in \<open>simp add: register_erc20_def\<close>)
  qed
qed

text \<open>
  C34. The binding of an EVM contract to an asset is permanent: once a contract is bound, no asset
  operation, whatever its outcome, changes the binding, and a second registration of the contract is
  rejected with \<^verbatim>\<open>Erc20AlreadyBound\<close> and changes nothing.
\<close>

theorem erc20_binding_permanent:
  assumes h: "asset_hash_ok H I A" "e \<in> A" and bound: "aload H m (Bind_Key e) \<noteq> 0" "unat (aload H m (Bind_Key e)) < 2 ^ 64"
    and w: "op_within I A m op" and r: "run_op H pure_backend op m = (r, m')"
  shows "aload H m' (Bind_Key e) = aload H m (Bind_Key e) \<and>
    (\<forall>sy nm d mx iss ra. op = Register_Erc20 e sy nm d mx iss ra \<and> d \<le> 18 \<longrightarrow> r = Inl (Erc20AlreadyBound e) \<and> m' = m)"
proof
  show "\<forall>sy nm d mx iss ra. op = Register_Erc20 e sy nm d mx iss ra \<and> d \<le> 18 \<longrightarrow> r = Inl (Erc20AlreadyBound e) \<and> m' = m"
    using r bound
    by (auto simp: register_erc20_def evm_contract_asset_id_def asset_slots sbind_run U64_MAX_less not_le split: if_splits)
  let ?k = "keeps (\<lambda>m. aload H m (Bind_Key e))"
  show "aload H m' (Bind_Key e) = aload H m (Bind_Key e)"
  proof (cases op)
    case (Transfer i f t x)
    with w r keepsD [OF binding_transfer [OF h, of i f t x]] show ?thesis by simp
  next
    case (Batch_Transfer i f rs)
    with w r keepsD [OF binding_batch [OF h, of i f rs]] show ?thesis by simp
  next
    case (Approve i a b x)
    with w have "?k (approve H pure_backend i a b x)"
      unfolding approve_def by (intro keep_intros binding_allowance [OF h]) simp_all
    from keepsD [OF this] r Approve show ?thesis by simp
  next
    case (Transfer_From i s f t x)
    with w have "?k (transfer_from H pure_backend i s f t x)"
      unfolding transfer_from_def
      by (intro keep_intros binding_transfer [OF h] binding_allowance [OF h]) simp_all
    from keepsD [OF this] r Transfer_From show ?thesis by simp
  next
    case (Mint i c t x)
    with w have "?k (mint H pure_backend i c t x)"
      unfolding mint_def add_balance_def
      by (intro keep_intros binding_balance [OF h] binding_meta [OF h] meta_name_mem) simp_all
    from keepsD [OF this] r Mint show ?thesis by simp
  next
    case (Burn i c f x)
    with w have "?k (burn H pure_backend i c f x)"
      unfolding burn_def deduct_balance_def
      by (intro keep_intros binding_balance [OF h] binding_allowance [OF h] binding_meta [OF h] meta_name_mem) simp_all
    from keepsD [OF this] r Burn show ?thesis by simp
  next
    case (Register sy nm d mx iss ra)
    obtain q where "register H pure_backend sy nm d mx iss ra m = (q, m')"
      using r Register by (auto simp: sbind_run split: prod.splits sum.splits)
    from binding_register [OF h _ this] Register w show ?thesis by simp
  next
    case (Register_Erc20 c sy nm d mx iss ra)
    obtain q where "register_erc20 H pure_backend c sy nm d mx iss ra m = (q, m')"
      using r Register_Erc20 by (auto simp: sbind_run split: prod.splits sum.splits)
    from binding_register_erc20 [OF h _ _ _ this] Register_Erc20 w bound show ?thesis by auto
  qed
qed

theorem erc20_binding_permanent_witness:
  "fst (run_op sample_hash pure_backend (Register_Erc20 3 [67] [67] 6 0 1 0)
      (aput (asset_slot sample_hash (Bind_Key 3)) 1 empty_storage)) = Inl (Erc20AlreadyBound 3)"
proof -
  let ?m = "aput (asset_slot sample_hash (Bind_Key 3)) 1 empty_storage"
  have "next_free ?m = next_free empty_storage" by (rule next_free_frame [OF sample_hash_ok]) simp
  then have "op_within {1, 2} {1, 2, 3} ?m (Register_Erc20 3 [67] [67] 6 0 1 0)"
    by (simp add: next_free_def empty_storage_def)
  from erc20_binding_permanent [OF sample_hash_ok _ _ _ this prod.collapse [symmetric], of 3]
  show ?thesis by (simp add: sput_apply del: run_op.simps)
qed

text \<open>
  Sending to oneself is checked only for overflow of the sum: a self-transfer of more than the
  balance succeeds and changes nothing, where the transfer to anybody else fails.
\<close>

theorem self_transfer_unchecked:
  assumes "unat (aload H m (Bal_Key i a)) + unat x < 2 ^ 128" "unat (aload H m (Bal_Key i a)) < unat x"
    "a \<noteq> b" "unat (aload H m (Bal_Key i b)) + unat x < 2 ^ 128"
  shows "transfer H pure_backend i a a x m = (Inr (), m) \<and>
    transfer H pure_backend i a b x m = (Inl InsufficientBalance, m)"
  using assms by (simp add: transfer_pure Let_def)

theorem self_transfer_unchecked_witness:
  "transfer sample_hash pure_backend 1 2 2 1000 empty_storage = (Inr (), empty_storage)"
  using self_transfer_unchecked [of empty_storage sample_hash 1 2 1000 3] by (simp add: empty_storage_def)

end
