(* ===== verification/Precompile_Props.thy ===== *)
theory Precompile_Props
  imports Call_Precompiles Asset_Props
begin

text \<open>
  Properties of whole precompile calls on the production provider: a transfer that goes through, atomicity,
  exact gas, and checks without gas; and, for each method that moves an asset, that it succeeds only for
  compliant parties.
\<close>

section \<open>Definitions of the statements\<close>

definition compliance_status :: "(bytes \<Rightarrow> u256) \<Rightarrow> evm_storage \<Rightarrow> address \<Rightarrow> u8" where
  "compliance_status H m a = ucast (m COMPLIANCE_ADDRESS (slot_compliance H a))"

text \<open>The accounts whose balances a call can change and the caller that changes them, by selector in dispatch
  order; \<open>Asset_Parties\<close> shows that no other balance changes.\<close>

definition moved_parties :: "asset_abi \<Rightarrow> bytes \<Rightarrow> address \<Rightarrow> address set" where
  "moved_parties abi cd sender = (let sel = take 4 cd in
     if sel = sel_getBalance abi \<or> sel = sel_getTotalSupply abi \<or> sel = sel_getAssetInfo abi then {}
     else if sel = sel_transfer abi then
       (case dec_transfer abi cd of Inl _ \<Rightarrow> {} | Inr (_, to, _) \<Rightarrow> {sender, to})
     else if sel = sel_batchTransfer abi then
       (case dec_batchTransfer abi cd of Inl _ \<Rightarrow> {} | Inr (_, tos, _) \<Rightarrow> insert sender (set tos))
     else if sel = sel_approve abi then {}
     else if sel = sel_transferFrom abi then
       (case dec_transferFrom abi cd of Inl _ \<Rightarrow> {} | Inr (_, from, to, _) \<Rightarrow> {sender, from, to})
     else if sel = sel_mint abi then
       (case dec_mint abi cd of Inl _ \<Rightarrow> {} | Inr (_, to, _) \<Rightarrow> {sender, to})
     else if sel = sel_burn abi then
       (case dec_burn abi cd of Inl _ \<Rightarrow> {} | Inr (_, from, _) \<Rightarrow> {sender, from})
     else {})"

section \<open>Concrete parameters for the instances\<close>

text \<open>A journal with snapshots: the storage, the logs, and the saved pairs of both.\<close>

record snap_journal =
  sj_store :: evm_storage
  sj_logs :: "(address \<times> log_data) list"
  sj_saved :: "(evm_storage \<times> (address \<times> log_data) list) list"

definition snap_ops :: "snap_journal journal_tr" where
  "snap_ops =
     \<lparr>j_load_account = (\<lambda>a. sret (0, Some [1])),
      j_sload = (\<lambda>a k. sget (\<lambda>j. (sj_store j a k, True))),
      j_sstore = (\<lambda>a k v j. (Inr ((sj_store j a k, sj_store j a k), True), j\<lparr>sj_store := sput a k v (sj_store j)\<rparr>)),
      j_tload = (\<lambda>a k j. 0), j_tstore = (\<lambda>a k v j. j),
      j_log = (\<lambda>a e j. j\<lparr>sj_logs := (a, e) # sj_logs j\<rparr>),
      j_checkpoint = (\<lambda>j. ((0, 0), j\<lparr>sj_saved := (sj_store j, sj_logs j) # sj_saved j\<rparr>)),
      j_checkpoint_commit = (\<lambda>j. j\<lparr>sj_saved := tl (sj_saved j)\<rparr>),
      j_checkpoint_revert = (\<lambda>c j. case sj_saved j of [] \<Rightarrow> j
        | (m, l) # rest \<Rightarrow> \<lparr>sj_store = m, sj_logs = l, sj_saved = rest\<rparr>),
      j_incr_balance = (\<lambda>a n. sret True), j_decr_balance = (\<lambda>a n. sret True)\<rparr>"

definition snap_empty :: snap_journal where
  "snap_empty = \<lparr>sj_store = empty_storage, sj_logs = [], sj_saved = []\<rparr>"

definition snap_obs :: "snap_journal \<Rightarrow> evm_storage \<times> (address \<times> log_data) list" where
  "snap_obs j = (sj_store j, sj_logs j)"

definition sample_state :: "u64 \<Rightarrow> bool \<Rightarrow> snap_journal evm" where
  "sample_state gas static = ev_new snap_empty gas static 1 0 1 0"

definition idle_evm :: "'s nested_evm" where
  "idle_evm c k d g b t = sfail ''no contract''"

text \<open>An interface whose selectors are the numbers 1 to 12 and whose decoders read fixed arguments.\<close>

definition sample_abi :: asset_abi where
  "sample_abi =
     \<lparr>sel_getBalance = [0,0,0,1], sel_getTotalSupply = [0,0,0,2], sel_getAssetInfo = [0,0,0,3],
      sel_transfer = [0,0,0,4], sel_batchTransfer = [0,0,0,5], sel_approve = [0,0,0,6],
      sel_transferFrom = [0,0,0,7], sel_mint = [0,0,0,8], sel_burn = [0,0,0,9], sel_register = [0,0,0,10],
      sel_registerErc20 = [0,0,0,11], sel_createWrapper = [0,0,0,12],
      dec_getBalance = (\<lambda>_. Inr (1, 1)), dec_getTotalSupply = (\<lambda>_. Inr 1), dec_getAssetInfo = (\<lambda>_. Inr 1),
      dec_transfer = (\<lambda>_. Inr (1, 2, 5)), dec_batchTransfer = (\<lambda>_. Inr (1, [2, 3], [5, 6])),
      dec_approve = (\<lambda>_. Inr (1, 2, 5)), dec_transferFrom = (\<lambda>_. Inr (1, 2, 3, 5)),
      dec_mint = (\<lambda>_. Inr (1, 2, 5)), dec_burn = (\<lambda>_. Inr (1, 2, 5)),
      dec_register = (\<lambda>_. Inr ([67], [67], 6, 0)), dec_registerErc20 = (\<lambda>_. Inr 3),
      dec_createWrapper = (\<lambda>_. Inr 1), enc_balance = to_be_bytes, enc_info = (\<lambda>_. []), enc_id = to_be_bytes,
      enc_wrapper = to_be_bytes, enc_factoryCall = (\<lambda>_ _ _ _. []), dec_factoryReturn = (\<lambda>_. Inl ''''),
      fmt_address = (\<lambda>_. ''''), fmt_error = (\<lambda>_. '''')\<rparr>"

lemma snap_journal_ok: "journal_ok snap_ops sj_store"
  by (auto simp: journal_ok_def snap_ops_def sput_def)

lemma snap_checkpoints_ok:
  "journal_checkpoints_ok snap_ops sj_store (\<lambda>j. map (\<lambda>p. ((0, 0), fst p)) (sj_saved j))"
  "journal_checkpoints_ok snap_ops snap_obs (\<lambda>j. map (\<lambda>p. ((0, 0), p)) (sj_saved j))"
  by (auto simp: journal_checkpoints_ok_def snap_ops_def keeps_def snap_obs_def map_tl split: list.splits)

section \<open>Compliance of the parties\<close>

lemma require_compliance_passed:
  assumes J: "journal_ok J jview" and r: "require_compliance H abi (evm_provider berlin J) a s = (Inr u, s1)"
    and g: "2100 \<le> ev_gas_remaining s1"
  shows "compliance_status H (jview (ev_journal s)) a = 0 \<and> jview (ev_journal s1) = jview (ev_journal s)"
proof -
  have "ev_meter s s1" using movesD [OF em.asset_helpers_move(2) r] .
  then have gs: "2100 \<le> ev_gas_remaining s" using g by (auto simp: ev_meter_def)
  then have "100 \<le> ev_gas_remaining s" by (simp add: word_le_nat_alt)
  with gs ev_sload_paid [OF J, of berlin s COMPLIANCE_ADDRESS "slot_compliance H a"] obtain s2 where
    "ev_sload berlin J COMPLIANCE_ADDRESS (slot_compliance H a) s =
       (Inr (jview (ev_journal s) COMPLIANCE_ADDRESS (slot_compliance H a)), s2)"
    "jview (ev_journal s2) = jview (ev_journal s)"
    by (auto simp: berlin_def)
  with r show ?thesis
    by (auto simp: require_compliance_def smap_err_eq_Inr check_compliance_def evm_provider_def sbind_run
        sunwrap_or_def to_be_bytes_last compliance_status_def split: if_splits)
qed

lemma require_compliance_all:
  assumes J: "journal_ok J jview"
    and r: "sfor as (require_compliance H abi (evm_provider berlin J)) s = (Inr u, s1)"
    and g: "2100 \<le> ev_gas_remaining s1"
  shows "(\<forall>a \<in> set as. compliance_status H (jview (ev_journal s)) a = 0) \<and> jview (ev_journal s1) = jview (ev_journal s)"
  using r
proof (induction as arbitrary: s)
  case (Cons a as)
  then obtain s2 where r1: "require_compliance H abi (evm_provider berlin J) a s = (Inr (), s2)"
    and r2: "sfor as (require_compliance H abi (evm_provider berlin J)) s2 = (Inr u, s1)"
    by (auto simp: smonad_Inr)
  have "moves ev_meter (sfor as (require_compliance H abi (evm_provider berlin J)))"
    by (intro moves_intros em.order em.asset_helpers_move)
  from movesD [OF this r2] have "2100 \<le> ev_gas_remaining s2" using g by (auto simp: ev_meter_def)
  with require_compliance_passed [OF J r1] Cons.IH [OF r2] show ?case by simp
qed simp

text \<open>
  \<open>passes g H jview A m\<close>: a run of \<open>m\<close> that succeeds and leaves \<open>g\<close> gas started from a storage in which
  everyone in \<open>A\<close> is compliant. \<open>pays g m\<close>: such a run started with the gas of a cold load.
\<close>

definition passes :: "u64 \<Rightarrow> (bytes \<Rightarrow> u256) \<Rightarrow> ('j \<Rightarrow> evm_storage) \<Rightarrow> address set \<Rightarrow>
    ('j evm, precompile_error, 'a) smonad \<Rightarrow> bool" where
  "passes g H jview A m \<longleftrightarrow> (\<forall>s v s'. m s = (Inr v, s') \<longrightarrow> g \<le> ev_gas_remaining s' \<longrightarrow>
     (\<forall>p \<in> A. compliance_status H (jview (ev_journal s)) p = 0))"

definition pays :: "u64 \<Rightarrow> ('j evm, precompile_error, 'a) smonad \<Rightarrow> bool" where
  "pays g m \<longleftrightarrow> (\<forall>s v s'. m s = (Inr v, s') \<longrightarrow> g \<le> ev_gas_remaining s' \<longrightarrow> 2100 \<le> ev_gas_remaining s)"

named_theorems pass_intros

lemma passesD:
  "passes g H jview A m \<Longrightarrow> m s = (Inr v, s') \<Longrightarrow> g \<le> ev_gas_remaining s' \<Longrightarrow>
     \<forall>p \<in> A. compliance_status H (jview (ev_journal s)) p = 0"
  unfolding passes_def by blast

lemma pays_moves [pass_intros]: "moves ev_meter m \<Longrightarrow> pays 2100 m"
  unfolding pays_def by (metis ev_meter_def movesD order_trans)

lemma pays_bind:
  assumes "moves ev_meter m" "\<And>x. pays g (f x)"
  shows "pays g (sbind m f)"
  unfolding pays_def
proof (intro allI impI)
  fix s v s'
  assume "sbind m f s = (Inr v, s')" and g: "g \<le> ev_gas_remaining s'"
  then obtain x s1 where 1: "m s = (Inr x, s1)" "f x s1 = (Inr v, s')" by (auto simp: smonad_Inr)
  with assms(2) g have "2100 \<le> ev_gas_remaining s1" unfolding pays_def by blast
  with movesD [OF assms(1) 1(1)] show "2100 \<le> ev_gas_remaining s" by (auto simp: ev_meter_def)
qed

lemma pays_first: "pays 0 m \<Longrightarrow> pays 0 (sbind m f)"
  unfolding pays_def by (auto simp: smonad_Inr)

lemma passes_none [pass_intros]: "passes g H jview {} m"
  by (simp add: passes_def)

lemma passes_guard [pass_intros]: "passes g H jview A m \<Longrightarrow> passes g H jview A (sbind (sguard b e) (\<lambda>_. m))"
  by (auto simp: passes_def smonad_Inr)

lemma passes_caller [pass_intros]: "passes g H jview A (f a) \<Longrightarrow> passes g H jview A (sbind (require_caller a) f)"
  by (auto simp: passes_def require_caller_def smonad_Inr split: if_splits)

lemma passes_check [pass_intros]:
  assumes J: "journal_ok J jview" and m: "pays g m" "passes g H jview A m"
  shows "passes g H jview (insert a A) (sbind (require_compliance H abi (evm_provider berlin J) a) (\<lambda>_. m))"
  unfolding passes_def
proof (intro allI impI)
  fix s v s'
  assume "sbind (require_compliance H abi (evm_provider berlin J) a) (\<lambda>_. m) s = (Inr v, s')" and g: "g \<le> ev_gas_remaining s'"
  then obtain u s1 where 1: "require_compliance H abi (evm_provider berlin J) a s = (Inr u, s1)" "m s1 = (Inr v, s')"
    by (auto simp: smonad_Inr)
  with m(1) g have "2100 \<le> ev_gas_remaining s1" unfolding pays_def by blast
  from require_compliance_passed [OF J 1(1) this] m(2) 1(2) g
  show "\<forall>p \<in> insert a A. compliance_status H (jview (ev_journal s)) p = 0"
    unfolding passes_def by (metis insert_iff)
qed

lemma passes_for:
  assumes J: "journal_ok J jview" and m: "pays g m"
  shows "passes g H jview (set as) (sbind (sfor as (require_compliance H abi (evm_provider berlin J))) (\<lambda>_. m))"
  unfolding passes_def
proof (intro allI impI)
  fix s v s'
  assume "sbind (sfor as (require_compliance H abi (evm_provider berlin J))) (\<lambda>_. m) s = (Inr v, s')"
    and g: "g \<le> ev_gas_remaining s'"
  then obtain u s1 where 1: "sfor as (require_compliance H abi (evm_provider berlin J)) s = (Inr u, s1)" "m s1 = (Inr v, s')"
    by (auto simp: smonad_Inr)
  with m g have "2100 \<le> ev_gas_remaining s1" unfolding pays_def by blast
  with require_compliance_all [OF J 1(1)] show "\<forall>p \<in> set as. compliance_status H (jview (ev_journal s)) p = 0" by simp
qed

text \<open>The final charge of a mutating call supplies the gas that makes its checks count.\<close>

lemma checked_mutate:
  assumes J: "journal_checkpoints_ok J jview jstack"
    and r: "mutate_void (evm_provider berlin J) dec cd gas h s = (Inr y, s')"
    and g: "2100 \<le> gas" and h: "\<And>c. passes 2100 H jview (A c) (h c)"
  shows "\<exists>c. dec cd = Inr c \<and> (\<forall>p \<in> A c. compliance_status H (jview (ev_journal s)) p = 0)"
proof -
  let ?P = "evm_provider berlin J"
  note cp = evm_checkpointed [OF J, of berlin]
  from mutate_success [OF r [unfolded mutate_void_mutate]] obtain c cp0 s1 v s2 u s3 where
    c: "dec cd = Inr c" and s1: "p_checkpoint ?P (p_reset_gas_counters ?P s) = (cp0, s1)"
    and run: "h c s1 = (Inr v, s2)" and ch: "p_charge_gas ?P gas s2 = (Inr u, s3)"
    by blast
  have js: "jview (ev_journal s1) = jview (ev_journal s)"
    using checkpointed.checkpoint_law [OF cp s1] checkpointed.reset_law [OF cp, of s] by simp
  have "2100 \<le> ev_gas_remaining s2"
    using ch g by (auto simp: evm_provider_def ev_deduct_gas_def split: option.splits)
  with h [of c] run js c show ?thesis unfolding passes_def by metis
qed

lemmas party_moves = em.order em.asset_moves em.asset_helpers_move moves_intros

lemma transfer_parties:
  assumes J: "journal_ok J jview" "journal_checkpoints_ok J jview jstack"
    and r: "pc_transfer H abi (evm_provider berlin J) cd a s = (Inr y, s')"
  shows "\<exists>c. dec_transfer abi cd = Inr c \<and>
    (\<forall>p \<in> (case c of (i, t, x) \<Rightarrow> {a, t}). compliance_status H (jview (ev_journal s)) p = 0)"
  by (rule checked_mutate [OF J(2) r [unfolded pc_transfer_def]], simp, unfold split_paired_all prod.case)
     (intro pass_intros J(1) party_moves)

lemma transfer_from_parties:
  assumes J: "journal_ok J jview" "journal_checkpoints_ok J jview jstack"
    and r: "pc_transfer_from H abi (evm_provider berlin J) cd a s = (Inr y, s')"
  shows "\<exists>c. dec_transferFrom abi cd = Inr c \<and>
    (\<forall>p \<in> (case c of (i, f, t, x) \<Rightarrow> {a, f, t}). compliance_status H (jview (ev_journal s)) p = 0)"
  by (rule checked_mutate [OF J(2) r [unfolded pc_transfer_from_def]], simp, unfold split_paired_all prod.case)
     (intro pass_intros J(1) party_moves)

lemma mint_parties:
  assumes J: "journal_ok J jview" "journal_checkpoints_ok J jview jstack"
    and r: "pc_mint H abi (evm_provider berlin J) cd a s = (Inr y, s')"
  shows "\<exists>c. dec_mint abi cd = Inr c \<and>
    (\<forall>p \<in> (case c of (i, t, x) \<Rightarrow> {a, t}). compliance_status H (jview (ev_journal s)) p = 0)"
  by (rule checked_mutate [OF J(2) r [unfolded pc_mint_def]], simp, unfold split_paired_all prod.case)
     (intro pass_intros J(1) party_moves)

lemma burn_parties:
  assumes J: "journal_ok J jview" "journal_checkpoints_ok J jview jstack"
    and r: "pc_burn H abi (evm_provider berlin J) cd a s = (Inr y, s')"
  shows "\<exists>c. dec_burn abi cd = Inr c \<and>
    (\<forall>p \<in> (case c of (i, f, x) \<Rightarrow> {a, f}). compliance_status H (jview (ev_journal s)) p = 0)"
  by (rule checked_mutate [OF J(2) r [unfolded pc_burn_def]], simp, unfold split_paired_all prod.case)
     (intro pass_intros J(1) party_moves)

text \<open>A batch pays its flat charge first; there it is the first event that supplies the gas.\<close>

lemma pays_emit: "pays 0 (emit_asset_event (evm_provider berlin J) tp [a, b, c] (encode_u128 x))"
  by (auto simp: pays_def emit_asset_event_def evm_provider_def ev_emit_event_def smonad_Inr ev_deduct_gas_def
      event_gas_def berlin_def encode_u128_def word_le_nat_alt split: option.splits)

lemma pays_for: "xs \<noteq> [] \<Longrightarrow> (\<And>x. pays 0 (f x)) \<Longrightarrow> pays 0 (sfor xs f)"
  by (cases xs) (simp_all add: pays_first)

lemma pays_checkpointed: "pays 0 body \<Longrightarrow> pays 0 (run_checkpointed (evm_provider G J) body)"
  unfolding pays_def run_checkpointed_def
  by (auto simp: evm_provider_def ev_checkpoint_def split: prod.splits sum.splits) force

lemma batch_parties:
  assumes J: "journal_ok J jview" "journal_checkpoints_ok J jview jstack"
    and r: "pc_batch_transfer H abi (evm_provider berlin J) cd a s = (Inr y, s')"
  shows "\<exists>c. dec_batchTransfer abi cd = Inr c \<and>
    (\<forall>p \<in> (case c of (i, ts, xs) \<Rightarrow> insert a (set ts)). compliance_status H (jview (ev_journal s)) p = 0)"
proof -
  let ?P = "evm_provider berlin J"
  obtain i ts xs where c: "dec_batchTransfer abi cd = Inr (i, ts, xs)"
    using r by (auto simp: pc_batch_transfer_def decode_call_def sbind_run split: sum.splits)
  let ?body = "\<lambda>from. sbind (asset_err abi (read_meta H (storage_ref ?P) i)) (\<lambda>_.
      sbind (asset_err abi (batch_transfer H (storage_ref ?P) i from (zip ts xs))) (\<lambda>_.
      sfor (zip ts xs) (\<lambda>(to, amount). emit_asset_event ?P (TRANSFER_TOPIC H)
        [u64_to_u256 i, address_to_u256 from, address_to_u256 to] (encode_u128 amount))))"
  have z: "zip ts xs \<noteq> []"
    using r c by (cases ts; cases xs) (auto simp: pc_batch_transfer_def decode_call_def sbind_run)
  from r c have "\<exists>g s1. p_charge_gas ?P g s = (Inr (), s1) \<and> sbind (require_compliance H abi ?P a) (\<lambda>_.
      sbind (sfor ts (require_compliance H abi ?P)) (\<lambda>_.
      sbind (run_checkpointed ?P (?body a)) (\<lambda>_. ok_empty ?P))) s1 = (Inr y, s')"
    unfolding pc_batch_transfer_def decode_call_def Let_def
    by (fastforce simp: require_caller_def sok_or_eq_Inr sguard_eq_Inr sbind_eq_Inr [of "sok_or e z" for e z]
        sbind_eq_Inr [of "sguard e z" for e z] sbind_eq_Inr [of "p_charge_gas p z" for p z]
        sbind_eq_Inr [of "sret z" for z] split: if_splits)
  then obtain g s1 where ch: "p_charge_gas ?P g s = (Inr (), s1)"
    and run: "sbind (require_compliance H abi ?P a) (\<lambda>_. sbind (sfor ts (require_compliance H abi ?P)) (\<lambda>_.
      sbind (run_checkpointed ?P (?body a)) (\<lambda>_. ok_empty ?P))) s1 = (Inr y, s')"
    by blast
  have "pays 0 (?body a)"
    by (intro pays_bind pays_for z party_moves) (auto simp: split_beta pays_emit simp del: conv_ucast)
  then have rest: "pays 0 (sbind (run_checkpointed ?P (?body a)) (\<lambda>_. ok_empty ?P))"
    by (rule pays_first [OF pays_checkpointed])
  have p: "passes 0 H jview (insert a (set ts)) (sbind (require_compliance H abi ?P a) (\<lambda>_.
      sbind (sfor ts (require_compliance H abi ?P)) (\<lambda>_. sbind (run_checkpointed ?P (?body a)) (\<lambda>_. ok_empty ?P))))"
    by (intro passes_check J(1) passes_for pays_bind rest party_moves)
  have "jview (ev_journal s1) = jview (ev_journal s)"
    using checkpointed.charge_law [OF evm_checkpointed [OF J(2)] ch] by simp
  with passesD [OF p run] c show ?thesis by simp
qed

section \<open>A successful transfer\<close>

lemma sim_ev_sload [sim_intros]:
  assumes "journal_ok J jview"
  shows "sim_at (\<lambda>s. jview (ev_journal s)) (ev_budget G) 1 (p_sload (evm_provider G J) a k) (sget (\<lambda>m. m a k))"
proof (rule sim_atI)
  fix s :: "'a evm"
  assume "enat 1 \<le> ev_budget G s"
  then have "1 \<le> ev_budget G s" by (simp add: one_enat_def)
  from ev_sload_law [OF assms this, of a k]
  show "sget (\<lambda>m. m a k) (jview (ev_journal s)) = (fst (p_sload (evm_provider G J) a k s), jview (ev_journal (snd (p_sload (evm_provider G J) a k s))))
      \<and> ev_budget G s \<le> ev_budget G (snd (p_sload (evm_provider G J) a k s)) + enat 1"
    by (auto simp: evm_provider_def one_enat_def)
qed

definition compliance_guard :: "(bytes \<Rightarrow> u256) \<Rightarrow> asset_abi \<Rightarrow> address \<Rightarrow> (evm_storage, precompile_error, unit) smonad" where
  "compliance_guard H abi a m =
     (if compliance_status H m a = 0 then Inr () else Inl (Other (asset_error_text (fmt_address abi) ComplianceFailed)), m)"

lemma sim_require_compliance [sim_intros]:
  assumes J: "journal_ok J jview"
  shows "sim_at (\<lambda>s. jview (ev_journal s)) (ev_budget G) 1 (require_compliance H abi (evm_provider G J) a)
    (compliance_guard H abi a)"
proof -
  let ?get = "sget (\<lambda>m. m COMPLIANCE_ADDRESS (slot_compliance H a)) :: (evm_storage, precompile_error, u256) smonad"
  have "sim_at (\<lambda>s. jview (ev_journal s)) (ev_budget G) 1 (require_compliance H abi (evm_provider G J) a)
    (smap_err (\<lambda>_. Other (asset_error_text (fmt_address abi) ComplianceFailed))
      (sbind (sunwrap_or 0 (sbind ?get (\<lambda>v. sret (to_be_bytes v ! 31)))) (\<lambda>status.
       if status = 0 then sret () else sfail (Other ''compliance check failed''))))"
    unfolding require_compliance_def check_compliance_def
    by (rule sim_weaken, (rule sim_intros J)+) simp
  moreover have "smap_err (\<lambda>_. Other (asset_error_text (fmt_address abi) ComplianceFailed))
      (sbind (sunwrap_or 0 (sbind ?get (\<lambda>v. sret (to_be_bytes v ! 31)))) (\<lambda>status.
       if status = 0 then sret () else sfail (Other ''compliance check failed''))) = compliance_guard H abi a"
    by (simp add: fun_eq_iff compliance_guard_def compliance_status_def sbind_run smap_err_def sunwrap_or_def to_be_bytes_last)
  ultimately show ?thesis by simp
qed

lemma ev_budget_gas: "enat n \<le> ev_budget berlin s \<Longrightarrow> 0 < n \<Longrightarrow> n * 22200 \<le> unat (ev_gas_remaining s) \<and> \<not> ev_is_static s"
  by (auto simp: ev_budget_def access_cost_def berlin_def SSTORE_SET_GAS_def less_eq_div_iff_mult_less_eq zero_enat_def split: if_splits)

lemma sim_transfer_handler:
  assumes J: "journal_ok J jview"
  shows "sim_at (\<lambda>s. jview (ev_journal s)) (ev_budget berlin) 18
    (sbind (require_compliance H abi (evm_provider berlin J) a) (\<lambda>_.
     sbind (require_compliance H abi (evm_provider berlin J) t) (\<lambda>_.
     sbind (asset_err abi (read_meta H (storage_ref (evm_provider berlin J)) i)) (\<lambda>_.
     asset_err abi (transfer H (storage_ref (evm_provider berlin J)) i a t x)))))
    (sbind (compliance_guard H abi a) (\<lambda>_. sbind (compliance_guard H abi t) (\<lambda>_.
     sbind (asset_err abi (read_meta H pure_backend i)) (\<lambda>_. asset_err abi (transfer H pure_backend i a t x)))))"
  unfolding asset_err_def
  by (rule sim_weaken, (rule sim_intros J storage_backend.sim_read_meta [OF evm_storage_backend [OF J]]
      storage_backend.sim_transfer [OF evm_storage_backend [OF J]])+) simp

text \<open>
  With gas for the accesses, compliant parties and a transfer that the ledger accepts, the call
  succeeds and the journal ends with the storage the ledger computes.
\<close>

lemma transfer_call_run:
  assumes J: "journal_ok J jview" "journal_checkpoints_ok J jview jstack"
    and c: "dec_transfer abi cd = Inr (i, t, x)" and a: "a \<noteq> 0" and g: "enat 20 \<le> ev_budget berlin s"
    and ok: "compliance_status H (jview (ev_journal s)) a = 0" "compliance_status H (jview (ev_journal s)) t = 0"
      "meta_of H (jview (ev_journal s)) i = Inr meta"
      "transfer H pure_backend i a t x (jview (ev_journal s)) = (Inr (), m')"
  shows "\<exists>y s'. pc_transfer H abi (evm_provider berlin J) cd a s = (Inr y, s') \<and>
    jview (ev_journal s') = m' \<and> out_bytes y = [] \<and> \<not> out_reverted y"
proof -
  let ?P = "evm_provider berlin J"
  note cp = evm_checkpointed [OF J(2), of berlin]
  let ?r = "p_reset_gas_counters ?P s"
  obtain k s1 where s1: "p_checkpoint ?P ?r = (k, s1)" by (cases "p_checkpoint ?P ?r")
  have v1: "jview (ev_journal s1) = jview (ev_journal s)"
    using checkpointed.checkpoint_law [OF cp s1] checkpointed.reset_law [OF cp, of s] by simp
  have b1: "ev_budget berlin s1 = ev_budget berlin s"
    using s1 by (auto simp: evm_provider_def ev_checkpoint_def ev_budget_def split: prod.splits)
  let ?h = "sbind (require_compliance H abi ?P a) (\<lambda>_. sbind (require_compliance H abi ?P t) (\<lambda>_.
     sbind (asset_err abi (read_meta H (storage_ref ?P) i)) (\<lambda>_. asset_err abi (transfer H (storage_ref ?P) i a t x))))"
  let ?e = "emit_asset_event ?P (TRANSFER_TOPIC H) [u64_to_u256 i, address_to_u256 a, address_to_u256 t] (encode_u128 x)"
  have "enat 18 \<le> ev_budget berlin s1" unfolding b1 using g by (rule order_trans [rotated]) simp
  note sm = sim_atD [OF sim_transfer_handler [OF J(1), of H abi a t i x] this]
  obtain q s2 where h: "?h s1 = (q, s2)" by (cases "?h s1")
  have "q = Inr () \<and> jview (ev_journal s2) = m'"
    using sm(1) h ok v1 by (simp add: compliance_guard_def sbind_run asset_err_def smap_err_def read_meta_pure)
  moreover have "enat 2 \<le> ev_budget berlin s2"
    using enat_budget_split [of 18 2 "ev_budget berlin s1" "ev_budget berlin s2"] sm(2) g b1 h by simp
  ultimately have h2: "?h s1 = (Inr (), s2)" "jview (ev_journal s2) = m'" "44400 \<le> unat (ev_gas_remaining s2)"
    using h ev_budget_gas [of 2 s2] by auto
  obtain s3 where e: "?e s2 = (Inr (), s3)" "jview (ev_journal s3) = m'" "40000 \<le> unat (ev_gas_remaining s3)"
    using h2(2,3) J(1) by (auto simp: emit_asset_event_def evm_provider_def ev_emit_event_def sbind_run ev_deduct_gas_def
        event_gas_def berlin_def encode_u128_def checked_sub_def word_le_nat_alt unat_sub journal_ok_def)
  have handler: "sbind (require_caller a) (\<lambda>from. sbind (require_compliance H abi ?P from) (\<lambda>_. sbind (require_compliance H abi ?P t) (\<lambda>_.
     sbind (asset_err abi (read_meta H (storage_ref ?P) i)) (\<lambda>_. sbind (asset_err abi (transfer H (storage_ref ?P) i from t x)) (\<lambda>_.
     emit_asset_event ?P (TRANSFER_TOPIC H) [u64_to_u256 i, address_to_u256 from, address_to_u256 t] (encode_u128 x)))))) s1 = (Inr (), s3)"
    using h2(1) e(1) a by (auto simp: require_caller_def smonad_Inr)
  have "\<exists>s4. p_charge_gas ?P 5000 s3 = (Inr (), s4) \<and> ev_journal s4 = ev_journal s3"
    using e(3) by (simp add: evm_provider_def ev_deduct_gas_def checked_sub_def word_le_nat_alt)
  then obtain s4 where s4: "p_charge_gas ?P 5000 s3 = (Inr (), s4)" "ev_journal s4 = ev_journal s3" by blast
  have "jview (ev_journal (p_checkpoint_commit ?P k s4)) = m'"
    using checkpointed.commit_law [OF cp, of k s4] s4(2) e(2) by simp
  with c s1 handler s4(1) show ?thesis
    by (simp add: pc_transfer_def mutate_void_def decode_call_def with_checkpoint_def Let_def
        fill_precompile_output_def new_precompile_output_def del: conv_ucast)
qed

section \<open>Instances\<close>

text \<open>A storage in which every word of the asset contract is 67: the asset exists and balances are 67.\<close>

definition issued_storage :: evm_storage where
  "issued_storage a k = (if a = ASSET_ADDRESS then 67 else 0)"

definition issued_state :: "u64 \<Rightarrow> bool \<Rightarrow> snap_journal evm" where
  "issued_state gas static = ev_new (snap_empty\<lparr>sj_store := issued_storage\<rparr>) gas static 1 0 1 0"

definition word_meter :: "u64 gas_meter" where
  "word_meter = \<lparr>gm_new = (\<lambda>l. l), gm_record_refund = (\<lambda>r g. g),
     gm_record_cost = (\<lambda>c g. if c \<le> g then (True, g - c) else (False, g))\<rparr>"

definition issued_context :: "snap_journal context_tr" where
  "issued_context = \<lparr>cx_journal = snap_empty\<lparr>sj_store := issued_storage\<rparr>, cx_timestamp = 0, cx_number = 1,
     cx_beneficiary = 0, cx_chain_id = 1, cx_shared_buffer = (\<lambda>_. None), cx_error = None\<rparr>"

definition sample_precompiles :: "(snap_journal, unit) call_precompiles" where
  "sample_precompiles = with_custom ASSET_ADDRESS (asset_call sample_hash idle_evm sample_abi (evm_provider berlin snap_ops))
     (cps_new (\<lambda>_ _. None) ())"

definition transfer_inputs :: call_inputs where
  "transfer_inputs = \<lparr>ci_bytecode_address = ASSET_ADDRESS, ci_input = CallBytes [0, 0, 0, 4],
     ci_gas_limit = 1000000, ci_is_static = False, ci_caller = 1\<rparr>"

lemma word_meter_ok: "gas_meter_ok word_meter (\<lambda>g. g)"
  by (simp add: gas_meter_ok_def word_meter_def)

lemma issued_meta: "\<exists>meta. meta_of H issued_storage i = Inr meta"
proof -
  have z: "nat_be n 0 = replicate n 0" for n
    by (induction n) (simp_all add: replicate_append_same)
  have "to_be_bytes (67 :: u256) = nat_be (Suc 31) 67" by (simp add: to_be_bytes_def del: nat_be.simps)
  then have "to_be_bytes (67 :: u256) = 0 # replicate 30 0 @ [67]"
    by (simp only: nat_be.simps(2)) (simp add: z flip: replicate_Suc)
  then have "from_utf8 (word_string 67) = Some []"
    by (simp add: word_string_def from_utf8_def)
  then show ?thesis by (simp add: meta_of_def Let_def issued_storage_def)
qed

lemma issued_transfer: "\<exists>m'. transfer sample_hash pure_backend 1 1 2 5 issued_storage = (Inr (), m')"
  by (simp add: transfer_pure Let_def issued_storage_def)

lemma issued_compliant: "compliance_status H issued_storage a = 0"
  by (simp add: compliance_status_def issued_storage_def COMPLIANCE_ADDRESS_def ASSET_ADDRESS_def)

lemma issued_budget: "enat 20 \<le> ev_budget berlin (issued_state 1000000 False)"
  by (simp add: ev_budget_def issued_state_def ev_new_def access_cost_def berlin_def SSTORE_SET_GAS_def)

lemma issued_transfer_run:
  "\<exists>y s'. asset_call sample_hash X sample_abi (evm_provider berlin snap_ops) [0, 0, 0, 4] 1 (issued_state 1000000 False) = (Inr y, s')"
proof -
  obtain meta where m: "meta_of sample_hash issued_storage 1 = Inr meta" using issued_meta by blast
  obtain m' where "transfer sample_hash pure_backend 1 1 2 5 issued_storage = (Inr (), m')" using issued_transfer by blast
  with m have "\<exists>y s'. pc_transfer sample_hash sample_abi (evm_provider berlin snap_ops) [0, 0, 0, 4] 1 (issued_state 1000000 False) = (Inr y, s')
      \<and> sj_store (ev_journal s') = m' \<and> out_bytes y = [] \<and> \<not> out_reverted y"
    by (intro transfer_call_run [OF snap_journal_ok snap_checkpoints_ok(1) _ _ issued_budget])
       (auto simp: sample_abi_def issued_state_def ev_new_def issued_compliant)
  moreover have "asset_call sample_hash X sample_abi (evm_provider berlin snap_ops) [0, 0, 0, 4] 1 =
      pc_transfer sample_hash sample_abi (evm_provider berlin snap_ops) [0, 0, 0, 4] 1"
    by (simp add: asset_call_def sample_abi_def Let_def)
  ultimately show ?thesis by auto
qed

section \<open>Properties of asset calls\<close>

text \<open>
  C12. A transfer goes through: called through \<^verbatim>\<open>CallPrecompiles::run\<close> with the gas of twenty storage
  writes, outside a static call, for a registered asset, compliant parties and a transfer the ledger
  accepts, the asset precompile returns normally with empty output, the journal holds exactly the
  storage the ledger computes, and the caller is charged no more than the gas limit.
\<close>

theorem transfer_call_end_to_end:
  assumes J: "journal_ok J jview" "journal_checkpoints_ok J jview jstack" and M: "gas_meter_ok M remaining"
    and p: "cps_custom c (ci_bytecode_address i) = Some (asset_call H X abi (evm_provider berlin J))"
    and n: "unat (cx_number cx) < 2 ^ 64" and g: "444000 \<le> unat (ci_gas_limit i)" "\<not> ci_is_static i" "ci_caller i \<noteq> 0"
    and cd: "cd = input_bytes cx (ci_input i)" "4 \<le> length cd" "take 4 cd = sel_transfer abi"
      "sel_transfer abi \<notin> {sel_getBalance abi, sel_getTotalSupply abi, sel_getAssetInfo abi}"
      "dec_transfer abi cd = Inr (k, t, x)"
    and ok: "m = jview (cx_journal cx)" "compliance_status H m (ci_caller i) = 0" "compliance_status H m t = 0"
      "meta_of H m k = Inr meta" "transfer H pure_backend k (ci_caller i) t x m = (Inr (), m')"
  shows "\<exists>ir cx'. cps_run M fmt c i cx = (Returned (Inr (Some ir)), cx') \<and> ir_result ir = IR_Return \<and>
    ir_output ir = [] \<and> jview (cx_journal cx') = m' \<and> remaining (ir_gas ir) \<le> ci_gas_limit i"
proof -
  let ?P = "evm_provider berlin J"
  let ?s = "ev_new (cx_journal cx) (ci_gas_limit i) (ci_is_static i) (cx_chain_id cx) (cx_timestamp cx)
        (ucast (cx_number cx)) (cx_beneficiary cx)"
  have call: "asset_call H X abi ?P cd (ci_caller i) = pc_transfer H abi ?P cd (ci_caller i)"
    using cd(2-4) by (simp add: asset_call_def Let_def)
  have b: "enat 20 \<le> ev_budget berlin ?s"
    using g by (simp add: ev_budget_def ev_new_def access_cost_def berlin_def SSTORE_SET_GAS_def less_eq_div_iff_mult_less_eq)
  have js: "jview (ev_journal ?s) = m" by (simp add: ev_new_def ok(1))
  obtain y s' where run: "pc_transfer H abi ?P cd (ci_caller i) ?s = (Inr y, s')"
    and y: "jview (ev_journal s') = m'" "out_bytes y = []" "\<not> out_reverted y"
    using transfer_call_run [OF J cd(5) g(3) b, unfolded js, OF ok(2-5)] by blast
  have r: "reports ?P (pc_transfer H abi ?P cd (ci_caller i))"
    unfolding pc_transfer_def by (intro report_intros)
  have mv: "moves ev_meter (pc_transfer H abi ?P cd (ci_caller i))"
    unfolding pc_transfer_def by (intro em.dispatch_void_moves em.require_caller_moves party_moves)
  note w = ev_reported_within_limit [OF r mv run]
  with finish_ok [OF M, of y "ci_gas_limit i" fmt "cx\<lparr>cx_journal := ev_journal s'\<rparr>"] run y p n call cd(1)
  show ?thesis by (auto simp: cps_run_def Let_def word_sub_le)
qed

theorem transfer_call_end_to_end_witness:
  "\<exists>ir cx'. cps_run word_meter (\<lambda>_. '''') sample_precompiles transfer_inputs issued_context =
     (Returned (Inr (Some ir)), cx') \<and> ir_result ir = IR_Return"
proof -
  obtain meta where "meta_of sample_hash issued_storage 1 = Inr meta" using issued_meta by blast
  moreover obtain m' where "transfer sample_hash pure_backend 1 1 2 5 issued_storage = (Inr (), m')"
    using issued_transfer by blast
  ultimately have "\<exists>ir cx'. cps_run word_meter (\<lambda>_. '''') sample_precompiles transfer_inputs issued_context =
     (Returned (Inr (Some ir)), cx') \<and> ir_result ir = IR_Return \<and> ir_output ir = [] \<and>
     sj_store (cx_journal cx') = m' \<and> ir_gas ir \<le> ci_gas_limit transfer_inputs"
    by (intro transfer_call_end_to_end [OF snap_journal_ok snap_checkpoints_ok(1) word_meter_ok, where H = sample_hash
          and X = idle_evm and abi = sample_abi and cd = "[0, 0, 0, 4]" and k = 1 and t = 2 and x = 5 and m = issued_storage])
       (simp_all add: sample_precompiles_def with_custom_def cps_new_def transfer_inputs_def issued_context_def
         input_bytes_def sample_abi_def issued_compliant)
  then show ?thesis by blast
qed

text \<open>
  C11. A failed call to the asset precompile leaves no trace: on the production provider, whatever
  method is called and however it fails (bad input, sanctioned party, missing balance, a nested call
  that reverts, gas that runs out half way), what can be observed of the journal is what it was.
\<close>

theorem asset_call_atomic_evm:
  assumes "journal_checkpoints_ok J jobs jstack" "\<And>c k d g b t. keeps (\<lambda>s. jstack (ev_journal s)) (X c k d g b t)"
    and "asset_call H X abi (evm_provider G J) cd a s = (Inl e, s')"
  shows "jobs (ev_journal s') = jobs (ev_journal s)"
  using atomicD [OF checkpointed.asset_call_atomic [OF evm_checkpointed [OF assms(1)] assms(2)] assms(3)] .

theorem asset_call_atomic_evm_witness:
  "\<exists>e s'. asset_call sample_hash idle_evm sample_abi (evm_provider berlin snap_ops) [0, 0, 0, 4] 0
     (issued_state 1000000 False) = (Inl e, s') \<and> snap_obs (ev_journal s') = (issued_storage, [])"
proof -
  have run: "asset_call sample_hash idle_evm sample_abi (evm_provider berlin snap_ops) [0, 0, 0, 4] 0
     (issued_state 1000000 False) = (Inl (Other ''caller not available''), issued_state 1000000 False)"
    by (simp add: asset_call_def sample_abi_def pc_transfer_def mutate_void_def decode_call_def with_checkpoint_def
        require_caller_def issued_state_def ev_new_def evm_provider_def ev_checkpoint_def snap_ops_def snap_empty_def sbind_run Let_def)
  have "keeps (\<lambda>s. map (\<lambda>p. ((0, 0), p)) (sj_saved (ev_journal s))) (idle_evm c k d g b t)" for c k d g b t
    by (simp add: idle_evm_def keeps_fail)
  from asset_call_atomic_evm [OF snap_checkpoints_ok(2) this run] run show ?thesis
    by (simp add: issued_state_def ev_new_def snap_obs_def snap_empty_def)
qed

text \<open>
  C36. The assertion on the gas meter never fires: whatever method of the asset precompile is called
  through \<^verbatim>\<open>CallPrecompiles::run\<close>, with whatever input, gas limit and static flag, the call returns,
  unless a panic unwinds from inside it; on success the caller keeps exactly the gas the provider has
  left. The nested EVM may spend gas of the provider but not create it.
\<close>

theorem asset_run_charges_exactly:
  assumes "gas_meter_ok M remaining"
    and "cps_custom c (ci_bytecode_address i) = Some (asset_call H X abi (evm_provider G J))"
    and "\<And>cl k d g b t. moves ev_meter (X cl k d g b t)" and "unat (cx_number cx) < 2 ^ 64"
    and "asset_call H X abi (evm_provider G J) (input_bytes cx (ci_input i)) (ci_caller i)
      (ev_new (cx_journal cx) (ci_gas_limit i) (ci_is_static i) (cx_chain_id cx) (cx_timestamp cx)
        (ucast (cx_number cx)) (cx_beneficiary cx)) = (q, s')"
    and "q \<noteq> Inl Unwind"
  shows "\<exists>res cx'. cps_run M fmt c i cx = (Returned res, cx') \<and> cx_journal cx' = ev_journal s' \<and>
    (\<forall>y. q = Inr y \<longrightarrow> (\<exists>ir. res = Inr (Some ir) \<and> remaining (ir_gas ir) = ev_gas_remaining s' \<and> ir_output ir = out_bytes y))"
  using cps_run_charged [OF assms(1,2) asset_call_reports em.asset_call_moves [OF assms(3)] assms(4-6)] .

theorem asset_run_charges_exactly_witness:
  "\<exists>res cx'. cps_run word_meter (\<lambda>_. '''') sample_precompiles transfer_inputs issued_context = (Returned res, cx')"
proof -
  let ?s = "ev_new (cx_journal issued_context) (ci_gas_limit transfer_inputs) (ci_is_static transfer_inputs)
    (cx_chain_id issued_context) (cx_timestamp issued_context) (ucast (cx_number issued_context)) (cx_beneficiary issued_context)"
  have s: "?s = issued_state 1000000 False"
    by (simp add: issued_context_def transfer_inputs_def issued_state_def)
  obtain y s' where run: "asset_call sample_hash idle_evm sample_abi (evm_provider berlin snap_ops)
      (input_bytes issued_context (ci_input transfer_inputs)) (ci_caller transfer_inputs) ?s = (Inr y, s')"
    using issued_transfer_run [of idle_evm] unfolding s by (auto simp: transfer_inputs_def input_bytes_def)
  have X: "moves ev_meter (idle_evm cl k d g b t)" for cl k d g b t
    unfolding idle_evm_def by (rule moves_pure(2) [OF em.order_refl])
  from asset_run_charges_exactly [OF word_meter_ok _ X _ run, of sample_precompiles "\<lambda>_. ''''"] show ?thesis
    by (simp add: sample_precompiles_def with_custom_def transfer_inputs_def issued_context_def) blast
qed

section \<open>Properties of the compliance precompile\<close>

text \<open>The checks of \<open>checkCompliance\<close> when the gas does not pay for a cold load.\<close>

lemma cold_load_unpaid:
  assumes "j_load_account J a (ev_journal s) = (Inr x, j)" "j_sload J a k j = (Inr (v, True), j')"
    and "ev_gas_remaining s < COLD_SLOAD_COST G"
  shows "mload (storage_ref (evm_provider G J)) a k s =
    (Inr 0, s\<lparr>ev_sload_count := ev_sload_count s + 1, ev_journal := j'\<rparr>)"
proof -
  have "checked_sub (ev_gas_remaining s) (COLD_SLOAD_COST G) = None"
    using assms(3) by (simp add: checked_sub_def not_le)
  with assms(1,2) show ?thesis
    by (simp add: mload_def storage_ref_def evm_provider_def ev_sload_def sbind_run ev_call_run ev_deduct_gas_def)
qed

text \<open>
  \<open>checkCompliance\<close> fails open: called with at least the 1000 gas it charges but less than a cold
  load costs, on a status slot that is still cold, it answers that the account is compliant, whatever
  status is stored.
\<close>

theorem check_compliance_fails_open:
  assumes "dec_checkCompliance abi cd = Inr target" "1000 \<le> ev_gas_remaining s" "ev_gas_remaining s < COLD_SLOAD_COST G"
    and "j_load_account J COMPLIANCE_ADDRESS (ev_journal s) = (Inr x, j)"
    and "j_sload J COMPLIANCE_ADDRESS (slot_compliance H target) j = (Inr (status, True), j')"
  shows "\<exists>y s'. pc_check_compliance H abi (evm_provider G J) cd s = (Inr y, s') \<and> out_bytes y = enc_bool abi True"
proof -
  let ?r = "s\<lparr>ev_sload_count := 0, ev_sstore_count := 0\<rparr>"
  have "(mload (storage_ref (evm_provider G J)) COMPLIANCE_ADDRESS (slot_compliance H target)
      :: (_, precompile_error, _) smonad) ?r = (Inr 0, ?r\<lparr>ev_sload_count := 1, ev_journal := j'\<rparr>)"
    using cold_load_unpaid [of J COMPLIANCE_ADDRESS ?r x j] assms by simp
  then have "(cs_check_compliance H (storage_ref (evm_provider G J)) target :: (_, precompile_error, _) smonad) ?r = (Inr True, ?r\<lparr>ev_sload_count := 1, ev_journal := j'\<rparr>)"
    by (simp add: cs_check_compliance_def read_status_def sbind_run to_be_bytes_last)
  moreover have "p_reset_gas_counters (evm_provider G J) s = ?r" by (simp add: evm_provider_def)
  moreover have "\<exists>s'. p_charge_gas (evm_provider G J) 1000 (?r\<lparr>ev_sload_count := 1, ev_journal := j'\<rparr>) = (Inr (), s')"
    using assms(2) by (simp add: evm_provider_def ev_deduct_gas_def checked_sub_def)
  ultimately show ?thesis using assms(1)
    by (auto simp: pc_check_compliance_def view_def decode_call_def encode_return_def fill_precompile_output_def
        new_precompile_output_def Let_def)
qed

definition sample_compliance_abi :: compliance_abi where
  "sample_compliance_abi = \<lparr>sel_updateCompliance = [0,0,0,1], sel_checkCompliance = [0,0,0,2], sel_setComplianceAdmin = [0,0,0,3],
     dec_updateCompliance = (\<lambda>_. Inr (2, 1)), dec_checkCompliance = (\<lambda>_. Inr 2), dec_setComplianceAdmin = (\<lambda>_. Inr 3),
     enc_bool = encode_bool\<rparr>"

definition sanctioned_state :: "u64 \<Rightarrow> snap_journal evm" where
  "sanctioned_state gas = ev_new (snap_empty\<lparr>sj_store := \<lambda>a k. 1\<rparr>) gas False 1 0 1 0"

theorem check_compliance_fails_open_witness:
  "compliance_status sample_hash (sj_store (ev_journal (sanctioned_state 1500))) 2 = 1 \<and>
   (\<exists>y s'. pc_check_compliance sample_hash sample_compliance_abi (evm_provider berlin snap_ops) [0, 0, 0, 2]
      (sanctioned_state 1500) = (Inr y, s') \<and> out_bytes y = encode_bool True)"
proof -
  have "\<exists>y s'. pc_check_compliance sample_hash sample_compliance_abi (evm_provider berlin snap_ops) [0, 0, 0, 2]
      (sanctioned_state 1500) = (Inr y, s') \<and> out_bytes y = enc_bool sample_compliance_abi True"
    by (rule check_compliance_fails_open [where target = 2])
       (simp_all add: sample_compliance_abi_def sanctioned_state_def ev_new_def berlin_def snap_ops_def)
  then show ?thesis
    by (simp add: sanctioned_state_def ev_new_def compliance_status_def sample_compliance_abi_def)
qed

end
