(* ===== verification/Precompile_Limits.thy ===== *)
theory Precompile_Limits
  imports Precompile_Props
begin

text \<open>
  The precompiles at their edges: who may change a compliance status, what a static call does, what a
  hostile ERC-20 contract can do to \<open>registerErc20\<close>, and what becomes of the code that a nested
  deployment creates.
\<close>

section \<open>Statuses change by governance only\<close>

lemma ev_store_frame:
  assumes J: "journal_ok J jview" and ne: "(b, l) \<noteq> (a, k)"
  shows "keeps (\<lambda>s. jview (ev_journal s) b l) (mstore (storage_ref (evm_provider G J)) a k v)"
proof -
  have la: "keeps (\<lambda>j. jview j b l) (j_load_account J a)"
    using J unfolding journal_ok_def keeps_def by (metis snd_conv)
  have "jview j' = (jview j)(a := (jview j a)(k := v))" if "j_sstore J a k v j = (q, j')" for q j j'
    using J that unfolding journal_ok_def by (metis prod.inject)
  then have st: "keeps (\<lambda>j. jview j b l) (j_sstore J a k v)"
    using ne unfolding keeps_def by (metis (no_types, lifting) fun_upd_apply prod.collapse)
  have "keeps (\<lambda>s. jview (ev_journal s) b l) (ev_sstore G J a k v)"
    unfolding ev_sstore_def
    by (intro keep_intros keeps_modify keeps_ev_call [where jobs = "\<lambda>j. jview j b l"] la st
        keeps_ev_deduct [where jobs = "\<lambda>j. jview j b l"]; simp add: ev_refund_gas_def)
  then show ?thesis by (simp add: keeps_def mstore_def storage_ref_def evm_provider_def)
qed

text \<open>
  C14. Only governance changes a status: a call to the compliance precompile from any other sender,
  the compliance admin included, leaves the status of every account as it was, whatever the method,
  the input and the gas, provided the slot of the admin is not that of a status.
\<close>

theorem status_only_by_governance:
  assumes J: "journal_ok J jview" "journal_checkpoints_ok J jview jstack" and a: "a \<noteq> GOVERNANCE_ADDRESS"
    and ne: "slot_compliance H t \<noteq> slot_compliance_admin H"
    and r: "compliance_call H abi (evm_provider G J) cd a s = (r, s')"
  shows "compliance_status H (jview (ev_journal s')) t = compliance_status H (jview (ev_journal s)) t"
proof (cases r)
  case (Inl e)
  from atomicD [OF checkpointed.compliance_call_atomic [OF evm_checkpointed [OF J(2)]] r [unfolded Inl]]
  show ?thesis by simp
next
  case (Inr y)
  let ?P = "evm_provider G J" and ?B = "storage_ref (evm_provider G J)"
  let ?o = "\<lambda>s. jview (ev_journal s) COMPLIANCE_ADDRESS (slot_compliance H t)"
  note cp = evm_checkpointed [OF J(2), of G]
  have ld: "keeps ?o (mload ?B b k :: (_, compliance_error, _) smonad)" for b k
  proof -
    have "keeps (\<lambda>s. jview (ev_journal s)) (mload ?B b k :: (_, compliance_error, _) smonad)"
      by (rule checkpointed.ref_load_obs [OF cp])
    then show ?thesis by (simp add: keeps_def)
  qed
  have up: False if "sbind (require_caller a) (\<lambda>c. compliance_err (update_compliance H ?B p st c)) u = (Inr v, u')" for p st u v u'
    using that a by (auto simp: require_caller_def smonad_Inr compliance_err_def update_compliance_def split: if_splits)
  have sa: "keeps ?o (sbind (require_caller a) (\<lambda>c. compliance_err (set_admin H ?B n c)))" for n
    unfolding compliance_err_def set_admin_def read_admin_def Let_def using ne
    by (intro keep_intros ld ev_store_frame [OF J(1)]) simp
  consider "pc_update_compliance H abi ?P cd a s = (Inr y, s')" | "pc_check_compliance H abi ?P cd s = (Inr y, s')"
    | "pc_set_compliance_admin H abi ?P cd a s = (Inr y, s')"
    using r Inr by (auto simp: compliance_call_def Let_def split: if_splits)
  then have "?o s' = ?o s"
  proof cases
    case 1
    from mutate_success [OF this [unfolded pc_update_compliance_def mutate_void_mutate]] up show ?thesis
      by (auto simp: split_beta) 
  next
    case 2
    have "keeps (\<lambda>s. jview (ev_journal s)) (pc_check_compliance H abi ?P cd)"
      unfolding pc_check_compliance_def cs_check_compliance_def read_status_def
      by (intro checkpointed.view_obs [OF cp] keep_intros checkpointed.ref_load_obs [OF cp])
    from keepsD [OF this 2] show ?thesis by simp
  next
    case 3
    have k: "keeps (\<lambda>s. jstack (ev_journal s)) (sbind (require_caller a) (\<lambda>c. compliance_err (set_admin H ?B n c)))" for n
      unfolding compliance_err_def set_admin_def read_admin_def Let_def
      by (intro keep_intros checkpointed.ref_load_keeps [OF cp] checkpointed.ref_store_keeps [OF cp])
    from checkpointed.mutate_ok [OF cp k 3 [unfolded pc_set_compliance_admin_def mutate_void_mutate]]
    obtain c s1 v s2 where "jview (ev_journal s1) = jview (ev_journal s)" "jview (ev_journal s') = jview (ev_journal s2)"
      and h: "sbind (require_caller a) (\<lambda>cl. compliance_err (set_admin H ?B c cl)) s1 = (Inr v, s2)" by blast
    with keepsD [OF sa h] show ?thesis by simp
  qed
  then show ?thesis by (simp add: compliance_status_def)
qed

definition status_hash :: "bytes \<Rightarrow> u256" where
  "status_hash = table_hash [bstr (''admin''), to_be_bytes (2 :: address)]"

theorem status_only_by_governance_witness:
  "compliance_status status_hash (sj_store (ev_journal (snd (compliance_call status_hash sample_compliance_abi
     (evm_provider berlin snap_ops) [0, 0, 0, 1] 7 (sanctioned_state 100000))))) 2 = 1"
proof -
  have "length (bstr (''admin'')) \<noteq> length (to_be_bytes (2 :: address))" by simp
  then have "bstr (''admin'') \<noteq> to_be_bytes (2 :: address)" by metis
  then have ne: "slot_compliance status_hash 2 \<noteq> slot_compliance_admin status_hash"
    by (simp add: compliance_slots status_hash_def table_hash_def)
  show ?thesis
    using status_only_by_governance [OF snap_journal_ok snap_checkpoints_ok(1) _ ne prod.collapse [symmetric], of 7
        sample_compliance_abi berlin "[0, 0, 0, 1]" "sanctioned_state 100000"]
    by (simp add: GOVERNANCE_ADDRESS_def compliance_status_def sanctioned_state_def ev_new_def)
qed

section \<open>Static calls\<close>

text \<open>In a static call a store through \<^verbatim>\<open>StorageRef\<close> is counted and dropped.\<close>

lemma static_store:
  "ev_is_static s \<Longrightarrow> mstore (storage_ref (evm_provider G J)) a k v s = (Inr (), s\<lparr>ev_sstore_count := ev_sstore_count s + 1\<rparr>)"
  by (simp add: mstore_def storage_ref_def evm_provider_def ev_sstore_def sbind_run)

lemma static_write_base_meta:
  assumes "ev_is_static s" "length sy \<le> 32" "length nm \<le> 32"
  shows "write_base_meta H (storage_ref (evm_provider G J)) i sy nm d mx iss ra s = (Inr (), s\<lparr>ev_sstore_count := ev_sstore_count s + 9\<rparr>)"
  using assms by (simp add: write_base_meta_def store_meta_string_def store_meta_u256_def static_store sbind_run)

lemma static_register_run:
  assumes st: "ev_is_static s" and g: "2100 \<le> ev_gas_remaining s" and c: "sj_store (ev_journal s) ASSET_ADDRESS 0 = 0"
    and v: "length sy \<le> 32" "length nm \<le> 32" "d \<le> 18"
  shows "\<exists>n k. register H (storage_ref (evm_provider berlin snap_ops)) sy nm d mx iss ra s =
    (Inr 1, s\<lparr>ev_sload_count := n, ev_gas_remaining := ev_gas_remaining s - 2100, ev_sstore_count := k\<rparr>)"
proof -
  have ld: "(mload (storage_ref (evm_provider berlin snap_ops)) ASSET_ADDRESS 0 :: (_, asset_error, _) smonad) s =
      (Inr 0, s\<lparr>ev_sload_count := ev_sload_count s + 1, ev_gas_remaining := ev_gas_remaining s - 2100\<rparr>)"
    using g c by (simp add: mload_def storage_ref_def evm_provider_def ev_sload_def snap_ops_def sbind_run ev_call_run
        ev_deduct_gas_def checked_sub_def berlin_def)
  have al: "allocate_asset_id (storage_ref (evm_provider berlin snap_ops)) s = (Inr 1,
      s\<lparr>ev_sload_count := ev_sload_count s + 1, ev_gas_remaining := ev_gas_remaining s - 2100, ev_sstore_count := ev_sstore_count s + 1\<rparr>)"
    using st ld by (simp add: allocate_asset_id_def U64_MAX_def sbind_run static_store Let_def checked_add_def)
  show ?thesis
    using st al v by (auto simp: register_def sbind_run static_write_base_meta store_meta_u256_def static_store not_less)
qed

text \<open>
  A registration inside a static call reports success without registering: it returns the next
  identifier, stores nothing, and still writes its event to the log, which a static call must not.
\<close>

theorem static_register_logs_only:
  assumes d: "dec_register abi cd = Inr (sy, nm, d, mx)" "length sy \<le> 32" "length nm \<le> 32" "d \<le> 18" and a: "a \<noteq> 0"
    and st: "ev_is_static s" "60000 \<le> unat (ev_gas_remaining s)" "sj_store (ev_journal s) ASSET_ADDRESS 0 = 0"
  shows "\<exists>y s' ev. pc_register H abi (evm_provider berlin snap_ops) cd a s = (Inr y, s') \<and> out_bytes y = enc_id abi 1 \<and>
    sj_store (ev_journal s') = sj_store (ev_journal s) \<and> sj_logs (ev_journal s') = (ASSET_ADDRESS, ev) # sj_logs (ev_journal s)"
proof -
  let ?P = "evm_provider berlin snap_ops"
  let ?s1 = "s\<lparr>ev_sload_count := 0, ev_sstore_count := 0,
    ev_journal := (ev_journal s)\<lparr>sj_saved := (sj_store (ev_journal s), sj_logs (ev_journal s)) # sj_saved (ev_journal s)\<rparr>\<rparr>"
  have cp: "p_checkpoint ?P (p_reset_gas_counters ?P s) = ((0, 0), ?s1)"
    by (simp add: evm_provider_def ev_checkpoint_def snap_ops_def)
  have "2100 \<le> ev_gas_remaining s" using st(2) by (simp add: word_le_nat_alt)
  with st obtain n k where reg: "register H (storage_ref ?P) sy nm d mx a (ev_timestamp s) ?s1 = (Inr 1,
      ?s1\<lparr>ev_sload_count := n, ev_gas_remaining := ev_gas_remaining s - 2100, ev_sstore_count := k\<rparr>)"
    using static_register_run [of ?s1 sy nm d H mx a "ev_timestamp s"] d(2-4) by auto
  have g: "unat (ev_gas_remaining s - 2100) = unat (ev_gas_remaining s) - 2100"
    using st(2) by (simp add: unat_sub word_le_nat_alt)
  let ?e = "\<lparr>log_topics = [REGISTER_TOPIC H, 1, ucast a], log_bytes = to_be_bytes (write_string32 sy)\<rparr>"
  have eg: "event_gas berlin ?e = 1756"
    by (simp add: event_gas_def berlin_def)
  have emit: "emit_asset_event ?P (REGISTER_TOPIC H) [u64_to_u256 1, address_to_u256 a] (to_be_bytes (write_string32 sy))
      (?s1\<lparr>ev_sload_count := n, ev_gas_remaining := ev_gas_remaining s - 2100, ev_sstore_count := k\<rparr>) = (Inr (),
      ?s1\<lparr>ev_sload_count := n, ev_gas_remaining := ev_gas_remaining s - 2100 - 1756, ev_sstore_count := k,
        ev_journal := j_log snap_ops ASSET_ADDRESS ?e (ev_journal ?s1)\<rparr>)"
    using eg g st(2) by (simp add: emit_asset_event_def evm_provider_def ev_emit_event_def sbind_run ev_deduct_gas_def
        checked_sub_def word_le_nat_alt)
  have "unat (ev_gas_remaining s - 2100 - 1756) = unat (ev_gas_remaining s) - 2100 - 1756"
    using g st(2) by (simp add: unat_sub word_le_nat_alt)
  then have "50000 \<le> ev_gas_remaining s - 2100 - 1756"
    using st(2) by (simp add: word_le_nat_alt)
  then have ch: "p_charge_gas ?P 50000 (?s1\<lparr>ev_sload_count := n, ev_gas_remaining := ev_gas_remaining s - 2100 - 1756, ev_sstore_count := k,
        ev_journal := j_log snap_ops ASSET_ADDRESS ?e (ev_journal ?s1)\<rparr>) = (Inr (), ?s1\<lparr>ev_sload_count := n,
        ev_gas_remaining := ev_gas_remaining s - 2100 - 1756 - 50000, ev_sstore_count := k, ev_journal := j_log snap_ops ASSET_ADDRESS ?e (ev_journal ?s1)\<rparr>)"
    by (simp add: evm_provider_def ev_deduct_gas_def checked_sub_def)
  have ts: "p_timestamp ?P = ev_timestamp" by (simp add: evm_provider_def)
  have cm: "ev_journal (p_checkpoint_commit ?P c u) = (ev_journal u)\<lparr>sj_saved := tl (sj_saved (ev_journal u))\<rparr>" for c u
    by (simp add: evm_provider_def snap_ops_def)
  have lg: "j_log snap_ops b e j = j\<lparr>sj_logs := (b, e) # sj_logs j\<rparr>" for b e j
    by (simp add: snap_ops_def)
  from cp reg emit ch d a show ?thesis
    by (simp add: pc_register_def mutate_def decode_call_def with_checkpoint_def require_caller_def sbind_run asset_err_def
        smap_err_def Let_def encode_return_def fill_precompile_output_def new_precompile_output_def not_less ts cm lg del: conv_ucast)
qed

theorem static_register_logs_only_witness:
  "\<exists>y s' ev. pc_register sample_hash sample_abi (evm_provider berlin snap_ops) [0, 0, 0, 10] 1 (sample_state 60000 True) = (Inr y, s') \<and>
     sj_store (ev_journal s') = empty_storage \<and> sj_logs (ev_journal s') = [(ASSET_ADDRESS, ev)]"
proof -
  have "\<exists>y s' ev. pc_register sample_hash sample_abi (evm_provider berlin snap_ops) [0, 0, 0, 10] 1 (sample_state 60000 True) = (Inr y, s') \<and>
      out_bytes y = enc_id sample_abi 1 \<and> sj_store (ev_journal s') = sj_store (ev_journal (sample_state 60000 True)) \<and>
      sj_logs (ev_journal s') = (ASSET_ADDRESS, ev) # sj_logs (ev_journal (sample_state 60000 True))"
    by (rule static_register_logs_only)
       (auto simp: sample_abi_def sample_state_def ev_new_def snap_empty_def empty_storage_def word_le_nat_alt)
  then show ?thesis by (auto simp: sample_state_def ev_new_def snap_empty_def)
qed

section \<open>ERC-20 contracts\<close>

text \<open>
  A contract that answers \<^verbatim>\<open>name()\<close> with a string brings it to the registry unchanged: the ABI
  encoding of any UTF-8 string, with any padding, decodes to that string, for every length that
  addresses of the machine can count.
\<close>

theorem abi_string_round_trip:
  assumes "utf8_valid s" "length s + pad + 64 < 2 ^ 64"
  shows "decode_abi_string (abi_string s pad) = Returned (Inr s)"
  using decode_abi_string_round_trip [OF assms] .

theorem abi_string_round_trip_witness: "decode_abi_string (abi_string [67] 31) = Returned (Inr [67])"
  using abi_string_round_trip [OF ascii_C, of 31] by simp

lemma register_erc20_unwinds:
  assumes "dec_registerErc20 abi cd = Inr contract" "a \<noteq> 0" "p_checkpoint P (p_reset_gas_counters P s) = (cp, s0)"
    and "p_code_get P contract s0 = (Inr code, s1)" "code \<noteq> []"
    and "X 0 contract SELECTOR_NAME NESTED_CALL_GAS_LIMIT (p_block_number P s1) (p_timestamp P s1) s1 = (Inr (Success data g, st), s2)"
    and "p_charge_gas P g s2 = (Inr u, s3)" "64 \<le> length data" "2 ^ 64 \<le> unat (from_be_bytes (take 32 data) :: u256)"
  shows "fst (pc_register_erc20 H X abi P cd a s) = Inl Unwind"
proof -
  have "decode_abi_string data = Panicked"
    using assms(8,9) by (simp add: decode_abi_string_def to_usize_def)
  moreover have "data \<noteq> []" using assms(8) by auto
  ultimately have "sbind (execute_static_call X P contract SELECTOR_NAME) answer_string s1 = (Inl Unwind, s3)"
    using assms(6,7) by (simp add: execute_static_call_def sbind_run answer_string_def exec_gas.simps)
  then have "try_evm_call_metadata X P contract s1 = (Inl Unwind, s3)"
    by (simp add: try_evm_call_metadata_def)
  with assms(4,5) have "read_erc20_metadata H X P contract s0 = (Inl Unwind, s3)"
    by (simp add: read_erc20_metadata_def)
  with assms(1-3) show ?thesis
    by (simp add: pc_register_erc20_def mutate_def decode_call_def with_checkpoint_def require_caller_def smap_err_def sbind_run)
qed

text \<open>
  C40. A hostile contract unwinds the node: take a call of \<^verbatim>\<open>CallPrecompiles::run\<close> to the asset precompile with the
  selector of \<open>registerErc20\<close> for a contract that has code. When the contract's answer to \<^verbatim>\<open>name()\<close>, paid for, is
  at least two words long and its first word, the offset of the string, does not fit the machine's addresses,
  the precompile panics instead of returning an error, and the run panics with it.
\<close>

theorem hostile_erc20_unwinds:
  assumes "cps_custom c (ci_bytecode_address i) = Some (asset_call H X abi P)" "P = evm_provider G J"
    and "cd = input_bytes cx (ci_input i)" "4 \<le> length cd" "take 4 cd = sel_registerErc20 abi"
    and "sel_registerErc20 abi \<notin> {sel_getBalance abi, sel_getTotalSupply abi, sel_getAssetInfo abi, sel_transfer abi,
      sel_batchTransfer abi, sel_approve abi, sel_transferFrom abi, sel_mint abi, sel_burn abi, sel_register abi}"
    and "dec_registerErc20 abi cd = Inr contract" "ci_caller i \<noteq> 0"
    and "s = ev_new (cx_journal cx) (ci_gas_limit i) (ci_is_static i) (cx_chain_id cx) (cx_timestamp cx)
        (ucast (cx_number cx)) (cx_beneficiary cx)" "p_checkpoint P (p_reset_gas_counters P s) = (cp, s0)"
    and "p_code_get P contract s0 = (Inr code, s1)" "code \<noteq> []"
    and "X 0 contract SELECTOR_NAME NESTED_CALL_GAS_LIMIT (p_block_number P s1) (p_timestamp P s1) s1 = (Inr (Success data g, st), s2)"
    and "p_charge_gas P g s2 = (Inr u, s3)" "64 \<le> length data" "2 ^ 64 \<le> unat (from_be_bytes (take 32 data) :: u256)"
  shows "fst (asset_call H X abi P cd (ci_caller i) s) = Inl Unwind \<and> fst (cps_run M fmt c i cx) = Panicked"
proof -
  have "asset_call H X abi P cd (ci_caller i) = pc_register_erc20 H X abi P cd (ci_caller i)"
    using assms(4-6) by (simp add: asset_call_def Let_def)
  then have "fst (asset_call H X abi P cd (ci_caller i) s) = Inl Unwind"
    using register_erc20_unwinds [where X = X, OF assms(7,8,10-16)] by simp
  moreover from this obtain s' where "asset_call H X abi P cd (ci_caller i) s = (Inl Unwind, s')"
    by (metis prod.collapse)
  ultimately show ?thesis using assms(1,3,9) by (simp add: cps_run_def Let_def finish_def)
qed

definition hostile_evm :: "'s nested_evm" where
  "hostile_evm c k d g b t = sret (Success (1 # replicate 63 0) 21000, [])"

definition hostile_precompiles :: "(snap_journal, unit) call_precompiles" where
  "hostile_precompiles = with_custom ASSET_ADDRESS (asset_call sample_hash hostile_evm sample_abi (evm_provider berlin snap_ops))
     (cps_new (\<lambda>_ _. None) ())"

definition hostile_inputs :: call_inputs where
  "hostile_inputs = transfer_inputs\<lparr>ci_input := CallBytes [0, 0, 0, 11]\<rparr>"

theorem hostile_erc20_unwinds_witness:
  "fst (cps_run word_meter (\<lambda>_. '''') hostile_precompiles hostile_inputs issued_context) = Panicked"
proof -
  have n: "2 ^ 64 \<le> unat (from_be_bytes (take 32 (1 # replicate 63 (0 :: u8))) :: u256)"
    by (simp add: from_be_bytes_def be_nat_Cons unat_of_nat)
  let ?P = "evm_provider berlin snap_ops"
  let ?start = "ev_new (cx_journal issued_context) (ci_gas_limit hostile_inputs) (ci_is_static hostile_inputs) (cx_chain_id issued_context)
    (cx_timestamp issued_context) (ucast (cx_number issued_context)) (cx_beneficiary issued_context)"
  let ?saved = "snd (p_checkpoint ?P (p_reset_gas_counters ?P ?start))"
  note d = hostile_inputs_def transfer_inputs_def issued_context_def ev_new_def evm_provider_def ev_checkpoint_def snap_ops_def snap_empty_def
  obtain s1 where c: "p_code_get ?P 3 ?saved = (Inr [1], s1)" "ev_gas_remaining s1 = 999900"
    by (simp add: d ev_code_get_def sbind_run ev_call_run ev_deduct_gas_def checked_sub_def CODE_ACCESS_GAS_def berlin_def)
  obtain s3 where g: "p_charge_gas ?P 21000 s1 = (Inr (), s3)"
    using c(2) by (simp add: evm_provider_def ev_deduct_gas_def checked_sub_def)
  have x: "hostile_evm k a e f b t s1 = (Inr (Success (1 # replicate 63 0) 21000, []), s1)" for k a e f b t
    by (simp add: hostile_evm_def)
  have "fst (asset_call sample_hash hostile_evm sample_abi ?P [0, 0, 0, 11] (ci_caller hostile_inputs) ?start) = Inl Unwind \<and>
    fst (cps_run word_meter (\<lambda>_. '''') hostile_precompiles hostile_inputs issued_context) = Panicked"
    by (rule hostile_erc20_unwinds [where X = hostile_evm and cx = issued_context and i = hostile_inputs and cp = "(0, 0)",
          OF _ refl _ _ _ _ _ _ refl _ c(1) _ x g _ n])
       (simp_all add: hostile_precompiles_def with_custom_def cps_new_def input_bytes_def sample_abi_def d)
  then show ?thesis ..
qed

section \<open>Nested deployments\<close>

text \<open>
  The order in which a run neither installs nor removes code, nor opens a checkpoint that would.
\<close>

definition codes_settled :: "hm \<Rightarrow> bool" where
  "codes_settled s \<longleftrightarrow> (\<forall>sn \<in> set (hm_checkpoints s). sn_codes sn = hm_codes s)"

definition hm_code_order :: "hm \<Rightarrow> hm \<Rightarrow> bool" where
  "hm_code_order s s' \<longleftrightarrow> codes_settled s \<longrightarrow> hm_codes s' = hm_codes s \<and> codes_settled s'"

lemma hm_code_deduct: "moves hm_code_order (hm_deduct_gas x)"
  by (auto simp: moves_def hm_code_order_def codes_settled_def hm_deduct_gas_def split: option.splits)

lemma hm_code_modify:
  "(\<And>s. hm_codes (f s) = hm_codes s \<and> hm_checkpoints (f s) = hm_checkpoints s) \<Longrightarrow> moves hm_code_order (smodify f)"
  by (simp add: moves_def hm_code_order_def codes_settled_def)

lemma hm_code_preorder: "reflp hm_code_order" "transp hm_code_order"
  by (auto simp: hm_code_order_def intro!: reflpI transpI)

interpretation hmc: provider_order "hashmap_provider G" hm_code_order for G
proof
  show "moves hm_code_order (p_sload (hashmap_provider G) a k)" "moves hm_code_order (p_sstore (hashmap_provider G) a k v)"
    "moves hm_code_order (p_emit_event (hashmap_provider G) a e)" "moves hm_code_order (p_charge_gas (hashmap_provider G) g)"
    "moves hm_code_order (p_balance_add (hashmap_provider G) a n)" "moves hm_code_order (p_balance_sub (hashmap_provider G) a n)"
    "moves hm_code_order (p_balance_get (hashmap_provider G) a)" "moves hm_code_order (p_code_get (hashmap_provider G) a)"
    "moves hm_code_order (p_raw_sstore (hashmap_provider G) a k v)" for a k v e g n
    unfolding hashmap_provider_def provider.simps hm_sload_def hm_sstore_def hm_emit_event_def hm_balance_add_def
      hm_balance_sub_def hm_balance_get_def hm_code_get_def
    by (intro moves_intros hm_code_preorder hm_code_deduct hm_code_modify;
        simp add: hm_refund_gas_def hm_set_def hm_warm_slot_def)+
  show "hm_code_order s (p_checkpoint_commit (hashmap_provider G) c s)" for s c
    by (auto simp: hashmap_provider_def hm_checkpoint_commit_def hm_code_order_def codes_settled_def dest: in_set_tl)
  show "hm_code_order s (p_checkpoint_revert (hashmap_provider G) c s)" for s c
    by (auto simp: hashmap_provider_def hm_checkpoint_revert_def hm_code_order_def codes_settled_def split: list.splits)
qed (simp_all add: hm_code_preorder,
     simp_all add: hashmap_provider_def hm_checkpoint_def hm_snap_def hm_code_order_def codes_settled_def)

text \<open>
  No asset call installs code: \<open>createWrapper\<close> returns the address of a token contract that the
  factory deployed in the nested EVM, but of the nested changes only storage and balances are applied,
  so after the call the code at every address, the wrapper's included, is what it was before.
\<close>

theorem asset_call_installs_no_code:
  assumes "\<And>c k d g b t. moves hm_code_order (X c k d g b t)" "hm_checkpoints s = []"
    and "asset_call H X abi (hashmap_provider G) cd a s = (r, s')"
  shows "hm_get_code s' w = hm_get_code s w"
  using movesD [OF hmc.asset_call_moves [OF assms(1)] assms(3)] assms(2)
  by (simp add: hm_code_order_def codes_settled_def hm_get_code_def)

text \<open>A factory that answers with an address, and the call of the issuer that asks for the wrapper.\<close>

definition factory_evm :: "'s nested_evm" where
  "factory_evm c k d g b t = sret (Success (replicate 31 0 @ [9]) 50000,
     [\<lparr>ac_address = 9, ac_touched = True, ac_storage = [(0, 0, 1)], ac_old_balance = 0, ac_new_balance = 0\<rparr>])"

theorem asset_call_installs_no_code_witness:
  "hm_get_code (snd (asset_call sample_hash factory_evm sample_abi (hashmap_provider berlin) [0, 0, 0, 12] 1 (hm_new 1000000))) 9 = []"
proof -
  have "moves hm_code_order (factory_evm c k d g b t)" for c k d g b t
    unfolding factory_evm_def by (rule moves_pure(1) [OF hm_code_preorder(1)])
  from asset_call_installs_no_code [OF this _ prod.collapse [symmetric], of "hm_new 1000000"] show ?thesis
    by (simp add: hm_new_def hm_with_block_def hm_get_code_def)
qed

end
