(* ===== verification/Asset_Parties.thy ===== *)
theory Asset_Parties
  imports Precompile_Props
begin

text \<open>
  Whose balances a call to the asset precompile changes. Each method is shown to leave every balance alone but
  those of the accounts its arguments name, so that an account whose balance did change is one of them, and was
  checked.
\<close>

section \<open>One balance under the operations of the ledger\<close>

text \<open>The hash has no second preimage for a key: no other key of the asset contract has its slot.\<close>

definition own_slot :: "(bytes \<Rightarrow> u256) \<Rightarrow> asset_key \<Rightarrow> bool" where
  "own_slot H k \<longleftrightarrow> asset_slot H k \<noteq> 0 \<and> (\<forall>l \<in> asset_keys UNIV UNIV. asset_slot H l = asset_slot H k \<longrightarrow> l = k)"

lemma own_slot_meta: "own_slot H (Bal_Key i p) \<Longrightarrow> s \<in> set meta_names \<Longrightarrow> slot_asset_meta H j (bstr s) \<noteq> asset_slot H (Bal_Key i p)"
  by (auto simp: own_slot_def asset_slots)

lemma own_slot_balance: "own_slot H (Bal_Key i p) \<Longrightarrow> slot_balance H j a = asset_slot H (Bal_Key i p) \<longleftrightarrow> j = i \<and> a = p"
  by (auto simp: own_slot_def asset_slots)

lemma own_slot_other:
  "own_slot H (Bal_Key i p) \<Longrightarrow> slot_allowance H j a b \<noteq> asset_slot H (Bal_Key i p)"
  "own_slot H (Bal_Key i p) \<Longrightarrow> erc20_binding_slot H a \<noteq> asset_slot H (Bal_Key i p)"
  "own_slot H (Bal_Key i p) \<Longrightarrow> 0 \<noteq> asset_slot H (Bal_Key i p)"
  by (auto simp: own_slot_def asset_slots)

text \<open>A backend on which an observation survives every load, and every store outside one slot of the asset contract.\<close>

locale slot_frame =
  fixes B :: "'b backend" and obs :: "'b \<Rightarrow> 'o" and H :: "bytes \<Rightarrow> u256" and i :: u64 and p :: address
  assumes own: "own_slot H (Bal_Key i p)"
    and load: "keeps obs (mload B a k :: ('b, asset_error, u256) smonad)"
    and store: "k \<noteq> asset_slot H (Bal_Key i p) \<Longrightarrow> keeps obs (mstore B ASSET_ADDRESS k v :: ('b, asset_error, unit) smonad)"
begin

lemmas reads = asset_reads_keep [OF load]

lemma write_balance_frame: "j \<noteq> i \<or> a \<noteq> p \<Longrightarrow> keeps obs (write_balance H B j a v)"
  unfolding write_balance_def by (rule store) (use own own_slot_balance in blast)

lemma write_allowance_frame: "keeps obs (write_allowance H B j a b v)"
  unfolding write_allowance_def by (rule store) (rule own_slot_other [OF own])

lemma store_meta_frame: "s \<in> set meta_names \<Longrightarrow> keeps obs (store_meta_u256 H B j (bstr s) w)"
  "s \<in> set meta_names \<Longrightarrow> keeps obs (store_meta_string H B j (bstr s) x)"
  unfolding store_meta_u256_def store_meta_string_def by (intro keep_intros store own_slot_meta [OF own]; simp)+

lemma small_reads: "keeps obs (read_allowance H B j a b)" "keeps obs (load_meta_u128 H B j s)"
  unfolding read_allowance_def load_meta_u128_def load_meta_u256_def by (intro keep_intros load)+

lemma transfer_frame: "p \<noteq> f \<Longrightarrow> p \<noteq> t \<Longrightarrow> keeps obs (transfer H B j f t x)"
  unfolding transfer_def deduct_balance_def by (intro keep_intros reads write_balance_frame) simp_all

lemma batch_frame: "p \<noteq> f \<Longrightarrow> p \<notin> fst ` set rs \<Longrightarrow> keeps obs (batch_transfer H B j f rs)"
  unfolding batch_transfer_def by (induction rs) (auto intro!: keep_intros transfer_frame)

lemma approve_frame: "keeps obs (approve H B j a b x)"
  unfolding approve_def by (intro keep_intros reads write_allowance_frame)

lemma transfer_from_frame: "p \<noteq> f \<Longrightarrow> p \<noteq> t \<Longrightarrow> keeps obs (transfer_from H B j sp f t x)"
  unfolding transfer_from_def by (intro keep_intros small_reads transfer_frame write_allowance_frame)

lemma mint_frame: "p \<noteq> t \<Longrightarrow> keeps obs (mint H B j c t x)"
  unfolding mint_def add_balance_def by (intro keep_intros reads write_balance_frame store_meta_frame) (simp_all add: meta_names_def)

lemma burn_frame: "p \<noteq> f \<Longrightarrow> keeps obs (burn H B j c f x)"
  unfolding burn_def deduct_balance_def
  by (intro keep_intros reads small_reads write_balance_frame write_allowance_frame store_meta_frame) (simp_all add: meta_names_def)

lemma register_frame: "keeps obs (register H B sy nm d mx iss ra)" "keeps obs (register_erc20 H B e sy nm d mx iss ra)"
  unfolding register_def register_erc20_def allocate_asset_id_def write_base_meta_def set_evm_contract_asset_id_def Let_def
  by (intro keep_intros reads load store store_meta_frame own_slot_other [OF own]; simp add: meta_names_def)+

end

section \<open>One balance under the production provider\<close>

text \<open>The balance of \<open>p\<close> in asset \<open>i\<close>, in the storage behind the journal.\<close>

abbreviation held :: "(bytes \<Rightarrow> u256) \<Rightarrow> ('j \<Rightarrow> evm_storage) \<Rightarrow> u64 \<Rightarrow> address \<Rightarrow> 'j evm \<Rightarrow> u256" where
  "held H jview i p s \<equiv> aload H (jview (ev_journal s)) (Bal_Key i p)"

lemma journal_keeps:
  assumes J: "journal_ok J jview"
  shows "keeps jview (j_load_account J a)" "keeps jview (j_sload J a k)"
    "b \<noteq> a \<or> l \<noteq> k \<Longrightarrow> keeps (\<lambda>j. jview j b l) (j_sstore J a k v)"
  using J unfolding journal_ok_def keeps_def by (metis snd_conv fun_upd_apply)+

lemma keeps_weaker: "keeps obs m \<Longrightarrow> keeps (\<lambda>s. f (obs s)) m"
  by (simp add: keeps_def)

lemma held_ops:
  assumes J: "journal_ok J jview"
  shows "keeps (held H jview i p) (ev_sload G J a k)"
    "b \<noteq> ASSET_ADDRESS \<or> k \<noteq> asset_slot H (Bal_Key i p) \<Longrightarrow> keeps (held H jview i p) (ev_sstore G J b k v)"
    "keeps (held H jview i p) (ev_emit_event G J a e)" "keeps (held H jview i p) (ev_code_get G J a)"
    "keeps (held H jview i p) (ev_deduct_gas g)"
proof -
  note k = journal_keeps(1,2) [OF J, THEN keeps_weaker [where f = "\<lambda>m. m ASSET_ADDRESS (asset_slot H (Bal_Key i p))"]]
  have l: "jview (j_log J a e j) = jview j" for a e j using J by (simp add: journal_ok_def)
  show "keeps (held H jview i p) (ev_sload G J a k)" "keeps (held H jview i p) (ev_emit_event G J a e)"
    "keeps (held H jview i p) (ev_code_get G J a)" "keeps (held H jview i p) (ev_deduct_gas g)"
    unfolding ev_sload_def ev_emit_event_def ev_code_get_def
    by (intro keep_intros keeps_modify k(1,2); simp add: l)+
  assume "b \<noteq> ASSET_ADDRESS \<or> k \<noteq> asset_slot H (Bal_Key i p)"
  then show "keeps (held H jview i p) (ev_sstore G J b k v)"
    unfolding ev_sstore_def
    by (intro keep_intros keeps_modify k(1) journal_keeps(3) [OF J]) (auto simp: ev_refund_gas_def)
qed

lemma evm_slot_frame:
  assumes "journal_ok J jview" "own_slot H (Bal_Key i p)"
  shows "slot_frame (storage_ref (evm_provider G J)) (held H jview i p) H i p"
proof
  have k: "keeps (held H jview i p) (mload (storage_ref (evm_provider G J)) a k :: (_, asset_error, _) smonad)" for a k
    using held_ops(1) [OF assms(1), of H i p G a k]
    by (auto simp: keeps_def mload_def storage_ref_def evm_provider_def split: prod.split sum.split) (metis snd_conv)+
  show "keeps (held H jview i p) (mload (storage_ref (evm_provider G J)) a k :: (_, asset_error, _) smonad)" for a k by (rule k)
  show "keeps (held H jview i p) (mstore (storage_ref (evm_provider G J)) ASSET_ADDRESS k v :: (_, asset_error, _) smonad)"
    if "k \<noteq> asset_slot H (Bal_Key i p)" for k v
    using held_ops(2) [OF assms(1), of ASSET_ADDRESS k H i p G v] that
    by (simp add: keeps_def mstore_def storage_ref_def evm_provider_def)
qed (rule assms(2))

lemma require_caller_bind:
  "sbind (require_caller a) f = (if a = 0 then sfail (Other ''caller not available'') else f a)"
  by (simp add: require_caller_def fun_eq_iff sbind_run)

lemma decode_call_bind:
  "sbind (decode_call dec cd) f = (case dec cd of Inl e \<Rightarrow> sfail (Other (''decode error: '' @ e)) | Inr c \<Rightarrow> f c)"
  by (simp add: decode_call_def fun_eq_iff sbind_run split: sum.split)

section \<open>One balance under the methods of the precompile\<close>

locale balance_frame = checkpointed P obs stack + slot_frame "storage_ref P" "\<lambda>s. bal (obs s)" H i p
  for P :: "'s provider" and obs :: "'s \<Rightarrow> 'o" and stack and bal :: "'o \<Rightarrow> u256" and H i p +
  assumes emit: "keeps (\<lambda>s. bal (obs s)) (p_emit_event P a e)"
    and code: "keeps (\<lambda>s. bal (obs s)) (p_code_get P a)"
begin

lemma observed: "keeps obs m \<Longrightarrow> keeps (\<lambda>s. bal (obs s)) m"
  by (rule keeps_weaker)

lemma helper_frames:
  "keeps (\<lambda>s. bal (obs s)) (emit_asset_event P tp ts d)" "keeps (\<lambda>s. bal (obs s)) (require_compliance H abi P a)"
  "keeps (\<lambda>s. bal (obs s)) (p_charge_gas P g)"
  unfolding emit_asset_event_def by (rule emit, rule observed, rule keeps_require_compliance, rule sload_obs, rule observed, rule charge_obs)

lemma mutate_frame:
  assumes "\<And>c. keeps stack (h c)" "mutate P dec enc cd gas h s = (Inr y, s')"
    and "\<And>c. dec cd = Inr c \<Longrightarrow> keeps (\<lambda>s. bal (obs s)) (h c)"
  shows "bal (obs s') = bal (obs s)"
proof -
  obtain c s1 v s2 where "dec cd = Inr c" "obs s1 = obs s" "h c s1 = (Inr v, s2)" "obs s' = obs s2"
    using mutate_ok [OF assms(1,2)] by blast
  then show ?thesis using keepsD [OF assms(3), of c s1 "Inr v" s2] by simp
qed

lemma mutate_void_frame:
  assumes "mutate_void P dec cd gas h s = (Inr y, s')" "\<And>c. keeps stack (h c)"
    and "\<And>c. dec cd = Inr c \<Longrightarrow> keeps (\<lambda>s. bal (obs s)) (h c)"
  shows "bal (obs s') = bal (obs s)"
  using mutate_frame [OF assms(2) assms(1) [unfolded mutate_void_mutate]] assms(3) by blast

lemma transfer_touches:
  assumes "pc_transfer H abi P cd a s = (Inr y, s')" "\<And>k t x. dec_transfer abi cd = Inr (k, t, x) \<Longrightarrow> p \<noteq> a \<and> p \<noteq> t"
  shows "bal (obs s') = bal (obs s)"
  by (rule mutate_void_frame [OF assms(1) [unfolded pc_transfer_def require_caller_bind]])
     (auto intro!: keep_intros asset_keeps helper_frames reads transfer_frame dest: assms(2))

lemma transfer_from_touches:
  assumes "pc_transfer_from H abi P cd a s = (Inr y, s')"
    and "\<And>k f t x. dec_transferFrom abi cd = Inr (k, f, t, x) \<Longrightarrow> p \<noteq> f \<and> p \<noteq> t"
  shows "bal (obs s') = bal (obs s)"
  by (rule mutate_void_frame [OF assms(1) [unfolded pc_transfer_from_def require_caller_bind]])
     (auto intro!: keep_intros asset_keeps helper_frames reads transfer_from_frame dest: assms(2))

lemma mint_touches:
  assumes "pc_mint H abi P cd a s = (Inr y, s')" "\<And>k t x. dec_mint abi cd = Inr (k, t, x) \<Longrightarrow> p \<noteq> t"
  shows "bal (obs s') = bal (obs s)"
  by (rule mutate_void_frame [OF assms(1) [unfolded pc_mint_def require_caller_bind]])
     (auto intro!: keep_intros asset_keeps helper_frames reads mint_frame dest: assms(2))

lemma burn_touches:
  assumes "pc_burn H abi P cd a s = (Inr y, s')" "\<And>k f x. dec_burn abi cd = Inr (k, f, x) \<Longrightarrow> p \<noteq> f"
  shows "bal (obs s') = bal (obs s)"
  by (rule mutate_void_frame [OF assms(1) [unfolded pc_burn_def require_caller_bind]])
     (auto intro!: keep_intros asset_keeps helper_frames reads burn_frame dest: assms(2))

lemma approve_touches: "pc_approve H abi P cd a s = (Inr y, s') \<Longrightarrow> bal (obs s') = bal (obs s)"
  unfolding pc_approve_def require_caller_bind
  by (erule mutate_void_frame) (auto intro!: keep_intros asset_keeps helper_frames approve_frame)

lemma register_touches: "pc_register H abi P cd a s = (Inr y, s') \<Longrightarrow> bal (obs s') = bal (obs s)"
  unfolding pc_register_def require_caller_bind
  by (erule mutate_frame [rotated]) (auto intro!: keep_intros asset_keeps helper_frames register_frame)

lemma read_chunks_frame: "keeps obs (read_chunks P contract slot n)"
proof (induction n arbitrary: slot rule: less_induct)
  case (less n)
  show ?case
    by (subst read_chunks.simps, unfold Let_def, cases "n = 0")
       (use less in \<open>auto intro!: keep_intros sload_obs\<close>)
qed

lemma read_erc20_metadata_frame:
  assumes "\<And>c k d g b t. keeps obs (X c k d g b t)"
  shows "keeps (\<lambda>s. bal (obs s)) (read_erc20_metadata H X P contract)"
  unfolding read_erc20_metadata_def try_evm_call_metadata_def try_storage_slot_metadata_def execute_static_call_def
    read_layout_def read_solidity_uint8_def read_solidity_string_def Let_def
  by (intro keep_intros code observed assms charge_obs sload_obs read_chunks_frame)

lemma register_erc20_touches:
  assumes "\<And>c k d g b t. keeps stack (X c k d g b t)" "\<And>c k d g b t. keeps obs (X c k d g b t)"
    and "pc_register_erc20 H X abi P cd a s = (Inr y, s')"
  shows "bal (obs s') = bal (obs s)"
  by (rule mutate_frame [OF _ assms(3) [unfolded pc_register_erc20_def require_caller_bind]])
     (auto intro!: keep_intros asset_keeps helper_frames reads register_frame read_erc20_metadata_frame assms(1,2))

lemma run_checkpointed_frame:
  assumes "keeps stack body" "keeps (\<lambda>s. bal (obs s)) body"
  shows "keeps (\<lambda>s. bal (obs s)) (run_checkpointed P body)"
proof (rule keepsI)
  fix s
  obtain c s1 where c: "p_checkpoint P s = (c, s1)" by (cases "p_checkpoint P s")
  obtain r s2 where r: "body s1 = (r, s2)" by (cases "body s1")
  have "stack s2 = (c, obs s) # stack s" "bal (obs s2) = bal (obs s)"
    using checkpoint_law [OF c] keepsD [OF assms(1), OF r] keepsD [OF assms(2), OF r] by simp_all
  with c r show "bal (obs (snd (run_checkpointed P body s))) = bal (obs s)"
    using revert_law [of s2 c "obs s" "stack s"] commit_law [of c s2] by (cases r) (simp_all add: run_checkpointed_def)
qed

lemma batch_touches:
  assumes "\<And>k ts xs. dec_batchTransfer abi cd = Inr (k, ts, xs) \<Longrightarrow> p \<noteq> a \<and> p \<notin> set ts"
  shows "keeps (\<lambda>s. bal (obs s)) (pc_batch_transfer H abi P cd a)"
proof (cases "dec_batchTransfer abi cd")
  case (Inr c)
  obtain k ts xs where c: "c = (k, ts, xs)" by (cases c)
  have "p \<noteq> a" "p \<notin> fst ` set (zip ts xs)" using assms Inr c by (auto dest: set_zip_leftD)
  then show ?thesis
    unfolding pc_batch_transfer_def require_caller_bind decode_call_bind Inr c Let_def ok_empty_def
    by (auto intro!: keep_intros asset_keeps helper_frames reads batch_frame run_checkpointed_frame)
qed (auto simp: pc_batch_transfer_def decode_call_bind intro!: keep_intros)

lemma asset_call_touches:
  assumes "\<And>c k d g b t. keeps stack (X c k d g b t)" "\<And>c k d g b t. keeps obs (X c k d g b t)"
    and "asset_call H X abi P cd a s = (Inr y, s')" "take 4 cd \<noteq> sel_createWrapper abi" "p \<notin> moved_parties abi cd a"
  shows "bal (obs s') = bal (obs s)"
proof -
  let ?same = "bal (obs s') = bal (obs s)"
  have v: ?same if "m s = (Inr y, s')" "keeps (\<lambda>s. bal (obs s)) m" for m :: "('s, precompile_error, precompile_output) smonad"
    using keepsD [OF that(2), OF that(1)] .
  note views = v [OF _ observed [OF asset_views_obs(1)]] v [OF _ observed [OF asset_views_obs(2)]]
    v [OF _ observed [OF asset_views_obs(3)]]
  have e: "pc_register_erc20 H X abi P cd a s = (Inr y, s') \<Longrightarrow> ?same"
    by (erule register_erc20_touches [rotated 2]) (rule assms(1,2))+
  have b: ?same if "pc_batch_transfer H abi P cd a s = (Inr y, s')"
      "p \<notin> (case dec_batchTransfer abi cd of Inl _ \<Rightarrow> {} | Inr (_, ts, _) \<Rightarrow> insert a (set ts))"
    by (rule v [OF that(1) batch_touches]) (use that(2) in auto)
  have t: ?same if "pc_transfer H abi P cd a s = (Inr y, s')" "p \<notin> (case dec_transfer abi cd of Inl _ \<Rightarrow> {} | Inr (_, t, _) \<Rightarrow> {a, t})"
    by (rule transfer_touches [OF that(1)]) (use that(2) in auto)
  have f: ?same if "pc_transfer_from H abi P cd a s = (Inr y, s')"
      "p \<notin> (case dec_transferFrom abi cd of Inl _ \<Rightarrow> {} | Inr (_, f, t, _) \<Rightarrow> {a, f, t})"
    by (rule transfer_from_touches [OF that(1)]) (use that(2) in auto)
  have m: ?same if "pc_mint H abi P cd a s = (Inr y, s')" "p \<notin> (case dec_mint abi cd of Inl _ \<Rightarrow> {} | Inr (_, t, _) \<Rightarrow> {a, t})"
    by (rule mint_touches [OF that(1)]) (use that(2) in auto)
  have u: ?same if "pc_burn H abi P cd a s = (Inr y, s')" "p \<notin> (case dec_burn abi cd of Inl _ \<Rightarrow> {} | Inr (_, f, _) \<Rightarrow> {a, f})"
    by (rule burn_touches [OF that(1)]) (use that(2) in auto)
  from assms(3-5) show ?thesis
    by (simp add: asset_call_def moved_parties_def Let_def views e b t f m u
        approve_touches [of abi cd a s y s'] register_touches [of abi cd a s y s'] split: if_splits)
qed

end

section \<open>The production provider\<close>

lemma evm_balance_frame:
  assumes J: "journal_ok J jview" "journal_checkpoints_ok J jview jstack" and own: "own_slot H (Bal_Key i p)"
  shows "balance_frame (evm_provider G J) (\<lambda>s. jview (ev_journal s)) (\<lambda>s. jstack (ev_journal s))
    (\<lambda>m. aload H m (Bal_Key i p)) H i p"
  by (intro balance_frame.intro evm_checkpointed [OF J(2)] evm_slot_frame [OF J(1) own] balance_frame_axioms.intro)
     (use held_ops(3,4) [OF J(1)] in \<open>simp_all add: evm_provider_def\<close>)

text \<open>A hash that singles out one key of the asset contract.\<close>

definition spot_hash :: "asset_key \<Rightarrow> bytes \<Rightarrow> u256" where
  "spot_hash k b = (if b = asset_key_bytes k then 7 else 9)"

lemma spot_own: "k \<in> asset_keys UNIV UNIV \<Longrightarrow> own_slot (spot_hash k) k"
  using asset_key_bytes_inj [of UNIV UNIV] by (auto simp: own_slot_def asset_slot_def spot_hash_def inj_on_def split: if_splits)

lemma spot_own_balance: "own_slot (spot_hash (Bal_Key 1 2)) (Bal_Key 1 2)"
  by (rule spot_own) simp

interpretation pf: slot_frame pure_backend "\<lambda>m. aload (spot_hash (Bal_Key 1 2)) m (Bal_Key 1 2)" "spot_hash (Bal_Key 1 2)" 1 2
  by unfold_locales (auto simp: spot_own_balance keeps_def sput_apply)

interpretation spot: balance_frame "evm_provider berlin snap_ops" "\<lambda>s. sj_store (ev_journal s)"
    "\<lambda>s. map (\<lambda>p. ((0, 0), fst p)) (sj_saved (ev_journal s))"
    "\<lambda>m. aload (spot_hash (Bal_Key 1 2)) m (Bal_Key 1 2)" "spot_hash (Bal_Key 1 2)" 1 2
  by (rule evm_balance_frame [OF snap_journal_ok snap_checkpoints_ok(1) spot_own_balance])

lemma moved_parties_compliant:
  assumes "journal_ok J jview" "journal_checkpoints_ok J jview jstack"
    and "asset_call H X abi (evm_provider berlin J) cd a s = (Inr y, s')"
  shows "\<forall>p \<in> moved_parties abi cd a. compliance_status H (jview (ev_journal s)) p = 0"
proof -
  note parties = transfer_parties transfer_from_parties mint_parties burn_parties batch_parties
  from assms(3) show ?thesis
    using parties [OF assms(1,2), of H abi cd a s y s']
    by (auto simp: asset_call_def moved_parties_def Let_def split: if_splits)
qed

lemma moved_by_caller: "moved_parties abi cd a = {} \<or> a \<in> moved_parties abi cd a"
proof -
  define Q where "Q S \<longleftrightarrow> S = {} \<or> a \<in> S" for S
  have i: "Q S \<Longrightarrow> Q T \<Longrightarrow> Q (if b then S else T)" for b S T by simp
  have e: "Q {}" by (simp add: Q_def)
  have c: "(\<And>c. a \<in> g c) \<Longrightarrow> Q (case d of Inl e \<Rightarrow> {} | Inr c \<Rightarrow> g c)" for d :: "string + 'c" and g
    by (cases d) (simp_all add: Q_def)
  have "Q (moved_parties abi cd a)"
    unfolding moved_parties_def Let_def by (intro i e c) (auto simp: split_beta)
  then show ?thesis by (simp add: Q_def)
qed

section \<open>Property\<close>

text \<open>
  C13. No sanctioned account takes part in moving an asset: on the production provider, when a call to
  the asset precompile other than \<^verbatim>\<open>createWrapper\<close> succeeds and the balance of some account in some asset is
  not what it was, then that account and the caller both had compliance status 0 in the storage the call
  started from. The account is any address and the balance is read in the storage behind the journal; the
  slot of that balance is only assumed not to be the slot of another key of the ledger, and the nested EVM
  to work on a copy of the state, as it does. A status read that runs out of gas counts as 0, so this rests
  on the gas that must still be there afterwards. (\<^verbatim>\<open>createWrapper\<close> replays the state of a nested deployment
  and is left out; \<^verbatim>\<open>approve\<close>, \<^verbatim>\<open>register\<close> and \<^verbatim>\<open>registerErc20\<close> check nobody and change no balance.)
\<close>

theorem asset_parties_compliant:
  assumes J: "journal_ok J jview" "journal_checkpoints_ok J jview jstack" and own: "own_slot H (Bal_Key i p)"
    and X: "\<And>c k d g b t. keeps (\<lambda>s. jstack (ev_journal s)) (X c k d g b t)"
      "\<And>c k d g b t. keeps (\<lambda>s. jview (ev_journal s)) (X c k d g b t)"
    and run: "asset_call H X abi (evm_provider berlin J) cd a s = (Inr y, s')" "take 4 cd \<noteq> sel_createWrapper abi"
    and moved: "held H jview i p s' \<noteq> held H jview i p s"
  shows "compliance_status H (jview (ev_journal s)) p = 0 \<and> compliance_status H (jview (ev_journal s)) a = 0"
proof -
  have "p \<in> moved_parties abi cd a"
    using balance_frame.asset_call_touches [OF evm_balance_frame [OF J own], OF X run] moved by blast
  with moved_parties_compliant [OF J run(1)] moved_by_caller show ?thesis by blast
qed

lemma spot_transfer_run:
  "\<exists>y s'. asset_call (spot_hash (Bal_Key 1 2)) idle_evm sample_abi (evm_provider berlin snap_ops) [0, 0, 0, 4] 1
      (issued_state 1000000 False) = (Inr y, s') \<and> held (spot_hash (Bal_Key 1 2)) sj_store 1 2 s' = 72"
proof -
  let ?H = "spot_hash (Bal_Key 1 2)"
  obtain meta where m: "meta_of ?H issued_storage 1 = Inr meta" using issued_meta by blast
  obtain m' where "transfer ?H pure_backend 1 1 2 5 issued_storage = (Inr (), m') \<and> aload ?H m' (Bal_Key 1 2) = 72"
    by (simp add: transfer_pure Let_def issued_storage_def sput_apply)
  with m have "\<exists>y s'. pc_transfer ?H sample_abi (evm_provider berlin snap_ops) [0, 0, 0, 4] 1 (issued_state 1000000 False) = (Inr y, s')
      \<and> sj_store (ev_journal s') = m' \<and> out_bytes y = [] \<and> \<not> out_reverted y"
    by (intro transfer_call_run [OF snap_journal_ok snap_checkpoints_ok(1) _ _ issued_budget])
       (auto simp: sample_abi_def issued_state_def ev_new_def issued_compliant)
  with \<open>_ \<and> aload ?H m' (Bal_Key 1 2) = 72\<close> show ?thesis
    by (auto simp: asset_call_def sample_abi_def Let_def)
qed

theorem asset_parties_compliant_witness:
  "compliance_status (spot_hash (Bal_Key 1 2)) (sj_store (ev_journal (issued_state 1000000 False))) 2 = 0 \<and>
   compliance_status (spot_hash (Bal_Key 1 2)) (sj_store (ev_journal (issued_state 1000000 False))) 1 = 0"
proof -
  obtain y s' where r: "asset_call (spot_hash (Bal_Key 1 2)) idle_evm sample_abi (evm_provider berlin snap_ops) [0, 0, 0, 4] 1
      (issued_state 1000000 False) = (Inr y, s')" "held (spot_hash (Bal_Key 1 2)) sj_store 1 2 s' = 72"
    using spot_transfer_run by blast
  show ?thesis
    by (rule asset_parties_compliant [OF snap_journal_ok snap_checkpoints_ok(1) spot_own_balance _ _ r(1)])
       (simp_all add: idle_evm_def keeps_def sfail_def sample_abi_def r(2) issued_state_def ev_new_def issued_storage_def)
qed

end
