(* ===== verification/Validator.thy ===== *)
theory Validator
  imports Asset_Laws Dispatch
begin

text \<open>
  Validator staking: \<^verbatim>\<open>crates/validator/src/lib.rs\<close> (\<^verbatim>\<open>ValidatorStorage\<close> over any backend, with the asset
  ledger on the same backend) and \<^verbatim>\<open>crates/validator/src/precompile.rs\<close> (the precompile at 0x204).
  Readers of the storage carry the prefix \<open>vs_\<close>; the unbonding queue is an array of packed words that
  is searched from the front and shortened by moving its last word into the gap.
\<close>

section \<open>Errors and constants\<close>

datatype validator_error =
    V_InsufficientBalance | V_BalanceOverflow | EscrowOverflow | EscrowUnderflow | BelowMinimumStake
  | AlreadyStaked | NotAValidator | IdMismatch | AlreadyUnbonding | NotUnbonding
  | UnbondingPeriodNotElapsed | NoUnbondingRequest | BelowSafetyFloor | InvalidPubkey | ValidatorCountOverflow

fun validator_error_text :: "validator_error \<Rightarrow> string" where
  "validator_error_text V_InsufficientBalance = ''insufficient balance''"
| "validator_error_text V_BalanceOverflow = ''balance overflow''"
| "validator_error_text EscrowOverflow = ''escrow overflow''"
| "validator_error_text EscrowUnderflow = ''escrow underflow''"
| "validator_error_text BelowMinimumStake = ''below minimum self-stake''"
| "validator_error_text AlreadyStaked = ''already staked''"
| "validator_error_text NotAValidator = ''not a validator''"
| "validator_error_text IdMismatch = ''validator id mismatch''"
| "validator_error_text AlreadyUnbonding = ''already unbonding''"
| "validator_error_text NotUnbonding = ''not unbonding''"
| "validator_error_text UnbondingPeriodNotElapsed = ''unbonding period not elapsed''"
| "validator_error_text NoUnbondingRequest = ''no unbonding request found''"
| "validator_error_text BelowSafetyFloor = ''below safety floor''"
| "validator_error_text InvalidPubkey = ''invalid pubkey''"
| "validator_error_text ValidatorCountOverflow = ''validator count overflow''"

definition MIN_SELF_STAKE :: u128 where "MIN_SELF_STAKE = 1000000"

definition UNBONDING_PERIOD_BLOCKS :: u64 where "UNBONDING_PERIOD_BLOCKS = 120960"

definition STAKING_ESCROW :: address where "STAKING_ESCROW = 0xACE"

section \<open>Storage slots\<close>

definition slot_validator_count :: u256 where "slot_validator_count = 0"

definition slot_validator_addr :: "(bytes \<Rightarrow> u256) \<Rightarrow> u64 \<Rightarrow> u256" where
  "slot_validator_addr H index = storage_slot H [bstr ''validators''] + ucast index"

definition slot_validator_stake :: "(bytes \<Rightarrow> u256) \<Rightarrow> address \<Rightarrow> u256" where
  "slot_validator_stake H addr = storage_slot H [to_be_bytes addr, bstr ''stake'']"

definition slot_validator_pubkey :: "(bytes \<Rightarrow> u256) \<Rightarrow> address \<Rightarrow> u256" where
  "slot_validator_pubkey H addr = storage_slot H [to_be_bytes addr, bstr ''pubkey'']"

definition slot_validator_status :: "(bytes \<Rightarrow> u256) \<Rightarrow> address \<Rightarrow> u256" where
  "slot_validator_status H addr = storage_slot H [to_be_bytes addr, bstr ''status'']"

definition slot_validator_unbond_height :: "(bytes \<Rightarrow> u256) \<Rightarrow> address \<Rightarrow> u256" where
  "slot_validator_unbond_height H addr = storage_slot H [to_be_bytes addr, bstr ''unbond_at'']"

definition slot_unbonding_count :: u256 where "slot_unbonding_count = 1"

definition slot_unbonding :: "(bytes \<Rightarrow> u256) \<Rightarrow> u64 \<Rightarrow> u256" where
  "slot_unbonding H index = storage_slot H [bstr ''unbonding''] + ucast index"

definition slot_active_validator_count :: u256 where "slot_active_validator_count = 2"

definition slot_safety_floor :: u256 where "slot_safety_floor = 3"

definition slot_unbonding_period_blocks :: u256 where "slot_unbonding_period_blocks = 4"

section \<open>Read operations\<close>

definition vs_validator_count :: "'b backend \<Rightarrow> ('b, 'e, u64) smonad" where
  "vs_validator_count B = sbind (mload B VALIDATOR_ADDRESS slot_validator_count) (\<lambda>v. sret (u256_to_u64 v))"

definition vs_validator_id :: "(bytes \<Rightarrow> u256) \<Rightarrow> 'b backend \<Rightarrow> address \<Rightarrow> ('b, 'e, u64) smonad" where
  "vs_validator_id H B addr = sbind (mload B VALIDATOR_ADDRESS (slot_validator_by_addr H addr)) (\<lambda>v. sret (u256_to_u64 v))"

definition vs_validator_by_index :: "(bytes \<Rightarrow> u256) \<Rightarrow> 'b backend \<Rightarrow> u64 \<Rightarrow> ('b, 'e, address) smonad" where
  "vs_validator_by_index H B index = sbind (mload B VALIDATOR_ADDRESS (slot_validator_addr H index)) (\<lambda>v. sret (u256_to_address v))"

definition vs_stake :: "(bytes \<Rightarrow> u256) \<Rightarrow> 'b backend \<Rightarrow> address \<Rightarrow> ('b, 'e, u128) smonad" where
  "vs_stake H B addr = sbind (mload B VALIDATOR_ADDRESS (slot_validator_stake H addr)) (\<lambda>v. sret (u256_to_u128 v))"

definition vs_status :: "(bytes \<Rightarrow> u256) \<Rightarrow> 'b backend \<Rightarrow> address \<Rightarrow> ('b, 'e, u8) smonad" where
  "vs_status H B addr = sbind (mload B VALIDATOR_ADDRESS (slot_validator_status H addr)) (\<lambda>v. sret (to_be_bytes v ! 31))"

definition vs_pubkey :: "(bytes \<Rightarrow> u256) \<Rightarrow> 'b backend \<Rightarrow> address \<Rightarrow> ('b, 'e, bytes) smonad" where
  "vs_pubkey H B addr = sbind (mload B VALIDATOR_ADDRESS (slot_validator_pubkey H addr)) (\<lambda>v. sret (to_be_bytes v))"

definition vs_unbond_height :: "(bytes \<Rightarrow> u256) \<Rightarrow> 'b backend \<Rightarrow> address \<Rightarrow> ('b, 'e, u64) smonad" where
  "vs_unbond_height H B addr = sbind (mload B VALIDATOR_ADDRESS (slot_validator_unbond_height H addr)) (\<lambda>v. sret (u256_to_u64 v))"

definition vs_unbonding_count :: "'b backend \<Rightarrow> ('b, 'e, u64) smonad" where
  "vs_unbonding_count B = sbind (mload B VALIDATOR_ADDRESS slot_unbonding_count) (\<lambda>v. sret (u256_to_u64 v))"

definition vs_active_validator_count :: "'b backend \<Rightarrow> ('b, 'e, u64) smonad" where
  "vs_active_validator_count B = sbind (mload B VALIDATOR_ADDRESS slot_active_validator_count) (\<lambda>v. sret (u256_to_u64 v))"

definition vs_safety_floor :: "'b backend \<Rightarrow> ('b, 'e, u64) smonad" where
  "vs_safety_floor B = sbind (mload B VALIDATOR_ADDRESS slot_safety_floor) (\<lambda>v. sret (u256_to_u64 v))"

definition vs_unbonding_period_blocks :: "'b backend \<Rightarrow> ('b, 'e, u64) smonad" where
  "vs_unbonding_period_blocks B =
     sbind (mload B VALIDATOR_ADDRESS slot_unbonding_period_blocks) (\<lambda>v.
     let raw = u256_to_u64 v in sret (if raw = 0 then 120960 else raw))"

section \<open>Write operations\<close>

definition stake :: "(bytes \<Rightarrow> u256) \<Rightarrow> 'b backend \<Rightarrow> bytes \<Rightarrow> u128 \<Rightarrow> address \<Rightarrow> ('b, validator_error, unit) smonad" where
  "stake H B pubkey amount caller =
     sbind (sguard (amount < MIN_SELF_STAKE) BelowMinimumStake) (\<lambda>_.
     sbind (sguard (pubkey = replicate 32 0) InvalidPubkey) (\<lambda>_.
     sbind (vs_validator_id H B caller) (\<lambda>existing_id.
     sbind (sguard (existing_id \<noteq> 0) AlreadyStaked) (\<lambda>_.
     sbind (smap_err (\<lambda>_. V_InsufficientBalance) (deduct_balance H B CALL_ASSET_ID caller amount)) (\<lambda>_.
     sbind (smap_err (\<lambda>_. EscrowOverflow) (add_balance H B CALL_ASSET_ID STAKING_ESCROW amount)) (\<lambda>_.
     sbind (vs_validator_count B) (\<lambda>count.
     sbind (sok_or ValidatorCountOverflow (checked_add count 1)) (\<lambda>validator_id.
     sbind (mstore B VALIDATOR_ADDRESS slot_validator_count (u64_to_u256 validator_id)) (\<lambda>_.
     sbind (mstore B VALIDATOR_ADDRESS (slot_validator_by_addr H caller) (u64_to_u256 validator_id)) (\<lambda>_.
     sbind (mstore B VALIDATOR_ADDRESS (slot_validator_addr H validator_id) (address_to_u256 caller)) (\<lambda>_.
     sbind (mstore B VALIDATOR_ADDRESS (slot_validator_stake H caller) (u128_to_u256 amount)) (\<lambda>_.
     sbind (mstore B VALIDATOR_ADDRESS (slot_validator_pubkey H caller) (from_be_bytes pubkey)) (\<lambda>_.
     sbind (mstore B VALIDATOR_ADDRESS (slot_validator_status H caller) 1) (\<lambda>_.
     sbind (vs_active_validator_count B) (\<lambda>active.
     sbind (sok_or ValidatorCountOverflow (checked_add active 1)) (\<lambda>new_active.
     mstore B VALIDATOR_ADDRESS slot_active_validator_count (u64_to_u256 new_active)))))))))))))))))"

text \<open>A queue entry: eight zero bytes, the identifier, the stake.\<close>

definition pack_entry :: "u64 \<Rightarrow> u128 \<Rightarrow> u256" where
  "pack_entry stored_id amount = from_be_bytes (replicate 8 0 @ to_be_bytes stored_id @ to_be_bytes amount)"

definition entry_id :: "u256 \<Rightarrow> u64" where
  "entry_id packed = from_be_bytes (take 8 (drop 8 (to_be_bytes packed)))"

definition entry_amount :: "u256 \<Rightarrow> u128" where
  "entry_amount packed = from_be_bytes (take 16 (drop 16 (to_be_bytes packed)))"

definition unstake :: "(bytes \<Rightarrow> u256) \<Rightarrow> 'b backend \<Rightarrow> u64 \<Rightarrow> address \<Rightarrow> u64 \<Rightarrow> ('b, validator_error, unit) smonad" where
  "unstake H B validator_id caller current_block =
     sbind (vs_validator_id H B caller) (\<lambda>stored_id.
     sbind (sguard (stored_id = 0) NotAValidator) (\<lambda>_.
     sbind (sguard (stored_id \<noteq> validator_id) IdMismatch) (\<lambda>_.
     sbind (vs_status H B caller) (\<lambda>status.
     sbind (sguard (status \<noteq> 1) AlreadyUnbonding) (\<lambda>_.
     sbind (vs_active_validator_count B) (\<lambda>active_count.
     sbind (vs_safety_floor B) (\<lambda>safety_floor.
     sbind (sguard (0 < active_count \<and> active_count - 1 < safety_floor) BelowSafetyFloor) (\<lambda>_.
     sbind (vs_stake H B caller) (\<lambda>stk.
     sbind (mstore B VALIDATOR_ADDRESS slot_active_validator_count (u64_to_u256 (saturating_sub active_count 1))) (\<lambda>_.
     sbind (mstore B VALIDATOR_ADDRESS (slot_validator_status H caller) 2) (\<lambda>_.
     sbind (mstore B VALIDATOR_ADDRESS (slot_validator_unbond_height H caller) (u64_to_u256 current_block)) (\<lambda>_.
     sbind (vs_unbonding_count B) (\<lambda>unbonding_count.
     sbind (mstore B VALIDATOR_ADDRESS (slot_unbonding H unbonding_count) (pack_entry stored_id stk)) (\<lambda>_.
     sbind (sok_or ValidatorCountOverflow (checked_add unbonding_count 1)) (\<lambda>new_unbonding_count.
     mstore B VALIDATOR_ADDRESS slot_unbonding_count (u64_to_u256 new_unbonding_count))))))))))))))))"

text \<open>The search of the queue: \<open>n\<close> entries from index \<open>i\<close> on.\<close>

fun find_unbonding :: "(bytes \<Rightarrow> u256) \<Rightarrow> 'b backend \<Rightarrow> u64 \<Rightarrow> u64 \<Rightarrow> nat \<Rightarrow> ('b, 'e, (u64 \<times> u128) option) smonad" where
  "find_unbonding H B validator_id i 0 = sret None"
| "find_unbonding H B validator_id i (Suc n) =
     sbind (mload B VALIDATOR_ADDRESS (slot_unbonding H i)) (\<lambda>packed.
     if entry_id packed = validator_id then sret (Some (i, entry_amount packed))
     else find_unbonding H B validator_id (i + 1) n)"

definition remove_from_unbonding_queue :: "(bytes \<Rightarrow> u256) \<Rightarrow> 'b backend \<Rightarrow> u64 \<Rightarrow> ('b, validator_error, u128) smonad" where
  "remove_from_unbonding_queue H B validator_id =
     sbind (vs_unbonding_count B) (\<lambda>unbonding_count.
     sbind (find_unbonding H B validator_id 0 (unat unbonding_count)) (\<lambda>found.
     sbind (sok_or NoUnbondingRequest found) (\<lambda>(found_idx, amount).
     sbind (if 1 < unbonding_count \<and> found_idx \<noteq> unbonding_count - 1
            then sbind (mload B VALIDATOR_ADDRESS (slot_unbonding H (unbonding_count - 1))) (\<lambda>last.
                 mstore B VALIDATOR_ADDRESS (slot_unbonding H found_idx) last)
            else sret ()) (\<lambda>_.
     sbind (mstore B VALIDATOR_ADDRESS (slot_unbonding H (unbonding_count - 1)) 0) (\<lambda>_.
     sbind (mstore B VALIDATOR_ADDRESS slot_unbonding_count (u64_to_u256 (unbonding_count - 1))) (\<lambda>_.
     sret amount))))))"

definition clear_validator_state :: "(bytes \<Rightarrow> u256) \<Rightarrow> 'b backend \<Rightarrow> address \<Rightarrow> u64 \<Rightarrow> ('b, 'e, unit) smonad" where
  "clear_validator_state H B addr validator_id =
     sbind (mstore B VALIDATOR_ADDRESS (slot_validator_by_addr H addr) 0) (\<lambda>_.
     sbind (mstore B VALIDATOR_ADDRESS (slot_validator_stake H addr) 0) (\<lambda>_.
     sbind (mstore B VALIDATOR_ADDRESS (slot_validator_status H addr) 0) (\<lambda>_.
     sbind (mstore B VALIDATOR_ADDRESS (slot_validator_pubkey H addr) 0) (\<lambda>_.
     sbind (mstore B VALIDATOR_ADDRESS (slot_validator_unbond_height H addr) 0) (\<lambda>_.
     mstore B VALIDATOR_ADDRESS (slot_validator_addr H validator_id) 0)))))"

definition claim_unbonded :: "(bytes \<Rightarrow> u256) \<Rightarrow> 'b backend \<Rightarrow> u64 \<Rightarrow> address \<Rightarrow> u64 \<Rightarrow> ('b, validator_error, u128) smonad" where
  "claim_unbonded H B validator_id caller current_block =
     sbind (vs_validator_id H B caller) (\<lambda>stored_id.
     sbind (sguard (stored_id = 0) NotAValidator) (\<lambda>_.
     sbind (sguard (stored_id \<noteq> validator_id) IdMismatch) (\<lambda>_.
     sbind (vs_status H B caller) (\<lambda>status.
     sbind (sguard (status \<noteq> 2) NotUnbonding) (\<lambda>_.
     sbind (vs_unbond_height H B caller) (\<lambda>unbond_height.
     sbind (vs_unbonding_period_blocks B) (\<lambda>unbonding_period.
     sbind (sok_or UnbondingPeriodNotElapsed (checked_add unbond_height unbonding_period)) (\<lambda>unlock_block.
     sbind (sguard (current_block < unlock_block) UnbondingPeriodNotElapsed) (\<lambda>_.
     sbind (remove_from_unbonding_queue H B stored_id) (\<lambda>amount.
     sbind (smap_err (\<lambda>_. EscrowUnderflow) (deduct_balance H B CALL_ASSET_ID STAKING_ESCROW amount)) (\<lambda>_.
     sbind (smap_err (\<lambda>_. V_BalanceOverflow) (add_balance H B CALL_ASSET_ID caller amount)) (\<lambda>_.
     sbind (clear_validator_state H B caller stored_id) (\<lambda>_.
     sret amount)))))))))))))"

definition slash_stake :: "(bytes \<Rightarrow> u256) \<Rightarrow> 'b backend \<Rightarrow> address \<Rightarrow> ('b, validator_error, u128) smonad" where
  "slash_stake H B validator =
     sbind (vs_validator_id H B validator) (\<lambda>validator_id.
     if validator_id = 0 then sret 0
     else
       sbind (vs_stake H B validator) (\<lambda>stk.
       sbind (if 0 < stk then smap_err (\<lambda>_. EscrowUnderflow) (deduct_balance H B CALL_ASSET_ID STAKING_ESCROW stk)
              else sret ()) (\<lambda>_.
       sbind (vs_status H B validator) (\<lambda>status.
       sbind (if status = 2 then sbind (remove_from_unbonding_queue H B validator_id) (\<lambda>_. sret ()) else sret ()) (\<lambda>_.
       sbind (clear_validator_state H B validator validator_id) (\<lambda>_.
       sbind (if status = 1
              then sbind (vs_active_validator_count B) (\<lambda>active.
                   mstore B VALIDATOR_ADDRESS slot_active_validator_count (u64_to_u256 (saturating_sub active 1)))
              else sret ()) (\<lambda>_.
       sret stk)))))))"

section \<open>The precompile\<close>

record validator_abi =
  sel_stake :: bytes
  sel_unstake :: bytes
  sel_claimUnbonded :: bytes
  sel_getValidatorStake :: bytes
  sel_getValidatorStatus :: bytes
  sel_getValidatorPubkey :: bytes
  sel_getUnbondHeight :: bytes
  sel_getValidatorByIndex :: bytes
  sel_getValidatorCount :: bytes
  sel_getActiveValidatorCount :: bytes
  dec_stake :: "bytes \<Rightarrow> string + bytes \<times> u128"
  dec_unstake :: "bytes \<Rightarrow> string + u64"
  dec_claimUnbonded :: "bytes \<Rightarrow> string + u64"
  dec_address :: "bytes \<Rightarrow> string + address"
  dec_index :: "bytes \<Rightarrow> string + u64"
  dec_nothing :: "bytes \<Rightarrow> string + unit"
  enc_stake :: "u128 \<Rightarrow> bytes"
  enc_status :: "u256 \<Rightarrow> bytes"
  enc_pubkey :: "bytes \<Rightarrow> bytes"
  enc_height :: "u64 \<Rightarrow> bytes"
  enc_validator :: "address \<Rightarrow> bytes"
  enc_count :: "u256 \<Rightarrow> bytes"

definition validator_err :: "('s, validator_error, 'a) smonad \<Rightarrow> ('s, precompile_error, 'a) smonad" where
  "validator_err m = smap_err (\<lambda>e. Other (validator_error_text e)) m"

text \<open>\<^verbatim>\<open>let _ = storage.emit_event(...)\<close>: the error of an event that is not paid for is dropped.\<close>

definition emit_validator_event :: "'s provider \<Rightarrow> u256 \<Rightarrow> address \<Rightarrow> u256 list \<Rightarrow> ('s, precompile_error, unit) smonad" where
  "emit_validator_event P topic0 caller words =
     signore (p_emit_event P VALIDATOR_ADDRESS
       \<lparr>log_topics = [topic0, address_to_u256 caller], log_bytes = concat (map to_be_bytes words)\<rparr>)"

definition pc_stake :: "(bytes \<Rightarrow> u256) \<Rightarrow> validator_abi \<Rightarrow> 's provider \<Rightarrow> bytes \<Rightarrow> address \<Rightarrow>
    ('s, precompile_error, precompile_output) smonad" where
  "pc_stake H abi P calldata msg_sender =
     mutate_void P (dec_stake abi) calldata 20000 (\<lambda>(pubkey, amount).
       sbind (require_caller msg_sender) (\<lambda>caller.
       sbind (check_compliance H P caller) (\<lambda>_.
       sbind (validator_err (stake H (storage_ref P) pubkey amount caller)) (\<lambda>_.
       sbind (vs_validator_id H (storage_ref P) caller) (\<lambda>validator_id.
       emit_validator_event P (H (bstr ''Staked(address,uint64,bytes32,uint128)'')) caller
         [u64_to_u256 validator_id, from_be_bytes pubkey, u128_to_u256 amount])))))"

definition pc_unstake :: "(bytes \<Rightarrow> u256) \<Rightarrow> validator_abi \<Rightarrow> 's provider \<Rightarrow> bytes \<Rightarrow> address \<Rightarrow>
    ('s, precompile_error, precompile_output) smonad" where
  "pc_unstake H abi P calldata msg_sender =
     mutate_void P (dec_unstake abi) calldata 20000 (\<lambda>validatorId.
       sbind (require_caller msg_sender) (\<lambda>caller.
       sbind (vs_stake H (storage_ref P) caller) (\<lambda>stk.
       sbind (sget (p_block_number P)) (\<lambda>block_number.
       sbind (validator_err (unstake H (storage_ref P) validatorId caller block_number)) (\<lambda>_.
       emit_validator_event P (H (bstr ''Unstaked(address,uint64,uint128,uint64)'')) caller
         [u64_to_u256 validatorId, u128_to_u256 stk, u64_to_u256 block_number])))))"

definition pc_claim_unbonded :: "(bytes \<Rightarrow> u256) \<Rightarrow> validator_abi \<Rightarrow> 's provider \<Rightarrow> bytes \<Rightarrow> address \<Rightarrow>
    ('s, precompile_error, precompile_output) smonad" where
  "pc_claim_unbonded H abi P calldata msg_sender =
     mutate_void P (dec_claimUnbonded abi) calldata 15000 (\<lambda>validatorId.
       sbind (require_caller msg_sender) (\<lambda>caller.
       sbind (check_compliance H P caller) (\<lambda>_.
       sbind (sget (p_block_number P)) (\<lambda>block_number.
       sbind (validator_err (claim_unbonded H (storage_ref P) validatorId caller block_number)) (\<lambda>amount.
       emit_validator_event P (H (bstr ''Claimed(address,uint64,uint128)'')) caller
         [u64_to_u256 validatorId, u128_to_u256 amount])))))"

definition pc_get_validator_stake :: "(bytes \<Rightarrow> u256) \<Rightarrow> validator_abi \<Rightarrow> 's provider \<Rightarrow> bytes \<Rightarrow>
    ('s, precompile_error, precompile_output) smonad" where
  "pc_get_validator_stake H abi P calldata =
     view P (dec_address abi) (enc_stake abi) calldata 1000 (\<lambda>validator. vs_stake H (storage_ref P) validator)"

definition pc_get_validator_status :: "(bytes \<Rightarrow> u256) \<Rightarrow> validator_abi \<Rightarrow> 's provider \<Rightarrow> bytes \<Rightarrow>
    ('s, precompile_error, precompile_output) smonad" where
  "pc_get_validator_status H abi P calldata =
     view P (dec_address abi) (enc_status abi) calldata 1000 (\<lambda>validator.
       sbind (vs_status H (storage_ref P) validator) (\<lambda>v. sret (ucast v)))"

definition pc_get_validator_pubkey :: "(bytes \<Rightarrow> u256) \<Rightarrow> validator_abi \<Rightarrow> 's provider \<Rightarrow> bytes \<Rightarrow>
    ('s, precompile_error, precompile_output) smonad" where
  "pc_get_validator_pubkey H abi P calldata =
     view P (dec_address abi) (enc_pubkey abi) calldata 1000 (\<lambda>validator. vs_pubkey H (storage_ref P) validator)"

definition pc_get_unbond_height :: "(bytes \<Rightarrow> u256) \<Rightarrow> validator_abi \<Rightarrow> 's provider \<Rightarrow> bytes \<Rightarrow>
    ('s, precompile_error, precompile_output) smonad" where
  "pc_get_unbond_height H abi P calldata =
     view P (dec_address abi) (enc_height abi) calldata 1000 (\<lambda>validator. vs_unbond_height H (storage_ref P) validator)"

definition pc_get_validator_by_index :: "(bytes \<Rightarrow> u256) \<Rightarrow> validator_abi \<Rightarrow> 's provider \<Rightarrow> bytes \<Rightarrow>
    ('s, precompile_error, precompile_output) smonad" where
  "pc_get_validator_by_index H abi P calldata =
     view P (dec_index abi) (enc_validator abi) calldata 1000 (\<lambda>index.
       sbind (vs_validator_count (storage_ref P)) (\<lambda>count.
       sbind (sguard (index = 0 \<or> count < index) (Other ''validator: index out of range'')) (\<lambda>_.
       vs_validator_by_index H (storage_ref P) index)))"

definition pc_get_validator_count :: "validator_abi \<Rightarrow> 's provider \<Rightarrow> bytes \<Rightarrow>
    ('s, precompile_error, precompile_output) smonad" where
  "pc_get_validator_count abi P calldata =
     view P (dec_nothing abi) (enc_count abi) calldata 500 (\<lambda>_.
       sbind (vs_validator_count (storage_ref P)) (\<lambda>v. sret (u64_to_u256 v)))"

definition pc_get_active_validator_count :: "validator_abi \<Rightarrow> 's provider \<Rightarrow> bytes \<Rightarrow>
    ('s, precompile_error, precompile_output) smonad" where
  "pc_get_active_validator_count abi P calldata =
     view P (dec_nothing abi) (enc_count abi) calldata 500 (\<lambda>_.
       sbind (vs_active_validator_count (storage_ref P)) (\<lambda>v. sret (u64_to_u256 v)))"

definition validator_call :: "(bytes \<Rightarrow> u256) \<Rightarrow> validator_abi \<Rightarrow> 's provider \<Rightarrow> bytes \<Rightarrow> address \<Rightarrow>
    ('s, precompile_error, precompile_output) smonad" where
  "validator_call H abi P calldata msg_sender =
     (if length calldata < 4 then sfail (Other ''invalid input'')
      else let selector = take 4 calldata in
        if selector = sel_stake abi then pc_stake H abi P calldata msg_sender
        else if selector = sel_unstake abi then pc_unstake H abi P calldata msg_sender
        else if selector = sel_claimUnbonded abi then pc_claim_unbonded H abi P calldata msg_sender
        else if selector = sel_getValidatorStake abi then pc_get_validator_stake H abi P calldata
        else if selector = sel_getValidatorStatus abi then pc_get_validator_status H abi P calldata
        else if selector = sel_getValidatorPubkey abi then pc_get_validator_pubkey H abi P calldata
        else if selector = sel_getUnbondHeight abi then pc_get_unbond_height H abi P calldata
        else if selector = sel_getValidatorByIndex abi then pc_get_validator_by_index H abi P calldata
        else if selector = sel_getValidatorCount abi then pc_get_validator_count abi P calldata
        else if selector = sel_getActiveValidatorCount abi then pc_get_active_validator_count abi P calldata
        else sfail (Other ''unknown selector''))"

end
