(* ===== verification/Genesis.thy ===== *)
theory Genesis
  imports Validator "HOL-Library.AList"
begin

text \<open>
  The state container of the node and the genesis flow: \<^verbatim>\<open>crates/evm/src/state.rs\<close>, the account accessors of
  \<^verbatim>\<open>InMemoryStateProvider\<close> (\<^verbatim>\<open>crates/evm/src/provider.rs\<close>), \<^verbatim>\<open>ProtocolStateBackend\<close>
  (\<^verbatim>\<open>crates/evm/src/backend.rs\<close>), the seeding helpers of \<^verbatim>\<open>crates/consensus/src/exec/state_accessors.rs\<close> and
  \<^verbatim>\<open>GenesisExecutor\<close> (\<^verbatim>\<open>crates/chainspec/src/genesis.rs\<close>). A hash map is an association list without duplicate
  keys, its order standing for the iteration order. Hex decoding and the run of a transaction are parameters.
\<close>

section \<open>The state container\<close>

record evm_account =
  acc_nonce :: u64
  acc_balance :: u256
  acc_code :: bytes
  acc_storage :: "(u256 \<times> u256) list"

definition default_account :: evm_account where
  "default_account = \<lparr>acc_nonce = 0, acc_balance = 0, acc_code = [], acc_storage = []\<rparr>"

record in_memory =
  im_accounts :: "(address \<times> evm_account) list"
  im_block_hashes :: "(u64 \<times> u256) list"

definition im_new :: in_memory where
  "im_new = \<lparr>im_accounts = [], im_block_hashes = []\<rparr>"

definition from_accounts :: "(address \<times> evm_account) list \<Rightarrow> in_memory" where
  "from_accounts accs = \<lparr>im_accounts = accs, im_block_hashes = []\<rparr>"

definition with_block_hashes :: "(u64 \<times> u256) list \<Rightarrow> in_memory \<Rightarrow> in_memory" where
  "with_block_hashes hs st = st\<lparr>im_block_hashes := hs\<rparr>"

definition get_account :: "in_memory \<Rightarrow> address \<Rightarrow> evm_account option" where
  "get_account st a = map_of (im_accounts st) a"

text \<open>\<^verbatim>\<open>self.accounts.entry(address).or_default()\<close>, then an update of the entry.\<close>

definition entry_or_default :: "address \<Rightarrow> (evm_account \<Rightarrow> evm_account) \<Rightarrow> in_memory \<Rightarrow> in_memory" where
  "entry_or_default a f st =
     st\<lparr>im_accounts := AList.update a (f (unwrap_or default_account (map_of (im_accounts st) a))) (im_accounts st)\<rparr>"

definition create_account :: "address \<Rightarrow> in_memory \<Rightarrow> in_memory" where
  "create_account a st = entry_or_default a (\<lambda>acc. acc) st"

definition get_balance :: "in_memory \<Rightarrow> address \<Rightarrow> u256" where
  "get_balance st a = unwrap_or 0 (map_option acc_balance (get_account st a))"

definition set_balance :: "address \<Rightarrow> u256 \<Rightarrow> in_memory \<Rightarrow> in_memory" where
  "set_balance a b st = entry_or_default a (\<lambda>acc. acc\<lparr>acc_balance := b\<rparr>) st"

definition get_nonce :: "in_memory \<Rightarrow> address \<Rightarrow> u64" where
  "get_nonce st a = unwrap_or 0 (map_option acc_nonce (get_account st a))"

definition increment_nonce :: "address \<Rightarrow> in_memory \<Rightarrow> in_memory" where
  "increment_nonce a st = entry_or_default a (\<lambda>acc. acc\<lparr>acc_nonce := acc_nonce acc + 1\<rparr>) st"

definition get_storage :: "in_memory \<Rightarrow> address \<Rightarrow> u256 \<Rightarrow> u256" where
  "get_storage st a k = unwrap_or 0 (Option.bind (get_account st a) (\<lambda>acc. map_of (acc_storage acc) k))"

definition set_storage :: "address \<Rightarrow> u256 \<Rightarrow> u256 \<Rightarrow> in_memory \<Rightarrow> in_memory" where
  "set_storage a k v st = entry_or_default a (\<lambda>acc. acc\<lparr>acc_storage := AList.update k v (acc_storage acc)\<rparr>) st"

definition set_code :: "address \<Rightarrow> bytes \<Rightarrow> in_memory \<Rightarrow> in_memory" where
  "set_code a c st = entry_or_default a (\<lambda>acc. acc\<lparr>acc_code := c\<rparr>) st"

definition get_code :: "in_memory \<Rightarrow> address \<Rightarrow> bytes" where
  "get_code st a = unwrap_or [] (map_option acc_code (get_account st a))"

text \<open>What revm reports of an account it touched: the new balance, nonce and code, and the slots with their present values.\<close>

record revm_account =
  ra_balance :: u256
  ra_nonce :: u64
  ra_code :: "bytes option"
  ra_storage :: "(u256 \<times> u256) list"

definition apply_slot :: "u256 \<times> u256 \<Rightarrow> (u256 \<times> u256) list \<Rightarrow> (u256 \<times> u256) list" where
  "apply_slot kv sto = (case kv of (k, v) \<Rightarrow> if v = 0 then AList.delete k sto else AList.update k v sto)"

definition apply_revm_account :: "revm_account \<Rightarrow> evm_account \<Rightarrow> evm_account" where
  "apply_revm_account r acc = acc\<lparr>acc_balance := ra_balance r, acc_nonce := ra_nonce r,
     acc_code := unwrap_or (acc_code acc) (ra_code r), acc_storage := fold apply_slot (ra_storage r) (acc_storage acc)\<rparr>"

definition apply_from_revm_state :: "(address \<times> revm_account) list \<Rightarrow> in_memory \<Rightarrow> in_memory" where
  "apply_from_revm_state rs st = fold (\<lambda>(a, r). entry_or_default a (apply_revm_account r)) rs st"

definition state_backend :: "in_memory backend" where
  "state_backend =
     \<lparr>b_load = (\<lambda>a k st. (get_storage st a k, st)),
      b_store = (\<lambda>a k v st. set_storage a k v st)\<rparr>"

section \<open>Seeding helpers\<close>

definition seed_balance :: "(bytes \<Rightarrow> u256) \<Rightarrow> u64 \<Rightarrow> address \<Rightarrow> u128 \<Rightarrow> (in_memory, 'e, unit) smonad" where
  "seed_balance H asset_id addr amount = signore (write_balance H state_backend asset_id addr amount)"

definition seed_asset :: "(bytes \<Rightarrow> u256) \<Rightarrow> u64 \<Rightarrow> bytes \<Rightarrow> bytes \<Rightarrow> u8 \<Rightarrow> address \<Rightarrow> u128 \<Rightarrow> u128 \<Rightarrow> u8 \<Rightarrow>
    (in_memory, 'e, unit) smonad" where
  "seed_asset H asset_id symbol name decimals issuer max_supply supply status =
     sbind (signore (write_meta H state_backend asset_id
       \<lparr>am_symbol = symbol, am_name = name, am_decimals = decimals, am_issuer = issuer, am_max_supply = max_supply,
        am_supply = supply, am_status = status, am_registered_at = 0, am_evm_contract = 0, am_dominance = 0\<rparr>)) (\<lambda>_.
     sbind (signore (store_meta_u256 H state_backend asset_id (bstr ''compliance'') 0)) (\<lambda>_.
     signore (store_meta_u256 H state_backend asset_id (bstr ''registered_at'') 0)))"

definition seed_asset_contract_address :: "(bytes \<Rightarrow> u256) \<Rightarrow> u64 \<Rightarrow> address \<Rightarrow> (in_memory, 'e, unit) smonad" where
  "seed_asset_contract_address H asset_id addr =
     signore (store_meta_u256 H state_backend asset_id (bstr ''contract'') (address_to_u256 addr))"

section \<open>Genesis configuration\<close>

datatype genesis_error =
    InvalidJson string | InvalidAddress string | InvalidPublicKey string | ExecutionFailed string
  | ChainIdMismatch u64 u64

record genesis_asset =
  ga_asset_id :: u64
  ga_symbol :: bytes
  ga_name :: bytes
  ga_decimals :: u8
  ga_initial_supply :: u128
  ga_distribution :: "(string \<times> u128) list"

record genesis_fee_currency =
  gf_symbol :: string
  gf_asset_id :: u64
  gf_oracle_address :: "string option"

record genesis_validator =
  gv_address :: string
  gv_ed25519_pubkey :: string
  gv_self_stake :: u128

text \<open>The consensus and fee parameters are carried along; their types are left open.\<close>

record ('c, 'f) genesis =
  g_version :: u32
  g_chain_name :: string
  g_chain_id :: u64
  g_timestamp_millis :: u64
  g_initial_assets :: "genesis_asset list"
  g_initial_fee_currencies :: "genesis_fee_currency list"
  g_validators :: "genesis_validator list"
  g_consensus_params :: 'c
  g_fee_params :: 'f
  g_oracle_assets :: "u64 list option"

definition genesis_new :: "'c \<Rightarrow> 'f \<Rightarrow> string \<Rightarrow> u64 \<Rightarrow> u64 \<Rightarrow> ('c, 'f) genesis" where
  "genesis_new default_consensus default_fees chain_name chain_id timestamp_millis =
     \<lparr>g_version = 1, g_chain_name = chain_name, g_chain_id = chain_id, g_timestamp_millis = timestamp_millis,
      g_initial_assets = [], g_initial_fee_currencies = [], g_validators = [],
      g_consensus_params = default_consensus, g_fee_params = default_fees, g_oracle_assets = None\<rparr>"

definition with_asset :: "genesis_asset \<Rightarrow> ('c, 'f) genesis \<Rightarrow> ('c, 'f) genesis" where
  "with_asset a g = g\<lparr>g_initial_assets := g_initial_assets g @ [a]\<rparr>"

definition with_fee_currency :: "genesis_fee_currency \<Rightarrow> ('c, 'f) genesis \<Rightarrow> ('c, 'f) genesis" where
  "with_fee_currency c g = g\<lparr>g_initial_fee_currencies := g_initial_fee_currencies g @ [c]\<rparr>"

definition with_validator :: "genesis_validator \<Rightarrow> ('c, 'f) genesis \<Rightarrow> ('c, 'f) genesis" where
  "with_validator v g = g\<lparr>g_validators := g_validators g @ [v]\<rparr>"

definition with_consensus_params :: "'c \<Rightarrow> ('c, 'f) genesis \<Rightarrow> ('c, 'f) genesis" where
  "with_consensus_params p g = g\<lparr>g_consensus_params := p\<rparr>"

definition with_fee_params :: "'f \<Rightarrow> ('c, 'f) genesis \<Rightarrow> ('c, 'f) genesis" where
  "with_fee_params p g = g\<lparr>g_fee_params := p\<rparr>"

section \<open>Parsing\<close>

definition strip_0x :: "string \<Rightarrow> string" where
  "strip_0x s = (if take 2 s = ''0x'' then drop 2 s else s)"

definition parse_address :: "(string \<Rightarrow> string + bytes) \<Rightarrow> string \<Rightarrow> ('s, genesis_error, address) smonad" where
  "parse_address hexd s = (case hexd (strip_0x s) of
       Inl e \<Rightarrow> sfail (InvalidAddress e)
     | Inr bs \<Rightarrow> if length bs \<noteq> 20 then sfail (InvalidAddress (''expected 20 bytes, got '' @ show_dec (length bs)))
                else sret (from_be_bytes bs))"

definition parse_pubkey :: "(string \<Rightarrow> string + bytes) \<Rightarrow> string \<Rightarrow> ('s, genesis_error, bytes) smonad" where
  "parse_pubkey hexd s = (case hexd (strip_0x s) of
       Inl e \<Rightarrow> sfail (InvalidPublicKey e)
     | Inr bs \<Rightarrow> if length bs \<noteq> 32 then sfail (InvalidPublicKey (''expected 32 bytes, got '' @ show_dec (length bs)))
                else sret bs)"

section \<open>The genesis flow\<close>

fun check_unique_assets :: "u64 set \<Rightarrow> genesis_asset list \<Rightarrow> genesis_error + unit" where
  "check_unique_assets seen [] = Inr ()"
| "check_unique_assets seen (a # as) =
     (if ga_asset_id a \<in> seen then Inl (InvalidJson (''duplicate asset_id: '' @ show_dec (unat (ga_asset_id a))))
      else check_unique_assets (insert (ga_asset_id a) seen) as)"

definition validate :: "('c, 'f) genesis \<Rightarrow> genesis_error + unit" where
  "validate g =
     (if g_chain_name g = [] then Inl (InvalidJson ''chain_name is empty'')
      else if g_chain_id g = 0 then Inl (InvalidJson ''chain_id must be non-zero'')
      else if g_timestamp_millis g = 0 then Inl (InvalidJson ''timestamp_millis must be non-zero'')
      else if g_validators g = [] then Inl (InvalidJson ''no genesis validators'')
      else if g_initial_assets g = [] then Inl (InvalidJson ''no initial assets'')
      else if g_initial_fee_currencies g = [] then Inl (InvalidJson ''no fee currencies'')
      else check_unique_assets {} (g_initial_assets g))"

text \<open>The distribution loop of one asset, with the running total.\<close>

fun distribute :: "(string \<Rightarrow> string + bytes) \<Rightarrow> (bytes \<Rightarrow> u256) \<Rightarrow> u64 \<Rightarrow> (string \<times> u128) list \<Rightarrow> u128 \<Rightarrow>
    (in_memory, genesis_error, u128) smonad" where
  "distribute hexd H asset_id [] sum_so_far = sret sum_so_far"
| "distribute hexd H asset_id ((address_str, amount) # ds) sum_so_far =
     sbind (parse_address hexd address_str) (\<lambda>addr.
     sbind (sok_or (ExecutionFailed ''supply overflow'') (checked_add sum_so_far amount)) (\<lambda>sum_so_far'.
     sbind (if asset_id = CALL_ASSET_ID then smodify (set_balance addr (ucast amount))
            else sbind (seed_balance H asset_id addr amount) (\<lambda>_. smodify (set_balance addr (ucast amount)))) (\<lambda>_.
     sbind (smodify (create_account addr)) (\<lambda>_.
     distribute hexd H asset_id ds sum_so_far'))))"

definition register_assets :: "(string \<Rightarrow> string + bytes) \<Rightarrow> (bytes \<Rightarrow> u256) \<Rightarrow> genesis_asset list \<Rightarrow>
    (in_memory, genesis_error, unit) smonad" where
  "register_assets hexd H assets = sfor assets (\<lambda>asset.
     sbind (distribute hexd H (ga_asset_id asset) (ga_distribution asset) 0) (\<lambda>total_allocated.
     seed_asset H (ga_asset_id asset) (ga_symbol asset) (ga_name asset) (ga_decimals asset) 0 0 total_allocated 0))"

definition register_validator :: "(string \<Rightarrow> string + bytes) \<Rightarrow> (bytes \<Rightarrow> u256) \<Rightarrow> nat \<Rightarrow> genesis_validator \<Rightarrow>
    (in_memory, genesis_error, unit) smonad" where
  "register_validator hexd H i gv =
     sbind (parse_address hexd (gv_address gv)) (\<lambda>addr.
     sbind (parse_pubkey hexd (gv_ed25519_pubkey gv)) (\<lambda>pubkey.
     let validator_id = (of_nat (i + 1) :: u64) in
     sbind (smodify (set_storage VALIDATOR_ADDRESS 0 (u64_to_u256 validator_id))) (\<lambda>_.
     sbind (smodify (set_storage VALIDATOR_ADDRESS (storage_slot H [to_be_bytes addr, bstr ''validator_id'']) (u64_to_u256 validator_id))) (\<lambda>_.
     sbind (smodify (set_storage VALIDATOR_ADDRESS (storage_slot H [bstr ''validators''] + u64_to_u256 validator_id) (address_to_u256 addr))) (\<lambda>_.
     sbind (smodify (set_storage VALIDATOR_ADDRESS (storage_slot H [to_be_bytes addr, bstr ''stake'']) (u128_to_u256 (gv_self_stake gv)))) (\<lambda>_.
     sbind (smodify (set_storage VALIDATOR_ADDRESS (storage_slot H [to_be_bytes addr, bstr ''pubkey'']) (from_be_bytes pubkey))) (\<lambda>_.
     sbind (smodify (set_storage VALIDATOR_ADDRESS (storage_slot H [to_be_bytes addr, bstr ''status'']) 1)) (\<lambda>_.
     seed_balance H CALL_ASSET_ID STAKING_ESCROW (gv_self_stake gv)))))))))"

definition register_validators :: "(string \<Rightarrow> string + bytes) \<Rightarrow> (bytes \<Rightarrow> u256) \<Rightarrow> genesis_validator list \<Rightarrow>
    (in_memory, genesis_error, unit) smonad" where
  "register_validators hexd H vs = sfor (List.enumerate 0 vs) (\<lambda>(i, gv). register_validator hexd H i gv)"

definition register_fee_currencies :: "genesis_fee_currency list \<Rightarrow> u64 list" where
  "register_fee_currencies cs = map gf_asset_id cs"

text \<open>The transaction that deploys a token template, and what the execution of a transaction depends on.\<close>

record evm_transaction =
  tx_caller :: address
  tx_nonce :: u64
  tx_gas_limit :: u64
  tx_gas_price :: u128
  tx_max_priority_fee :: "u128 option"
  tx_type :: u8
  tx_to :: "address option"
  tx_value :: u256
  tx_data :: bytes
  tx_chain_id :: u64

record evm_executor =
  ex_init_code :: "bytes \<Rightarrow> bytes \<Rightarrow> u8 \<Rightarrow> address \<Rightarrow> address \<Rightarrow> u256 \<Rightarrow> u256 \<Rightarrow> bytes"
  ex_create_address :: "address \<Rightarrow> u64 \<Rightarrow> address"
  ex_execute_tx_db :: "evm_transaction \<Rightarrow> in_memory \<Rightarrow> string + (bool \<times> bytes) \<times> (address \<times> revm_account) list"

definition deploy_erc20_template :: "evm_executor \<Rightarrow> u64 \<Rightarrow> address \<Rightarrow> bytes \<Rightarrow> bytes \<Rightarrow> u8 \<Rightarrow> address \<Rightarrow> address \<Rightarrow> u256 \<Rightarrow> u256 \<Rightarrow>
    (in_memory, string, address \<times> bool) smonad" where
  "deploy_erc20_template E chain_id deployer name symbol decimals bridge issuer max_supply asset_id =
     (let init_code = ex_init_code E name symbol decimals bridge issuer max_supply asset_id in
      sbind (sget (\<lambda>st. get_nonce st deployer)) (\<lambda>nonce.
      let contract_addr = ex_create_address E deployer nonce;
          tx = \<lparr>tx_caller = deployer, tx_nonce = nonce, tx_gas_limit = 10000000, tx_gas_price = 10, tx_max_priority_fee = None,
                tx_type = 0, tx_to = None, tx_value = 0, tx_data = init_code, tx_chain_id = chain_id\<rparr> in
      sbind (sget (ex_execute_tx_db E tx)) (\<lambda>r.
      case r of Inl e \<Rightarrow> sfail e
      | Inr ((success, out), revm_state) \<Rightarrow>
          sbind (smodify (apply_from_revm_state revm_state)) (\<lambda>_.
          sbind (if out \<noteq> [] then smodify (set_code contract_addr out) else sret ()) (\<lambda>_.
          sret (contract_addr, success))))))"

definition BRIDGE_EVM_ADDRESS :: address where "BRIDGE_EVM_ADDRESS = 0xFFFFFFFFFFFFFFFFFFFFFFFFFFFFFFFFFFFFFFFF"

definition deploy_evm_templates :: "evm_executor \<Rightarrow> (bytes \<Rightarrow> u256) \<Rightarrow> u64 \<Rightarrow> genesis_asset list \<Rightarrow>
    (in_memory, genesis_error, unit) smonad" where
  "deploy_evm_templates E H chain_id assets = sfor assets (\<lambda>asset.
     if ga_asset_id asset = CALL_ASSET_ID then sret ()
     else
       sbind (smodify (set_balance BRIDGE_EVM_ADDRESS 100000000000)) (\<lambda>_.
       sbind (smodify (create_account BRIDGE_EVM_ADDRESS)) (\<lambda>_.
       sbind (smap_err ExecutionFailed (deploy_erc20_template E chain_id BRIDGE_EVM_ADDRESS (ga_name asset) (ga_symbol asset)
                (ga_decimals asset) BRIDGE_EVM_ADDRESS 0 0 (ucast (ga_asset_id asset)))) (\<lambda>(contract_addr, success).
       sbind (sguard (\<not> success) (ExecutionFailed ''ERC-20 deployment reverted'')) (\<lambda>_.
       seed_asset_contract_address H (ga_asset_id asset) contract_addr)))))"

definition account_bytes :: "(bytes \<Rightarrow> u256) \<Rightarrow> address \<times> evm_account \<Rightarrow> bytes" where
  "account_bytes H e = (case e of (a, acc) \<Rightarrow>
     to_be_bytes a @ rev (to_be_bytes (acc_nonce acc)) @ to_be_bytes (acc_balance acc) @ to_be_bytes (H (acc_code acc)))"

definition compute_evm_state_root :: "(bytes \<Rightarrow> u256) \<Rightarrow> in_memory \<Rightarrow> u256" where
  "compute_evm_state_root H st =
     (let data = concat (map (account_bytes H) (sort_key fst (im_accounts st))) in if data = [] then 0 else H data)"

record genesis_state =
  gs_state_root :: u256
  gs_evm_state :: in_memory
  gs_fee_currencies :: "u64 list"

text \<open>Steps 3 to 6 of the flow, on the state tables.\<close>

definition genesis_init :: "(string \<Rightarrow> string + bytes) \<Rightarrow> (bytes \<Rightarrow> u256) \<Rightarrow> evm_executor \<Rightarrow> ('c, 'f) genesis \<Rightarrow>
    (in_memory, genesis_error, u64 list) smonad" where
  "genesis_init hexd H E g =
     sbind (register_assets hexd H (g_initial_assets g)) (\<lambda>_.
     sbind (register_validators hexd H (g_validators g)) (\<lambda>_.
     let fee_currencies = register_fee_currencies (g_initial_fee_currencies g) in
     sbind (deploy_evm_templates E H (g_chain_id g) (g_initial_assets g)) (\<lambda>_.
     sret fee_currencies)))"

definition genesis_execute :: "(string \<Rightarrow> string + bytes) \<Rightarrow> (bytes \<Rightarrow> u256) \<Rightarrow> evm_executor \<Rightarrow> ('c, 'f) genesis \<Rightarrow>
    genesis_error + genesis_state" where
  "genesis_execute hexd H E g =
     (case validate g of Inl e \<Rightarrow> Inl e
      | Inr _ \<Rightarrow>
         (case genesis_init hexd H E g im_new of
            (Inl e, _) \<Rightarrow> Inl e
          | (Inr fee_currencies, st) \<Rightarrow> Inr \<lparr>gs_state_root = compute_evm_state_root H st, gs_evm_state = st,
              gs_fee_currencies = fee_currencies\<rparr>))"

end
