(* ===== verification/Mempool.thy ===== *)
theory Mempool
  imports Genesis "HOL-Library.Product_Lexorder"
begin

text \<open>
  The transaction pool: \<^verbatim>\<open>crates/mempool/src/priority.rs\<close> and \<^verbatim>\<open>crates/mempool/src/pool.rs\<close>. A \<^verbatim>\<open>BTreeMap\<close> is an
  association list in ascending key order (\<open>bt_insert\<close>, \<open>bt_remove\<close>), a \<^verbatim>\<open>usize\<close> a natural number. The JSON
  serialisation of a transaction and the hash of its bytes are parameters, the clock reading of an insertion
  is an argument. Release arithmetic is used: the arrival counter wraps.
\<close>

section \<open>Ordered maps\<close>

fun bt_insert :: "'k::linorder \<Rightarrow> 'v \<Rightarrow> ('k \<times> 'v) list \<Rightarrow> ('k \<times> 'v) list" where
  "bt_insert k v [] = [(k, v)]"
| "bt_insert k v ((k', v') # xs) =
     (if k < k' then (k, v) # (k', v') # xs else if k = k' then (k, v) # xs else (k', v') # bt_insert k v xs)"

definition bt_remove :: "'k \<Rightarrow> ('k \<times> 'v) list \<Rightarrow> ('k \<times> 'v) list" where
  "bt_remove k xs = filter (\<lambda>(k', _). k' \<noteq> k) xs"

section \<open>Entries and limits\<close>

datatype pool_kind = Evm

record pool_limits =
  max_evm_txs :: nat
  max_per_address :: nat
  lifetime_blocks :: u64

definition default_limits :: pool_limits where
  "default_limits = \<lparr>max_evm_txs = 100000, max_per_address = 2000, lifetime_blocks = 72\<rparr>"

record mempool_entry =
  e_hash :: u256
  e_score :: u128
  e_sender :: address
  e_nonce :: u64
  e_kind :: pool_kind
  e_data :: bytes
  e_entered_at :: nat
  e_entered_at_block :: u64

definition entry_new :: "nat \<Rightarrow> u256 \<Rightarrow> u128 \<Rightarrow> address \<Rightarrow> u64 \<Rightarrow> pool_kind \<Rightarrow> bytes \<Rightarrow> u64 \<Rightarrow> mempool_entry" where
  "entry_new now hash score sender nonce kind data current_block =
     \<lparr>e_hash = hash, e_score = score, e_sender = sender, e_nonce = nonce, e_kind = kind, e_data = data,
      e_entered_at = now, e_entered_at_block = current_block\<rparr>"

definition is_expired :: "mempool_entry \<Rightarrow> u64 \<Rightarrow> u64 \<Rightarrow> bool" where
  "is_expired e current_block lifetime \<longleftrightarrow> lifetime \<le> saturating_sub current_block (e_entered_at_block e)"

section \<open>The priority pool\<close>

record priority_pool =
  pp_entries :: "((u128 \<times> u64) \<times> mempool_entry) list"
  pp_next_order :: u64

definition pool_new :: priority_pool where
  "pool_new = \<lparr>pp_entries = [], pp_next_order = 0\<rparr>"

definition pool_len :: "priority_pool \<Rightarrow> nat" where
  "pool_len p = length (pp_entries p)"

definition pool_is_empty :: "priority_pool \<Rightarrow> bool" where
  "pool_is_empty p \<longleftrightarrow> pp_entries p = []"

definition pool_values :: "priority_pool \<Rightarrow> mempool_entry list" where
  "pool_values p = map snd (pp_entries p)"

definition get_address_nonce :: "priority_pool \<Rightarrow> address \<Rightarrow> u64" where
  "get_address_nonce p addr =
     (let nonces = map e_nonce (filter (\<lambda>e. e_sender e = addr) (pool_values p))
      in if nonces = [] then 0 else saturating_add (Max (set nonces)) 1)"

definition pool_insert :: "mempool_entry \<Rightarrow> priority_pool \<Rightarrow> u64 \<times> priority_pool" where
  "pool_insert entry p =
     (let order = pp_next_order p
      in (order, p\<lparr>pp_next_order := order + 1, pp_entries := bt_insert (e_score entry, order) entry (pp_entries p)\<rparr>))"

definition pool_remove :: "u256 \<Rightarrow> priority_pool \<Rightarrow> mempool_entry option \<times> priority_pool" where
  "pool_remove hash p = (case find (\<lambda>(_, e). e_hash e = hash) (pp_entries p) of
       None \<Rightarrow> (None, p)
     | Some (k, e) \<Rightarrow> (map_of (pp_entries p) k, p\<lparr>pp_entries := bt_remove k (pp_entries p)\<rparr>))"

definition pool_contains :: "priority_pool \<Rightarrow> u256 \<Rightarrow> bool" where
  "pool_contains p hash \<longleftrightarrow> list_ex (\<lambda>e. e_hash e = hash) (pool_values p)"

text \<open>A stable sort by descending score of the entries in key order.\<close>

definition drain_sorted :: "priority_pool \<Rightarrow> mempool_entry list" where
  "drain_sorted p = sort_key (\<lambda>e. - int (unat (e_score e))) (pool_values p)"

definition pool_clear :: "priority_pool \<Rightarrow> priority_pool" where
  "pool_clear p = p\<lparr>pp_entries := []\<rparr>"

definition lowest_score_entry :: "priority_pool \<Rightarrow> mempool_entry option" where
  "lowest_score_entry p = (case pp_entries p of [] \<Rightarrow> None | (_, e) # _ \<Rightarrow> Some e)"

definition evict_lowest :: "priority_pool \<Rightarrow> mempool_entry option \<times> priority_pool" where
  "evict_lowest p = (case pp_entries p of
       [] \<Rightarrow> (None, p)
     | (k, _) # _ \<Rightarrow> (map_of (pp_entries p) k, p\<lparr>pp_entries := bt_remove k (pp_entries p)\<rparr>))"

definition remove_expired :: "u64 \<Rightarrow> u64 \<Rightarrow> priority_pool \<Rightarrow> nat \<times> priority_pool" where
  "remove_expired current_block lifetime p =
     (let expired = map fst (filter (\<lambda>(_, e). is_expired e current_block lifetime) (pp_entries p))
      in (length expired, p\<lparr>pp_entries := fold bt_remove expired (pp_entries p)\<rparr>))"

definition count_per_address :: "priority_pool \<Rightarrow> address \<Rightarrow> nat" where
  "count_per_address p addr = length (filter (\<lambda>e. e_sender e = addr) (pool_values p))"

definition pool_iter :: "priority_pool \<Rightarrow> mempool_entry list" where
  "pool_iter p = map snd (rev (pp_entries p))"

section \<open>The mempool\<close>

record mempool_config =
  min_fee :: u128
  min_gas_price :: u128
  max_gas_limit :: u64

definition default_config :: mempool_config where
  "default_config = \<lparr>min_fee = 1000, min_gas_price = 1, max_gas_limit = 10000000\<rparr>"

datatype mempool_error =
    Duplicate u256
  | PoolFull string nat nat
  | AddressLimitReached address nat nat
  | FeeTooLow u128 u128
  | GasLimitExceeded u64 u64
  | InvalidNonce u64 u64
  | MP_InsufficientBalance u128 u256
  | NotFound u256
  | Generic string

record mempool =
  mp_evm_pool :: priority_pool
  mp_known_txs :: "u256 set"
  mp_limits :: pool_limits
  mp_config :: mempool_config
  mp_current_block :: u64
  mp_base_fee :: u128
  mp_expected_nonces :: "address \<rightharpoonup> u64"

definition mempool_new :: mempool where
  "mempool_new = \<lparr>mp_evm_pool = pool_new, mp_known_txs = {}, mp_limits = default_limits, mp_config = default_config,
     mp_current_block = 0, mp_base_fee = 1, mp_expected_nonces = Map.empty\<rparr>"

definition set_current_block :: "u64 \<Rightarrow> mempool \<Rightarrow> mempool" where
  "set_current_block block mp = mp\<lparr>mp_current_block := block\<rparr>"

definition set_base_fee :: "u128 \<Rightarrow> mempool \<Rightarrow> mempool" where
  "set_base_fee fee mp = mp\<lparr>mp_base_fee := fee\<rparr>"

definition insert_evm_tx :: "(bytes \<Rightarrow> u256) \<Rightarrow> (evm_transaction \<Rightarrow> string + bytes) \<Rightarrow> nat \<Rightarrow> evm_transaction \<Rightarrow>
    (mempool, mempool_error, u256) smonad" where
  "insert_evm_tx H ser now tx =
     (case ser tx of Inl e \<Rightarrow> sfail (Generic (''serialize: '' @ e))
      | Inr data \<Rightarrow>
         let hash = H data in
         sbind (sget (\<lambda>mp. mp)) (\<lambda>mp.
         sbind (sguard (hash \<in> mp_known_txs mp) (Duplicate hash)) (\<lambda>_.
         let min_price = max (min_gas_price (mp_config mp)) (mp_base_fee mp) in
         sbind (sguard (tx_gas_price tx < min_price) (FeeTooLow (tx_gas_price tx) min_price)) (\<lambda>_.
         let addr_count = count_per_address (mp_evm_pool mp) (tx_caller tx) in
         sbind (sguard (max_per_address (mp_limits mp) \<le> addr_count)
                  (AddressLimitReached (tx_caller tx) addr_count (max_per_address (mp_limits mp)))) (\<lambda>_.
         sbind (sguard (max_evm_txs (mp_limits mp) \<le> pool_len (mp_evm_pool mp))
                  (PoolFull ''evm'' (pool_len (mp_evm_pool mp)) (max_evm_txs (mp_limits mp)))) (\<lambda>_.
         let entry = entry_new now hash (tx_gas_price tx) (tx_caller tx) (tx_nonce tx) Evm data (mp_current_block mp) in
         sbind (smodify (\<lambda>mp. mp\<lparr>mp_evm_pool := snd (pool_insert entry (mp_evm_pool mp))\<rparr>)) (\<lambda>_.
         sbind (smodify (\<lambda>mp. mp\<lparr>mp_known_txs := insert hash (mp_known_txs mp)\<rparr>)) (\<lambda>_.
         sret hash))))))))"

definition get_expected_evm_nonce :: "mempool \<Rightarrow> address \<Rightarrow> u64 \<Rightarrow> u64" where
  "get_expected_evm_nonce mp sender committed_nonce = max committed_nonce (get_address_nonce (mp_evm_pool mp) sender)"

definition insert_evm_tx_with_state :: "(bytes \<Rightarrow> u256) \<Rightarrow> (evm_transaction \<Rightarrow> string + bytes) \<Rightarrow> nat \<Rightarrow> evm_transaction \<Rightarrow>
    u64 \<Rightarrow> u256 \<Rightarrow> (mempool, mempool_error, u256) smonad" where
  "insert_evm_tx_with_state H ser now tx committed_nonce balance =
     sbind (sget (\<lambda>mp. get_expected_evm_nonce mp (tx_caller tx) committed_nonce)) (\<lambda>expected_nonce.
     sbind (sguard (tx_nonce tx \<noteq> expected_nonce) (InvalidNonce expected_nonce (tx_nonce tx))) (\<lambda>_.
     let max_gas_cost = saturating_mul (tx_gas_price tx) (ucast (tx_gas_limit tx)) in
     sbind (sguard (balance < ucast max_gas_cost) (MP_InsufficientBalance max_gas_cost balance)) (\<lambda>_.
     insert_evm_tx H ser now tx)))"

definition select_transactions :: "mempool \<Rightarrow> mempool_entry list" where
  "select_transactions mp = drain_sorted (mp_evm_pool mp)"

definition prune_expired :: "mempool \<Rightarrow> nat \<times> mempool" where
  "prune_expired mp =
     (case remove_expired (mp_current_block mp) (lifetime_blocks (mp_limits mp)) (mp_evm_pool mp) of
        (n, p) \<Rightarrow> (n, mp\<lparr>mp_evm_pool := p\<rparr>))"

definition confirm_transaction :: "u256 \<Rightarrow> mempool \<Rightarrow> mempool" where
  "confirm_transaction hash mp =
     (let (r, p) = pool_remove hash (mp_evm_pool mp);
          mp1 = mp\<lparr>mp_evm_pool := p\<rparr>;
          mp2 = (case r of None \<Rightarrow> mp1
                 | Some entry \<Rightarrow> mp1\<lparr>mp_expected_nonces := (mp_expected_nonces mp1)(e_sender entry \<mapsto> saturating_add (e_nonce entry) 1)\<rparr>)
      in mp2\<lparr>mp_known_txs := mp_known_txs mp2 - {hash}\<rparr>)"

definition confirm_transactions :: "u256 list \<Rightarrow> mempool \<Rightarrow> mempool" where
  "confirm_transactions hashes mp = fold confirm_transaction hashes mp"

definition mp_increment_nonce :: "address \<Rightarrow> mempool \<Rightarrow> mempool" where
  "mp_increment_nonce sender mp =
     mp\<lparr>mp_expected_nonces := (mp_expected_nonces mp)(sender \<mapsto> saturating_add (unwrap_or 0 (mp_expected_nonces mp sender)) 1)\<rparr>"

definition total_pending :: "mempool \<Rightarrow> nat" where
  "total_pending mp = pool_len (mp_evm_pool mp)"

definition pool_stats :: "mempool \<Rightarrow> nat \<times> nat" where
  "pool_stats mp = (pool_len (mp_evm_pool mp), card (mp_known_txs mp))"

end
