(* ===== verification/Mempool_Props.thy ===== *)
theory Mempool_Props
  imports Mempool "HOL-Library.Multiset"
begin

text \<open>
  The laws of the transaction pool. \<open>ordered_map\<close> is the contract of the ordered map behind the pool;
  \<open>pool_ok\<close> says that the keys of the pool are the scores and arrival numbers of its entries, in ascending
  order; \<open>mempool_ok\<close> adds the limits and the deduplication set and holds in every reachable mempool.
\<close>

section \<open>The ordered map\<close>

locale ordered_map =
  fixes ins :: "'k::linorder \<Rightarrow> 'v \<Rightarrow> 'm \<Rightarrow> 'm" and del :: "'k \<Rightarrow> 'm \<Rightarrow> 'm" and items :: "'m \<Rightarrow> ('k \<times> 'v) list"
  assumes items_ins: "sorted_wrt (<) (map fst (items m)) \<Longrightarrow> k \<notin> fst ` set (items m) \<Longrightarrow>
      mset (items (ins k v m)) = add_mset (k, v) (mset (items m)) \<and> sorted_wrt (<) (map fst (items (ins k v m)))"
    and items_del: "items (del k m) = filter (\<lambda>(k', _). k' \<noteq> k) (items m)"
begin

abbreviation ordered :: "'m \<Rightarrow> bool" where
  "ordered m \<equiv> sorted_wrt (<) (map fst (items m))"

lemma ordered_keys: "ordered m \<Longrightarrow> distinct (map fst (items m))"
  by (simp add: strict_sorted_iff)

lemma set_ins: "ordered m \<Longrightarrow> k \<notin> fst ` set (items m) \<Longrightarrow> set (items (ins k v m)) = insert (k, v) (set (items m))"
  using items_ins [of m k v] by (metis set_mset_add_mset_insert set_mset_mset)

lemma ordered_filter: "ordered m \<Longrightarrow> items m' = filter P (items m) \<Longrightarrow> ordered m'"
  by (auto simp: sorted_wrt_map intro: sorted_wrt_filter)

lemma ordered_del: "ordered m \<Longrightarrow> ordered (del k m)"
  by (rule ordered_filter [OF _ items_del])

lemma items_del_all: "items (fold del ks m) = filter (\<lambda>(k, _). k \<notin> set ks) (items m)"
  by (induction ks arbitrary: m) (auto simp: items_del intro!: filter_cong)

text \<open>Deleting the keys of all entries with a property leaves the entries without it.\<close>

lemma items_del_where:
  assumes "ordered m"
  shows "items (fold del (map fst (filter P (items m))) m) = filter (\<lambda>x. \<not> P x) (items m)"
  unfolding items_del_all
proof (rule filter_cong [OF refl])
  fix x assume x: "x \<in> set (items m)"
  obtain k v where kv: "x = (k, v)" by (cases x)
  have "k \<in> set (map fst (filter P (items m))) \<longleftrightarrow> P x"
  proof
    assume "k \<in> set (map fst (filter P (items m)))"
    then obtain w where w: "(k, w) \<in> set (items m)" "P (k, w)" by auto
    with x kv have "w = v" using eq_key_imp_eq_value [OF ordered_keys [OF assms]] by blast
    with w kv show "P x" by simp
  next
    assume "P x"
    with x kv show "k \<in> set (map fst (filter P (items m)))" by (auto simp: image_iff intro!: bexI [of _ x])
  qed
  then show "(case x of (k, _) \<Rightarrow> k \<notin> set (map fst (filter P (items m)))) \<longleftrightarrow> \<not> P x" using kv by simp
qed

end

lemma bt_insert_keys: "fst ` set (bt_insert k v xs) = insert k (fst ` set xs)"
  by (induction k v xs rule: bt_insert.induct) auto

lemma bt_insert_sorted: "sorted_wrt (<) (map fst xs) \<Longrightarrow> sorted_wrt (<) (map fst (bt_insert k v xs))"
proof (induction k v xs rule: bt_insert.induct)
  case (2 k v k' v' xs)
  then show ?case using bt_insert_keys [of k v xs] by (auto simp flip: set_map)
qed simp

lemma bt_insert_mset: "k \<notin> fst ` set xs \<Longrightarrow> mset (bt_insert k v xs) = add_mset (k, v) (mset xs)"
  by (induction k v xs rule: bt_insert.induct) auto

interpretation bt: ordered_map bt_insert bt_remove "\<lambda>xs. xs"
  by unfold_locales (simp_all add: bt_insert_mset bt_insert_sorted bt_remove_def)

section \<open>The pool\<close>

definition pool_ok :: "priority_pool \<Rightarrow> bool" where
  "pool_ok p \<longleftrightarrow> sorted_wrt (<) (map fst (pp_entries p)) \<and>
     (\<forall>((s, n), e) \<in> set (pp_entries p). e_score e = s \<and> n < pp_next_order p)"

lemma pool_okD:
  assumes "pool_ok p"
  shows "sorted_wrt (<) (map fst (pp_entries p))" "distinct (map fst (pp_entries p))"
    "((s, n), e) \<in> set (pp_entries p) \<Longrightarrow> e_score e = s \<and> n < pp_next_order p"
proof -
  show "sorted_wrt (<) (map fst (pp_entries p))" using assms by (simp add: pool_ok_def)
  then show "distinct (map fst (pp_entries p))" by (rule bt.ordered_keys)
  show "((s, n), e) \<in> set (pp_entries p) \<Longrightarrow> e_score e = s \<and> n < pp_next_order p"
    using assms by (auto simp: pool_ok_def)
qed

lemma pool_new_ok: "pool_ok pool_new"
  by (simp add: pool_ok_def pool_new_def)

lemma fresh_key:
  assumes "pool_ok p"
  shows "(s, pp_next_order p) \<notin> fst ` set (pp_entries p)"
  using pool_okD(3) [OF assms] by fastforce

lemma pool_insert_entries:
  assumes "pool_ok p"
  shows "mset (pp_entries (snd (pool_insert e p))) = add_mset ((e_score e, pp_next_order p), e) (mset (pp_entries p))"
    "set (pp_entries (snd (pool_insert e p))) = insert ((e_score e, pp_next_order p), e) (set (pp_entries p))"
  using bt.items_ins [OF pool_okD(1) [OF assms] fresh_key [OF assms], of "e_score e" e]
    bt.set_ins [OF pool_okD(1) [OF assms] fresh_key [OF assms], of "e_score e" e]
  by (simp_all add: pool_insert_def Let_def)

lemma pool_insert_values:
  assumes "pool_ok p"
  shows "mset (pool_values (snd (pool_insert e p))) = add_mset e (mset (pool_values p))"
  unfolding pool_values_def mset_map pool_insert_entries(1) [OF assms] by simp

lemma pool_insert_ok:
  assumes ok: "pool_ok p" and n: "unat (pp_next_order p) < 2 ^ 64 - 1"
  shows "pool_ok (snd (pool_insert e p))"
proof -
  have inc: "m < pp_next_order p \<or> m = pp_next_order p \<Longrightarrow> m < pp_next_order p + 1" for m
    using n by (auto simp: word_less_nat_alt unat_add_no_overflow)
  have "pp_next_order (snd (pool_insert e p)) = pp_next_order p + 1" by (simp add: pool_insert_def Let_def)
  moreover have "sorted_wrt (<) (map fst (pp_entries (snd (pool_insert e p))))"
    using bt.items_ins [OF pool_okD(1) [OF ok] fresh_key [OF ok], of "e_score e" e] by (simp add: pool_insert_def Let_def)
  ultimately show ?thesis
    using pool_okD(3) [OF ok] inc by (auto simp: pool_ok_def pool_insert_entries(2) [OF ok])
qed

text \<open>Every operation that only takes entries away keeps the pool in order.\<close>

lemma pool_filter_ok:
  assumes "pool_ok p" "pp_entries p' = filter P (pp_entries p)" "pp_next_order p' = pp_next_order p"
  shows "pool_ok p'"
  using assms bt.ordered_filter [OF pool_okD(1) [OF assms(1)] assms(2)] pool_okD(3) [OF assms(1)]
  by (auto simp: pool_ok_def)

lemma remove_expired_run:
  assumes "pool_ok p"
  shows "remove_expired b l p = (length (filter (\<lambda>e. is_expired e b l) (pool_values p)),
    p\<lparr>pp_entries := filter (\<lambda>x. \<not> is_expired (snd x) b l) (pp_entries p)\<rparr>)"
  using bt.items_del_where [OF pool_okD(1) [OF assms], of "\<lambda>(_, e). is_expired e b l"]
  by (simp add: remove_expired_def Let_def pool_values_def filter_map o_def case_prod_unfold)

lemma pool_remove_run:
  assumes "pool_ok p"
  shows "(pool_remove h p = (None, p) \<and> (\<forall>e \<in> set (pool_values p). e_hash e \<noteq> h)) \<or>
    (\<exists>k e. (k, e) \<in> set (pp_entries p) \<and> e_hash e = h \<and>
       pool_remove h p = (Some e, p\<lparr>pp_entries := filter (\<lambda>x. fst x \<noteq> k) (pp_entries p)\<rparr>))"
proof (cases "find (\<lambda>(_, e). e_hash e = h) (pp_entries p)")
  case None
  then have "pool_remove h p = (None, p)" by (simp add: pool_remove_def)
  moreover have "\<forall>e \<in> set (pool_values p). e_hash e \<noteq> h" using None by (fastforce simp: pool_values_def find_None_iff)
  ultimately show ?thesis by simp
next
  case (Some x)
  obtain k e where x: "x = (k, e)" by (cases x)
  with Some have "(k, e) \<in> set (pp_entries p)" "e_hash e = h"
    by (simp_all add: find_Some_iff) (metis nth_mem, auto)
  moreover from this have "map_of (pp_entries p) k = Some e" using map_of_is_SomeI [OF pool_okD(2) [OF assms]] by blast
  then have "pool_remove h p = (Some e, p\<lparr>pp_entries := filter (\<lambda>x. fst x \<noteq> k) (pp_entries p)\<rparr>)"
    using Some x by (simp add: pool_remove_def bt_remove_def case_prod_unfold)
  ultimately show ?thesis by blast
qed

section \<open>Selection order\<close>

lemma insort_key_map_snd: "insort_key f (snd x) (map snd ys) = map snd (insort_key (\<lambda>x. f (snd x)) x ys)"
  by (induction ys) auto

lemma sort_key_map_snd: "sort_key f (map snd xs) = map snd (sort_key (\<lambda>x. f (snd x)) xs)"
  by (induction xs) (simp_all add: insort_key_map_snd)

lemma sort_key_same:
  assumes "\<And>x. x \<in> set xs \<Longrightarrow> f x = g x"
  shows "sort_key f xs = sort_key g xs"
proof (rule properties_for_sort_key)
  show "mset (sort_key g xs) = mset xs" by simp
  have eq: "map f (sort_key g xs) = map g (sort_key g xs)" using assms by simp
  show "sorted (map f (sort_key g xs))" unfolding eq by simp
  fix k assume k: "k \<in> set (sort_key g xs)"
  have "filter (\<lambda>x. f k = f x) ys = filter (\<lambda>x. g x = g k) ys" if "set ys \<subseteq> set xs" for ys
    using that k assms by (intro filter_cong) auto
  then show "filter (\<lambda>x. f k = f x) (sort_key g xs) = filter (\<lambda>x. f k = f x) xs"
    by (simp add: sort_key_stable)
qed

text \<open>
  A stable sort by the first component of a key, of a list already ordered by the second one within each
  class, is a sort by the whole key.
\<close>

lemma stable_sort_lex:
  fixes f :: "'a \<Rightarrow> 'b::linorder" and g :: "'a \<Rightarrow> 'c::linorder"
  assumes "\<And>c. sorted (map g (filter (\<lambda>x. f x = c) xs))"
  shows "sort_key f xs = sort_key (\<lambda>x. (f x, g x)) xs"
proof (rule properties_for_sort_key)
  let ?h = "\<lambda>x. (f x, g x)" and ?ys = "sort_key (\<lambda>x. (f x, g x)) xs"
  show "mset ?ys = mset xs" by simp
  have "sorted (map ?h ?ys)" by simp
  then show "sorted (map f ?ys)"
    unfolding sorted_map by (rule sorted_wrt_mono_rel [rotated]) (auto simp: less_eq_prod_def)
  fix k assume "k \<in> set ?ys"
  have "filter (\<lambda>x. f k = f x) ?ys = sort_key ?h (filter (\<lambda>x. f k = f x) xs)" by (simp add: filter_sort)
  moreover have "sorted (map ?h (filter (\<lambda>x. f k = f x) xs))"
  proof -
    have "sorted (map g (filter (\<lambda>x. f k = f x) xs))" using assms [of "f k"] by (simp add: eq_commute)
    then show ?thesis unfolding sorted_map
      by (rule sorted_wrt_mono_rel [rotated]) (auto simp: less_eq_prod_def)
  qed
  ultimately show "filter (\<lambda>x. f k = f x) ?ys = filter (\<lambda>x. f k = f x) xs"
    by (simp add: sort_key_id_if_sorted)
qed

lemma drain_sorted_lex:
  assumes "pool_ok p"
  shows "drain_sorted p = map snd (sort_key (\<lambda>((s, n), _). (- int (unat s), n)) (pp_entries p))"
proof -
  let ?f = "\<lambda>x :: (u128 \<times> u64) \<times> mempool_entry. - int (unat (fst (fst x)))"
  have "sort_key (\<lambda>x. - int (unat (e_score (snd x)))) (pp_entries p) = sort_key ?f (pp_entries p)"
    using pool_okD(3) [OF assms] by (intro sort_key_same) fastforce
  also have "\<dots> = sort_key (\<lambda>x. (?f x, snd (fst x))) (pp_entries p)"
  proof (rule stable_sort_lex)
    fix c
    have "sorted_wrt (\<lambda>x y. fst x < fst y) (filter (\<lambda>x. ?f x = c) (pp_entries p))"
      using pool_okD(1) [OF assms] by (simp add: sorted_wrt_map sorted_wrt_filter)
    then show "sorted (map (\<lambda>x. snd (fst x)) (filter (\<lambda>x. ?f x = c) (pp_entries p)))"
      unfolding sorted_map by (rule sorted_wrt_mono_rel [rotated]) (auto simp: less_prod_def word_less_def word_le_def)
  qed
  finally show ?thesis unfolding drain_sorted_def pool_values_def sort_key_map_snd by (simp only: case_prod_unfold)
qed

section \<open>The mempool\<close>

definition mempool_ok :: "mempool \<Rightarrow> bool" where
  "mempool_ok mp \<longleftrightarrow> pool_ok (mp_evm_pool mp) \<and>
     pool_len (mp_evm_pool mp) \<le> max_evm_txs (mp_limits mp) \<and>
     (\<forall>a. count_per_address (mp_evm_pool mp) a \<le> max_per_address (mp_limits mp)) \<and>
     distinct (map e_hash (pool_values (mp_evm_pool mp))) \<and>
     e_hash ` set (pool_values (mp_evm_pool mp)) \<subseteq> mp_known_txs mp"

text \<open>
  A mempool with its own limits and configuration, and the steps it takes; a failed insertion changes nothing.
  The flag allows insertions without the nonce and balance check, as the RPC handler makes them after a check
  of its own. The arrival counter does not wrap: fewer than \<open>2 ^ 64 - 1\<close> transactions ever arrive.
\<close>

inductive mempool_step :: "(bytes \<Rightarrow> u256) \<Rightarrow> (evm_transaction \<Rightarrow> string + bytes) \<Rightarrow> bool \<Rightarrow> mempool \<Rightarrow> mempool \<Rightarrow> bool"
  for H ser plain where
  insert: "insert_evm_tx_with_state H ser now tx committed balance mp = (Inr h, mp') \<Longrightarrow>
    unat (pp_next_order (mp_evm_pool mp)) < 2 ^ 64 - 1 \<Longrightarrow> mempool_step H ser plain mp mp'"
| direct: "plain \<Longrightarrow> insert_evm_tx H ser now tx mp = (Inr h, mp') \<Longrightarrow>
    unat (pp_next_order (mp_evm_pool mp)) < 2 ^ 64 - 1 \<Longrightarrow> mempool_step H ser plain mp mp'"
| confirm: "mempool_step H ser plain mp (confirm_transactions hs mp)"
| prune: "mempool_step H ser plain mp (snd (prune_expired mp))"
| block: "mempool_step H ser plain mp (set_current_block b mp)"
| fee: "mempool_step H ser plain mp (set_base_fee f mp)"
| nonce: "mempool_step H ser plain mp (mp_increment_nonce a mp)"

inductive mempool_reach :: "(bytes \<Rightarrow> u256) \<Rightarrow> (evm_transaction \<Rightarrow> string + bytes) \<Rightarrow> bool \<Rightarrow> mempool \<Rightarrow> bool" for H ser plain where
  start: "mempool_reach H ser plain (mempool_new\<lparr>mp_limits := l, mp_config := c\<rparr>)"
| step: "mempool_reach H ser plain mp \<Longrightarrow> mempool_step H ser plain mp mp' \<Longrightarrow> mempool_reach H ser plain mp'"

lemma insert_evm_tx_Inr:
  assumes "insert_evm_tx H ser now tx mp = (Inr h, mp')"
  shows "\<exists>data. ser tx = Inr data \<and> h = H data \<and> h \<notin> mp_known_txs mp \<and>
    max (min_gas_price (mp_config mp)) (mp_base_fee mp) \<le> tx_gas_price tx \<and>
    count_per_address (mp_evm_pool mp) (tx_caller tx) < max_per_address (mp_limits mp) \<and>
    pool_len (mp_evm_pool mp) < max_evm_txs (mp_limits mp) \<and>
    mp' = mp\<lparr>mp_evm_pool := snd (pool_insert (entry_new now h (tx_gas_price tx) (tx_caller tx) (tx_nonce tx) Evm data
        (mp_current_block mp)) (mp_evm_pool mp)), mp_known_txs := insert h (mp_known_txs mp)\<rparr>"
  using assms by (auto simp: insert_evm_tx_def smonad_Inr Let_def not_less not_le split: sum.splits if_splits)

lemma count_mset: "count_per_address p a = size (filter_mset (\<lambda>e. e_sender e = a) (mset (pool_values p)))"
  by (simp add: count_per_address_def flip: mset_filter)

lemma insert_ok:
  assumes ok: "mempool_ok mp" and ins: "insert_evm_tx H ser now tx mp = (Inr h, mp')"
    and n: "unat (pp_next_order (mp_evm_pool mp)) < 2 ^ 64 - 1"
  shows "mempool_ok mp'"
proof -
  obtain data where d: "h \<notin> mp_known_txs mp" "count_per_address (mp_evm_pool mp) (tx_caller tx) < max_per_address (mp_limits mp)"
    "pool_len (mp_evm_pool mp) < max_evm_txs (mp_limits mp)"
    "mp' = mp\<lparr>mp_evm_pool := snd (pool_insert (entry_new now h (tx_gas_price tx) (tx_caller tx) (tx_nonce tx) Evm data
        (mp_current_block mp)) (mp_evm_pool mp)), mp_known_txs := insert h (mp_known_txs mp)\<rparr>"
    using insert_evm_tx_Inr [OF ins] by blast
  define e where "e = entry_new now h (tx_gas_price tx) (tx_caller tx) (tx_nonce tx) Evm data (mp_current_block mp)"
  have e: "e_hash e = h" "e_sender e = tx_caller tx" by (simp_all add: e_def entry_new_def)
  have p: "pool_ok (mp_evm_pool mp)" using ok by (simp add: mempool_ok_def)
  define p' where "p' = snd (pool_insert e (mp_evm_pool mp))"
  have mp': "mp' = mp\<lparr>mp_evm_pool := p', mp_known_txs := insert h (mp_known_txs mp)\<rparr>" using d(4) by (simp add: p'_def e_def)
  have v: "mset (pool_values p') = add_mset e (mset (pool_values (mp_evm_pool mp)))"
    unfolding p'_def by (rule pool_insert_values [OF p])
  have len: "pool_len p' = Suc (pool_len (mp_evm_pool mp))"
    using arg_cong [OF v, of size] by (simp add: pool_len_def pool_values_def)
  have cnt: "count_per_address p' a = (if a = tx_caller tx then 1 else 0) + count_per_address (mp_evm_pool mp) a" for a
    using e(2) by (auto simp: count_mset v)
  have sv: "set (pool_values p') = insert e (set (pool_values (mp_evm_pool mp)))"
    using arg_cong [OF v, of set_mset] by simp
  have "mset (map e_hash (pool_values p')) = mset (map e_hash (e # pool_values (mp_evm_pool mp)))" by (simp add: v)
  then have "distinct (map e_hash (pool_values p')) = distinct (map e_hash (e # pool_values (mp_evm_pool mp)))"
    by (rule mset_eq_imp_distinct_iff)
  then have "distinct (map e_hash (pool_values p'))" using ok d(1) e by (auto simp: mempool_ok_def)
  moreover have "pool_ok p'" unfolding p'_def by (rule pool_insert_ok [OF p n])
  moreover have "count_per_address (mp_evm_pool mp) a \<le> max_per_address (mp_limits mp)" for a
    using ok by (simp add: mempool_ok_def)
  ultimately show ?thesis using ok d(2,3) len e(1) by (auto simp: mempool_ok_def mp' cnt sv)
qed

text \<open>Taking entries out keeps the mempool in order, as long as the known hashes of the rest stay.\<close>

lemma filter_values: "pp_entries p' = filter P (pp_entries p) \<Longrightarrow> mset (pool_values p') \<subseteq># mset (pool_values p)"
  by (simp add: pool_values_def image_mset_subseteq_mono)

lemma shrink_ok:
  assumes ok: "mempool_ok mp" and e: "pp_entries (mp_evm_pool mp') = filter P (pp_entries (mp_evm_pool mp))"
    and k: "pp_next_order (mp_evm_pool mp') = pp_next_order (mp_evm_pool mp)" "mp_limits mp' = mp_limits mp"
      "e_hash ` set (pool_values (mp_evm_pool mp')) \<subseteq> mp_known_txs mp'"
  shows "mempool_ok mp'"
proof -
  note sub = filter_values [OF e]
  have "pool_ok (mp_evm_pool mp')" using pool_filter_ok [OF _ e k(1)] ok by (simp add: mempool_ok_def)
  moreover have "pool_len (mp_evm_pool mp') \<le> pool_len (mp_evm_pool mp)" by (simp add: pool_len_def e)
  moreover have "count_per_address (mp_evm_pool mp') a \<le> max_per_address (mp_limits mp)" for a
  proof -
    have "count_per_address (mp_evm_pool mp') a \<le> count_per_address (mp_evm_pool mp) a"
      unfolding count_mset by (intro size_mset_mono multiset_filter_mono sub)
    also have "\<dots> \<le> max_per_address (mp_limits mp)" using ok by (simp add: mempool_ok_def)
    finally show ?thesis .
  qed
  moreover have "distinct (map e_hash (pool_values (mp_evm_pool mp')))"
    unfolding pool_values_def e map_map by (rule distinct_map_filter) (use ok in \<open>simp add: mempool_ok_def pool_values_def\<close>)
  moreover have "pool_len (mp_evm_pool mp) \<le> max_evm_txs (mp_limits mp)" using ok by (simp add: mempool_ok_def)
  ultimately show ?thesis using k(2,3) unfolding mempool_ok_def by (simp add: order_trans)
qed

lemma prune_run:
  assumes "pool_ok (mp_evm_pool mp)"
  shows "snd (prune_expired mp) = mp\<lparr>mp_evm_pool := (mp_evm_pool mp)\<lparr>pp_entries :=
    filter (\<lambda>x. \<not> is_expired (snd x) (mp_current_block mp) (lifetime_blocks (mp_limits mp))) (pp_entries (mp_evm_pool mp))\<rparr>\<rparr>"
  by (simp add: prune_expired_def remove_expired_run [OF assms])

lemma prune_ok:
  assumes "mempool_ok mp"
  shows "mempool_ok (snd (prune_expired mp))"
proof -
  have p: "pool_ok (mp_evm_pool mp)" using assms by (simp add: mempool_ok_def)
  show ?thesis
    by (rule shrink_ok [OF assms]) (use assms in \<open>auto simp: prune_run [OF p] mempool_ok_def pool_values_def\<close>)
qed

lemma confirm_shrinks:
  assumes "pool_ok (mp_evm_pool mp)"
  shows "\<exists>P. pp_entries (mp_evm_pool (confirm_transaction h mp)) = filter P (pp_entries (mp_evm_pool mp)) \<and>
    pp_next_order (mp_evm_pool (confirm_transaction h mp)) = pp_next_order (mp_evm_pool mp) \<and>
    mp_limits (confirm_transaction h mp) = mp_limits mp \<and> mp_known_txs (confirm_transaction h mp) = mp_known_txs mp - {h}"
  using pool_remove_run [OF assms, of h]
  by (elim disjE exE conjE) (auto simp: confirm_transaction_def Let_def intro: filter_True [symmetric] exI [of _ "\<lambda>x. True"])

lemma confirm_gone:
  assumes ok: "mempool_ok mp"
  shows "\<forall>e \<in> set (pool_values (mp_evm_pool (confirm_transaction h mp))). e_hash e \<noteq> h \<and> e \<in> set (pool_values (mp_evm_pool mp))"
proof -
  have p: "pool_ok (mp_evm_pool mp)" using ok by (simp add: mempool_ok_def)
  from pool_remove_run [OF p, of h] show ?thesis
  proof (elim disjE exE conjE)
    fix k e assume e: "(k, e) \<in> set (pp_entries (mp_evm_pool mp))" "e_hash e = h"
      and r: "pool_remove h (mp_evm_pool mp) =
        (Some e, (mp_evm_pool mp)\<lparr>pp_entries := filter (\<lambda>x. fst x \<noteq> k) (pp_entries (mp_evm_pool mp))\<rparr>)"
    have "x = (k, e)" if "x \<in> set (pp_entries (mp_evm_pool mp))" "e_hash (snd x) = h" for x
    proof -
      have "inj_on (\<lambda>x. e_hash (snd x)) (set (pp_entries (mp_evm_pool mp)))"
        using ok by (simp add: mempool_ok_def pool_values_def distinct_map o_def)
      from inj_onD [OF this, of x "(k, e)"] that e show ?thesis by simp
    qed
    then show ?thesis using r by (auto simp: confirm_transaction_def pool_values_def)
  qed (auto simp: confirm_transaction_def)
qed

lemma confirm_ok:
  assumes ok: "mempool_ok mp"
  shows "mempool_ok (confirm_transaction h mp)"
proof -
  have p: "pool_ok (mp_evm_pool mp)" using ok by (simp add: mempool_ok_def)
  obtain P where P: "pp_entries (mp_evm_pool (confirm_transaction h mp)) = filter P (pp_entries (mp_evm_pool mp))"
    "pp_next_order (mp_evm_pool (confirm_transaction h mp)) = pp_next_order (mp_evm_pool mp)"
    "mp_limits (confirm_transaction h mp) = mp_limits mp" "mp_known_txs (confirm_transaction h mp) = mp_known_txs mp - {h}"
    using confirm_shrinks [OF p] by blast
  have "e_hash ` set (pool_values (mp_evm_pool (confirm_transaction h mp))) \<subseteq> mp_known_txs mp - {h}"
    using confirm_gone [OF ok] ok by (auto simp: mempool_ok_def)
  then show ?thesis using shrink_ok [OF ok P(1-3)] P(4) by simp
qed

lemma confirm_all_ok: "mempool_ok mp \<Longrightarrow> mempool_ok (confirm_transactions hs mp)"
  unfolding confirm_transactions_def by (induction hs arbitrary: mp) (simp_all add: confirm_ok)

lemma sat_succ_bound:
  fixes n M :: u64
  assumes "n \<le> M"
  shows "n < saturating_add M 1 \<or> (n = saturating_add M 1 \<and> n = - 1)"
proof (cases "unat M + unat (1 :: u64) < 2 ^ 64")
  case True
  then have "saturating_add M 1 = M + 1" by (simp only: saturating_add_def len_of_numeral_defs if_True) (simp add: saturating_add_def)
  moreover have "unat (M + 1) = unat M + unat (1 :: u64)" using True by (intro unat_add_no_overflow) simp
  ultimately show ?thesis using assms by (simp add: word_less_nat_alt word_le_nat_alt)
next
  case False
  then have s: "saturating_add M 1 = - 1" by (simp add: saturating_add_def)
  show ?thesis unfolding s using word_n1_ge [of n] unfolding order_le_less by blast
qed
text \<open>The expected nonce of a sender is above every pending one, unless it saturates.\<close>

lemma address_nonce_bound:
  assumes "e \<in> set (pool_values p)" "e_sender e = a"
  shows "e_nonce e < get_address_nonce p a \<or> (e_nonce e = get_address_nonce p a \<and> e_nonce e = - 1)"
proof -
  let ?N = "set (map e_nonce (filter (\<lambda>e. e_sender e = a) (pool_values p)))"
  have "e_nonce e \<in> ?N" using assms by auto
  then have "e_nonce e \<le> Max ?N" "?N \<noteq> {}" by (auto intro: Max_ge)
  define M where "M = Max ?N"
  have le: "e_nonce e \<le> M" using \<open>e_nonce e \<le> Max ?N\<close> by (simp only: M_def)
  have g: "get_address_nonce p a = saturating_add M 1"
    using \<open>?N \<noteq> {}\<close> unfolding get_address_nonce_def Let_def M_def set_map by (simp only: set_empty if_False image_is_empty set_empty2) simp
  show ?thesis unfolding g by (rule sat_succ_bound [OF le])
qed

definition clash :: "mempool_entry \<Rightarrow> mempool_entry \<Rightarrow> bool" where
  "clash x y \<longleftrightarrow> e_sender x = e_sender y \<and> e_nonce x = e_nonce y \<and> e_nonce x \<noteq> - 1"

text \<open>No two entries with different keys clash.\<close>

definition no_clash :: "priority_pool \<Rightarrow> bool" where
  "no_clash p \<longleftrightarrow> (\<forall>x \<in> set (pp_entries p). \<forall>y \<in> set (pp_entries p). clash (snd x) (snd y) \<longrightarrow> x = y)"

lemma clash_sym: "clash x y \<longleftrightarrow> clash y x"
  by (auto simp: clash_def)

lemma no_clash_insert:
  assumes "pool_ok p" "no_clash p" "e_nonce e = max c (get_address_nonce p (e_sender e))"
  shows "no_clash (snd (pool_insert e p))"
proof -
  have "\<not> clash (snd x) e" if "x \<in> set (pp_entries p)" for x
  proof
    assume c: "clash (snd x) e"
    then have "e_sender (snd x) = e_sender e" "e_nonce (snd x) = e_nonce e" "e_nonce e \<noteq> - 1" by (auto simp: clash_def)
    moreover have "snd x \<in> set (pool_values p)" using that by (simp add: pool_values_def)
    ultimately show False
      using address_nonce_bound [of "snd x" p "e_sender e"] assms(3) by (auto simp: max_def split: if_splits)
  qed
  then show ?thesis
    using assms(2) clash_sym by (auto simp: no_clash_def pool_insert_entries(2) [OF assms(1)])
qed

lemma no_clash_filter: "no_clash p \<Longrightarrow> pp_entries p' = filter P (pp_entries p) \<Longrightarrow> no_clash p'"
  by (auto simp: no_clash_def)

lemma confirm_all_no_clash:
  "mempool_ok mp \<Longrightarrow> no_clash (mp_evm_pool mp) \<Longrightarrow> no_clash (mp_evm_pool (confirm_transactions hs mp))"
  unfolding confirm_transactions_def
proof (induction hs arbitrary: mp)
  case (Cons h hs)
  have "pool_ok (mp_evm_pool mp)" using Cons.prems(1) by (simp add: mempool_ok_def)
  from confirm_shrinks [OF this, of h] have "no_clash (mp_evm_pool (confirm_transaction h mp))"
    using no_clash_filter [OF Cons.prems(2)] by blast
  then show ?case using Cons.IH confirm_ok [OF Cons.prems(1)] by simp
qed simp

lemma insert_no_clash:
  assumes "pool_ok (mp_evm_pool mp)" "no_clash (mp_evm_pool mp)"
    "insert_evm_tx_with_state H ser now tx committed balance mp = (Inr h, mp')"
  shows "insert_evm_tx H ser now tx mp = (Inr h, mp')" "no_clash (mp_evm_pool mp')"
proof -
  show i: "insert_evm_tx H ser now tx mp = (Inr h, mp')"
    using assms(3) by (auto simp: insert_evm_tx_with_state_def smonad_Inr Let_def split: if_splits)
  have n: "tx_nonce tx = get_expected_evm_nonce mp (tx_caller tx) committed"
    using assms(3) by (auto simp: insert_evm_tx_with_state_def smonad_Inr Let_def split: if_splits)
  from insert_evm_tx_Inr [OF i] obtain data where
    "mp_evm_pool mp' = snd (pool_insert (entry_new now h (tx_gas_price tx) (tx_caller tx) (tx_nonce tx) Evm data
      (mp_current_block mp)) (mp_evm_pool mp))" by auto
  then show "no_clash (mp_evm_pool mp')"
    using no_clash_insert [OF assms(1,2), of _ committed] n by (simp add: entry_new_def get_expected_evm_nonce_def)
qed

lemma mempool_step_ok:
  assumes ok: "mempool_ok mp" and step: "mempool_step H ser plain mp mp'"
  shows "mempool_ok mp'"
  using step
proof cases
  case (insert now tx committed balance h)
  then have "insert_evm_tx H ser now tx mp = (Inr h, mp')"
    by (auto simp: insert_evm_tx_with_state_def smonad_Inr Let_def split: if_splits)
  from insert_ok [OF ok this insert(2)] show ?thesis .
next
  case (direct now tx h)
  from insert_ok [OF ok direct(2,3)] show ?thesis .
next
  case (confirm hs)
  then show ?thesis using confirm_all_ok [OF ok] by simp
next
  case prune
  then show ?thesis using prune_ok [OF ok] by simp
qed (use ok in \<open>simp_all add: mempool_ok_def set_current_block_def set_base_fee_def mp_increment_nonce_def\<close>)

lemma mempool_start_ok: "mempool_ok (mempool_new\<lparr>mp_limits := l, mp_config := c\<rparr>)"
  by (simp add: mempool_ok_def mempool_new_def pool_new_ok pool_len_def pool_values_def count_per_address_def)
     (simp add: pool_new_def)

lemma mempool_reach_ok: "mempool_reach H ser plain mp \<Longrightarrow> mempool_ok mp"
  by (induction rule: mempool_reach.induct) (simp_all add: mempool_start_ok mempool_step_ok)

lemma mempool_reach_no_clash: "mempool_reach H ser False mp \<Longrightarrow> no_clash (mp_evm_pool mp)"
proof (induction rule: mempool_reach.induct)
  case (start l c)
  then show ?case by (simp add: no_clash_def mempool_new_def pool_new_def)
next
  case (step mp mp')
  have ok: "mempool_ok mp" "pool_ok (mp_evm_pool mp)" using mempool_reach_ok [OF step.hyps(1)] by (simp_all add: mempool_ok_def)
  from step.hyps(2) show ?case
  proof cases
    case (insert now tx committed balance h)
    from insert_no_clash(2) [OF ok(2) step.IH insert(1)] show ?thesis .
  next
    case (confirm hs)
    then show ?thesis using confirm_all_no_clash [OF ok(1) step.IH] by simp
  next
    case prune
    have "no_clash (mp_evm_pool (snd (prune_expired mp)))"
      by (rule no_clash_filter [OF step.IH]) (simp add: prune_run [OF ok(2)])
    then show ?thesis using prune by simp
  qed (use step.IH in \<open>simp_all add: set_current_block_def set_base_fee_def mp_increment_nonce_def\<close>)
qed

section \<open>Two transactions\<close>

definition sample_tx :: "u64 \<Rightarrow> u128 \<Rightarrow> evm_transaction" where
  "sample_tx n price = \<lparr>tx_caller = 1, tx_nonce = n, tx_gas_limit = 21000, tx_gas_price = price, tx_max_priority_fee = None,
     tx_type = 0, tx_to = Some 2, tx_value = 0, tx_data = [], tx_chain_id = 1\<rparr>"

definition sample_ser :: "evm_transaction \<Rightarrow> string + bytes" where
  "sample_ser tx = Inr [ucast (tx_nonce tx), ucast (tx_gas_price tx)]"

definition sample_tx_hash :: "bytes \<Rightarrow> u256" where
  "sample_tx_hash bs = from_be_bytes bs"

definition sample_entry :: "u64 \<Rightarrow> u128 \<Rightarrow> mempool_entry" where
  "sample_entry n price = entry_new 0 (from_be_bytes [ucast n, ucast price]) price 1 n Evm [ucast n, ucast price] 0"

definition one_tx :: mempool where
  "one_tx = snd (insert_evm_tx_with_state sample_tx_hash sample_ser 0 (sample_tx 0 5) 0 1000000 mempool_new)"

definition two_txs :: mempool where
  "two_txs = snd (insert_evm_tx_with_state sample_tx_hash sample_ser 0 (sample_tx 1 9) 0 1000000 one_tx)"

lemmas sample_run = insert_evm_tx_with_state_def insert_evm_tx_def sbind_run Let_def sample_tx_def sample_ser_def sample_tx_hash_def
  from_be_bytes_def be_nat_def get_expected_evm_nonce_def get_address_nonce_def pool_values_def saturating_mul_def saturating_add_def
  count_per_address_def pool_len_def pool_insert_def default_limits_def default_config_def sample_entry_def entry_new_def

lemma one_tx_run:
  "insert_evm_tx_with_state sample_tx_hash sample_ser 0 (sample_tx 0 5) 0 1000000 mempool_new = (Inr 5, one_tx)"
  "one_tx = mempool_new\<lparr>mp_evm_pool := \<lparr>pp_entries = [((5, 0), sample_entry 0 5)], pp_next_order = 1\<rparr>, mp_known_txs := {5}\<rparr>"
  by (simp_all add: one_tx_def sample_run mempool_new_def pool_new_def)

lemma two_txs_run:
  "insert_evm_tx_with_state sample_tx_hash sample_ser 0 (sample_tx 1 9) 0 1000000 one_tx = (Inr 265, two_txs)"
  "two_txs = mempool_new\<lparr>mp_evm_pool := \<lparr>pp_entries = [((5, 0), sample_entry 0 5), ((9, 1), sample_entry 1 9)], pp_next_order = 2\<rparr>,
     mp_known_txs := {265, 5}\<rparr>"
  by (simp_all add: two_txs_def one_tx_run(2) sample_run mempool_new_def pool_new_def)

lemma two_txs_entries: "pp_entries (mp_evm_pool two_txs) = [((5, 0), sample_entry 0 5), ((9, 1), sample_entry 1 9)]"
  and two_txs_limits: "mp_limits two_txs = default_limits" "lifetime_blocks default_limits = 72" "max_evm_txs default_limits = 100000"
  by (simp_all add: two_txs_run(2) mempool_new_def default_limits_def)

lemma two_txs_reach: "mempool_reach sample_tx_hash sample_ser False two_txs"
proof -
  have "mempool_reach sample_tx_hash sample_ser False mempool_new"
    using mempool_reach.start [where l = "mp_limits mempool_new" and c = "mp_config mempool_new"] by simp
  then have "mempool_reach sample_tx_hash sample_ser False one_tx"
    by (rule mempool_reach.step) (rule mempool_step.insert [OF one_tx_run(1)], simp add: mempool_new_def pool_new_def)
  then show ?thesis
    by (rule mempool_reach.step) (rule mempool_step.insert [OF two_txs_run(1)], simp add: one_tx_run(2))
qed

text \<open>
  The check and the insertion of the RPC handler are two critical sections: two submissions that are both
  checked before either is inserted end up pending with the same nonce.
\<close>

lemma check_then_insert_race:
  "get_expected_evm_nonce mempool_new 1 0 = 0 \<and> tx_nonce (sample_tx 0 5) = 0 \<and> tx_nonce (sample_tx 0 9) = 0 \<and>
   (\<exists>mp1 mp2. insert_evm_tx sample_tx_hash sample_ser 0 (sample_tx 0 5) mempool_new = (Inr 5, mp1) \<and>
      insert_evm_tx sample_tx_hash sample_ser 0 (sample_tx 0 9) mp1 = (Inr 9, mp2) \<and>
      pool_values (mp_evm_pool mp2) = [sample_entry 0 5, sample_entry 0 9])"
  by (simp add: sample_run mempool_new_def pool_new_def)

section \<open>Properties\<close>

text \<open>
  C24. Selection equals its specification: the transactions of a reachable mempool come out in descending order
  of gas price and, among equal prices, in the order in which they arrived. The code gets there by a stable sort
  of the values of a map keyed by price and arrival number.
\<close>

theorem selection_order:
  assumes "mempool_reach H ser plain mp"
  shows "select_transactions mp =
    map snd (sort_key (\<lambda>((score, arrival), _). (- int (unat score), arrival)) (pp_entries (mp_evm_pool mp)))"
  unfolding select_transactions_def
  by (rule drain_sorted_lex) (use mempool_reach_ok [OF assms] in \<open>simp add: mempool_ok_def\<close>)

theorem selection_order_witness:
  "map e_nonce (select_transactions two_txs) = [1, 0]"
  using selection_order [OF two_txs_reach] by (simp add: two_txs_entries sample_entry_def entry_new_def)

text \<open>
  C6. In every reachable mempool the number of pending transactions and the number per sender are within the
  limits, no transaction is pending twice, every pending hash is in the deduplication set, and the pool is keyed by
  the price and a unique arrival number of each entry.
\<close>

theorem mempool_within_limits:
  assumes "mempool_reach H ser plain mp"
  shows "total_pending mp \<le> max_evm_txs (mp_limits mp) \<and>
    (\<forall>a. count_per_address (mp_evm_pool mp) a \<le> max_per_address (mp_limits mp)) \<and>
    distinct (map e_hash (pool_values (mp_evm_pool mp))) \<and>
    e_hash ` set (pool_values (mp_evm_pool mp)) \<subseteq> mp_known_txs mp \<and>
    (\<forall>((score, arrival), e) \<in> set (pp_entries (mp_evm_pool mp)). e_score e = score) \<and>
    distinct (map fst (pp_entries (mp_evm_pool mp)))"
  using mempool_reach_ok [OF assms] pool_okD(2,3) by (auto simp: mempool_ok_def total_pending_def)

theorem mempool_within_limits_witness:
  "total_pending two_txs = 2 \<and> total_pending two_txs \<le> max_evm_txs (mp_limits two_txs)"
  using mempool_within_limits [OF two_txs_reach] by (simp add: two_txs_entries total_pending_def pool_len_def)

text \<open>
  C25. Where every insertion checks the nonce, two pending transactions of one sender never have the same nonce, except for the largest 64-bit nonce,
  at which the expected nonce saturates.
\<close>

theorem pending_nonces_differ:
  assumes "mempool_reach H ser False mp"
    and "x \<in> set (pool_values (mp_evm_pool mp))" "y \<in> set (pool_values (mp_evm_pool mp))"
    and "e_sender x = e_sender y" "e_nonce x = e_nonce y" "e_nonce x \<noteq> - 1"
  shows "x = y"
  using mempool_reach_no_clash [OF assms(1)] assms(2-) by (auto simp: no_clash_def clash_def pool_values_def)

theorem pending_nonces_differ_witness:
  "set (pool_values (mp_evm_pool two_txs)) = {sample_entry 0 5, sample_entry 1 9} \<and>
   e_sender (sample_entry 0 5) = e_sender (sample_entry 1 9) \<and> e_nonce (sample_entry 0 5) \<noteq> e_nonce (sample_entry 1 9)"
  using pending_nonces_differ [OF two_txs_reach, of "sample_entry 0 5" "sample_entry 1 9"]
  by (auto simp: two_txs_entries pool_values_def sample_entry_def entry_new_def)

text \<open>
  A transaction that expires can not be submitted again: pruning takes it out of the pool and leaves its
  hash in the deduplication set, so the same transaction is refused as a duplicate although it is not pending.
\<close>

theorem expired_tx_refused:
  assumes "mempool_reach H ser plain mp" "e \<in> set (pool_values (mp_evm_pool mp))"
    "is_expired e (mp_current_block mp) (lifetime_blocks (mp_limits mp))" "ser tx = Inr data" "H data = e_hash e"
  shows "\<not> pool_contains (mp_evm_pool (snd (prune_expired mp))) (e_hash e) \<and>
    insert_evm_tx H ser now tx (snd (prune_expired mp)) = (Inl (Duplicate (e_hash e)), snd (prune_expired mp))"
proof -
  have ok: "mempool_ok mp" "pool_ok (mp_evm_pool mp)" using mempool_reach_ok [OF assms(1)] by (simp_all add: mempool_ok_def)
  have "e_hash e \<in> mp_known_txs mp" using ok(1) assms(2) by (auto simp: mempool_ok_def)
  then have "insert_evm_tx H ser now tx (snd (prune_expired mp)) = (Inl (Duplicate (e_hash e)), snd (prune_expired mp))"
    using assms(4,5) by (simp add: insert_evm_tx_def sbind_run Let_def prune_run [OF ok(2)])
  note dup = this
  have inj: "inj_on e_hash (set (pool_values (mp_evm_pool mp)))" using ok(1) by (simp add: mempool_ok_def distinct_map)
  have nc: "\<not> pool_contains (mp_evm_pool (snd (prune_expired mp))) (e_hash e)"
  proof
    assume "pool_contains (mp_evm_pool (snd (prune_expired mp))) (e_hash e)"
    then obtain x where x: "x \<in> set (pool_values (mp_evm_pool mp))" "e_hash x = e_hash e"
      "\<not> is_expired x (mp_current_block mp) (lifetime_blocks (mp_limits mp))"
      by (force simp: pool_contains_def list_ex_iff prune_run [OF ok(2)] pool_values_def)
    from inj_onD [OF inj x(2,1) assms(2)] x(3) assms(3) show False by simp
  qed
  from nc dup show ?thesis by (rule conjI)
qed

theorem expired_tx_refused_witness:
  "insert_evm_tx sample_tx_hash sample_ser 9 (sample_tx 0 5) (snd (prune_expired (set_current_block 72 two_txs))) =
     (Inl (Duplicate 5), snd (prune_expired (set_current_block 72 two_txs)))"
  using expired_tx_refused [OF mempool_reach.step [OF two_txs_reach mempool_step.block], of "sample_entry 0 5" 72 "sample_tx 0 5" "[0, 5]" 9]
  by (simp add: two_txs_entries pool_values_def sample_entry_def entry_new_def set_current_block_def is_expired_def saturating_sub_def
      sample_ser_def sample_tx_hash_def sample_tx_def from_be_bytes_def be_nat_def two_txs_limits)

end
