(* ===== verification/Defense.thy ===== *)
theory Defense
  imports Prelude
begin

text \<open>
  The base fee and the admission control of the node: \<^verbatim>\<open>crates/protocol/src/gas.rs\<close> and
  \<^verbatim>\<open>crates/protocol/src/security.rs\<close>. Signed 128-bit arithmetic is written on integers with the saturation
  and wrap-around of the sources; a division by zero, which panics, is \<open>None\<close>. Release arithmetic is
  used for unsigned additions. A hash map is a partial function; the iteration order of the hash set of
  the replay protector is a parameter.
\<close>

section \<open>Fee parameters\<close>

definition MIN_PRIORITY_FEE_PER_GAS :: u128 where "MIN_PRIORITY_FEE_PER_GAS = 1"

record fee_params =
  fp_base_fee :: u128
  fp_target_gas_per_block :: u64
  fp_max_gas_per_block :: u64
  fp_adjustment_coefficient :: u128
  fp_min_base_fee :: u128
  fp_max_base_fee :: u128
  fp_initial_base_fee :: u128
  fp_oracle_fee_share_bps :: u16
  fp_validator_fee_share_bps :: u16

definition default_fee_params :: fee_params where
  "default_fee_params = \<lparr>fp_base_fee = 10, fp_target_gas_per_block = 10000000, fp_max_gas_per_block = 20000000,
     fp_adjustment_coefficient = 1, fp_min_base_fee = 1, fp_max_base_fee = 1000000000, fp_initial_base_fee = 10,
     fp_oracle_fee_share_bps = 100, fp_validator_fee_share_bps = 0\<rparr>"

text \<open>\<^verbatim>\<open>as i128\<close>, wrap-around of a product, and division rounding towards zero.\<close>

definition as_i128 :: "u128 \<Rightarrow> int" where
  "as_i128 x = sint x"

definition wrap_i128 :: "int \<Rightarrow> int" where
  "wrap_i128 x = sint (of_int x :: u128)"

definition saturating_div_i128 :: "int \<Rightarrow> int \<Rightarrow> int option" where
  "saturating_div_i128 a b = (if b = 0 then None else Some (sat_i 128 (sgn a * sgn b * (\<bar>a\<bar> div \<bar>b\<bar>))))"

definition update_base_fee :: "u64 \<Rightarrow> fee_params \<Rightarrow> fee_params option" where
  "update_base_fee gas_used p =
     (let target = int (unat (fp_target_gas_per_block p));
          used = int (unat gas_used);
          diff = used - target
      in if diff > 0 then
           let numerator = wrap_i128 (diff * as_i128 (fp_adjustment_coefficient p));
               denominator = target * 8
           in case saturating_div_i128 (sat_i 128 (as_i128 (fp_base_fee p) * numerator)) denominator of
                None \<Rightarrow> None
              | Some increase \<Rightarrow> Some (p\<lparr>fp_base_fee := of_int (max (min (sat_i 128 (as_i128 (fp_base_fee p) + increase))
                  (as_i128 (fp_max_base_fee p))) (as_i128 (fp_min_base_fee p)))\<rparr>)
         else if diff < 0 then
           let numerator = wrap_i128 ((- diff) * as_i128 (fp_adjustment_coefficient p));
               denominator = target * 8
           in case saturating_div_i128 (sat_i 128 (as_i128 (fp_base_fee p) * numerator)) denominator of
                None \<Rightarrow> None
              | Some decrease \<Rightarrow> Some (p\<lparr>fp_base_fee := of_int (max (sat_i 128 (as_i128 (fp_base_fee p) - decrease))
                  (as_i128 (fp_min_base_fee p)))\<rparr>)
         else Some p)"

section \<open>Rate limiting\<close>

datatype security_error =
    RateLimited | ReplayDetected | AddressSaturation | MessageTooLarge nat nat | PeerRateLimited

record rate_limiter =
  rl_max_requests :: u32
  rl_window_ms :: u64
  rl_counters :: "address \<rightharpoonup> u32 \<times> u64"

definition rl_new :: "u32 \<Rightarrow> u64 \<Rightarrow> rate_limiter" where
  "rl_new max_requests window_ms = \<lparr>rl_max_requests = max_requests, rl_window_ms = window_ms, rl_counters = Map.empty\<rparr>"

definition allow :: "address \<Rightarrow> u64 \<Rightarrow> rate_limiter \<Rightarrow> bool \<times> rate_limiter" where
  "allow addr current_time_ms rl =
     (let (count, window_start) = unwrap_or (0, current_time_ms) (rl_counters rl addr);
          put = (\<lambda>e. rl\<lparr>rl_counters := (rl_counters rl)(addr \<mapsto> e)\<rparr>)
      in if window_start + rl_window_ms rl \<le> current_time_ms then (True, put (1, current_time_ms))
         else if count < rl_max_requests rl then (True, put (count + 1, window_start))
         else (False, put (count, window_start)))"

definition rl_cleanup :: "u64 \<Rightarrow> rate_limiter \<Rightarrow> rate_limiter" where
  "rl_cleanup current_time_ms rl = rl\<lparr>rl_counters := (\<lambda>a. case rl_counters rl a of None \<Rightarrow> None
     | Some (c, ws) \<Rightarrow> if current_time_ms < ws + rl_window_ms rl then Some (c, ws) else None)\<rparr>"

section \<open>Replay protection\<close>

record replay_protector =
  seen_hashes :: "u256 set"
  max_seen :: nat

definition rp_new :: "nat \<Rightarrow> replay_protector" where
  "rp_new m = \<lparr>seen_hashes = {}, max_seen = m\<rparr>"

definition check_and_record :: "(u256 set \<Rightarrow> u256 list) \<Rightarrow> u256 \<Rightarrow> replay_protector \<Rightarrow> bool \<times> replay_protector" where
  "check_and_record iter hash rp =
     (let first_seen = hash \<notin> seen_hashes rp;
          seen = insert hash (seen_hashes rp);
          seen' = (if max_seen rp < card seen
                   then seen - set (take (max_seen rp div 4) (filter (\<lambda>h. h \<noteq> hash) (iter seen)))
                   else seen)
      in (first_seen, rp\<lparr>seen_hashes := seen'\<rparr>))"

definition remove_hash :: "u256 \<Rightarrow> replay_protector \<Rightarrow> replay_protector" where
  "remove_hash hash rp = rp\<lparr>seen_hashes := seen_hashes rp - {hash}\<rparr>"

section \<open>Mempool defence\<close>

record mempool_defense =
  md_rate_limiter :: rate_limiter
  md_replay_protector :: replay_protector
  md_tx_counts :: "address \<rightharpoonup> u32"
  md_max_txs_per_address :: u32

definition md_new :: "u32 \<Rightarrow> u64 \<Rightarrow> nat \<Rightarrow> u32 \<Rightarrow> mempool_defense" where
  "md_new rate_limit rate_window_ms max_seen_hashes max_txs_per_address =
     \<lparr>md_rate_limiter = rl_new rate_limit rate_window_ms, md_replay_protector = rp_new max_seen_hashes,
      md_tx_counts = Map.empty, md_max_txs_per_address = max_txs_per_address\<rparr>"

definition validate_tx_submission :: "(u256 set \<Rightarrow> u256 list) \<Rightarrow> address \<Rightarrow> u256 \<Rightarrow> u64 \<Rightarrow> (mempool_defense, security_error, unit) smonad" where
  "validate_tx_submission iter sender hash current_time_ms =
     sbind (\<lambda>md. case allow sender current_time_ms (md_rate_limiter md) of (ok, rl) \<Rightarrow> (Inr ok, md\<lparr>md_rate_limiter := rl\<rparr>)) (\<lambda>allowed.
     sbind (sguard (\<not> allowed) RateLimited) (\<lambda>_.
     sbind (\<lambda>md. case check_and_record iter hash (md_replay_protector md) of (ok, rp) \<Rightarrow> (Inr ok, md\<lparr>md_replay_protector := rp\<rparr>)) (\<lambda>first_seen.
     sbind (sguard (\<not> first_seen) ReplayDetected) (\<lambda>_.
     sbind (sget (\<lambda>md. unwrap_or 0 (md_tx_counts md sender))) (\<lambda>count.
     sbind (smodify (\<lambda>md. md\<lparr>md_tx_counts := (md_tx_counts md)(sender \<mapsto> count)\<rparr>)) (\<lambda>_.
     sbind (sget md_max_txs_per_address) (\<lambda>limit.
     sbind (sguard (limit \<le> count) AddressSaturation) (\<lambda>_.
     smodify (\<lambda>md. md\<lparr>md_tx_counts := (md_tx_counts md)(sender \<mapsto> count + 1)\<rparr>)))))))))"

definition on_tx_confirmed :: "address \<Rightarrow> mempool_defense \<Rightarrow> mempool_defense" where
  "on_tx_confirmed sender md = (case md_tx_counts md sender of None \<Rightarrow> md
     | Some count \<Rightarrow> md\<lparr>md_tx_counts := (md_tx_counts md)(sender \<mapsto> saturating_sub count 1)\<rparr>)"

definition rollback_submission :: "address \<Rightarrow> u256 \<Rightarrow> mempool_defense \<Rightarrow> mempool_defense" where
  "rollback_submission sender hash md =
     (let md1 = (case md_tx_counts md sender of None \<Rightarrow> md
                 | Some count \<Rightarrow> md\<lparr>md_tx_counts := (md_tx_counts md)(sender \<mapsto> saturating_sub count 1)\<rparr>)
      in md1\<lparr>md_replay_protector := remove_hash hash (md_replay_protector md1)\<rparr>)"

definition md_cleanup :: "u64 \<Rightarrow> mempool_defense \<Rightarrow> mempool_defense" where
  "md_cleanup current_time_ms md = md\<lparr>md_rate_limiter := rl_cleanup current_time_ms (md_rate_limiter md)\<rparr>"

section \<open>Peer defence\<close>

record p2p_defense =
  pd_peer_rates :: "string \<rightharpoonup> u32 \<times> u64"
  pd_max_msgs_per_window :: u32
  pd_window_ms :: u64
  pd_max_message_size :: nat

definition pd_new :: "u32 \<Rightarrow> u64 \<Rightarrow> nat \<Rightarrow> p2p_defense" where
  "pd_new max_msgs window max_size =
     \<lparr>pd_peer_rates = Map.empty, pd_max_msgs_per_window = max_msgs, pd_window_ms = window, pd_max_message_size = max_size\<rparr>"

definition validate_message :: "string \<Rightarrow> nat \<Rightarrow> u64 \<Rightarrow> (p2p_defense, security_error, unit) smonad" where
  "validate_message peer_id message_size current_time_ms = (\<lambda>pd.
     if pd_max_message_size pd < message_size then (Inl (MessageTooLarge message_size (pd_max_message_size pd)), pd)
     else
       let (count, window_start) = unwrap_or (0, current_time_ms) (pd_peer_rates pd peer_id);
           put = (\<lambda>e. pd\<lparr>pd_peer_rates := (pd_peer_rates pd)(peer_id \<mapsto> e)\<rparr>)
       in if window_start + pd_window_ms pd \<le> current_time_ms then (Inr (), put (1, current_time_ms))
          else if pd_max_msgs_per_window pd \<le> count then (Inl PeerRateLimited, put (count, window_start))
          else (Inr (), put (count + 1, window_start)))"

definition pd_cleanup :: "u64 \<Rightarrow> p2p_defense \<Rightarrow> p2p_defense" where
  "pd_cleanup current_time_ms pd = pd\<lparr>pd_peer_rates := (\<lambda>p. case pd_peer_rates pd p of None \<Rightarrow> None
     | Some (c, ws) \<Rightarrow> if current_time_ms < ws + pd_window_ms pd then Some (c, ws) else None)\<rparr>"

end
