(* ===== verification/Defense_Props.thy ===== *)
theory Defense_Props
  imports Defense
begin

text \<open>
  The base fee as arithmetic on natural numbers (\<open>next_fee\<close>), with its bounds; the window discipline of the rate
  limiter over whole histories of requests and clean-ups; the size bound of the replay protector; and what a refused
  submission leaves behind.
\<close>

section \<open>The base fee\<close>

definition fee_params_ok :: "fee_params \<Rightarrow> bool" where
  "fee_params_ok p \<longleftrightarrow> 0 < fp_target_gas_per_block p \<and> unat (fp_adjustment_coefficient p) \<le> 8 \<and>
     fp_min_base_fee p \<le> fp_base_fee p \<and> fp_base_fee p \<le> fp_max_base_fee p \<and> unat (fp_max_base_fee p) < 2 ^ 59"

text \<open>The fee after a block with utilisation \<open>u\<close>, target \<open>t\<close> and coefficient \<open>c\<close>.\<close>

definition next_fee :: "nat \<Rightarrow> nat \<Rightarrow> nat \<Rightarrow> nat \<Rightarrow> nat \<Rightarrow> nat \<Rightarrow> nat" where
  "next_fee t c mn mx u b = (if t < u then min (b + b * ((u - t) * c) div (t * 8)) mx
     else max (b - b * ((t - u) * c) div (t * 8)) mn)"

lemma signed_small:
  assumes "n < 2 ^ 127"
  shows "signed_take_bit 127 (int n) = int n"
proof -
  have "int n < int (2 ^ 127)" using assms by (simp only: of_nat_less_iff)
  then show ?thesis by (intro signed_take_bit_int_eq_self) simp_all
qed

lemma sint_small: "unat (x :: u128) < 2 ^ 127 \<Longrightarrow> sint x = int (unat x)"
  using signed_small [of "unat x"] by (simp add: sint_uint)

lemma sat_i_small: "0 \<le> x \<Longrightarrow> x < 2 ^ 127 \<Longrightarrow> sat_i 128 x = x"
  by (simp add: sat_i_def)

lemma sat_i_nat: "n \<le> 2 ^ 126 \<Longrightarrow> sat_i 128 (int n) = int n"
  by (rule sat_i_small) (simp_all add: order_le_less_trans [of _ "2 ^ 126"])

lemma wrap_small:
  assumes "n < 2 ^ 127"
  shows "wrap_i128 (int n) = int n"
proof -
  have u: "unat (of_nat n :: u128) = n" using assms by (simp add: unat_of_nat)
  then show ?thesis unfolding wrap_i128_def of_int_of_nat_eq using sint_small [of "of_nat n"] assms by simp
qed

lemma trunc_div_nat:
  assumes "0 < m" "x div m \<le> 2 ^ 126"
  shows "saturating_div_i128 (int x) (int m) = Some (int (x div m))"
proof -
  have "sgn (int x) * sgn (int m) * (\<bar>int x\<bar> div \<bar>int m\<bar>) = int (x div m)"
    using assms(1) by (cases "x = 0") (simp_all add: zdiv_int sgn_if)
  then show ?thesis using assms sat_i_nat by (simp add: saturating_div_i128_def)
qed

lemma fee_step:
  assumes "b < 2 ^ 59" "d < 2 ^ 64" "c \<le> 8" "0 < t" "t < 2 ^ 64"
  shows "wrap_i128 (int d * int c) = int (d * c)"
    "sat_i 128 (int b * int (d * c)) = int (b * (d * c))"
    "saturating_div_i128 (int (b * (d * c))) (int t * 8) = Some (int (b * (d * c) div (t * 8)))"
    "b * (d * c) div (t * 8) \<le> 2 ^ 126"
proof -
  have dc: "d * c \<le> 2 ^ 64 * 8" using assms(2,3) by (intro mult_le_mono) simp_all
  have bdc: "b * (d * c) \<le> 2 ^ 59 * (2 ^ 64 * 8)" by (rule mult_le_mono [OF less_imp_le [OF assms(1)] dc])
  show "wrap_i128 (int d * int c) = int (d * c)" using wrap_small [of "d * c"] dc by simp
  have "b * (d * c) < 2 ^ 127" by (rule le_less_trans [OF bdc]) simp
  then have "int (b * (d * c)) < int (2 ^ 127)" by (simp only: of_nat_less_iff)
  then have "sat_i 128 (int (b * (d * c))) = int (b * (d * c))" by (intro sat_i_small) simp_all
  then show "sat_i 128 (int b * int (d * c)) = int (b * (d * c))" by (simp only: of_nat_mult)
  have q: "b * (d * c) div (t * 8) \<le> b * (d * c)" by simp
  show lt: "b * (d * c) div (t * 8) \<le> 2 ^ 126" using order_trans [OF q bdc] by simp
  show "saturating_div_i128 (int (b * (d * c))) (int t * 8) = Some (int (b * (d * c) div (t * 8)))"
    using trunc_div_nat [OF _ lt] assms(4) by simp
qed

lemma update_base_fee_next:
  assumes ok: "fee_params_ok p"
  shows "\<exists>q. update_base_fee g p = Some q \<and> q = p\<lparr>fp_base_fee := fp_base_fee q\<rparr> \<and>
    unat (fp_base_fee q) = next_fee (unat (fp_target_gas_per_block p)) (unat (fp_adjustment_coefficient p))
      (unat (fp_min_base_fee p)) (unat (fp_max_base_fee p)) (unat g) (unat (fp_base_fee p))"
proof -
  define b t c mn mx u where d: "b = unat (fp_base_fee p)" "t = unat (fp_target_gas_per_block p)"
    "c = unat (fp_adjustment_coefficient p)" "mn = unat (fp_min_base_fee p)" "mx = unat (fp_max_base_fee p)" "u = unat g"
  have bnd: "b < 2 ^ 59" "c \<le> 8" "0 < t" "t < 2 ^ 64" "u < 2 ^ 64" "mn \<le> b" "b \<le> mx" "mx < 2 ^ 59"
    using ok unsigned_less [of "fp_target_gas_per_block p", where ?'a = nat] unsigned_less [of g, where ?'a = nat]
    by (auto simp: fee_params_ok_def d word_le_nat_alt unat_gt_0)
  have i: "as_i128 (fp_base_fee p) = int b" "as_i128 (fp_adjustment_coefficient p) = int c"
      "as_i128 (fp_min_base_fee p) = int mn" "as_i128 (fp_max_base_fee p) = int mx"
    using bnd by (simp_all add: as_i128_def sint_small d)
  have unwrap: "unat (of_int (int n) :: u128) = n" if "n < 2 ^ 127" for n using that by (simp add: unat_of_nat)
  consider (more) "t < u" | (less) "u < t" | (same) "u = t" by linarith
  then have "\<exists>n. update_base_fee g p = Some (p\<lparr>fp_base_fee := of_int (int n)\<rparr>) \<and> n = next_fee t c mn mx u b"
  proof cases
    case more
    let ?x = "b * ((u - t) * c) div (t * 8)"
    note S = fee_step [OF bnd(1) _ bnd(2-4), of "u - t"]
    have lt: "u - t < 2 ^ 64" using bnd by simp
    have "int u - int t = int (u - t)" using more by simp
    moreover have "sat_i 128 (int b + int ?x) = int (b + ?x)"
      using sat_i_small [of "int (b + ?x)"] S(4) [OF lt] bnd(1) by simp
    ultimately show ?thesis
      using more bnd S(1-3) [OF lt] by (simp add: update_base_fee_def Let_def i next_fee_def flip: d)
        (simp add: min_def max_def)
  next
    case less
    let ?x = "b * ((t - u) * c) div (t * 8)"
    note S = fee_step [OF bnd(1) _ bnd(2-4), of "t - u"]
    have lt: "t - u < 2 ^ 64" using bnd by simp
    have "- (int u - int t) = int (t - u)" using less by simp
    moreover have "max (sat_i 128 (int b - int ?x)) (int mn) = int (max (b - ?x) mn)"
      using bnd S(4) [OF lt] by (simp add: sat_i_def)
    ultimately show ?thesis
      using less bnd S(1-3) [OF lt] by (simp add: update_base_fee_def Let_def i next_fee_def flip: d)
  next
    case same
    then show ?thesis using bnd by (simp add: update_base_fee_def Let_def next_fee_def d)
  qed
  then obtain n where n: "update_base_fee g p = Some (p\<lparr>fp_base_fee := of_int (int n)\<rparr>)" "n = next_fee t c mn mx u b" by blast
  have "n < 2 ^ 127" using bnd n(2) by (auto simp: next_fee_def)
  from unwrap [OF this] n show ?thesis by (simp add: d)
qed

lemma next_fee_move: "8 * t * (b * (d * c) div (t * 8)) \<le> b * c * (d :: nat)"
  using div_times_less_eq_dividend [of "b * (d * c)" "t * 8"] by (simp add: ac_simps)

lemma next_fee_bounds:
  assumes "mn \<le> b" "b \<le> mx"
  shows "mn \<le> next_fee t c mn mx u b" "next_fee t c mn mx u b \<le> mx"
    "t < u \<Longrightarrow> b \<le> next_fee t c mn mx u b" "u \<le> t \<Longrightarrow> next_fee t c mn mx u b \<le> b"
    "8 * int t * \<bar>int (next_fee t c mn mx u b) - int b\<bar> \<le> int b * int c * \<bar>int u - int t\<bar>"
proof -
  let ?d = "if t < u then u - t else t - u"
  have d: "\<bar>int u - int t\<bar> = int ?d" by auto
  have "\<bar>int (next_fee t c mn mx u b) - int b\<bar> \<le> int (b * (?d * c) div (t * 8))"
    using assms by (auto simp: next_fee_def)
  then have "8 * int t * \<bar>int (next_fee t c mn mx u b) - int b\<bar> \<le> int (8 * t * (b * (?d * c) div (t * 8)))"
    unfolding of_nat_mult of_nat_numeral by (intro mult_left_mono) simp_all
  also have "\<dots> \<le> int (b * c * ?d)" by (simp only: of_nat_le_iff next_fee_move)
  finally show "8 * int t * \<bar>int (next_fee t c mn mx u b) - int b\<bar> \<le> int b * int c * \<bar>int u - int t\<bar>"
    unfolding d by simp
qed (use assms in \<open>auto simp: next_fee_def\<close>)

text \<open>
  With the default parameters three empty blocks bring the fee from 10 to 7, and from then on no sequence of blocks
  within the gas limit moves it.
\<close>

lemma next_fee_seven:
  assumes "u \<le> 20000000"
  shows "next_fee 10000000 1 1 1000000000 u 7 = 7"
proof -
  have "7 * (u - 10000000) < 80000000" "7 * (10000000 - u) < 80000000" using assms by simp_all
  then show ?thesis by (simp add: next_fee_def)
qed

definition fee_after :: "u64 list \<Rightarrow> fee_params \<Rightarrow> fee_params option" where
  "fee_after gs p = fold (\<lambda>g r. Option.bind r (update_base_fee g)) gs (Some p)"

lemma fee_after_Cons: "update_base_fee g p = Some q \<Longrightarrow> fee_after (g # gs) p = fee_after gs q"
  by (simp add: fee_after_def)

lemma default_fee_step:
  assumes "fp_base_fee p = b" "p = default_fee_params\<lparr>fp_base_fee := b\<rparr>" "1 \<le> unat b" "unat b \<le> 10"
    "next_fee 10000000 1 1 1000000000 (unat g) (unat b) = unat b'"
  shows "update_base_fee g p = Some (default_fee_params\<lparr>fp_base_fee := b'\<rparr>)"
proof -
  have ok: "fee_params_ok p" using assms(3,4) by (simp add: assms(2) fee_params_ok_def default_fee_params_def word_le_nat_alt)
  obtain q where q: "update_base_fee g p = Some q" "q = p\<lparr>fp_base_fee := fp_base_fee q\<rparr>" "unat (fp_base_fee q) = unat b'"
    using update_base_fee_next [OF ok, of g] assms(5) by (auto simp: assms(2) default_fee_params_def)
  have "q = p\<lparr>fp_base_fee := b'\<rparr>" using q(2) by (simp only: word_unat_eq_iff [THEN iffD2, OF q(3)])
  then show ?thesis using q(1) by (simp add: assms(2))
qed

lemma base_fee_stuck:
  assumes "\<forall>g \<in> set gs. unat g \<le> 20000000"
  shows "fee_after ([0, 0, 0] @ gs) default_fee_params = Some (default_fee_params\<lparr>fp_base_fee := 7\<rparr>)"
proof -
  let ?p = "\<lambda>b. default_fee_params\<lparr>fp_base_fee := b\<rparr>"
  have step: "update_base_fee g (?p b) = Some (?p b')"
    if "1 \<le> unat b" "unat b \<le> 10" "next_fee 10000000 1 1 1000000000 (unat g) (unat b) = unat b'" for g b b'
    by (rule default_fee_step [OF _ refl that]) simp
  have "fee_after gs (?p 7) = Some (?p 7)"
    using assms by (induction gs) (simp add: fee_after_def, subst fee_after_Cons [OF step], simp_all add: next_fee_seven [unfolded One_nat_def])
  moreover have empty: "update_base_fee 0 (?p 10) = Some (?p 9)" "update_base_fee 0 (?p 9) = Some (?p 8)" "update_base_fee 0 (?p 8) = Some (?p 7)"
    by (rule step, simp_all add: next_fee_def)+
  moreover have "fee_after ([0, 0, 0] @ gs) default_fee_params = fee_after ([0, 0, 0] @ gs) (?p 10)"
    by (simp add: default_fee_params_def)
  ultimately show ?thesis by (simp only: append_Cons append_Nil fee_after_Cons)
qed

section \<open>The rate limiter over time\<close>

datatype rl_event = Request address u64 | Cleanup u64

fun event_time :: "rl_event \<Rightarrow> nat" where
  "event_time (Request a t) = unat t"
| "event_time (Cleanup t) = unat t"

text \<open>The requests of a history that are allowed.\<close>

fun allowed :: "rl_event list \<Rightarrow> rate_limiter \<Rightarrow> (address \<times> u64) list" where
  "allowed [] rl = []"
| "allowed (Request a t # es) rl = (case allow a t rl of (ok, rl') \<Rightarrow> (if ok then [(a, t)] else []) @ allowed es rl')"
| "allowed (Cleanup t # es) rl = allowed es (rl_cleanup t rl)"

text \<open>The number of times in a log within an interval.\<close>

definition tally :: "nat list \<Rightarrow> nat \<Rightarrow> nat \<Rightarrow> nat" where
  "tally acc lo hi = length (filter (\<lambda>x. lo \<le> x \<and> x < hi) acc)"

lemma tally_Nil [simp]: "tally [] lo hi = 0"
  by (simp add: tally_def)

lemma tally_snoc [simp]: "tally (acc @ [t]) lo hi = tally acc lo hi + (if lo \<le> t \<and> t < hi then 1 else 0)"
  by (simp add: tally_def)

lemma tally_split: "tally acc lo hi \<le> tally acc lo m + tally acc m hi"
  by (induction acc) (auto simp: tally_def)

lemma tally_mono: "(\<And>x. x \<in> set acc \<Longrightarrow> lo \<le> x \<Longrightarrow> x < hi \<Longrightarrow> lo' \<le> x \<and> x < hi') \<Longrightarrow> tally acc lo hi \<le> tally acc lo' hi'"
  by (induction acc) (auto simp: tally_def)

lemma tally_none: "(\<And>x. x \<in> set acc \<Longrightarrow> \<not> (lo \<le> x \<and> x < hi)) \<Longrightarrow> tally acc lo hi = 0"
  by (auto simp: tally_def filter_empty_conv)

text \<open>
  A log of allowed times with the current window: \<open>c\<close> allowed since its start \<open>ws\<close>, at most \<open>M\<close> in the
  stretch before it, at most \<open>2 * M\<close> in any stretch of the length \<open>w\<close>.
\<close>

definition window_ok :: "nat \<Rightarrow> nat \<Rightarrow> nat list \<Rightarrow> nat \<Rightarrow> nat \<Rightarrow> bool" where
  "window_ok M w acc c ws \<longleftrightarrow> c \<le> M \<and> tally acc ws (ws + w) \<le> c \<and> tally acc (ws - w) ws \<le> M \<and>
     (\<forall>x \<in> set acc. x < ws + w) \<and> (\<forall>T. tally acc T (T + w) \<le> 2 * M)"

lemma window_start: "1 \<le> M \<Longrightarrow> 0 < w \<Longrightarrow> window_ok M w [t] 1 t" "window_ok M w [] 0 t"
  by (auto simp: window_ok_def tally_def)

lemma window_next:
  assumes ok: "window_ok M w acc c ws" and t: "ws + w \<le> t" and M: "1 \<le> M" "0 < w"
  shows "window_ok M w (acc @ [t]) 1 t" "window_ok M w acc 0 t"
proof -
  have old: "x < t" if "x \<in> set acc" for x using ok t that by (force simp: window_ok_def)
  have after: "tally acc t hi = 0" for hi by (rule tally_none) (use old in fastforce)
  have prev: "tally acc lo hi \<le> c" if "ws \<le> lo" for lo hi
  proof -
    have "tally acc lo hi \<le> tally acc ws (ws + w)"
      by (rule tally_mono) (use ok that in \<open>auto simp: window_ok_def\<close>)
    then show ?thesis using ok by (simp add: window_ok_def)
  qed
  have T: "tally acc T (T + w) + 1 \<le> 2 * M" if "t < T + w" for T
    using prev [of T "T + w"] that t ok M by (simp add: window_ok_def)
  show "window_ok M w acc 0 t"
    using prev [of "t - w" t] t ok after old M by (fastforce simp: window_ok_def)
  then show "window_ok M w (acc @ [t]) 1 t"
    using T after M by (auto simp: window_ok_def)
qed

lemma window_more:
  assumes ok: "window_ok M w acc c ws" and t: "ws \<le> t" "t < ws + w" and c: "c < M"
  shows "window_ok M w (acc @ [t]) (c + 1) ws"
proof -
  have "tally acc T (T + w) + 1 \<le> 2 * M" if "T \<le> t" "t < T + w" for T
  proof -
    have "tally acc T (T + w) \<le> tally acc T ws + tally acc ws (T + w)" by (rule tally_split)
    also have "tally acc T ws \<le> tally acc (ws - w) ws" by (rule tally_mono) (use that t in auto)
    also have "tally acc ws (T + w) \<le> tally acc ws (ws + w)"
      by (rule tally_mono) (use ok in \<open>auto simp: window_ok_def\<close>)
    finally show ?thesis using ok c by (simp add: window_ok_def)
  qed
  then show ?thesis using ok t c by (auto simp: window_ok_def)
qed

text \<open>
  The counter of an address fits the log of its allowed requests: a missing counter means that none was
  allowed, or that the last window is over.
\<close>

definition counter_ok :: "nat \<Rightarrow> nat \<Rightarrow> nat list \<Rightarrow> nat \<Rightarrow> (u32 \<times> u64) option \<Rightarrow> bool" where
  "counter_ok M w acc now st \<longleftrightarrow> (case st of
       None \<Rightarrow> acc = [] \<or> (\<exists>c ws. window_ok M w acc c ws \<and> ws + w \<le> now)
     | Some (c, ws) \<Rightarrow> window_ok M w acc (unat c) (unat ws) \<and> unat ws \<le> now \<and> unat ws + w < 2 ^ 64)"

definition limiter_ok :: "rate_limiter \<Rightarrow> address \<Rightarrow> nat list \<Rightarrow> nat \<Rightarrow> bool" where
  "limiter_ok rl a acc now \<longleftrightarrow> 0 < unat (rl_window_ms rl) \<and>
     counter_ok (max 1 (unat (rl_max_requests rl))) (unat (rl_window_ms rl)) acc now (rl_counters rl a)"

lemma unat_window: "unat ws + unat w < 2 ^ 64 \<Longrightarrow> unat (ws + w :: u64) = unat ws + unat w"
  by (rule unat_add_lem [THEN iffD1]) simp

lemma unat_Suc_u32: "c < (m :: u32) \<Longrightarrow> unat (c + 1) = unat c + 1"
  using unsigned_less [of m, where ?'a = nat] by (subst unat_add_lem [THEN iffD1]) (auto simp: word_less_nat_alt)

lemma limiter_request:
  assumes ok: "limiter_ok rl a acc now" and t: "now \<le> unat t" "unat t + unat (rl_window_ms rl) < 2 ^ 64"
    and run: "allow a t rl = (b, rl')"
  shows "limiter_ok rl' a (if b then acc @ [unat t] else acc) (unat t)"
proof (cases "rl_counters rl a")
  case None
  have w: "0 < unat (rl_window_ms rl)" using ok by (simp add: limiter_ok_def)
  have "\<not> t + rl_window_ms rl \<le> t" using w t unat_window [OF t(2)] by (simp add: word_le_nat_alt)
  moreover have "acc = [] \<or> (\<exists>c ws. window_ok (max 1 (unat (rl_max_requests rl))) (unat (rl_window_ms rl)) acc c ws \<and> ws + unat (rl_window_ms rl) \<le> unat t)"
    using ok None t by (fastforce simp: limiter_ok_def counter_ok_def)
  ultimately show ?thesis
    using run ok w t None window_start window_next
    by (auto simp: allow_def limiter_ok_def counter_ok_def split: if_splits)
next
  case (Some e)
  obtain c ws where e: "e = (c, ws)" by force
  let ?M = "max 1 (unat (rl_max_requests rl))" and ?w = "unat (rl_window_ms rl)"
  have w: "0 < ?w" using ok by (simp add: limiter_ok_def)
  have win: "window_ok ?M ?w acc (unat c) (unat ws)" "unat ws \<le> unat t" "unat ws + ?w < 2 ^ 64"
    using ok Some e t by (auto simp: limiter_ok_def counter_ok_def)
  have le: "(ws + rl_window_ms rl \<le> t) = (unat ws + ?w \<le> unat t)"
    by (simp add: word_le_nat_alt unat_window [OF win(3)])
  consider (fresh) "unat ws + ?w \<le> unat t" | (more) "\<not> unat ws + ?w \<le> unat t" "c < rl_max_requests rl"
    | (denied) "\<not> unat ws + ?w \<le> unat t" "\<not> c < rl_max_requests rl" by blast
  then show ?thesis
  proof cases
    case fresh
    then show ?thesis using window_next(1) [OF win(1) fresh _ w] run ok Some e le t
      by (auto simp: allow_def limiter_ok_def counter_ok_def)
  next
    case more
    have "unat c < ?M" using more(2) by (simp add: word_less_nat_alt less_max_iff_disj)
    then show ?thesis using window_more [OF win(1) win(2)] more run ok Some e le win unat_Suc_u32 [OF more(2)]
      by (auto simp: allow_def limiter_ok_def counter_ok_def)
  next
    case denied
    then show ?thesis using run ok Some e le win by (auto simp: allow_def limiter_ok_def counter_ok_def)
  qed
qed

lemma limiter_cleanup:
  assumes ok: "limiter_ok rl a acc now" and t: "now \<le> unat t"
  shows "limiter_ok (rl_cleanup t rl) a acc (unat t)"
proof (cases "rl_counters rl a")
  case None
  then show ?thesis using ok t by (fastforce simp: limiter_ok_def counter_ok_def rl_cleanup_def)
next
  case (Some e)
  obtain c ws where e: "e = (c, ws)" by force
  have "unat ws + unat (rl_window_ms rl) < 2 ^ 64" using ok Some e by (simp add: limiter_ok_def counter_ok_def)
  then have "(t < ws + rl_window_ms rl) = (unat t < unat ws + unat (rl_window_ms rl))"
    by (simp add: word_less_nat_alt unat_window)
  then show ?thesis using ok Some e t by (auto simp: limiter_ok_def counter_ok_def rl_cleanup_def not_less)
qed

lemma limiter_other:
  "allow x t rl = (b, rl') \<Longrightarrow> x \<noteq> a \<Longrightarrow> limiter_ok rl a acc now \<Longrightarrow> now \<le> unat t \<Longrightarrow> limiter_ok rl' a acc (unat t)"
  by (fastforce simp: allow_def limiter_ok_def counter_ok_def Let_def split: prod.splits if_splits option.splits)

lemma limiter_bound: "limiter_ok rl a acc now \<Longrightarrow> tally acc T (T + unat (rl_window_ms rl)) \<le> 2 * max 1 (unat (rl_max_requests rl))"
  by (auto simp: limiter_ok_def counter_ok_def window_ok_def split: option.splits)

lemma limiter_params:
  "allow x t rl = (b, rl') \<Longrightarrow> rl_window_ms rl' = rl_window_ms rl \<and> rl_max_requests rl' = rl_max_requests rl"
  "rl_window_ms (rl_cleanup t rl) = rl_window_ms rl \<and> rl_max_requests (rl_cleanup t rl) = rl_max_requests rl"
  by (auto simp: allow_def rl_cleanup_def Let_def split: prod.splits if_splits)

definition times_of :: "address \<Rightarrow> (address \<times> u64) list \<Rightarrow> nat list" where
  "times_of a ps = map (unat \<circ> snd) (filter (\<lambda>p. fst p = a) ps)"

lemma times_of_simps [simp]: "times_of a [] = []" "times_of a (l @ m) = times_of a l @ times_of a m"
  "times_of a [(x, t)] = (if x = a then [unat t] else [])"
  by (simp_all add: times_of_def)

lemma allowed_bound:
  assumes "sorted (map event_time es)" "\<forall>e \<in> set es. now \<le> event_time e \<and> event_time e + unat (rl_window_ms rl) < 2 ^ 64"
    "limiter_ok rl a acc now"
  shows "tally (acc @ times_of a (allowed es rl)) T (T + unat (rl_window_ms rl)) \<le> 2 * max 1 (unat (rl_max_requests rl))"
  using assms
proof (induction es rl arbitrary: acc now rule: allowed.induct)
  case (1 rl)
  then show ?case by (simp add: limiter_bound del: One_nat_def)
next
  case (2 x t es rl)
  obtain b rl' where run: "allow x t rl = (b, rl')" by force
  let ?acc = "if b \<and> x = a then acc @ [unat t] else acc"
  have "limiter_ok rl' a ?acc (unat t)"
    using limiter_request [OF 2(4), of t b rl'] limiter_other [OF run _ 2(4)] run 2(3) by (cases "x = a") auto
  then have "tally (?acc @ times_of a (allowed es rl')) T (T + unat (rl_window_ms rl')) \<le> 2 * max 1 (unat (rl_max_requests rl'))"
    using 2(2,3) limiter_params(1) [OF run] by (intro 2(1) [OF run [symmetric], of "unat t"]) auto
  then show ?case using run limiter_params(1) [OF run] by (auto split: if_splits)
next
  case (3 t es rl)
  have "tally (acc @ times_of a (allowed es (rl_cleanup t rl))) T (T + unat (rl_window_ms (rl_cleanup t rl)))
      \<le> 2 * max 1 (unat (rl_max_requests (rl_cleanup t rl)))"
    using 3(2,3) limiter_params(2) by (intro 3(1) [of "unat t"] limiter_cleanup [OF 3(4)]) auto
  then show ?case by (simp add: limiter_params(2))
qed

section \<open>The size of the replay protector\<close>

lemma just_seen_stays [simp]: "h \<notin> set (take n (filter (\<lambda>x. x \<noteq> h) xs))"
  by (auto dest: in_set_takeD)

lemma hd_in_take: "x \<in> set xs \<Longrightarrow> 0 < n \<Longrightarrow> hd xs \<in> set (take n xs)"
  by (cases xs; cases n) auto

lemma replay_bounded:
  assumes iter: "\<And>S. finite S \<Longrightarrow> set (iter S) = S" and "4 \<le> max_seen rp" "finite (seen_hashes rp)" "card (seen_hashes rp) \<le> max_seen rp"
  shows "card (seen_hashes (snd (check_and_record iter h rp))) \<le> max_seen rp" "h \<in> seen_hashes (snd (check_and_record iter h rp))"
proof -
  define S where "S = insert h (seen_hashes rp)"
  define F where "F = filter (\<lambda>x. x \<noteq> h) (iter S)"
  define R where "R = set (take (max_seen rp div 4) F)"
  have run: "seen_hashes (snd (check_and_record iter h rp)) = (if max_seen rp < card S then S - R else S)"
    by (simp add: check_and_record_def Let_def S_def F_def R_def)
  have fin: "finite S" using assms(3) by (simp add: S_def)
  have F: "set F = S - {h}" using iter [OF fin] by (auto simp: F_def)
  then have R: "R \<subseteq> S - {h}" by (auto simp: R_def dest: in_set_takeD)
  then show "h \<in> seen_hashes (snd (check_and_record iter h rp))" unfolding run by (auto simp: S_def)
  have "card (S - R) \<le> max_seen rp" if big: "max_seen rp < card S"
  proof -
    have "\<not> S \<subseteq> {h}" using card_mono [of "{h}" S] big assms(2) by auto
    then obtain x where "x \<in> set F" using F by auto
    then have "hd F \<in> R" using assms(2) by (auto simp: R_def intro: hd_in_take)
    then have "S - R \<subset> S" using R by auto
    then have "card (S - R) < card S" by (rule psubset_card_mono [OF fin])
    moreover have "card S \<le> Suc (card (seen_hashes rp))" unfolding S_def by (rule card_insert_le_m1) simp_all
    ultimately show ?thesis using assms(4) by simp
  qed
  then show "card (seen_hashes (snd (check_and_record iter h rp))) \<le> max_seen rp" unfolding run by simp
qed

section \<open>Properties\<close>

text \<open>
  C23: for parameters in order (a positive gas target, a coefficient of at most 8, minimum, base and maximum fee in
  order and below \<open>2 ^ 59\<close>) the update of the base fee succeeds on every gas usage and changes nothing but the base
  fee. The new fee is between the minimum and the maximum; it does not fall after a block over the target and does not
  rise after one under it; and it differs from the old one by at most \<open>base * coefficient * |used - target| / (8 * target)\<close>.
\<close>

theorem base_fee_bounds:
  assumes "fee_params_ok p"
  shows "\<exists>q. update_base_fee g p = Some q \<and> q = p\<lparr>fp_base_fee := fp_base_fee q\<rparr> \<and> fee_params_ok q \<and>
    (fp_target_gas_per_block p < g \<longrightarrow> fp_base_fee p \<le> fp_base_fee q) \<and>
    (g \<le> fp_target_gas_per_block p \<longrightarrow> fp_base_fee q \<le> fp_base_fee p) \<and>
    8 * int (unat (fp_target_gas_per_block p)) * \<bar>int (unat (fp_base_fee q)) - int (unat (fp_base_fee p))\<bar> \<le>
      int (unat (fp_base_fee p)) * int (unat (fp_adjustment_coefficient p)) *
      \<bar>int (unat g) - int (unat (fp_target_gas_per_block p))\<bar>"
proof -
  obtain q where q: "update_base_fee g p = Some q" "q = p\<lparr>fp_base_fee := fp_base_fee q\<rparr>"
    and fee: "unat (fp_base_fee q) = next_fee (unat (fp_target_gas_per_block p)) (unat (fp_adjustment_coefficient p))
      (unat (fp_min_base_fee p)) (unat (fp_max_base_fee p)) (unat g) (unat (fp_base_fee p))"
    using update_base_fee_next [OF assms] by blast
  have ord: "unat (fp_min_base_fee p) \<le> unat (fp_base_fee p)" "unat (fp_base_fee p) \<le> unat (fp_max_base_fee p)"
    using assms by (simp_all add: fee_params_ok_def word_le_nat_alt)
  note b = next_fee_bounds [OF ord, where t = "unat (fp_target_gas_per_block p)" and c = "unat (fp_adjustment_coefficient p)"
      and u = "unat g", folded fee]
  have same: "fp_min_base_fee q = fp_min_base_fee p" "fp_max_base_fee q = fp_max_base_fee p"
    "fp_target_gas_per_block q = fp_target_gas_per_block p" "fp_adjustment_coefficient q = fp_adjustment_coefficient p"
    by (subst q(2), simp)+
  show ?thesis
    using q same b assms by (intro exI [of _ q]) (simp add: fee_params_ok_def word_le_nat_alt word_less_nat_alt)
qed

theorem base_fee_bounds_witness:
  "fee_params_ok default_fee_params \<and> (\<exists>q. update_base_fee 30000000 default_fee_params = Some q \<and> fee_params_ok q)"
  using base_fee_bounds [of default_fee_params 30000000] by (auto simp: fee_params_ok_def default_fee_params_def)

text \<open>
  C22: over every history of requests and clean-ups with times that do not go back, and no time so late that the end of
  a window would wrap around, the rate limiter allows an address at most twice \<open>max 1 max_requests\<close> requests in any
  stretch of time as long as its window, wherever the stretch starts.
\<close>

theorem rate_limit_bound:
  assumes "0 < window_ms" "sorted (map event_time es)" "\<forall>e \<in> set es. event_time e + unat window_ms < 2 ^ 64"
  shows "length (filter (\<lambda>(x, t). x = a \<and> T \<le> unat t \<and> unat t < T + unat window_ms) (allowed es (rl_new max_requests window_ms)))
    \<le> 2 * max 1 (unat max_requests)"
proof -
  have "limiter_ok (rl_new max_requests window_ms) a [] 0"
    using assms(1) by (simp add: limiter_ok_def counter_ok_def rl_new_def word_less_nat_alt)
  then have "tally ([] @ times_of a (allowed es (rl_new max_requests window_ms))) T (T + unat (rl_window_ms (rl_new max_requests window_ms)))
      \<le> 2 * max 1 (unat (rl_max_requests (rl_new max_requests window_ms)))"
    using assms by (intro allowed_bound [where now = 0]) (auto simp: rl_new_def)
  then show ?thesis
    by (simp add: tally_def times_of_def filter_map rl_new_def comp_def case_prod_unfold conj_commute conj_left_commute)
qed

theorem rate_limit_bound_witness:
  "map snd (allowed [Request 7 0, Request 7 9, Request 7 9, Cleanup 10, Request 7 10, Request 7 11, Request 7 12] (rl_new 2 10))
     = [0, 9, 10, 11]
   \<and> length (filter (\<lambda>(x, t). x = 7 \<and> 5 \<le> unat t \<and> unat t < 5 + unat (10 :: u64))
       (allowed [Request 7 0, Request 7 9, Request 7 9, Cleanup 10, Request 7 10, Request 7 11, Request 7 12] (rl_new 2 10)))
     \<le> 2 * max 1 (unat (2 :: u32))"
proof
  show "map snd (allowed [Request 7 0, Request 7 9, Request 7 9, Cleanup 10, Request 7 10, Request 7 11, Request 7 12] (rl_new 2 10))
     = [0, 9, 10, 11]"
    by (simp add: allow_def rl_cleanup_def rl_new_def)
qed (rule rate_limit_bound, simp_all)

text \<open>A sender with its one permitted transaction pending, after the hashes \<open>H\<close> were seen.\<close>

definition full_defense :: "u256 set \<Rightarrow> mempool_defense" where
  "full_defense H = (md_new 10 1000 100 1)\<lparr>md_rate_limiter := (rl_new 10 1000)\<lparr>rl_counters := [7 \<mapsto> (of_nat (card H), 0)]\<rparr>,
     md_replay_protector := (rp_new 100)\<lparr>seen_hashes := H\<rparr>, md_tx_counts := [7 \<mapsto> 1]\<rparr>"

lemma full_defense_reached: "snd (validate_tx_submission sorted_list_of_set 7 1 0 (md_new 10 1000 100 1)) = full_defense {1}"
  by (simp add: full_defense_def validate_tx_submission_def md_new_def allow_def rl_new_def check_and_record_def rp_new_def
    sbind_run sguard_def sget_def smodify_def sret_def)

lemma full_defense_refuses: "validate_tx_submission sorted_list_of_set 7 2 1 (full_defense {1}) = (Inl AddressSaturation, full_defense {1, 2})"
  by (simp add: full_defense_def validate_tx_submission_def md_new_def allow_def rl_new_def check_and_record_def rp_new_def
    sbind_run sguard_def sget_def smodify_def sfail_def sret_def insert_commute word_le_nat_alt)

lemma full_defense_allows: "allow 7 2 (md_rate_limiter ((on_tx_confirmed 7 ^^ 1) (full_defense {1, 2}))) =
    (True, (rl_new 10 1000)\<lparr>rl_counters := [7 \<mapsto> (3, 0)]\<rparr>)"
  by (simp add: full_defense_def on_tx_confirmed_def md_new_def allow_def rl_new_def)

text \<open>
  a submission that is turned away because its sender has too many pending transactions still leaves its hash in
  the replay protector: the same transaction sent again, once the sender has room, is refused as a replay. (A caller
  that wants it to be accepted later has to undo the submission, also when the validation itself refuses it.)
\<close>

theorem saturated_submission_burned:
  assumes "validate_tx_submission iter sender hash now md = (Inl AddressSaturation, md')"
    and "md2 = (on_tx_confirmed other ^^ n) md'"
    and "allow sender later (md_rate_limiter md2) = (True, rl)"
  shows "fst (validate_tx_submission iter sender hash later md2) = Inl ReplayDetected"
proof -
  have seen: "hash \<in> seen_hashes (md_replay_protector md')"
    using assms(1) by (auto simp: validate_tx_submission_def check_and_record_def Let_def sbind_run sguard_def sget_def
      smodify_def sfail_def sret_def split: prod.splits if_splits)
  have "md_replay_protector ((on_tx_confirmed other ^^ n) md') = md_replay_protector md'" for n
    by (induction n) (simp_all add: on_tx_confirmed_def split: option.splits)
  then have "hash \<in> seen_hashes (md_replay_protector md2)" using seen assms(2) by simp
  then show ?thesis
    using assms(3) by (simp add: validate_tx_submission_def check_and_record_def Let_def sbind_run sguard_def sfail_def sret_def)
qed

theorem saturated_submission_burned_witness:
  "fst (validate_tx_submission sorted_list_of_set 7 2 1 (full_defense {1})) = Inl AddressSaturation
    \<and> md_tx_counts ((on_tx_confirmed 7 ^^ 1) (full_defense {1, 2})) 7 = Some 0
    \<and> fst (validate_tx_submission sorted_list_of_set 7 2 2 ((on_tx_confirmed 7 ^^ 1) (full_defense {1, 2}))) = Inl ReplayDetected"
  using saturated_submission_burned [OF full_defense_refuses refl full_defense_allows]
  by (simp add: full_defense_refuses) (simp add: on_tx_confirmed_def full_defense_def saturating_sub_def)

end
