(* ===== verification/Fork.thy ===== *)
theory Fork
  imports Storage
begin

text \<open>
  Protocol upgrades and emergency rollbacks: \<^verbatim>\<open>ProtocolVersion\<close> of \<^verbatim>\<open>crates/primitives/src/lib.rs\<close> and all of
  \<^verbatim>\<open>crates/consensus/src/fork.rs\<close>. The Ed25519 verification is a parameter \<open>vf\<close> (key, signature, message). The
  collected signatures of a rollback are an association list without duplicate keys; the other hash maps are maps.
\<close>

type_synonym validator_id = u32

section \<open>Protocol versions\<close>

datatype protocol_version = ProtocolVersion (pv_major: u16) (pv_minor: u16) (pv_patch: u16)

text \<open>The order of versions: major, minor, patch.\<close>

instantiation protocol_version :: linorder
begin

definition less_eq_protocol_version :: "protocol_version \<Rightarrow> protocol_version \<Rightarrow> bool" where
  "less_eq_protocol_version v w \<longleftrightarrow> pv_major v < pv_major w \<or>
     pv_major v = pv_major w \<and> (pv_minor v < pv_minor w \<or> pv_minor v = pv_minor w \<and> pv_patch v \<le> pv_patch w)"

definition less_protocol_version :: "protocol_version \<Rightarrow> protocol_version \<Rightarrow> bool" where
  "less_protocol_version v w \<longleftrightarrow> v \<le> w \<and> \<not> w \<le> (v :: protocol_version)"

instance
  by standard (auto simp: less_eq_protocol_version_def less_protocol_version_def intro: protocol_version.expand)

end

definition div_ceil :: "'a::len word \<Rightarrow> 'a word \<Rightarrow> 'a word" where
  "div_ceil x y = (if x mod y = 0 then x div y else x div y + 1)"

definition rollback_quorum :: "u32 \<Rightarrow> u32" where
  "rollback_quorum total_validators = div_ceil (2 * total_validators) 3"

definition DEFAULT_TIMELOCK_BLOCKS :: u64 where "DEFAULT_TIMELOCK_BLOCKS = 10000"

definition MIN_TIMELOCK_BLOCKS :: u64 where "MIN_TIMELOCK_BLOCKS = 100"

section \<open>Features\<close>

datatype protocol_feature =
    ShieldedPool | AgentPrecompiles | BridgeOperations | SmartAccounts | ComplianceEngine | OracleIntegration
  | BlsAggregateSignatures | OnChainGovernance | GasSponsorship

fun min_version :: "protocol_feature \<Rightarrow> protocol_version" where
  "min_version BridgeOperations = ProtocolVersion 1 0 0"
| "min_version ShieldedPool = ProtocolVersion 1 1 0"
| "min_version AgentPrecompiles = ProtocolVersion 1 1 0"
| "min_version ComplianceEngine = ProtocolVersion 1 1 0"
| "min_version GasSponsorship = ProtocolVersion 1 1 0"
| "min_version SmartAccounts = ProtocolVersion 1 2 0"
| "min_version OracleIntegration = ProtocolVersion 1 2 0"
| "min_version BlsAggregateSignatures = ProtocolVersion 1 2 0"
| "min_version OnChainGovernance = ProtocolVersion 1 2 0"

definition is_feature_enabled :: "protocol_feature \<Rightarrow> protocol_version \<Rightarrow> bool" where
  "is_feature_enabled feature version =
     (let mn = min_version feature in
      pv_major mn < pv_major version
      \<or> (pv_major version = pv_major mn \<and> pv_minor mn < pv_minor version)
      \<or> (pv_major version = pv_major mn \<and> pv_minor version = pv_minor mn \<and> pv_patch mn \<le> pv_patch version))"

section \<open>Types\<close>

record upgrade_entry =
  ue_version :: protocol_version
  ue_activation_height :: u64
  ue_applied :: bool
  ue_proposal_id :: "u64 option"
  ue_approved_at_height :: "u64 option"

record emergency_rollback =
  er_target_height :: u64
  er_target_version :: protocol_version
  er_signatures :: "(validator_id \<times> bytes) list"
  er_total_validators :: u32

record rollback_result =
  rr_target_height :: u64
  rr_target_version :: protocol_version
  rr_signature_count :: u32
  rr_total_validators :: u32

record rollback_record = rollback_result +
  rr_executed_at_height :: u64

record fork_manager =
  fm_current_version :: protocol_version
  fm_scheduled_upgrades :: "upgrade_entry list"
  fm_active_rollback :: "emergency_rollback option"
  fm_total_validators :: u32
  fm_validator_keys :: "validator_id \<rightharpoonup> bytes"
  fm_timelock_blocks :: u64
  fm_rollback_nonces :: "validator_id \<rightharpoonup> u64"
  fm_rollback_history :: "rollback_record list"
  fm_validator_readiness :: "protocol_version \<rightharpoonup> validator_id set"
  fm_require_validator_readiness :: bool

datatype fork_error =
    F_ValidatorNotFound validator_id | F_InvalidSignature | VersionMismatch u64 protocol_version protocol_version
  | TimelockViolation u64 u64 | DuplicateRollbackSignature | RollbackTargetMismatch | NoActiveRollback
  | RollbackNonceMismatch u64 u64 | UpgradeNotScheduled protocol_version

definition fm_new :: "protocol_version \<Rightarrow> u32 \<Rightarrow> fork_manager" where
  "fm_new initial_version total_validators =
     \<lparr>fm_current_version = initial_version, fm_scheduled_upgrades = [], fm_active_rollback = None,
      fm_total_validators = total_validators, fm_validator_keys = Map.empty, fm_timelock_blocks = DEFAULT_TIMELOCK_BLOCKS,
      fm_rollback_nonces = Map.empty, fm_rollback_history = [], fm_validator_readiness = Map.empty,
      fm_require_validator_readiness = False\<rparr>"

definition fm_register_validator :: "validator_id \<Rightarrow> bytes \<Rightarrow> fork_manager \<Rightarrow> fork_manager" where
  "fm_register_validator v public_key fm = fm\<lparr>fm_validator_keys := (fm_validator_keys fm)(v \<mapsto> public_key)\<rparr>"

section \<open>Upgrades\<close>

definition schedule_upgrade :: "upgrade_entry \<Rightarrow> fork_manager \<Rightarrow> fork_manager" where
  "schedule_upgrade e fm = fm\<lparr>fm_scheduled_upgrades := sort_key ue_activation_height (fm_scheduled_upgrades fm @ [e])\<rparr>"

definition schedule_governance_upgrade :: "protocol_version \<Rightarrow> u64 \<Rightarrow> u64 \<Rightarrow> u64 \<Rightarrow> (fork_manager, fork_error, unit) smonad" where
  "schedule_governance_upgrade version activation_height proposal_id current_height =
     sbind (sget (\<lambda>fm. current_height + fm_timelock_blocks fm)) (\<lambda>min_activation.
     sbind (sguard (activation_height < min_activation) (TimelockViolation activation_height min_activation)) (\<lambda>_.
     smodify (schedule_upgrade \<lparr>ue_version = version, ue_activation_height = activation_height, ue_applied = False,
       ue_proposal_id = Some proposal_id, ue_approved_at_height = Some current_height\<rparr>)))"

definition check_upgrade_readiness :: "fork_manager \<Rightarrow> protocol_version \<Rightarrow> u32 \<times> u32" where
  "check_upgrade_readiness fm version =
     (unwrap_or 0 (map_option (\<lambda>s. of_nat (card s)) (fm_validator_readiness fm version)),
      rollback_quorum (fm_total_validators fm))"

definition is_upgrade_ready :: "fork_manager \<Rightarrow> protocol_version \<Rightarrow> bool" where
  "is_upgrade_ready fm version = (case check_upgrade_readiness fm version of (ready, quorum) \<Rightarrow> quorum \<le> ready)"

definition get_ready_validators :: "fork_manager \<Rightarrow> protocol_version \<Rightarrow> validator_id set option" where
  "get_ready_validators fm version = fm_validator_readiness fm version"

definition clear_upgrade_readiness :: "protocol_version \<Rightarrow> fork_manager \<Rightarrow> fork_manager" where
  "clear_upgrade_readiness version fm = fm\<lparr>fm_validator_readiness := (fm_validator_readiness fm)(version := None)\<rparr>"

definition signal_upgrade_readiness :: "validator_id \<Rightarrow> protocol_version \<Rightarrow> (fork_manager, fork_error, unit) smonad" where
  "signal_upgrade_readiness v version =
     sbind (sget (\<lambda>fm. fm_validator_keys fm v = None)) (\<lambda>missing.
     sbind (sguard missing (F_ValidatorNotFound v)) (\<lambda>_.
     sbind (sget (\<lambda>fm. \<exists>e \<in> set (fm_scheduled_upgrades fm). ue_version e = version)) (\<lambda>scheduled.
     sbind (sguard (\<not> scheduled) (UpgradeNotScheduled version)) (\<lambda>_.
     smodify (\<lambda>fm. fm\<lparr>fm_validator_readiness :=
       (fm_validator_readiness fm)(version \<mapsto> insert v (unwrap_or {} (fm_validator_readiness fm version)))\<rparr>)))))"

definition due :: "u64 \<Rightarrow> upgrade_entry \<Rightarrow> bool" where
  "due height e \<longleftrightarrow> \<not> ue_applied e \<and> ue_activation_height e \<le> height"

text \<open>The versions that are skipped because too few validators are ready.\<close>

definition skip_versions :: "u64 \<Rightarrow> fork_manager \<Rightarrow> protocol_version set" where
  "skip_versions height fm =
     (if fm_require_validator_readiness fm
      then ue_version ` set (filter (\<lambda>e. due height e \<and>
             (case check_upgrade_readiness fm (ue_version e) of (ready, quorum) \<Rightarrow> ready < quorum)) (fm_scheduled_upgrades fm))
      else {})"

text \<open>The loop over the schedule: the entries after it, the current version and the last version applied.\<close>

fun apply_upgrades :: "u64 \<Rightarrow> protocol_version set \<Rightarrow> upgrade_entry list \<Rightarrow> protocol_version \<times> protocol_version option \<Rightarrow>
    upgrade_entry list \<times> protocol_version \<times> protocol_version option" where
  "apply_upgrades height skip [] acc = ([], acc)"
| "apply_upgrades height skip (e # es) acc =
     (if due height e \<and> ue_version e \<notin> skip
      then (case apply_upgrades height skip es (ue_version e, Some (ue_version e)) of
              (es', acc') \<Rightarrow> (e\<lparr>ue_applied := True\<rparr> # es', acc'))
      else (case apply_upgrades height skip es acc of (es', acc') \<Rightarrow> (e # es', acc')))"

definition check_upgrades_at_height :: "u64 \<Rightarrow> fork_manager \<Rightarrow> protocol_version option \<times> fork_manager" where
  "check_upgrades_at_height height fm =
     (case apply_upgrades height (skip_versions height fm) (fm_scheduled_upgrades fm) (fm_current_version fm, None) of
        (entries, current, last_version) \<Rightarrow>
          let fm' = fm\<lparr>fm_scheduled_upgrades := entries, fm_current_version := current\<rparr>
          in (last_version, case last_version of None \<Rightarrow> fm' | Some v \<Rightarrow> clear_upgrade_readiness v fm'))"

definition version_at_height :: "fork_manager \<Rightarrow> u64 \<Rightarrow> protocol_version" where
  "version_at_height fm height =
     fold (\<lambda>e v. if ue_activation_height e \<le> height then ue_version e else v) (fm_scheduled_upgrades fm) (fm_current_version fm)"

definition validate_block_version :: "fork_manager \<Rightarrow> u64 \<Rightarrow> protocol_version \<Rightarrow> fork_error + unit" where
  "validate_block_version fm block_height block_version =
     (let expected = version_at_height fm block_height
      in if block_version \<noteq> expected then Inl (VersionMismatch block_height expected block_version) else Inr ())"

definition current_version :: "fork_manager \<Rightarrow> protocol_version" where
  "current_version fm = fm_current_version fm"

definition fm_is_feature_enabled :: "fork_manager \<Rightarrow> protocol_feature \<Rightarrow> bool" where
  "fm_is_feature_enabled fm feature = is_feature_enabled feature (fm_current_version fm)"

definition is_feature_enabled_at :: "fork_manager \<Rightarrow> protocol_feature \<Rightarrow> protocol_version \<Rightarrow> bool" where
  "is_feature_enabled_at fm feature version = is_feature_enabled feature version"

definition set_timelock_blocks :: "u64 \<Rightarrow> fork_manager \<Rightarrow> fork_manager" where
  "set_timelock_blocks blocks fm = fm\<lparr>fm_timelock_blocks := max blocks MIN_TIMELOCK_BLOCKS\<rparr>"

definition next_upgrade :: "fork_manager \<Rightarrow> u64 \<Rightarrow> upgrade_entry option" where
  "next_upgrade fm current_height =
     List.find (\<lambda>e. \<not> ue_applied e \<and> current_height < ue_activation_height e) (fm_scheduled_upgrades fm)"

section \<open>Emergency rollback\<close>

definition to_le_bytes :: "'a::len word \<Rightarrow> bytes" where
  "to_le_bytes w = rev (to_be_bytes w)"

definition rollback_message_hash :: "validator_id \<Rightarrow> u64 \<Rightarrow> protocol_version \<Rightarrow> u64 \<Rightarrow> bytes" where
  "rollback_message_hash v target_height target_version nonce =
     bstr ''CALL-EMERGENCY-ROLLBACK:'' @ to_le_bytes target_height @ to_le_bytes (pv_major target_version)
     @ to_le_bytes (pv_minor target_version) @ to_le_bytes (pv_patch target_version) @ to_le_bytes nonce"

definition submit_rollback_signature :: "(bytes \<Rightarrow> bytes \<Rightarrow> bytes \<Rightarrow> bool) \<Rightarrow> validator_id \<Rightarrow> u64 \<Rightarrow> protocol_version \<Rightarrow> u64 \<Rightarrow> bytes \<Rightarrow>
    (fork_manager, fork_error, rollback_result option) smonad" where
  "submit_rollback_signature vf v target_height target_version nonce signature =
     sbind (sget (\<lambda>fm. fm_validator_keys fm v)) (\<lambda>key.
     sbind (sok_or (F_ValidatorNotFound v) key) (\<lambda>public_key.
     sbind (sget (\<lambda>fm. unwrap_or 0 (fm_rollback_nonces fm v))) (\<lambda>expected_nonce.
     sbind (sguard (nonce \<noteq> expected_nonce) (RollbackNonceMismatch expected_nonce nonce)) (\<lambda>_.
     sbind (sguard (\<not> vf public_key signature (rollback_message_hash v target_height target_version nonce)) F_InvalidSignature) (\<lambda>_.
     sbind (sget (\<lambda>fm. unwrap_or \<lparr>er_target_height = target_height, er_target_version = target_version, er_signatures = [],
         er_total_validators = fm_total_validators fm\<rparr> (fm_active_rollback fm))) (\<lambda>rollback.
     sbind (smodify (\<lambda>fm. fm\<lparr>fm_active_rollback := Some rollback\<rparr>)) (\<lambda>_.
     sbind (sguard (er_target_height rollback \<noteq> target_height \<or> er_target_version rollback \<noteq> target_version) RollbackTargetMismatch) (\<lambda>_.
     sbind (sguard (map_of (er_signatures rollback) v \<noteq> None) DuplicateRollbackSignature) (\<lambda>_.
     let signatures = (v, signature) # er_signatures rollback in
     sbind (smodify (\<lambda>fm. fm\<lparr>fm_active_rollback := Some (rollback\<lparr>er_signatures := signatures\<rparr>),
         fm_rollback_nonces := (fm_rollback_nonces fm)(v \<mapsto> nonce + 1)\<rparr>)) (\<lambda>_.
     sbind (sget fm_total_validators) (\<lambda>n.
     let sig_count = (of_nat (length signatures) :: u32); quorum = rollback_quorum n in
     if quorum \<le> sig_count
     then sbind (smodify (\<lambda>fm. fm\<lparr>fm_active_rollback := None\<rparr>)) (\<lambda>_.
          sret (Some \<lparr>rr_target_height = er_target_height rollback, rr_target_version = er_target_version rollback,
            rr_signature_count = sig_count, rr_total_validators = n\<rparr>))
     else sret None)))))))))))"

definition rollback_progress :: "fork_manager \<Rightarrow> (u32 \<times> u32) option" where
  "rollback_progress fm =
     map_option (\<lambda>r. (of_nat (length (er_signatures r)), rollback_quorum (fm_total_validators fm))) (fm_active_rollback fm)"

definition execute_rollback :: "rollback_result \<Rightarrow> u64 \<Rightarrow> fork_manager \<Rightarrow> rollback_result \<times> fork_manager" where
  "execute_rollback r current_height fm =
     (r, fm\<lparr>fm_current_version := rr_target_version r,
        fm_rollback_history := fm_rollback_history fm @
          [\<lparr>rr_target_height = rr_target_height r, rr_target_version = rr_target_version r,
            rr_signature_count = rr_signature_count r, rr_total_validators = rr_total_validators r,
            rr_executed_at_height = current_height\<rparr>]\<rparr>)"

end
