(* ===== verification/Consensus.thy ===== *)
theory Consensus
  imports Genesis Fork Defense
begin

text \<open>
  The consensus driver: the validator and reward accessors of \<^verbatim>\<open>crates/consensus/src/exec/state_accessors.rs\<close>, the
  executor of \<^verbatim>\<open>crates/consensus/src/exec/block_executor.rs\<close>, the parameters and the proposer selection of
  \<^verbatim>\<open>crates/consensus/src/proposer.rs\<close>, blocks and their validation (\<^verbatim>\<open>crates/consensus/src/block.rs\<close>), the cache of
  \<^verbatim>\<open>crates/consensus/src/block_cache.rs\<close> and \<^verbatim>\<open>SimplexConsensus\<close> (\<^verbatim>\<open>crates/consensus/src/simplex.rs\<close>). Hashes are the
  parameter \<open>H\<close>; an arithmetic panic (a division by zero) is the value \<open>None\<close>.
\<close>

section \<open>State accessors\<close>

definition read_validator_count :: "in_memory \<Rightarrow> u64" where
  "read_validator_count st = u256_to_u64 (get_storage st VALIDATOR_ADDRESS slot_validator_count)"

definition read_validator_addr :: "(bytes \<Rightarrow> u256) \<Rightarrow> in_memory \<Rightarrow> u64 \<Rightarrow> address" where
  "read_validator_addr H st i = u256_to_address (get_storage st VALIDATOR_ADDRESS (slot_validator_addr H i))"

definition read_validator_stake :: "(bytes \<Rightarrow> u256) \<Rightarrow> in_memory \<Rightarrow> address \<Rightarrow> u128" where
  "read_validator_stake H st a = u256_to_u128 (get_storage st VALIDATOR_ADDRESS (slot_validator_stake H a))"

definition read_validator_pubkey :: "(bytes \<Rightarrow> u256) \<Rightarrow> in_memory \<Rightarrow> address \<Rightarrow> bytes" where
  "read_validator_pubkey H st a = to_be_bytes (get_storage st VALIDATOR_ADDRESS (slot_validator_pubkey H a))"

definition read_validator_status :: "(bytes \<Rightarrow> u256) \<Rightarrow> in_memory \<Rightarrow> address \<Rightarrow> u8" where
  "read_validator_status H st a = to_be_bytes (get_storage st VALIDATOR_ADDRESS (slot_validator_status H a)) ! 31"

definition read_validator_unbond_height :: "(bytes \<Rightarrow> u256) \<Rightarrow> in_memory \<Rightarrow> address \<Rightarrow> u64" where
  "read_validator_unbond_height H st a = u256_to_u64 (get_storage st VALIDATOR_ADDRESS (slot_validator_unbond_height H a))"

definition slot_validator_bls_pubkey :: "(bytes \<Rightarrow> u256) \<Rightarrow> address \<Rightarrow> u256" where
  "slot_validator_bls_pubkey H a = storage_slot H [to_be_bytes a, bstr ''bls_pubkey'']"

definition read_validator_bls_pubkey :: "(bytes \<Rightarrow> u256) \<Rightarrow> in_memory \<Rightarrow> address \<Rightarrow> bytes" where
  "read_validator_bls_pubkey H st a =
     to_be_bytes (get_storage st VALIDATOR_ADDRESS (slot_validator_bls_pubkey H a))
     @ take 16 (to_be_bytes (get_storage st VALIDATOR_ADDRESS (slot_validator_bls_pubkey H a + 1)))"

definition set_validator_unbond_height :: "(bytes \<Rightarrow> u256) \<Rightarrow> address \<Rightarrow> u64 \<Rightarrow> in_memory \<Rightarrow> in_memory" where
  "set_validator_unbond_height H a h st = set_storage VALIDATOR_ADDRESS (slot_validator_unbond_height H a) (u64_to_u256 h) st"

definition set_validator_bls_pubkey :: "(bytes \<Rightarrow> u256) \<Rightarrow> address \<Rightarrow> bytes \<Rightarrow> in_memory \<Rightarrow> in_memory" where
  "set_validator_bls_pubkey H a pk st =
     set_storage VALIDATOR_ADDRESS (slot_validator_bls_pubkey H a + 1) (from_be_bytes (take 16 (drop 32 pk) @ replicate 16 0))
       (set_storage VALIDATOR_ADDRESS (slot_validator_bls_pubkey H a) (from_be_bytes (take 32 pk)) st)"

definition read_validator_id_by_addr :: "(bytes \<Rightarrow> u256) \<Rightarrow> in_memory \<Rightarrow> address \<Rightarrow> u64" where
  "read_validator_id_by_addr H st a = u256_to_u64 (get_storage st VALIDATOR_ADDRESS (slot_validator_by_addr H a))"

text \<open>\<^verbatim>\<open>for id in 1..=count\<close>\<close>

definition ids_upto :: "u64 \<Rightarrow> u64 list" where
  "ids_upto count = map of_nat [1..<Suc (unat count)]"

definition read_validators :: "(bytes \<Rightarrow> u256) \<Rightarrow> in_memory \<Rightarrow> (u64 \<times> address \<times> u128) list" where
  "read_validators H st = map (\<lambda>i. let a = read_validator_addr H st i in (i, a, read_validator_stake H st a))
     (filter (\<lambda>i. read_validator_addr H st i \<noteq> 0) (ids_upto (read_validator_count st)))"

definition read_validator_addresses :: "(bytes \<Rightarrow> u256) \<Rightarrow> in_memory \<Rightarrow> address list" where
  "read_validator_addresses H st = filter (\<lambda>a. a \<noteq> 0 \<and> read_validator_status H st a \<noteq> 0)
     (map (read_validator_addr H st) (ids_upto (read_validator_count st)))"

definition write_validator :: "(bytes \<Rightarrow> u256) \<Rightarrow> u64 \<Rightarrow> address \<Rightarrow> bytes \<Rightarrow> u128 \<Rightarrow> u8 \<Rightarrow> in_memory \<Rightarrow> in_memory" where
  "write_validator H i a pubkey amount status st =
     set_validator_bls_pubkey H a (replicate 48 0)
       (set_storage VALIDATOR_ADDRESS (slot_validator_status H a) (ucast status)
       (set_storage VALIDATOR_ADDRESS (slot_validator_pubkey H a) (from_be_bytes pubkey)
       (set_storage VALIDATOR_ADDRESS (slot_validator_stake H a) (u128_to_u256 amount)
       (set_storage VALIDATOR_ADDRESS (slot_validator_by_addr H a) (u64_to_u256 i)
       (set_storage VALIDATOR_ADDRESS (slot_validator_addr H i) (address_to_u256 a) st)))))"

definition seed_validator :: "(bytes \<Rightarrow> u256) \<Rightarrow> u64 \<Rightarrow> address \<Rightarrow> bytes \<Rightarrow> u128 \<Rightarrow> u8 \<Rightarrow> in_memory \<Rightarrow> in_memory" where
  "seed_validator H i a pubkey amount status st =
     (let count = read_validator_count st;
          st1 = (if count < i then set_storage VALIDATOR_ADDRESS slot_validator_count (u64_to_u256 i) st else st)
      in write_validator H i a pubkey amount status st1)"

definition remove_validator_evm :: "(bytes \<Rightarrow> u256) \<Rightarrow> address \<Rightarrow> in_memory \<Rightarrow> in_memory" where
  "remove_validator_evm H a st =
     set_storage VALIDATOR_ADDRESS (slot_validator_status H a) 0
       (set_storage VALIDATOR_ADDRESS (slot_validator_stake H a) 0 st)"

definition rotate_validator_key_evm :: "(bytes \<Rightarrow> u256) \<Rightarrow> address \<Rightarrow> bytes \<Rightarrow> in_memory \<Rightarrow> in_memory" where
  "rotate_validator_key_evm H a pubkey st = set_storage VALIDATOR_ADDRESS (slot_validator_pubkey H a) (from_be_bytes pubkey) st"

definition stake_validator_evm :: "(bytes \<Rightarrow> u256) \<Rightarrow> address \<Rightarrow> bytes \<Rightarrow> u128 \<Rightarrow> in_memory \<Rightarrow> u64 \<times> in_memory" where
  "stake_validator_evm H a pubkey amount st =
     (let i = read_validator_count st + 1
      in (i, write_validator H i a pubkey amount 1 (set_storage VALIDATOR_ADDRESS slot_validator_count (u64_to_u256 i) st)))"

definition slash_validator_evm :: "(bytes \<Rightarrow> u256) \<Rightarrow> address \<Rightarrow> u128 \<Rightarrow> in_memory \<Rightarrow> u128 \<times> in_memory" where
  "slash_validator_evm H a amount st =
     (let current = read_validator_stake H st a;
          slashed = min current amount;
          new_stake = saturating_sub current slashed;
          st1 = set_storage VALIDATOR_ADDRESS (slot_validator_stake H a) (u128_to_u256 new_stake) st
      in (slashed, if new_stake = 0 then set_storage VALIDATOR_ADDRESS (slot_validator_status H a) 0 st1 else st1))"

definition distribute_reward_evm :: "(bytes \<Rightarrow> u256) \<Rightarrow> address \<Rightarrow> u128 \<Rightarrow> in_memory \<Rightarrow> in_memory" where
  "distribute_reward_evm H a amount st =
     set_storage VALIDATOR_ADDRESS (slot_validator_stake H a) (u128_to_u256 (read_validator_stake H st a + amount)) st"

definition slot_oracle_reward_pool :: "(bytes \<Rightarrow> u256) \<Rightarrow> u256" where
  "slot_oracle_reward_pool H = storage_slot H [bstr ''oracle_reward_pool'']"

definition read_oracle_reward_pool :: "(bytes \<Rightarrow> u256) \<Rightarrow> in_memory \<Rightarrow> u128" where
  "read_oracle_reward_pool H st = from_be_bytes (drop 16 (to_be_bytes (get_storage st ORACLE_ADDRESS (slot_oracle_reward_pool H))))"

definition add_oracle_reward :: "(bytes \<Rightarrow> u256) \<Rightarrow> u128 \<Rightarrow> in_memory \<Rightarrow> in_memory" where
  "add_oracle_reward H amount st =
     set_storage ORACLE_ADDRESS (slot_oracle_reward_pool H) (u128_to_u256 (read_oracle_reward_pool H st + amount)) st"

definition zero_oracle_reward_pool :: "(bytes \<Rightarrow> u256) \<Rightarrow> in_memory \<Rightarrow> in_memory" where
  "zero_oracle_reward_pool H st = set_storage ORACLE_ADDRESS (slot_oracle_reward_pool H) 0 st"

section \<open>The block executor\<close>

record block_executor =
  be_stake_validator :: "address \<Rightarrow> bytes \<Rightarrow> u128 \<Rightarrow> in_memory \<Rightarrow> u64 \<times> in_memory"
  be_distribute_block_reward :: "address \<Rightarrow> u128 \<Rightarrow> in_memory \<Rightarrow> in_memory"
  be_slash_double_sign :: "address \<Rightarrow> u128 \<Rightarrow> in_memory \<Rightarrow> in_memory"
  be_slash_offline :: "address \<Rightarrow> u128 \<Rightarrow> in_memory \<Rightarrow> in_memory"
  be_slash_oracle_outlier :: "address \<Rightarrow> u128 \<Rightarrow> in_memory \<Rightarrow> in_memory"
  be_distribute_oracle_reward :: "address \<Rightarrow> u128 \<Rightarrow> in_memory \<Rightarrow> in_memory"

definition evm_block_executor :: "(bytes \<Rightarrow> u256) \<Rightarrow> block_executor" where
  "evm_block_executor H =
     \<lparr>be_stake_validator = stake_validator_evm H,
      be_distribute_block_reward = distribute_reward_evm H,
      be_slash_double_sign = (\<lambda>a amount st. snd (slash_validator_evm H a amount st)),
      be_slash_offline = (\<lambda>a amount st. snd (slash_validator_evm H a amount st)),
      be_slash_oracle_outlier = (\<lambda>a amount st. snd (slash_validator_evm H a amount st)),
      be_distribute_oracle_reward = distribute_reward_evm H\<rparr>"

section \<open>Parameters and proposer selection\<close>

definition EPOCH_LENGTH :: u64 where "EPOCH_LENGTH = 100"

record consensus_params =
  cp_max_validators :: u32
  cp_subset_size :: u32
  cp_block_time_millis :: u64
  cp_slashing_window :: u64
  cp_oracle_request_delay_ms :: u64
  cp_epoch_length :: u64
  cp_min_self_stake :: u128
  cp_unbonding_period_blocks :: u64
  cp_offline_slash_rate_bps :: u128
  cp_key_rotation_grace_blocks :: u64
  cp_churn_limit_quotient :: u64
  cp_min_churn_limit :: u64
  cp_safety_ratio_num :: u32
  cp_safety_ratio_den :: u32
  cp_unbonding_slash_extend :: u32
  cp_max_unbonding_multiplier :: u32

definition cp_new :: "u32 \<Rightarrow> u32 \<Rightarrow> u64 \<Rightarrow> u64 \<Rightarrow> u64 \<Rightarrow> consensus_params" where
  "cp_new max_validators subset_size block_time_millis slashing_window oracle_request_delay_ms =
     \<lparr>cp_max_validators = max_validators, cp_subset_size = subset_size, cp_block_time_millis = block_time_millis,
      cp_slashing_window = slashing_window, cp_oracle_request_delay_ms = oracle_request_delay_ms,
      cp_epoch_length = EPOCH_LENGTH, cp_min_self_stake = 1000000 * 10 ^ 18, cp_unbonding_period_blocks = 120960,
      cp_offline_slash_rate_bps = 10, cp_key_rotation_grace_blocks = 100, cp_churn_limit_quotient = 16,
      cp_min_churn_limit = 2, cp_safety_ratio_num = 4, cp_safety_ratio_den = 3, cp_unbonding_slash_extend = 2,
      cp_max_unbonding_multiplier = 10\<rparr>"

definition default_consensus_params :: consensus_params where
  "default_consensus_params =
     \<lparr>cp_max_validators = 216, cp_subset_size = 21, cp_block_time_millis = 250, cp_slashing_window = 10000,
      cp_oracle_request_delay_ms = 200, cp_epoch_length = EPOCH_LENGTH, cp_min_self_stake = 1000000 * 10 ^ 18,
      cp_unbonding_period_blocks = 120960, cp_offline_slash_rate_bps = 10, cp_key_rotation_grace_blocks = 100,
      cp_churn_limit_quotient = 16, cp_min_churn_limit = 2, cp_safety_ratio_num = 4, cp_safety_ratio_den = 3,
      cp_unbonding_slash_extend = 2, cp_max_unbonding_multiplier = 10\<rparr>"

definition with_epoch_length :: "u64 \<Rightarrow> consensus_params \<Rightarrow> consensus_params" where
  "with_epoch_length n p = p\<lparr>cp_epoch_length := n\<rparr>"

definition is_valid_validator_count :: "consensus_params \<Rightarrow> u32 \<Rightarrow> bool" where
  "is_valid_validator_count p count \<longleftrightarrow> 100 \<le> count \<and> count \<le> cp_max_validators p"

definition safety_floor_of :: "consensus_params \<Rightarrow> u64 option" where
  "safety_floor_of p =
     (let num = ucast (cp_subset_size p) * ucast (cp_safety_ratio_num p); den = ucast (cp_safety_ratio_den p) :: u64
      in if den = 0 then None else Some ((num + den - 1) div den))"

definition churn_limit :: "consensus_params \<Rightarrow> u64 \<Rightarrow> u64 option" where
  "churn_limit p qualified_count =
     (if cp_churn_limit_quotient p = 0 then None
      else Some (max (cp_min_churn_limit p) (qualified_count div cp_churn_limit_quotient p)))"

definition derive_vrf_seed :: "(bytes \<Rightarrow> u256) \<Rightarrow> u256 \<Rightarrow> u64 \<Rightarrow> bytes" where
  "derive_vrf_seed H prev_block_hash rnd = to_be_bytes (H (to_be_bytes prev_block_hash @ to_le_bytes rnd))"

text \<open>The score is a 32-byte hash; the byte-wise order of the sources is the order of the word.\<close>

definition vrf_sortition_score :: "(bytes \<Rightarrow> u256) \<Rightarrow> bytes \<Rightarrow> bytes \<Rightarrow> u256" where
  "vrf_sortition_score H pubkey seed = H (bstr ''CALLCHAIN-PROPOSER-VRF-v1'' @ seed @ pubkey)"

definition select_proposer_subset :: "(bytes \<Rightarrow> u256) \<Rightarrow> validator_id list \<Rightarrow> (validator_id \<rightharpoonup> bytes) \<Rightarrow> bytes \<Rightarrow> u32 \<Rightarrow> validator_id list" where
  "select_proposer_subset H validators pubkeys seed subset_size =
     (if validators = [] \<or> subset_size = 0 then []
      else
        let size = unat subset_size;
            scored = List.map_filter (\<lambda>i. map_option (\<lambda>pk. (i, vrf_sortition_score H pk seed)) (pubkeys i)) validators
        in sort (map fst (take size (sort_key snd scored))))"

definition select_proposer :: "validator_id list \<Rightarrow> u64 \<Rightarrow> validator_id option" where
  "select_proposer members rnd = (if members = [] then None else Some (members ! (unat rnd mod length members)))"

definition verify_proposer_in_subset :: "validator_id \<Rightarrow> validator_id list \<Rightarrow> bool" where
  "verify_proposer_in_subset proposer members \<longleftrightarrow> proposer \<in> set members"

section \<open>Blocks\<close>

record block_header =
  bh_parent_hash :: u256
  bh_height :: u64
  bh_timestamp_millis :: u64
  bh_state_root :: u256
  bh_proposer :: validator_id
  bh_signature :: bytes
  bh_version :: protocol_version
  bh_bls_aggregate_signature :: "bytes option"
  bh_bls_signer_bitmap :: bytes

record block =
  bk_header :: block_header
  bk_evm_txs :: "bytes list"

text \<open>The messages of \<^verbatim>\<open>InvalidBlock\<close> are formatted texts; which check failed is kept in their place.\<close>

datatype block_fault =
    ParentHashMismatch u256 u256 | GenesisParent | ZeroTimestamp | ZeroProposer | BlockVersionMismatch fork_error
  | ExpectedHeight u64 u64 | HeightMismatch u64 u64

datatype consensus_error =
    InvalidBlock block_fault | ProposerNotInSubset validator_id | C_InvalidSignature | DoubleSign validator_id
  | ValidatorOffline validator_id | InsufficientStake | UnbondingNotElapsed | C_ValidatorNotFound validator_id
  | ConsensusError string

definition header_hash :: "(bytes \<Rightarrow> u256) \<Rightarrow> block_header \<Rightarrow> u256" where
  "header_hash H h = H (to_be_bytes (bh_parent_hash h) @ to_le_bytes (bh_height h) @ to_le_bytes (bh_timestamp_millis h)
     @ to_be_bytes (bh_state_root h) @ to_le_bytes (bh_proposer h) @ bh_signature h @ to_le_bytes (pv_major (bh_version h))
     @ to_le_bytes (pv_minor (bh_version h)) @ to_le_bytes (pv_patch (bh_version h)))"

definition header_validate :: "block_header \<Rightarrow> u256 \<Rightarrow> fork_manager \<Rightarrow> consensus_error + unit" where
  "header_validate h expected_parent fm =
     (if bh_parent_hash h \<noteq> expected_parent then Inl (InvalidBlock (ParentHashMismatch expected_parent (bh_parent_hash h)))
      else if bh_height h = 0 \<and> bh_parent_hash h \<noteq> 0 then Inl (InvalidBlock GenesisParent)
      else if bh_timestamp_millis h = 0 then Inl (InvalidBlock ZeroTimestamp)
      else if bh_proposer h = 0 then Inl (InvalidBlock ZeroProposer)
      else case validate_block_version fm (bh_height h) (bh_version h) of
             Inl e \<Rightarrow> Inl (InvalidBlock (BlockVersionMismatch e))
           | Inr _ \<Rightarrow> Inr ())"

definition block_new :: "u64 \<Rightarrow> u256 \<Rightarrow> u64 \<Rightarrow> validator_id \<Rightarrow> protocol_version \<Rightarrow> bytes list \<Rightarrow> block" where
  "block_new height parent_hash timestamp_millis proposer version evm_txs =
     \<lparr>bk_header = \<lparr>bh_parent_hash = parent_hash, bh_height = height, bh_timestamp_millis = timestamp_millis, bh_state_root = 0,
        bh_proposer = proposer, bh_signature = replicate 65 0, bh_version = version, bh_bls_aggregate_signature = None,
        bh_bls_signer_bitmap = []\<rparr>, bk_evm_txs = evm_txs\<rparr>"

definition block_validate :: "block \<Rightarrow> u256 \<Rightarrow> fork_manager \<Rightarrow> consensus_error + unit" where
  "block_validate b expected_parent fm = header_validate (bk_header b) expected_parent fm"

section \<open>The block cache\<close>

text \<open>The map of the cached blocks and the digests in the order of their insertion.\<close>

record 'b block_cache =
  bc_blocks :: "(u256 \<times> 'b) list"
  bc_order :: "u256 list"
  bc_max_size :: nat

definition bc_new :: "nat \<Rightarrow> 'b block_cache" where
  "bc_new max_size = \<lparr>bc_blocks = [], bc_order = [], bc_max_size = max_size\<rparr>"

definition bc_insert :: "u256 \<Rightarrow> 'b \<Rightarrow> 'b block_cache \<Rightarrow> 'b block_cache" where
  "bc_insert digest b c =
     (if map_of (bc_blocks c) digest \<noteq> None then c
      else
        let c1 = (if bc_max_size c \<le> length (bc_blocks c)
                  then case bc_order c of
                         [] \<Rightarrow> c
                       | oldest # rest \<Rightarrow> c\<lparr>bc_blocks := AList.delete oldest (bc_blocks c), bc_order := rest\<rparr>
                  else c)
        in c1\<lparr>bc_order := bc_order c1 @ [digest], bc_blocks := AList.update digest b (bc_blocks c1)\<rparr>)"

definition bc_get :: "'b block_cache \<Rightarrow> u256 \<Rightarrow> 'b option" where
  "bc_get c digest = map_of (bc_blocks c) digest"

definition bc_remove :: "u256 \<Rightarrow> 'b block_cache \<Rightarrow> 'b option \<times> 'b block_cache" where
  "bc_remove digest c =
     (map_of (bc_blocks c) digest,
      c\<lparr>bc_order := filter (\<lambda>d. d \<noteq> digest) (bc_order c), bc_blocks := AList.delete digest (bc_blocks c)\<rparr>)"

definition bc_len :: "'b block_cache \<Rightarrow> nat" where
  "bc_len c = length (bc_blocks c)"

definition bc_is_empty :: "'b block_cache \<Rightarrow> bool" where
  "bc_is_empty c \<longleftrightarrow> bc_blocks c = []"

definition bc_clear :: "'b block_cache \<Rightarrow> 'b block_cache" where
  "bc_clear c = c\<lparr>bc_blocks := [], bc_order := []\<rparr>"

section \<open>The consensus driver\<close>

record simplex =
  sc_params :: consensus_params
  sc_current_round :: u64
  sc_current_height :: u64
  sc_proposer_subset :: "validator_id list"
  sc_last_block_hash :: u256
  sc_executor :: block_executor

definition build_pubkey_map_internal :: "(bytes \<Rightarrow> u256) \<Rightarrow> in_memory \<Rightarrow> validator_id \<rightharpoonup> bytes" where
  "build_pubkey_map_internal H st =
     fold (\<lambda>i m. let a = read_validator_addr H st i
                 in if a \<noteq> 0 then m(ucast i \<mapsto> read_validator_pubkey H st a) else m)
       (ids_upto (read_validator_count st)) Map.empty"

definition active_validators :: "(bytes \<Rightarrow> u256) \<Rightarrow> in_memory \<Rightarrow> validator_id list" where
  "active_validators H st = map ucast (filter (\<lambda>i. let a = read_validator_addr H st i in a \<noteq> 0 \<and> read_validator_status H st a \<noteq> 0)
     (ids_upto (read_validator_count st)))"

definition qualified_validators_internal :: "(bytes \<Rightarrow> u256) \<Rightarrow> in_memory \<Rightarrow> consensus_params \<Rightarrow> validator_id list" where
  "qualified_validators_internal H st params =
     map ucast (filter (\<lambda>i. let a = read_validator_addr H st i
        in a \<noteq> 0 \<and> read_validator_status H st a \<noteq> 0 \<and> cp_min_self_stake params \<le> read_validator_stake H st a)
       (ids_upto (read_validator_count st)))"

text \<open>The selection that \<^verbatim>\<open>new\<close>, \<^verbatim>\<open>with_executor\<close>, \<^verbatim>\<open>recompute_proposer_subset\<close> and \<^verbatim>\<open>restore_from_persisted\<close> make.\<close>

definition subset_for :: "(bytes \<Rightarrow> u256) \<Rightarrow> in_memory \<Rightarrow> consensus_params \<Rightarrow> u256 \<Rightarrow> u64 \<Rightarrow> validator_id list" where
  "subset_for H st params last_hash rnd =
     select_proposer_subset H (qualified_validators_internal H st params) (build_pubkey_map_internal H st)
       (derive_vrf_seed H last_hash rnd) (cp_subset_size params)"

definition with_executor :: "(bytes \<Rightarrow> u256) \<Rightarrow> consensus_params \<Rightarrow> in_memory \<Rightarrow> block_executor \<Rightarrow> simplex" where
  "with_executor H params st ex =
     \<lparr>sc_params = params, sc_current_round = 0, sc_current_height = 0, sc_proposer_subset = subset_for H st params 0 0,
      sc_last_block_hash = 0, sc_executor = ex\<rparr>"

definition sc_new :: "(bytes \<Rightarrow> u256) \<Rightarrow> consensus_params \<Rightarrow> in_memory \<Rightarrow> simplex" where
  "sc_new H params st =
     \<lparr>sc_params = params, sc_current_round = 0, sc_current_height = 0, sc_proposer_subset = subset_for H st params 0 0,
      sc_last_block_hash = 0, sc_executor = evm_block_executor H\<rparr>"

definition recompute_proposer_subset :: "(bytes \<Rightarrow> u256) \<Rightarrow> in_memory \<Rightarrow> simplex \<Rightarrow> simplex" where
  "recompute_proposer_subset H st c =
     c\<lparr>sc_proposer_subset := subset_for H st (sc_params c) (sc_last_block_hash c) (sc_current_round c)\<rparr>"

definition refresh_proposer_subset :: "(bytes \<Rightarrow> u256) \<Rightarrow> in_memory \<Rightarrow> simplex \<Rightarrow> simplex" where
  "refresh_proposer_subset H st c = recompute_proposer_subset H st c"

definition set_last_block_hash :: "u256 \<Rightarrow> simplex \<Rightarrow> simplex" where
  "set_last_block_hash h c = c\<lparr>sc_last_block_hash := h\<rparr>"

definition set_current_height :: "u64 \<Rightarrow> simplex \<Rightarrow> simplex" where
  "set_current_height h c = c\<lparr>sc_current_height := h\<rparr>"

definition current_proposer :: "simplex \<Rightarrow> validator_id option" where
  "current_proposer c = select_proposer (sc_proposer_subset c) (sc_current_round c)"

definition stake_validator :: "simplex \<Rightarrow> address \<Rightarrow> bytes \<Rightarrow> u128 \<Rightarrow> in_memory \<Rightarrow> (consensus_error + u64) \<times> in_memory" where
  "stake_validator c a pubkey amount st =
     (if amount < cp_min_self_stake (sc_params c) then (Inl InsufficientStake, st)
      else case be_stake_validator (sc_executor c) a pubkey amount st of (i, st') \<Rightarrow> (Inr i, st'))"

text \<open>The loop of the epoch churn, with the number of validators removed so far.\<close>

fun churn_loop :: "(bytes \<Rightarrow> u256) \<Rightarrow> consensus_params \<Rightarrow> u64 \<Rightarrow> u64 \<Rightarrow> u64 list \<Rightarrow> u64 \<Rightarrow> in_memory \<Rightarrow> u64 \<times> in_memory" where
  "churn_loop H params current_block limit [] processed st = (processed, st)"
| "churn_loop H params current_block limit (i # ids) processed st =
     (if limit \<le> processed then (processed, st)
      else
        let a = read_validator_addr H st i in
        if a = 0 then churn_loop H params current_block limit ids processed st
        else
          let status = read_validator_status H st a in
          if status \<noteq> 2 then
            if status = 1 \<and> read_validator_stake H st a < cp_min_self_stake params
            then churn_loop H params current_block limit ids (processed + 1) (remove_validator_evm H a st)
            else churn_loop H params current_block limit ids processed st
          else if saturating_add (read_validator_unbond_height H st a) (cp_unbonding_period_blocks params) \<le> current_block
          then churn_loop H params current_block limit ids (processed + 1) (remove_validator_evm H a st)
          else churn_loop H params current_block limit ids processed st)"

definition process_epoch_churn :: "(bytes \<Rightarrow> u256) \<Rightarrow> simplex \<Rightarrow> in_memory \<Rightarrow> in_memory option" where
  "process_epoch_churn H c st =
     (let current_block = saturating_sub (sc_current_height c) 1;
          count = read_validator_count st
      in case churn_limit (sc_params c) count of None \<Rightarrow> None
         | Some limit \<Rightarrow> Some (snd (churn_loop H (sc_params c) current_block limit (ids_upto count) 0 st)))"

definition is_multiple_of :: "u64 \<Rightarrow> u64 \<Rightarrow> bool" where
  "is_multiple_of x y = (if y = 0 then x = 0 else x mod y = 0)"

definition advance_round :: "(bytes \<Rightarrow> u256) \<Rightarrow> simplex \<Rightarrow> in_memory \<Rightarrow> (simplex \<times> in_memory) option" where
  "advance_round H c st =
     (let c1 = c\<lparr>sc_current_round := sc_current_round c + 1\<rparr> in
      if is_multiple_of (sc_current_round c1) (cp_epoch_length (sc_params c1))
      then case process_epoch_churn H c1 st of None \<Rightarrow> None
           | Some st' \<Rightarrow> Some (recompute_proposer_subset H st' c1, st')
      else Some (c1, st))"

definition validate_block :: "simplex \<Rightarrow> block \<Rightarrow> u256 \<Rightarrow> fork_manager \<Rightarrow> consensus_error + unit" where
  "validate_block c b parent_hash fm =
     (let proposer = bh_proposer (bk_header b) in
      if \<not> verify_proposer_in_subset proposer (sc_proposer_subset c) then Inl (ProposerNotInSubset proposer)
      else if bh_height (bk_header b) \<noteq> sc_current_height c
      then Inl (InvalidBlock (ExpectedHeight (sc_current_height c) (bh_height (bk_header b))))
      else block_validate b parent_hash fm)"

definition commit_block :: "(bytes \<Rightarrow> u256) \<Rightarrow> block \<Rightarrow> (simplex, consensus_error, unit) smonad" where
  "commit_block H b c =
     (if bh_height (bk_header b) \<noteq> sc_current_height c
      then (Inl (InvalidBlock (HeightMismatch (sc_current_height c) (bh_height (bk_header b)))), c)
      else (Inr (), c\<lparr>sc_last_block_hash := header_hash H (bk_header b), sc_current_height := sc_current_height c + 1\<rparr>))"

text \<open>The three slashing handlers: look the validator up, compute the amount, let the executor take it.\<close>

definition handle_double_sign :: "(bytes \<Rightarrow> u256) \<Rightarrow> simplex \<Rightarrow> validator_id \<Rightarrow> (in_memory, consensus_error, u128) smonad" where
  "handle_double_sign H c v =
     sbind (sget (\<lambda>st. read_validator_addr H st (ucast v))) (\<lambda>a.
     sbind (sguard (a = 0) (C_ValidatorNotFound v)) (\<lambda>_.
     sbind (sget (\<lambda>st. read_validator_stake H st a)) (\<lambda>slashed.
     sbind (smodify (be_slash_double_sign (sc_executor c) a slashed)) (\<lambda>_.
     sret slashed))))"

definition handle_offline :: "(bytes \<Rightarrow> u256) \<Rightarrow> simplex \<Rightarrow> validator_id \<Rightarrow> u64 \<Rightarrow> (in_memory, consensus_error, u128) smonad" where
  "handle_offline H c v rounds_offline =
     sbind (sget (\<lambda>st. read_validator_addr H st (ucast v))) (\<lambda>a.
     sbind (sguard (a = 0) (C_ValidatorNotFound v)) (\<lambda>_.
     sbind (sget (\<lambda>st. read_validator_stake H st a)) (\<lambda>self_stake.
     let rate_total = cp_offline_slash_rate_bps (sc_params c) * ucast rounds_offline;
         slashed = (self_stake * rate_total) div 10000 in
     sbind (smodify (be_slash_offline (sc_executor c) a slashed)) (\<lambda>_.
     sret slashed))))"

definition handle_oracle_outlier :: "(bytes \<Rightarrow> u256) \<Rightarrow> simplex \<Rightarrow> validator_id \<Rightarrow> (in_memory, consensus_error, u128) smonad" where
  "handle_oracle_outlier H c v =
     sbind (sget (\<lambda>st. read_validator_addr H st (ucast v))) (\<lambda>a.
     sbind (sguard (a = 0) (C_ValidatorNotFound v)) (\<lambda>_.
     sbind (sget (\<lambda>st. read_validator_stake H st a)) (\<lambda>self_stake.
     let slashed = (self_stake * 10) div 10000 in
     sbind (smodify (be_slash_oracle_outlier (sc_executor c) a slashed)) (\<lambda>_.
     sret slashed))))"

definition distribute_oracle_reward :: "(bytes \<Rightarrow> u256) \<Rightarrow> simplex \<Rightarrow> validator_id \<Rightarrow> u128 \<Rightarrow> (in_memory, consensus_error, unit) smonad" where
  "distribute_oracle_reward H c v amount =
     (if 0 < amount
      then sbind (sget (\<lambda>st. read_validator_addr H st (ucast v))) (\<lambda>a.
           if a = 0 then sret () else smodify (be_distribute_oracle_reward (sc_executor c) a amount))
      else sret ())"

record persisted_state =
  ps_current_height :: u64
  ps_current_round :: u64
  ps_proposer_subset :: "validator_id list"
  ps_last_block_hash :: u256
  ps_params :: consensus_params

definition persist_state :: "simplex \<Rightarrow> persisted_state" where
  "persist_state c = \<lparr>ps_current_height = sc_current_height c, ps_current_round = sc_current_round c,
     ps_proposer_subset = sc_proposer_subset c, ps_last_block_hash = sc_last_block_hash c, ps_params = sc_params c\<rparr>"

definition restore_from_persisted :: "(bytes \<Rightarrow> u256) \<Rightarrow> persisted_state \<Rightarrow> in_memory \<Rightarrow> simplex" where
  "restore_from_persisted H p st =
     \<lparr>sc_params = ps_params p, sc_current_round = ps_current_round p, sc_current_height = ps_current_height p,
      sc_proposer_subset = subset_for H st (ps_params p) (ps_last_block_hash p) (ps_current_round p),
      sc_last_block_hash = ps_last_block_hash p, sc_executor = evm_block_executor H\<rparr>"

section \<open>System settlement\<close>

text \<open>
  What \<^verbatim>\<open>Block::execute\<close> does after its transactions have run: the base fee of the next block, the oracle's and the
  proposer's share of the fees. The result is the state, the fee parameters and the reward paid.
\<close>

definition settle_block :: "(bytes \<Rightarrow> u256) \<Rightarrow> block \<Rightarrow> u64 \<Rightarrow> fee_params \<Rightarrow> in_memory \<Rightarrow> (in_memory \<times> fee_params \<times> u128) option" where
  "settle_block H b total_gas fees st =
     (case update_base_fee total_gas fees of None \<Rightarrow> None
      | Some fees' \<Rightarrow>
         let total_fees = ucast total_gas * fp_base_fee fees';
             oracle_share = total_fees * ucast (fp_oracle_fee_share_bps fees') div 10000;
             st1 = add_oracle_reward H oracle_share st;
             validator_share = total_fees * ucast (fp_validator_fee_share_bps fees') div 10000
         in if 0 < validator_share
            then let proposer_addr = read_validator_addr H st1 (ucast (bh_proposer (bk_header b)))
                 in if proposer_addr \<noteq> 0 then Some (distribute_reward_evm H proposer_addr validator_share st1, fees', validator_share)
                    else Some (st1, fees', 0)
            else Some (st1, fees', 0))"

end
