(* ===== verification/Validator_Laws.thy ===== *)
theory Validator_Laws
  imports Validator
begin

text \<open>
  The validator contract on a storage map. Its slots are indexed by \<open>val_key\<close>; under a hash that keeps
  the keys in use apart, the contract is a function from keys to words (\<open>val_rel\<close>), and the operations
  are updates of that function. \<open>val_inv\<close> is the invariant: identifiers are unique, the active count
  counts the active validators, the unbonding queue holds exactly one entry for each unbonding
  validator, and the stakes on record never exceed the escrow.
\<close>

section \<open>Keys and slots\<close>

datatype val_key = VCount | VQCount | VActive | VFloor | VPeriod
  | VId address | VStake address | VPub address | VStatus address | VUnbond address
  | VIdx u64 | VQ u64

fun val_slot :: "(bytes \<Rightarrow> u256) \<Rightarrow> val_key \<Rightarrow> u256" where
  "val_slot H VCount = slot_validator_count"
| "val_slot H VQCount = slot_unbonding_count"
| "val_slot H VActive = slot_active_validator_count"
| "val_slot H VFloor = slot_safety_floor"
| "val_slot H VPeriod = slot_unbonding_period_blocks"
| "val_slot H (VId a) = slot_validator_by_addr H a"
| "val_slot H (VStake a) = slot_validator_stake H a"
| "val_slot H (VPub a) = slot_validator_pubkey H a"
| "val_slot H (VStatus a) = slot_validator_status H a"
| "val_slot H (VUnbond a) = slot_validator_unbond_height H a"
| "val_slot H (VIdx i) = slot_validator_addr H i"
| "val_slot H (VQ i) = slot_unbonding H i"

definition val_keys :: "address set \<Rightarrow> val_key set" where
  "val_keys A = {VCount, VQCount, VActive, VFloor, VPeriod} \<union>
     (\<Union>a\<in>A. {VId a, VStake a, VPub a, VStatus a, VUnbond a}) \<union> range VIdx \<union> range VQ"

text \<open>
  What the layout needs of the hash: over the accounts \<open>A\<close> and the 64-bit array indices, no two keys
  share a slot.
\<close>

definition val_layout_ok :: "(bytes \<Rightarrow> u256) \<Rightarrow> address set \<Rightarrow> bool" where
  "val_layout_ok H A \<longleftrightarrow> inj_on (val_slot H) (val_keys A)"

abbreviation vload :: "(bytes \<Rightarrow> u256) \<Rightarrow> evm_storage \<Rightarrow> val_key \<Rightarrow> u256" where
  "vload H m k \<equiv> m VALIDATOR_ADDRESS (val_slot H k)"

abbreviation vput :: "(bytes \<Rightarrow> u256) \<Rightarrow> val_key \<Rightarrow> u256 \<Rightarrow> evm_storage \<Rightarrow> evm_storage" where
  "vput H k v m \<equiv> sput VALIDATOR_ADDRESS (val_slot H k) v m"

lemma val_slots:
  "slot_validator_count = val_slot H VCount" "slot_unbonding_count = val_slot H VQCount"
  "slot_active_validator_count = val_slot H VActive" "slot_safety_floor = val_slot H VFloor"
  "slot_unbonding_period_blocks = val_slot H VPeriod" "slot_validator_by_addr H a = val_slot H (VId a)"
  "slot_validator_stake H a = val_slot H (VStake a)" "slot_validator_pubkey H a = val_slot H (VPub a)"
  "slot_validator_status H a = val_slot H (VStatus a)" "slot_validator_unbond_height H a = val_slot H (VUnbond a)"
  "slot_validator_addr H i = val_slot H (VIdx i)" "slot_unbonding H i = val_slot H (VQ i)"
  by simp_all

declare val_slot.simps [simp del]

section \<open>The contract as a function of keys\<close>

definition val_rel :: "(bytes \<Rightarrow> u256) \<Rightarrow> val_key set \<Rightarrow> evm_storage \<Rightarrow> (val_key \<Rightarrow> u256) \<Rightarrow> bool" where
  "val_rel H K m f \<longleftrightarrow> (\<forall>k \<in> K. vload H m k = f k)"

lemma val_rel_load: "val_rel H K m f \<Longrightarrow> k \<in> K \<Longrightarrow> vload H m k = f k"
  by (simp add: val_rel_def)

lemma val_rel_put:
  assumes "inj_on (val_slot H) K" "val_rel H K m f" "k \<in> K"
  shows "val_rel H K (vput H k v m) (f(k := v))"
  using assms by (auto simp: val_rel_def sput_apply inj_on_def)

lemma val_rel_other: "a \<noteq> VALIDATOR_ADDRESS \<Longrightarrow> val_rel H K (sput a k v m) f = val_rel H K m f"
  by (simp add: val_rel_def)

lemma val_rel_self: "val_rel H K m (\<lambda>k. vload H m k)"
  by (simp add: val_rel_def)

section \<open>The abstract operations\<close>

text \<open>Each operation as an update of the function of keys, for the case that it succeeds.\<close>

definition a_stake :: "address \<Rightarrow> u128 \<Rightarrow> bytes \<Rightarrow> (val_key \<Rightarrow> u256) \<Rightarrow> val_key \<Rightarrow> u256" where
  "a_stake a x pk f = (let n = (ucast (f VCount) :: u64) + 1 in
     f(VCount := ucast n, VId a := ucast n, VIdx n := ucast a, VStake a := ucast x,
       VPub a := from_be_bytes pk, VStatus a := 1, VActive := ucast ((ucast (f VActive) :: u64) + 1)))"

definition a_unstake :: "address \<Rightarrow> u64 \<Rightarrow> (val_key \<Rightarrow> u256) \<Rightarrow> val_key \<Rightarrow> u256" where
  "a_unstake a blk f = (let n = (ucast (f VQCount) :: u64) in
     f(VActive := ucast (saturating_sub (ucast (f VActive) :: u64) 1), VStatus a := 2, VUnbond a := ucast blk,
       VQ n := pack_entry (ucast (f (VId a))) (ucast (f (VStake a))), VQCount := ucast (n + 1)))"

definition a_remove :: "u64 \<Rightarrow> (val_key \<Rightarrow> u256) \<Rightarrow> val_key \<Rightarrow> u256" where
  "a_remove i f = (let n = (ucast (f VQCount) :: u64) in
     f(VQ i := f (VQ (n - 1)), VQ (n - 1) := 0, VQCount := ucast (n - 1)))"

definition a_clear :: "address \<Rightarrow> u64 \<Rightarrow> (val_key \<Rightarrow> u256) \<Rightarrow> val_key \<Rightarrow> u256" where
  "a_clear a i f = f(VId a := 0, VStake a := 0, VStatus a := 0, VPub a := 0, VUnbond a := 0, VIdx i := 0)"

lemma val_addresses [simp]: "ASSET_ADDRESS \<noteq> VALIDATOR_ADDRESS" "VALIDATOR_ADDRESS \<noteq> ASSET_ADDRESS"
  by (simp_all add: ASSET_ADDRESS_def VALIDATOR_ADDRESS_def)

lemma val_keys_mem [simp]:
  "VCount \<in> val_keys A" "VQCount \<in> val_keys A" "VActive \<in> val_keys A" "VFloor \<in> val_keys A" "VPeriod \<in> val_keys A"
  "VId a \<in> val_keys A \<longleftrightarrow> a \<in> A" "VStake a \<in> val_keys A \<longleftrightarrow> a \<in> A" "VPub a \<in> val_keys A \<longleftrightarrow> a \<in> A"
  "VStatus a \<in> val_keys A \<longleftrightarrow> a \<in> A" "VUnbond a \<in> val_keys A \<longleftrightarrow> a \<in> A"
  "VIdx i \<in> val_keys A" "VQ i \<in> val_keys A"
  by (auto simp: val_keys_def)

lemmas vs_defs = vs_validator_count_def vs_validator_id_def vs_validator_by_index_def vs_stake_def vs_status_def
  vs_pubkey_def vs_unbond_height_def vs_unbonding_count_def vs_active_validator_count_def vs_safety_floor_def
  vs_unbonding_period_blocks_def

section \<open>The operations refine them\<close>

lemma stake_refines:
  assumes lay: "val_layout_ok H A" and rel: "val_rel H (val_keys A) m f" and a: "a \<in> A" "a \<noteq> STAKING_ESCROW"
    and ash: "asset_hash_ok H {CALL_ASSET_ID} {a, STAKING_ESCROW}"
    and run: "stake H pure_backend pk x a m = (Inr u, m')"
  shows "MIN_SELF_STAKE \<le> x \<and> pk \<noteq> replicate 32 0 \<and> (ucast (f (VId a)) :: u64) = 0 \<and>
    unat (ucast (f VCount) :: u64) + 1 < 2 ^ 64 \<and> unat (ucast (f VActive) :: u64) + 1 < 2 ^ 64 \<and>
    val_rel H (val_keys A) m' (a_stake a x pk f) \<and>
    unat (aload H m' (Bal_Key CALL_ASSET_ID a)) + unat x = unat (aload H m (Bal_Key CALL_ASSET_ID a)) \<and>
    unat (aload H m' (Bal_Key CALL_ASSET_ID STAKING_ESCROW)) = unat (aload H m (Bal_Key CALL_ASSET_ID STAKING_ESCROW)) + unat x"
proof -
  let ?K = "val_keys A"
  note inj = lay [unfolded val_layout_ok_def]
  let ?ba = "aload H m (Bal_Key CALL_ASSET_ID a)" and ?be = "aload H m (Bal_Key CALL_ASSET_ID STAKING_ESCROW)"
  have sep: "asset_slot H (Bal_Key CALL_ASSET_ID a) \<noteq> asset_slot H (Bal_Key CALL_ASSET_ID STAKING_ESCROW)"
    using asset_slot_eq [OF ash, of "Bal_Key CALL_ASSET_ID a" "Bal_Key CALL_ASSET_ID STAKING_ESCROW"] a(2) by simp
  define m1 where "m1 = aput (asset_slot H (Bal_Key CALL_ASSET_ID STAKING_ESCROW)) (?be + ucast x)
      (aput (asset_slot H (Bal_Key CALL_ASSET_ID a)) (?ba - ucast x) m)"
  let ?n = "(ucast (f VCount) :: u64) + 1"
  have rel1: "val_rel H ?K m1 f" using rel by (simp add: m1_def val_rel_other)
  note l1 = val_rel_load [OF rel1] and l0 = val_rel_load [OF rel]
  define m2 where "m2 = vput H (VStatus a) 1 (vput H (VPub a) (from_be_bytes pk) (vput H (VStake a) (ucast x)
      (vput H (VIdx ?n) (ucast a) (vput H (VId a) (ucast ?n) (vput H VCount (ucast ?n) m1)))))"
  have rel2: "val_rel H ?K m2 (f(VCount := ucast ?n, VId a := ucast ?n, VIdx ?n := ucast a, VStake a := ucast x,
       VPub a := from_be_bytes pk, VStatus a := 1))"
    unfolding m2_def by (intro val_rel_put inj rel1) (use a in simp_all)
  from run have g: "MIN_SELF_STAKE \<le> x" "pk \<noteq> replicate 32 0" "(ucast (f (VId a)) :: u64) = 0"
    "unat ?ba < 2 ^ 128" "unat x \<le> unat ?ba" "unat ?be + unat x < 2 ^ 128"
    and c: "unat (ucast (f VCount) :: u64) + 1 < 2 ^ 64"
    and m': "unat (ucast (vload H m2 VActive) :: u64) + 1 < 2 ^ 64"
      "m' = vput H VActive (ucast ((ucast (vload H m2 VActive) :: u64) + 1)) m2"
    using sep a l0 l1
    by (auto simp: stake_def smonad_Inr vs_defs val_slots [of H] deduct_balance_pure add_balance_pure Let_def m1_def m2_def
        not_less not_le sput_apply split: if_splits)
  have la: "vload H m2 VActive = f VActive" using val_rel_load [OF rel2, of VActive] by simp
  have "val_rel H ?K m' (a_stake a x pk f)"
    using val_rel_put [OF inj rel2, of VActive] by (simp add: m'(2) la a_stake_def Let_def)
  moreover have "aload H m' (Bal_Key CALL_ASSET_ID a) = ?ba - ucast x"
    "aload H m' (Bal_Key CALL_ASSET_ID STAKING_ESCROW) = ?be + ucast x"
    using sep by (simp_all add: m'(2) m2_def m1_def sput_apply)
  moreover have "unat (?ba - ucast x) + unat x = unat ?ba" "unat (?be + ucast x) = unat ?be + unat x"
    using g(4-6) by (simp_all add: unat_sub word_le_nat_alt unat_add_no_overflow)
  ultimately show ?thesis using g(1-3) c m'(1) la by simp
qed

lemma unstake_refines:
  assumes lay: "val_layout_ok H A" and rel: "val_rel H (val_keys A) m f" and a: "a \<in> A"
    and run: "unstake H pure_backend i a blk m = (Inr u, m')"
  shows "i \<noteq> 0 \<and> (ucast (f (VId a)) :: u64) = i \<and> (ucast (f (VStatus a)) :: u8) = 1 \<and>
    unat (ucast (f VQCount) :: u64) + 1 < 2 ^ 64 \<and> ((ucast (f VActive) :: u64) = 0 \<or> (ucast (f VFloor) :: u64) \<le> ucast (f VActive) - 1) \<and>
    val_rel H (val_keys A) m' (a_unstake a blk f) \<and> m' ASSET_ADDRESS = m ASSET_ADDRESS"
proof -
  let ?K = "val_keys A" and ?n = "ucast (f VQCount) :: u64"
  note inj = lay [unfolded val_layout_ok_def] and l0 = val_rel_load [OF rel]
  define m1 where "m1 = vput H (VUnbond a) (ucast blk) (vput H (VStatus a) 2
      (vput H VActive (ucast (saturating_sub (ucast (f VActive) :: u64) 1)) m))"
  have rel1: "val_rel H ?K m1 (f(VActive := ucast (saturating_sub (ucast (f VActive) :: u64) 1), VStatus a := 2, VUnbond a := ucast blk))"
    unfolding m1_def by (intro val_rel_put inj rel) (use a in simp_all)
  have lq: "vload H m1 VQCount = f VQCount" using val_rel_load [OF rel1, of VQCount] by simp
  from run have g: "i \<noteq> 0" "(ucast (f (VId a)) :: u64) = i" "(ucast (f (VStatus a)) :: u8) = 1"
      "unat (ucast (f VQCount) :: u64) + 1 < 2 ^ 64" "(ucast (f VActive) :: u64) = 0 \<or> (ucast (f VFloor) :: u64) \<le> ucast (f VActive) - 1"
    and m': "m' = vput H VQCount (ucast (?n + 1)) (vput H (VQ ?n) (pack_entry i (ucast (f (VStake a)))) m1)"
    using a l0 lq
    by (auto simp: unstake_def smonad_Inr vs_defs val_slots [of H] Let_def m1_def not_less to_be_bytes_last word_gt_0
        split: if_splits)
  have "val_rel H ?K m' (a_unstake a blk f)"
    using val_rel_put [OF inj val_rel_put [OF inj rel1, of "VQ ?n"], of VQCount] g(2)
    by (simp add: m' a_unstake_def Let_def)
  moreover have "m' ASSET_ADDRESS = m ASSET_ADDRESS" by (simp add: m' m1_def)
  ultimately show ?thesis using g by simp
qed

section \<open>The unbonding queue\<close>

definition queue :: "(val_key \<Rightarrow> u256) \<Rightarrow> u256 list" where
  "queue f = map (\<lambda>i. f (VQ (of_nat i))) [0..<unat (f VQCount)]"

lemma length_queue [simp]: "length (queue f) = unat (f VQCount)"
  by (simp add: queue_def)

lemma queue_nth: "i < unat (f VQCount) \<Longrightarrow> queue f ! i = f (VQ (of_nat i))"
  by (simp add: queue_def)

lemma entry_round_trip [simp]: "entry_id (pack_entry i x) = i" "entry_amount (pack_entry i x) = x"
proof -
  have l: "length (replicate 8 0 @ to_be_bytes i @ to_be_bytes x) = 32" by simp
  show "entry_id (pack_entry i x) = i" "entry_amount (pack_entry i x) = x"
    using from_to_be_bytes [of i] from_to_be_bytes [of x]
    by (simp_all add: entry_id_def entry_amount_def pack_entry_def to_from_be_bytes_u256 [OF l])
qed

lemma find_unbonding_run:
  assumes "\<forall>j<n. vload H m (VQ (i + of_nat j)) = g j"
  shows "\<exists>r. (find_unbonding H pure_backend v i n :: (_, validator_error, _) smonad) m = (Inr r, m) \<and> (case r of
      None \<Rightarrow> \<forall>j<n. entry_id (g j) \<noteq> v
    | Some (k, x) \<Rightarrow> \<exists>j<n. k = i + of_nat j \<and> entry_id (g j) = v \<and> x = entry_amount (g j))"
  using assms
proof (induction n arbitrary: i g)
  case (Suc n)
  have 0: "vload H m (VQ i) = g 0" using Suc.prems by auto
  show ?case
  proof (cases "entry_id (g 0) = v")
    case True
    with 0 show ?thesis by (intro exI [of _ "Some (i, entry_amount (g 0))"]) (auto simp: sbind_run val_slots [of H])
  next
    case False
    have "\<forall>j<n. vload H m (VQ (i + 1 + of_nat j)) = g (Suc j)"
      using Suc.prems by (metis Suc_mono add.assoc of_nat_Suc)
    from Suc.IH [of "i + 1" "\<lambda>j. g (Suc j)", OF this] obtain r where
      r: "(find_unbonding H pure_backend v (i + 1) n :: (_, validator_error, _) smonad) m = (Inr r, m)" and
      rr: "case r of None \<Rightarrow> \<forall>j<n. entry_id (g (Suc j)) \<noteq> v
        | Some (k, x) \<Rightarrow> \<exists>j<n. k = i + 1 + of_nat j \<and> entry_id (g (Suc j)) = v \<and> x = entry_amount (g (Suc j))" by blast
    have "(find_unbonding H pure_backend v i (Suc n) :: (_, validator_error, _) smonad) m = (Inr r, m)"
      using r False 0 by (simp add: sbind_run val_slots [of H])
    moreover have "case r of None \<Rightarrow> \<forall>j<Suc n. entry_id (g j) \<noteq> v
        | Some (k, x) \<Rightarrow> \<exists>j<Suc n. k = i + of_nat j \<and> entry_id (g j) = v \<and> x = entry_amount (g j)"
    proof (cases r)
      case None
      with rr False show ?thesis by (auto simp: less_Suc_eq_0_disj)
    next
      case (Some p)
      obtain k x where p: "p = (k, x)" by (cases p)
      with rr Some obtain j where "j < n" "k = i + 1 + of_nat j" "entry_id (g (Suc j)) = v" "x = entry_amount (g (Suc j))"
        by auto
      with Some p show ?thesis by (auto intro!: exI [of _ "Suc j"] simp: ac_simps)
    qed
    ultimately show ?thesis by blast
  qed
qed simp

text \<open>Removal from a queue with a matching entry: that entry is returned and the gap is filled with the last one.\<close>

lemma remove_refines:
  assumes lay: "val_layout_ok H A" and rel: "val_rel H (val_keys A) m f"
    and n: "unat (f VQCount) < 2 ^ 64"
    and run: "remove_from_unbonding_queue H pure_backend v m = (r, m')"
  shows "(r = Inl NoUnbondingRequest \<and> m' = m \<and> (\<forall>e \<in> set (queue f). entry_id e \<noteq> v)) \<or>
    (\<exists>j < unat (f VQCount). r = Inr (entry_amount (queue f ! j)) \<and> entry_id (queue f ! j) = v \<and>
       val_rel H (val_keys A) m' (a_remove (of_nat j) f) \<and> m' ASSET_ADDRESS = m ASSET_ADDRESS)"
proof -
  let ?K = "val_keys A" and ?n = "ucast (f VQCount) :: u64"
  note inj = lay [unfolded val_layout_ok_def] and l0 = val_rel_load [OF rel]
  have un: "unat ?n = unat (f VQCount)" using n by (simp add: unsigned_ucast_eq take_bit_eq_mod)
  have u: "unat (of_nat j :: u64) = j" if "j \<le> unat (f VQCount)" for j using that n by (simp add: unat_of_nat)
  have "\<forall>j<unat ?n. vload H m (VQ (0 + of_nat j)) = queue f ! j"
    using n u un by (simp add: queue_nth l0)
  from find_unbonding_run [where g = "\<lambda>j. queue f ! j" and m = m and H = H and i = 0, OF this, of v] obtain q where
    q: "(find_unbonding H pure_backend v 0 (unat ?n) :: (_, validator_error, _) smonad) m = (Inr q, m)" and
    qq: "case q of None \<Rightarrow> \<forall>j<unat ?n. entry_id (queue f ! j) \<noteq> v
      | Some (k, x) \<Rightarrow> \<exists>j<unat ?n. k = 0 + of_nat j \<and> entry_id (queue f ! j) = v \<and> x = entry_amount (queue f ! j)" by blast
  show ?thesis
  proof (cases q)
    case None
    with run q l0 have "r = Inl NoUnbondingRequest" "m' = m"
      by (auto simp: remove_from_unbonding_queue_def vs_defs val_slots [of H] sbind_run)
    moreover have "\<forall>e \<in> set (queue f). entry_id e \<noteq> v"
      using qq None un by (auto simp: in_set_conv_nth)
    ultimately show ?thesis by simp
  next
    case (Some p)
    with qq obtain j where j: "j < unat (f VQCount)" "p = (of_nat j, entry_amount (queue f ! j))" "entry_id (queue f ! j) = v"
      using un by (cases p) auto
    define m1 where "m1 = vput H (VQ (of_nat j)) (vload H m (VQ (?n - 1))) m"
    have n1: "unat (?n - 1) = unat (f VQCount) - 1" using j(1) un by (simp add: unat_sub word_le_nat_alt)
    have triv: "vput H (VQ (?n - 1)) 0 m1 = vput H (VQ (?n - 1)) 0 m" if "\<not> (1 < ?n \<and> of_nat j \<noteq> ?n - 1)"
    proof -
      have "of_nat j = ?n - 1"
        using that j(1) un n1 u [of j] n by (auto simp: word_less_nat_alt word_unat_eq_iff)
      then show ?thesis by (simp add: m1_def sput_def)
    qed
    have r: "r = Inr (entry_amount (queue f ! j))"
      and m': "m' = vput H VQCount (ucast (?n - 1)) (vput H (VQ (?n - 1)) 0 m1)"
      using run q l0 Some j triv
      by (auto simp: remove_from_unbonding_queue_def vs_defs val_slots [of H] sbind_run m1_def split: if_splits)
    have k: "VQ (of_nat j) \<in> ?K" "VQ (?n - 1) \<in> ?K" using j(1) u [of j] n n1 by simp_all
    have "val_rel H ?K m' (a_remove (of_nat j) f)"
      unfolding m' m1_def a_remove_def Let_def l0 [OF k(2)] by (intro val_rel_put inj rel k) simp
    moreover have "m' ASSET_ADDRESS = m ASSET_ADDRESS" by (simp add: m' m1_def)
    ultimately show ?thesis using j r by blast
  qed
qed

lemma clear_refines:
  assumes lay: "val_layout_ok H A" and rel: "val_rel H (val_keys A) m f" and a: "a \<in> A"
    and run: "clear_validator_state H pure_backend a i m = (r, m')"
  shows "r = Inr () \<and> val_rel H (val_keys A) m' (a_clear a i f) \<and> m' ASSET_ADDRESS = m ASSET_ADDRESS"
proof -
  have m': "r = Inr ()" "m' = vput H (VIdx i) 0 (vput H (VUnbond a) 0 (vput H (VPub a) 0 (vput H (VStatus a) 0 (vput H (VStake a) 0
      (vput H (VId a) 0 m)))))"
    using run by (auto simp: clear_validator_state_def val_slots [of H] sbind_run)
  have "val_rel H (val_keys A) m' (a_clear a i f)"
    unfolding m' a_clear_def by (intro val_rel_put lay [unfolded val_layout_ok_def] rel) (use a in simp_all)
  then show ?thesis by (simp add: m')
qed

end
