(* ===== verification/Validator_Inv.thy ===== *)
theory Validator_Inv
  imports Validator_Laws "HOL-Library.Multiset"
begin

text \<open>
  The invariant of the validator contract and its preservation by the abstract operations: \<open>val_inv\<close>
  relates the records of the accounts, the counters, the unbonding queue and the escrow balance.
\<close>

section \<open>Definitions\<close>

definition record_entry :: "(val_key \<Rightarrow> u256) \<Rightarrow> address \<Rightarrow> u256" where
  "record_entry f a = pack_entry (ucast (f (VId a))) (ucast (f (VStake a)))"

definition val_record_ok :: "(val_key \<Rightarrow> u256) \<Rightarrow> address \<Rightarrow> bool" where
  "val_record_ok f a \<longleftrightarrow> unat (f (VId a)) \<le> unat (f VCount) \<and> unat (f (VStake a)) < 2 ^ 128 \<and>
     f (VStatus a) \<in> {0, 1, 2} \<and> (f (VId a) = 0 \<longleftrightarrow> f (VStatus a) = 0) \<and> (f (VStatus a) = 0 \<longrightarrow> f (VStake a) = 0)"

definition val_inv :: "address set \<Rightarrow> (val_key \<Rightarrow> u256) \<Rightarrow> nat \<Rightarrow> bool" where
  "val_inv A f esc \<longleftrightarrow>
     unat (f VCount) < 2 ^ 64 \<and> unat (f VQCount) < 2 ^ 64 \<and> unat (f VActive) < 2 ^ 64 \<and>
     (\<forall>a\<in>A. val_record_ok f a) \<and>
     inj_on (\<lambda>a. f (VId a)) {a\<in>A. f (VId a) \<noteq> 0} \<and>
     unat (f VActive) = card {a\<in>A. f (VStatus a) = 1} \<and>
     distinct (map entry_id (queue f)) \<and>
     set (queue f) = record_entry f ` {a\<in>A. f (VStatus a) = 2} \<and>
     (\<Sum>a\<in>A. unat (f (VStake a))) \<le> esc"

lemma val_invD:
  assumes "val_inv A f esc"
  shows "unat (f VCount) < 2 ^ 64" "unat (f VQCount) < 2 ^ 64" "unat (f VActive) < 2 ^ 64"
    "a \<in> A \<Longrightarrow> val_record_ok f a" "inj_on (\<lambda>a. f (VId a)) {a\<in>A. f (VId a) \<noteq> 0}"
    "unat (f VActive) = card {a\<in>A. f (VStatus a) = 1}" "distinct (map entry_id (queue f))"
    "set (queue f) = record_entry f ` {a\<in>A. f (VStatus a) = 2}" "(\<Sum>a\<in>A. unat (f (VStake a))) \<le> esc"
  using assms by (simp_all add: val_inv_def)

lemma unat_ucast_small [simp]: "unat (w :: u256) < 2 ^ 64 \<Longrightarrow> unat (ucast w :: u64) = unat w"
  "unat (w :: u256) < 2 ^ 128 \<Longrightarrow> unat (ucast w :: u128) = unat w"
  by (simp_all add: unsigned_ucast_eq take_bit_eq_mod)

lemma ucast_small_back: "unat (w :: u256) < 2 ^ 64 \<Longrightarrow> ucast (ucast w :: u64) = w"
  by (simp add: word_unat_eq_iff)

lemma id_small:
  assumes "val_inv A f esc" "a \<in> A"
  shows "unat (f (VId a)) < 2 ^ 64"
  using val_invD(1,4) [OF assms(1)] assms(2) by (fastforce simp: val_record_ok_def)

lemma entry_id_record [simp]: "entry_id (record_entry f a) = ucast (f (VId a))"
  "entry_amount (record_entry f a) = ucast (f (VStake a))"
  by (simp_all add: record_entry_def)

section \<open>Staking\<close>

lemma unat_inc: "unat (c :: u64) + 1 < 2 ^ 64 \<Longrightarrow> unat (c + 1) = unat c + 1"
  using unat_add_no_overflow [of c 1] by simp

lemma queue_cong: "f VQCount = g VQCount \<Longrightarrow> (\<And>i. f (VQ i) = g (VQ i)) \<Longrightarrow> queue f = queue g"
  by (simp add: queue_def)

lemma a_stake_inv:
  assumes inv: "val_inv A f esc" and A: "finite A" "a \<in> A" and id0: "(ucast (f (VId a)) :: u64) = 0"
    and c: "unat (ucast (f VCount) :: u64) + 1 < 2 ^ 64" "unat (ucast (f VActive) :: u64) + 1 < 2 ^ 64"
  shows "val_inv A (a_stake a x pk f) (esc + unat x)"
proof -
  note I = val_invD [OF inv]
  let ?n = "(ucast (f VCount) :: u64) + 1" and ?g = "a_stake a x pk f"
  have "unat (f (VId a)) = 0" using id0 unat_ucast_small(1) [OF id_small [OF inv A(2)]] by simp
  then have id: "f (VId a) = 0" by (simp add: word_unat_eq_iff)
  then have st: "f (VStatus a) = 0" "f (VStake a) = 0" using I(4) [OF A(2)] by (auto simp: val_record_ok_def)
  have n: "unat ?n = unat (f VCount) + 1" using unat_inc [OF c(1)] I(1) by simp
  have v: "?g VCount = ucast ?n" "?g (VId b) = (if b = a then ucast ?n else f (VId b))" "?g VQCount = f VQCount"
      "?g (VQ i) = f (VQ i)" "?g (VStake b) = (if b = a then ucast x else f (VStake b))"
      "?g (VStatus b) = (if b = a then 1 else f (VStatus b))" "?g VActive = ucast ((ucast (f VActive) :: u64) + 1)" for b i
    by (simp_all add: a_stake_def Let_def)
  have n0: "(ucast ?n :: u256) \<noteq> 0" using n by (metis add_is_0 unat_0 unat_ucast_u256(2) zero_neq_one)
  have rec: "val_record_ok ?g b" if "b \<in> A" for b
    using I(4) [OF that] n n0 unsigned_less [of x, where ?'a = nat] by (auto simp: val_record_ok_def v)
  have inj: "inj_on (\<lambda>b. ?g (VId b)) {b\<in>A. ?g (VId b) \<noteq> 0}"
  proof (rule inj_onI)
    fix b c
    assume h: "b \<in> {b\<in>A. ?g (VId b) \<noteq> 0}" "c \<in> {b\<in>A. ?g (VId b) \<noteq> 0}" "?g (VId b) = ?g (VId c)"
    have lt: "f (VId d) \<noteq> ucast ?n" if "d \<in> A" for d
      using I(4) [OF that] n by (auto simp: val_record_ok_def word_unat_eq_iff)
    show "b = c" using h lt inj_onD [OF I(5), of b c] by (auto simp: v split: if_splits)
  qed
  have "{b\<in>A. ?g (VStatus b) = 1} = insert a {b\<in>A. f (VStatus b) = 1}" using A st by (auto simp: v)
  then have act: "unat (?g VActive) = card {b\<in>A. ?g (VStatus b) = 1}"
    using A st unat_inc [OF c(2)] I(3,6) by (simp add: v)
  have q: "queue ?g = queue f" by (rule queue_cong) (simp_all add: v)
  have "record_entry ?g b = record_entry f b" if "f (VStatus b) = 2" for b
    using that st by (auto simp: record_entry_def v)
  moreover have "{b\<in>A. ?g (VStatus b) = 2} = {b\<in>A. f (VStatus b) = 2}" using st by (auto simp: v)
  ultimately have qs: "set (queue ?g) = record_entry ?g ` {b\<in>A. ?g (VStatus b) = 2}"
    using I(8) unfolding q by (auto simp: image_iff)
  have "(\<Sum>b\<in>A. unat (?g (VStake b))) = unat x + (\<Sum>b\<in>A - {a}. unat (f (VStake b)))"
    using A by (simp add: sum.remove v)
  also have "\<dots> \<le> esc + unat x"
    using I(9) A st(2) by (simp add: sum.remove)
  finally have sm: "(\<Sum>b\<in>A. unat (?g (VStake b))) \<le> esc + unat x" .
  have "unat (?g VCount) < 2 ^ 64" "unat (?g VActive) < 2 ^ 64"
    using n c unat_inc [OF c(2)] I(1) by (simp_all add: v)
  then show ?thesis
    using rec inj act q qs sm I(2,7) by (simp add: val_inv_def v(3))
qed

section \<open>Unstaking\<close>

lemma queue_push:
  assumes "unat (f VQCount) + 1 < 2 ^ 64" "n = (ucast (f VQCount) :: u64)"
    and "g VQCount = ucast (n + 1)" "g (VQ n) = e" "\<And>i. i \<noteq> n \<Longrightarrow> g (VQ i) = f (VQ i)"
  shows "queue g = queue f @ [e]"
proof -
  have n: "unat n = unat (f VQCount)" using assms(1,2) by simp
  then have "unat (g VQCount) = unat (f VQCount) + 1" using unat_inc [of n] assms(1,3) by simp
  moreover have "of_nat (unat (f VQCount)) = n" using n by (metis of_nat_unat ucast_id)
  moreover have "(of_nat i :: u64) \<noteq> n" if "i < unat (f VQCount)" for i
  proof -
    have "unat (of_nat i :: u64) = i" using that assms(1) by (simp add: unat_of_nat)
    then show ?thesis using that n by auto
  qed
  ultimately show ?thesis using assms(4,5) by (auto simp: queue_def)
qed

lemma queue_ids:
  assumes inv: "val_inv A f esc" and a: "a \<in> A" "f (VStatus a) \<noteq> 2" "f (VId a) \<noteq> 0"
  shows "ucast (f (VId a)) \<notin> entry_id ` set (queue f)"
proof
  assume "ucast (f (VId a)) \<in> entry_id ` set (queue f)"
  then obtain b where b: "b \<in> A" "f (VStatus b) = 2" "(ucast (f (VId a)) :: u64) = ucast (f (VId b))"
    using val_invD(8) [OF inv] by auto
  then have "f (VId a) = f (VId b)"
    using ucast_small_back [OF id_small [OF inv a(1)]] ucast_small_back [OF id_small [OF inv b(1)]] by metis
  moreover have "f (VId b) \<noteq> 0" using a(3) calculation by simp
  ultimately have "a = b" using inj_onD [OF val_invD(5) [OF inv], of a b] a b by simp
  with a b show False by simp
qed

lemma a_unstake_inv:
  assumes inv: "val_inv A f esc" and A: "finite A" "a \<in> A" and st: "f (VStatus a) = 1"
    and q: "unat (ucast (f VQCount) :: u64) + 1 < 2 ^ 64"
  shows "val_inv A (a_unstake a blk f) esc"
proof -
  note I = val_invD [OF inv]
  let ?n = "ucast (f VQCount) :: u64" and ?g = "a_unstake a blk f"
  have v: "?g VCount = f VCount" "?g (VId b) = f (VId b)" "?g VQCount = ucast (?n + 1)"
      "?g (VQ i) = (if i = ?n then record_entry f a else f (VQ i))" "?g (VStake b) = f (VStake b)"
      "?g (VStatus b) = (if b = a then 2 else f (VStatus b))"
      "?g VActive = ucast (saturating_sub (ucast (f VActive) :: u64) 1)" for b i
    by (simp_all add: a_unstake_def Let_def record_entry_def)
  have id: "f (VId a) \<noteq> 0" using I(4) [OF A(2)] st by (auto simp: val_record_ok_def)
  have qq: "queue ?g = queue f @ [record_entry f a]"
    by (rule queue_push [where n = ?n]) (use q I(2) in \<open>simp_all add: v\<close>)
  have "{b\<in>A. f (VStatus b) = 1} = insert a {b\<in>A. ?g (VStatus b) = 1}" using A st by (auto simp: v)
  then have "card {b\<in>A. f (VStatus b) = 1} = Suc (card {b\<in>A. ?g (VStatus b) = 1})" using A by (simp add: v)
  then have act: "unat (?g VActive) = card {b\<in>A. ?g (VStatus b) = 1}" using I(3,6) by (simp add: v)
  have re: "record_entry ?g b = record_entry f b" for b by (simp add: record_entry_def v)
  have "{b\<in>A. ?g (VStatus b) = 2} = insert a {b\<in>A. f (VStatus b) = 2}" using A by (auto simp: v)
  then have qs: "set (queue ?g) = record_entry ?g ` {b\<in>A. ?g (VStatus b) = 2}"
    using I(8) by (simp add: qq re)
  have ds: "distinct (map entry_id (queue ?g))"
    using I(7) queue_ids [OF inv A(2) _ id] st by (simp add: qq)
  have rec: "val_record_ok ?g b" if "b \<in> A" for b
    using I(4) [OF that] id by (auto simp: val_record_ok_def v)
  have "unat (?g VQCount) < 2 ^ 64" "unat (?g VActive) < 2 ^ 64"
    using q unat_inc [OF q] I(3) by (simp_all add: v)
  then show ?thesis using rec act qs ds I(1,5,9) by (simp add: val_inv_def v(1,2,5))
qed

section \<open>Leaving\<close>

lemma queue_remove:
  assumes n: "unat (f VQCount) < 2 ^ 64" and j: "j < unat (f VQCount)"
  shows "queue (a_remove (of_nat j) f) = butlast ((queue f)[j := last (queue f)])"
proof -
  let ?n = "ucast (f VQCount) :: u64" and ?g = "a_remove (of_nat j) f"
  have u: "unat (of_nat i :: u64) = i" if "i < unat (f VQCount)" for i using that n by (simp add: unat_of_nat)
  have n1: "unat (?n - 1) = unat (f VQCount) - 1" using j n by (simp add: unat_sub word_le_nat_alt)
  have len: "unat (?g VQCount) = unat (f VQCount) - 1" using n1 by (simp add: a_remove_def Let_def)
  have lst: "last (queue f) = f (VQ (?n - 1))"
  proof -
    have "of_nat (unat (f VQCount) - 1) = ?n - 1" using n1 by (metis of_nat_unat ucast_id)
    moreover have "queue f \<noteq> []" using j by (metis length_queue list.size(3) not_less_zero)
    ultimately show ?thesis using j queue_nth [of "unat (f VQCount) - 1" f] by (simp add: last_conv_nth)
  qed
  show ?thesis
  proof (rule nth_equalityI)
    fix i
    assume "i < length (queue ?g)"
    then have i: "i < unat (f VQCount) - 1" using len by simp
    have i': "i < unat (f VQCount)" using i by simp
    have "(of_nat i :: u64) \<noteq> ?n - 1" using u [OF i'] i n1 by auto
    moreover have "(of_nat i :: u64) = of_nat j \<longleftrightarrow> i = j" using u [OF i'] u [OF j] by metis
    ultimately show "queue ?g ! i = butlast ((queue f)[j := last (queue f)]) ! i"
      using i len lst by (simp add: queue_nth nth_butlast nth_list_update a_remove_def Let_def)
  qed (simp add: len)
qed

lemma swap_pop_mset:
  assumes "j < length xs"
  shows "mset (xs ! j # butlast (xs[j := last xs])) = mset xs"
proof -
  obtain ys z where xs: "xs = ys @ [z]" using assms by (cases xs rule: rev_cases) auto
  show ?thesis
  proof (cases "j = length ys")
    case False
    then have "j < length ys" using assms xs by simp
    then show ?thesis using xs by (simp add: list_update_append nth_append mset_update butlast_append)
  qed (simp add: xs)
qed

lemma queue_entry_of:
  assumes inv: "val_inv A f esc" and a: "a \<in> A" "f (VStatus a) = 2" and e: "e \<in> set (queue f)" "entry_id e = ucast (f (VId a))"
  shows "e = record_entry f a"
proof -
  obtain b where b: "b \<in> A" "f (VStatus b) = 2" "e = record_entry f b" using e(1) val_invD(8) [OF inv] by auto
  have "(ucast (f (VId b)) :: u64) = ucast (f (VId a))" using e(2) b(3) by simp
  then have "f (VId b) = f (VId a)"
    using ucast_small_back [OF id_small [OF inv a(1)]] ucast_small_back [OF id_small [OF inv b(1)]] by metis
  moreover have "f (VId a) \<noteq> 0" using val_invD(4) [OF inv a(1)] a(2) by (auto simp: val_record_ok_def)
  ultimately have "b = a" using inj_onD [OF val_invD(5) [OF inv], of b a] a b by simp
  with b(3) show ?thesis by simp
qed

lemma a_remove_simps [simp]:
  "a_remove i f VCount = f VCount" "a_remove i f VActive = f VActive" "a_remove i f (VId b) = f (VId b)"
  "a_remove i f (VStake b) = f (VStake b)" "a_remove i f (VStatus b) = f (VStatus b)"
  by (simp_all add: a_remove_def Let_def)

lemma a_clear_simps [simp]:
  "a_clear a i f VCount = f VCount" "a_clear a i f VActive = f VActive" "a_clear a i f VQCount = f VQCount" "a_clear a i f (VQ k) = f (VQ k)"
  "a_clear a i f (VId b) = (if b = a then 0 else f (VId b))" "a_clear a i f (VStake b) = (if b = a then 0 else f (VStake b))"
  "a_clear a i f (VStatus b) = (if b = a then 0 else f (VStatus b))"
  by (simp_all add: a_clear_def)

lemma queue_clear [simp]: "queue (a_clear a i f) = queue f"
  by (rule queue_cong) simp_all

text \<open>What clearing a record does to the parts of the invariant that do not mention the queue.\<close>

lemma clear_records:
  assumes inv: "val_inv A f esc" and A: "finite A" "a \<in> A"
    and g: "g VCount = f VCount" "\<And>b. g (VId b) = (if b = a then 0 else f (VId b))"
      "\<And>b. g (VStake b) = (if b = a then 0 else f (VStake b))" "\<And>b. g (VStatus b) = (if b = a then 0 else f (VStatus b))"
  shows "\<forall>b\<in>A. val_record_ok g b" "inj_on (\<lambda>b. g (VId b)) {b\<in>A. g (VId b) \<noteq> 0}"
    "(\<Sum>b\<in>A. unat (g (VStake b))) \<le> esc - unat (f (VStake a))" "unat (f (VStake a)) \<le> esc"
proof -
  note I = val_invD [OF inv]
  show "\<forall>b\<in>A. val_record_ok g b"
    using I(4) by (auto simp: val_record_ok_def g)
  show "inj_on (\<lambda>b. g (VId b)) {b\<in>A. g (VId b) \<noteq> 0}"
    using I(5) by (auto simp: inj_on_def g split: if_splits)
  have "(\<Sum>b\<in>A. unat (f (VStake b))) = unat (f (VStake a)) + (\<Sum>b\<in>A - {a}. unat (f (VStake b)))"
    using A by (rule sum.remove)
  moreover have "(\<Sum>b\<in>A. unat (g (VStake b))) = (\<Sum>b\<in>A - {a}. unat (f (VStake b)))"
    using A by (simp add: sum.remove g)
  ultimately show "(\<Sum>b\<in>A. unat (g (VStake b))) \<le> esc - unat (f (VStake a))" "unat (f (VStake a)) \<le> esc"
    using I(9) by simp_all
qed

lemma a_leave_inv:
  assumes inv: "val_inv A f esc" and A: "finite A" "a \<in> A" and st: "f (VStatus a) = 2"
    and j: "j < unat (f VQCount)" "entry_id (queue f ! j) = ucast (f (VId a))"
  shows "val_inv A (a_clear a i (a_remove (of_nat j) f)) (esc - unat (f (VStake a)))"
proof -
  note I = val_invD [OF inv]
  let ?g = "a_clear a i (a_remove (of_nat j) f)"
  have C: "\<forall>b\<in>A. val_record_ok ?g b" "inj_on (\<lambda>b. ?g (VId b)) {b\<in>A. ?g (VId b) \<noteq> 0}"
      "(\<Sum>b\<in>A. unat (?g (VStake b))) \<le> esc - unat (f (VStake a))"
    by (rule clear_records [OF inv A]; simp)+
  have e: "queue f ! j = record_entry f a"
    using queue_entry_of [OF inv A(2) st _ j(2)] j(1) by (simp add: nth_mem)
  have ms: "mset (record_entry f a # queue ?g) = mset (queue f)"
    using swap_pop_mset [of j "queue f"] j(1) e queue_remove [of f j, OF I(2) j(1)] by simp
  have "mset (map entry_id (record_entry f a # queue ?g)) = mset (map entry_id (queue f))"
    unfolding mset_map ms ..
  then have "distinct (map entry_id (record_entry f a # queue ?g))" using I(7) mset_eq_imp_distinct_iff by metis
  then have ds: "distinct (map entry_id (queue ?g))" and nin: "record_entry f a \<notin> set (queue ?g)"
    by (auto simp del: entry_id_record)
  have re: "record_entry ?g b = record_entry f b" if "b \<noteq> a" for b using that by (simp add: record_entry_def)
  have "{b\<in>A. f (VStatus b) = 2} = insert a {b\<in>A. ?g (VStatus b) = 2}" using A st by auto
  then have s1: "set (queue f) = insert (record_entry f a) (record_entry f ` {b\<in>A. ?g (VStatus b) = 2})" using I(8) by simp
  have s2: "set (queue f) = insert (record_entry f a) (set (queue ?g))"
    using mset_eq_setD [OF ms] by simp
  have s3: "record_entry f a \<notin> record_entry f ` {b\<in>A. ?g (VStatus b) = 2}"
  proof
    assume "record_entry f a \<in> record_entry f ` {b\<in>A. ?g (VStatus b) = 2}"
    then obtain b where b: "b \<in> A" "f (VStatus b) = 2" "b \<noteq> a" "record_entry f a = record_entry f b" by (auto split: if_splits)
    then have "(ucast (f (VId a)) :: u64) = ucast (f (VId b))" by (metis entry_id_record(1))
    then have "f (VId a) = f (VId b)"
      using ucast_small_back [OF id_small [OF inv A(2)]] ucast_small_back [OF id_small [OF inv b(1)]] by metis
    moreover have "f (VId a) \<noteq> 0" using I(4) [OF A(2)] st by (auto simp: val_record_ok_def)
    ultimately show False using inj_onD [OF I(5), of a b] A b by simp
  qed
  have "set (queue ?g) = record_entry f ` {b\<in>A. ?g (VStatus b) = 2}"
    by (rule iffD1 [OF insert_ident [OF nin s3]]) (rule trans [OF s2 [symmetric] s1])
  also have "\<dots> = record_entry ?g ` {b\<in>A. ?g (VStatus b) = 2}"
    by (intro image_cong) (auto simp: re split: if_splits)
  finally have qs: "set (queue ?g) = record_entry ?g ` {b\<in>A. ?g (VStatus b) = 2}" .
  have act: "{b\<in>A. ?g (VStatus b) = 1} = {b\<in>A. f (VStatus b) = 1}" using st by auto
  have "unat (?g VQCount) < 2 ^ 64"
    using arg_cong [OF ms, of size] I(2) by simp
  then show ?thesis using C ds qs act I(1,3,6) by (simp add: val_inv_def)
qed

end
