(* ===== verification/Validator_Props.thy ===== *)
theory Validator_Props
  imports Validator_Inv Asset_Props
begin

text \<open>
  The life of a stake: every storage reached by successful staking operations satisfies the invariant
  of the contract, so the escrow covers all stakes on record; an unbonding validator gets the whole
  stake back once the period is over; the safety floor holds; slashing takes exactly the stake.
\<close>

section \<open>Claiming and slashing\<close>

abbreviation escrow :: "(bytes \<Rightarrow> u256) \<Rightarrow> evm_storage \<Rightarrow> nat" where
  "escrow H m \<equiv> unat (aload H m (Bal_Key CALL_ASSET_ID STAKING_ESCROW))"

definition val_good :: "(bytes \<Rightarrow> u256) \<Rightarrow> address set \<Rightarrow> evm_storage \<Rightarrow> bool" where
  "val_good H A m \<longleftrightarrow> val_inv A (\<lambda>k. vload H m k) (escrow H m) \<and> escrow H m < 2 ^ 128"

lemma val_inv_cong:
  assumes "\<And>k. k \<in> val_keys A \<Longrightarrow> f k = g k"
  shows "val_inv A f e = val_inv A g e"
proof -
  have q: "queue f = queue g" by (rule queue_cong) (simp_all add: assms)
  have r: "val_record_ok f a = val_record_ok g a" "record_entry f a = record_entry g a" if "a \<in> A" for a
    using that assms by (simp_all add: val_record_ok_def record_entry_def)
  have k: "f (VId a) = g (VId a)" "f (VStatus a) = g (VStatus a)" "f (VStake a) = g (VStake a)" if "a \<in> A" for a
    using that assms by simp_all
  have s: "{a\<in>A. f (VId a) \<noteq> 0} = {a\<in>A. g (VId a) \<noteq> 0}" "{a\<in>A. f (VStatus a) = n} = {a\<in>A. g (VStatus a) = n}" for n
    using k by auto
  have i: "inj_on (\<lambda>a. f (VId a)) {a\<in>A. g (VId a) \<noteq> 0} = inj_on (\<lambda>a. g (VId a)) {a\<in>A. g (VId a) \<noteq> 0}"
    by (rule inj_on_cong) (simp add: k)
  have m: "record_entry f ` {a\<in>A. g (VStatus a) = 2} = record_entry g ` {a\<in>A. g (VStatus a) = 2}"
    by (rule image_cong) (simp_all add: r)
  have u: "(\<Sum>a\<in>A. unat (f (VStake a))) = (\<Sum>a\<in>A. unat (g (VStake a)))"
    by (rule sum.cong) (simp_all add: k)
  show ?thesis unfolding val_inv_def q s i m u using r(1) assms by simp
qed

lemma val_good_rel:
  assumes "val_rel H (val_keys A) m f" "val_inv A f (escrow H m)" "escrow H m < 2 ^ 128"
  shows "val_good H A m"
  unfolding val_good_def using assms val_inv_cong [of A "\<lambda>k. vload H m k" f] by (simp add: val_rel_load)

lemma val_inv_mono: "val_inv A f e \<Longrightarrow> e \<le> e' \<Longrightarrow> val_inv A f e'"
  by (auto simp: val_inv_def)

text \<open>Where a validator with the given identifier is unbonding, its removal from the queue succeeds.\<close>

lemma remove_unbonding:
  assumes lay: "val_layout_ok H A" and inv: "val_inv A f esc" and rel: "val_rel H (val_keys A) m f"
    and a: "a \<in> A" "f (VStatus a) = 2"
  shows "\<exists>j m1. j < unat (f VQCount) \<and> entry_id (queue f ! j) = ucast (f (VId a)) \<and>
    remove_from_unbonding_queue H pure_backend (ucast (f (VId a))) m = (Inr (ucast (f (VStake a))), m1) \<and>
    val_rel H (val_keys A) m1 (a_remove (of_nat j) f) \<and> m1 ASSET_ADDRESS = m ASSET_ADDRESS"
proof -
  let ?v = "ucast (f (VId a)) :: u64"
  obtain r m1 where run: "remove_from_unbonding_queue H pure_backend ?v m = (r, m1)"
    by (cases "remove_from_unbonding_queue H pure_backend ?v m")
  have "record_entry f a \<in> set (queue f)" using val_invD(8) [OF inv] a by auto
  then have "\<exists>e \<in> set (queue f). entry_id e = ?v" by (metis entry_id_record(1))
  with remove_refines [OF lay rel val_invD(2) [OF inv] run] obtain j where
    j: "j < unat (f VQCount)" "r = Inr (entry_amount (queue f ! j))" "entry_id (queue f ! j) = ?v"
      "val_rel H (val_keys A) m1 (a_remove (of_nat j) f)" "m1 ASSET_ADDRESS = m ASSET_ADDRESS" by blast
  have "queue f ! j = record_entry f a"
    using queue_entry_of [OF inv a _ j(3)] j(1) by (simp add: nth_mem)
  with j run show ?thesis by auto
qed

lemma slash_active_inv:
  assumes inv: "val_inv A f esc" and A: "finite A" "a \<in> A" and st: "f (VStatus a) = 1"
  shows "val_inv A ((a_clear a i f)(VActive := ucast (saturating_sub (ucast (f VActive) :: u64) 1))) (esc - unat (f (VStake a)))"
proof -
  note I = val_invD [OF inv]
  let ?g = "(a_clear a i f)(VActive := ucast (saturating_sub (ucast (f VActive) :: u64) 1))"
  have C: "\<forall>b\<in>A. val_record_ok ?g b" "inj_on (\<lambda>b. ?g (VId b)) {b\<in>A. ?g (VId b) \<noteq> 0}"
      "(\<Sum>b\<in>A. unat (?g (VStake b))) \<le> esc - unat (f (VStake a))"
    by (rule clear_records [OF inv A]; simp)+
  have q: "queue ?g = queue f" by (rule queue_cong) simp_all
  have "{b\<in>A. f (VStatus b) = 1} = insert a {b\<in>A. ?g (VStatus b) = 1}" using A st by auto
  then have "card {b\<in>A. f (VStatus b) = 1} = Suc (card {b\<in>A. ?g (VStatus b) = 1})" using A by simp
  then have act: "unat (?g VActive) = card {b\<in>A. ?g (VStatus b) = 1}" using I(3,6) by simp
  have "{b\<in>A. ?g (VStatus b) = 2} = {b\<in>A. f (VStatus b) = 2}" using st by auto
  moreover have "record_entry ?g b = record_entry f b" if "f (VStatus b) = 2" for b
    using that st by (auto simp: record_entry_def)
  ultimately have qs: "set (queue ?g) = record_entry ?g ` {b\<in>A. ?g (VStatus b) = 2}"
    using I(8) unfolding q by (auto simp: image_iff)
  have "unat (?g VActive) < 2 ^ 64" using I(3) by simp
  then show ?thesis using C act q qs I(1,2,7) by (simp add: val_inv_def)
qed

text \<open>The block from which an unbonding stake can be claimed.\<close>

definition unlock_block :: "(val_key \<Rightarrow> u256) \<Rightarrow> address \<Rightarrow> nat" where
  "unlock_block f a = unat (ucast (f (VUnbond a)) :: u64) +
     unat (if (ucast (f VPeriod) :: u64) = 0 then 120960 else (ucast (f VPeriod) :: u64))"

lemma claim_guards:
  assumes rel: "val_rel H (val_keys A) m f" and a: "a \<in> A"
    and run: "claim_unbonded H pure_backend i a blk m = (Inr x, m')"
  shows "(ucast (f (VId a)) :: u64) = i" "i \<noteq> 0" "(ucast (f (VStatus a)) :: u8) = 2" "unlock_block f a < 2 ^ 64" "unlock_block f a \<le> unat blk"
proof -
  note l = val_rel_load [OF rel]
  obtain u where u: "checked_add (ucast (f (VUnbond a)) :: u64) (if (ucast (f VPeriod) :: u64) = 0 then 120960 else ucast (f VPeriod)) = Some u"
      "\<not> blk < u" and g: "(ucast (f (VId a)) :: u64) = i" "i \<noteq> 0" "(ucast (f (VStatus a)) :: u8) = 2"
    using run a l by (auto simp: claim_unbonded_def smonad_Inr vs_defs val_slots [of H] Let_def to_be_bytes_last split: if_splits)
  have "unlock_block f a < 2 ^ 64 \<and> unat u = unlock_block f a"
    using u(1) by (auto simp: checked_add_def unlock_block_def unat_add_no_overflow split: if_splits)
  with u(2) g show "(ucast (f (VId a)) :: u64) = i" "i \<noteq> 0" "(ucast (f (VStatus a)) :: u8) = 2" "unlock_block f a < 2 ^ 64" "unlock_block f a \<le> unat blk"
    by (simp_all add: not_less word_le_nat_alt)
qed

lemma bal_sep:
  assumes "asset_hash_ok H {CALL_ASSET_ID} {a, STAKING_ESCROW}" "a \<noteq> STAKING_ESCROW"
  shows "asset_slot H (Bal_Key CALL_ASSET_ID a) \<noteq> asset_slot H (Bal_Key CALL_ASSET_ID STAKING_ESCROW)"
  using asset_slot_eq [OF assms(1), of "Bal_Key CALL_ASSET_ID a" "Bal_Key CALL_ASSET_ID STAKING_ESCROW"] assms(2) by simp

lemma val_good_stake:
  assumes "val_good H A m" "finite A" "a \<in> A"
  shows "unat (vload H m (VStake a)) < 2 ^ 128" "unat (vload H m (VStake a)) \<le> escrow H m"
proof -
  have I: "val_inv A (\<lambda>k. vload H m k) (escrow H m)" using assms(1) by (simp add: val_good_def)
  show "unat (vload H m (VStake a)) < 2 ^ 128" using val_invD(4) [OF I assms(3)] by (simp add: val_record_ok_def)
  show "unat (vload H m (VStake a)) \<le> escrow H m"
    using val_invD(9) [OF I] member_le_sum [of a A "\<lambda>b. unat (vload H m (VStake b))"] assms(2,3) by simp
qed

text \<open>The claim of a validator that is unbonding and whose period is over, on a storage that satisfies the invariant.\<close>

lemma claim_run:
  assumes lay: "val_layout_ok H A" and good: "val_good H A m" and A: "finite A" "a \<in> A" "a \<noteq> STAKING_ESCROW"
    and ash: "asset_hash_ok H {CALL_ASSET_ID} {a, STAKING_ESCROW}"
    and st: "vload H m (VStatus a) = 2" and i: "i = ucast (vload H m (VId a))" "i \<noteq> 0"
    and blk: "unlock_block (\<lambda>k. vload H m k) a < 2 ^ 64" "unlock_block (\<lambda>k. vload H m k) a \<le> unat blk"
  defines "s \<equiv> vload H m (VStake a)" and "b \<equiv> aload H m (Bal_Key CALL_ASSET_ID a)"
  shows "if unat b + unat s < 2 ^ 128
    then \<exists>m'. claim_unbonded H pure_backend i a blk m = (Inr (ucast s), m') \<and> val_good H A m' \<and>
      vload H m' (VId a) = 0 \<and> vload H m' (VStatus a) = 0 \<and> vload H m' (VStake a) = 0 \<and>
      unat (aload H m' (Bal_Key CALL_ASSET_ID a)) = unat b + unat s \<and> escrow H m' + unat s = escrow H m
    else \<exists>m'. claim_unbonded H pure_backend i a blk m = (Inl V_BalanceOverflow, m')"
proof -
  let ?f = "\<lambda>k. vload H m k" and ?e = "aload H m (Bal_Key CALL_ASSET_ID STAKING_ESCROW)"
  have inv: "val_inv A ?f (escrow H m)" and e: "escrow H m < 2 ^ 128" using good by (simp_all add: val_good_def)
  note S = val_good_stake [OF good A(1,2)] and sep = bal_sep [OF ash A(3)]
  obtain j m1 where j: "j < unat (?f VQCount)" "entry_id (queue ?f ! j) = i"
      and r: "remove_from_unbonding_queue H pure_backend i m = (Inr (ucast s), m1)"
      and m1: "val_rel H (val_keys A) m1 (a_remove (of_nat j) ?f)" "m1 ASSET_ADDRESS = m ASSET_ADDRESS"
    using remove_unbonding [where f = ?f and m = m and a = a, OF lay inv val_rel_self A(2) st] unfolding i(1) s_def by blast
  define m2 where "m2 = aput (asset_slot H (Bal_Key CALL_ASSET_ID STAKING_ESCROW)) (?e - ucast (ucast s :: u128)) m1"
  define m3 where "m3 = aput (asset_slot H (Bal_Key CALL_ASSET_ID a)) (b + ucast (ucast s :: u128)) m2"
  have us: "unat (ucast s :: u128) = unat s" "ucast (ucast s :: u128) = s"
    using S(1) by (simp_all add: s_def word_unat_eq_iff)
  have d: "deduct_balance H pure_backend CALL_ASSET_ID STAKING_ESCROW (ucast s) m1 = (Inr (), m2)"
    using S e us by (simp add: deduct_balance_pure m1(2) m2_def Let_def s_def)
  have b2: "aload H m2 (Bal_Key CALL_ASSET_ID a) = b" using sep by (simp add: m2_def b_def m1(2) sput_apply)
  have ad: "add_balance H pure_backend CALL_ASSET_ID a (ucast s) m2 =
      (if unat b + unat s < 2 ^ 128 then (Inr (), m3) else (Inl BalanceOverflow, m2))"
    using us by (simp add: add_balance_pure b2 m3_def Let_def not_le)
  obtain c m4 where c: "(clear_validator_state H pure_backend a i :: (_, validator_error, _) smonad) m3 = (c, m4)"
    by (cases "(clear_validator_state H pure_backend a i :: (_, validator_error, _) smonad) m3")
  have "val_rel H (val_keys A) m3 (a_remove (of_nat j) ?f)" using m1(1) by (simp add: m3_def m2_def val_rel_other)
  from clear_refines [OF lay this A(2) c] have c': "c = Inr ()"
    and m4: "val_rel H (val_keys A) m4 (a_clear a i (a_remove (of_nat j) ?f))" "m4 ASSET_ADDRESS = m3 ASSET_ADDRESS" by simp_all
  have run: "claim_unbonded H pure_backend i a blk m =
      (if unat b + unat s < 2 ^ 128 then (Inr (ucast s), m4) else (Inl V_BalanceOverflow, m2))"
    using i st blk r d ad c c'
    by (auto simp: claim_unbonded_def sbind_run vs_defs val_slots [of H] Let_def to_be_bytes_last smap_err_def
        checked_add_def unlock_block_def unat_add_no_overflow word_less_nat_alt)
  show ?thesis
  proof (cases "unat b + unat s < 2 ^ 128")
    case True
    have es: "escrow H m4 + unat s = escrow H m"
      using S(2) sep us by (simp add: m4(2) m3_def m2_def sput_apply unat_sub word_le_nat_alt s_def)
    have ba: "unat (aload H m4 (Bal_Key CALL_ASSET_ID a)) = unat b + unat s"
      using True us by (simp add: m4(2) m3_def unat_add_no_overflow sput_apply)
    have "val_inv A (a_clear a i (a_remove (of_nat j) ?f)) (escrow H m4)"
      using a_leave_inv [where f = ?f and a = a and i = i, OF inv A(1,2) st j(1)] j(2) i(1) by (simp add: s_def flip: es)
    then have "val_good H A m4" using val_good_rel [OF m4(1)] es e by simp
    with run True es ba show ?thesis using val_rel_load [OF m4(1)] A(2) by simp
  next
    case False
    with run show ?thesis by simp
  qed
qed

lemma slash_run:
  assumes lay: "val_layout_ok H A" and good: "val_good H A m" and A: "finite A" "a \<in> A"
  defines "s \<equiv> vload H m (VStake a)"
  shows "\<exists>m'. slash_stake H pure_backend a m = (Inr (ucast s), m') \<and> val_good H A m' \<and>
      vload H m' (VId a) = 0 \<and> vload H m' (VStatus a) = 0 \<and> vload H m' (VStake a) = 0 \<and>
      escrow H m' + unat s = escrow H m"
proof -
  let ?f = "\<lambda>k. vload H m k" and ?e = "aload H m (Bal_Key CALL_ASSET_ID STAKING_ESCROW)"
  let ?i = "ucast (?f (VId a)) :: u64"
  have inv: "val_inv A ?f (escrow H m)" and e: "escrow H m < 2 ^ 128" using good by (simp_all add: val_good_def)
  have rec: "val_record_ok ?f a" using val_invD(4) [OF inv A(2)] .
  have idz: "?i = 0 \<longleftrightarrow> ?f (VId a) = 0"
    using ucast_small_back [OF id_small [OF inv A(2)]] by (metis ucast_0)
  note S = val_good_stake [OF good A]
  show ?thesis
  proof (cases "?f (VId a) = 0")
    case True
    then have "?f (VStatus a) = 0" "?f (VStake a) = 0" using rec by (auto simp: val_record_ok_def)
    then show ?thesis using True good
      by (simp add: s_def slash_stake_def sbind_run vs_defs val_slots [of H])
  next
    case False
    then have st: "?f (VStatus a) = 1 \<or> ?f (VStatus a) = 2" using rec by (auto simp: val_record_ok_def)
    define m1 where "m1 = (if s = 0 then m else aput (asset_slot H (Bal_Key CALL_ASSET_ID STAKING_ESCROW)) (?e - s) m)"
    have us: "unat (ucast s :: u128) = unat s" "ucast (ucast s :: u128) = s"
      using S(1) by (simp_all add: s_def word_unat_eq_iff)
    have s0: "(0 :: u128) < ucast s \<longleftrightarrow> s \<noteq> 0" using us by (metis ucast_0 word_gt_0)
    have d: "0 < (ucast s :: u128) \<Longrightarrow> deduct_balance H pure_backend CALL_ASSET_ID STAKING_ESCROW (ucast s) m = (Inr (), m1)"
        "\<not> 0 < (ucast s :: u128) \<Longrightarrow> m1 = m"
      using S e us s0 by (simp_all add: deduct_balance_pure m1_def Let_def s_def)
    note d' = d [unfolded s_def]
    have rel1: "val_rel H (val_keys A) m1 ?f" and vl1: "m1 VALIDATOR_ADDRESS = m VALIDATOR_ADDRESS"
      by (simp_all add: m1_def val_rel_other val_rel_self)
    have es: "escrow H m1 + unat s = escrow H m"
      using S(2) by (simp add: m1_def s_def sput_apply unat_sub word_le_nat_alt)
    from st show ?thesis
    proof
      assume st: "?f (VStatus a) = 1"
      obtain c m2 where c: "(clear_validator_state H pure_backend a ?i :: (_, validator_error, _) smonad) m1 = (c, m2)"
        by (cases "(clear_validator_state H pure_backend a ?i :: (_, validator_error, _) smonad) m1")
      have C: "c = Inr ()" "m2 ASSET_ADDRESS = m1 ASSET_ADDRESS" and r2: "val_rel H (val_keys A) m2 (a_clear a ?i ?f)"
        using clear_refines [where f = ?f, OF lay rel1 A(2) c] by simp_all
      let ?g = "(a_clear a ?i ?f)(VActive := ucast (saturating_sub (ucast (?f VActive) :: u64) 1))"
      define m3 where "m3 = vput H VActive (?g VActive) m2"
      have act: "vload H m2 VActive = ?f VActive" using val_rel_load [OF r2, of VActive] by simp
      have run: "slash_stake H pure_backend a m = (Inr (ucast s), m3)"
        using d' c C st False idz act vl1
        by (cases "0 < (ucast (?f (VStake a)) :: u128)") (simp_all add: slash_stake_def sbind_run vs_defs smap_err_def val_slots [of H] to_be_bytes_last s_def m3_def)
      have r3: "val_rel H (val_keys A) m3 ?g"
        unfolding m3_def fun_upd_same by (intro val_rel_put lay [unfolded val_layout_ok_def] r2) simp
      have e3: "escrow H m3 = escrow H m1" using C by (simp add: m3_def)
      have "val_inv A ?g (escrow H m3)"
        using slash_active_inv [where f = ?f and a = a and i = ?i, OF inv A st] by (simp add: e3 s_def flip: es)
      then have "val_good H A m3" using val_good_rel [OF r3] es e3 e by simp
      with run es e3 show ?thesis using val_rel_load [OF r3] A(2) by simp
    next
      assume st: "?f (VStatus a) = 2"
      obtain j m2 where j: "j < unat (?f VQCount)" "entry_id (queue ?f ! j) = ?i"
          and r: "remove_from_unbonding_queue H pure_backend ?i m1 = (Inr (ucast s), m2)"
          and m2: "val_rel H (val_keys A) m2 (a_remove (of_nat j) ?f)" "m2 ASSET_ADDRESS = m1 ASSET_ADDRESS"
        using remove_unbonding [where f = ?f and m = m1 and a = a, OF lay inv rel1 A(2) st] unfolding s_def by blast
      obtain c m3 where c: "(clear_validator_state H pure_backend a ?i :: (_, validator_error, _) smonad) m2 = (c, m3)"
        by (cases "(clear_validator_state H pure_backend a ?i :: (_, validator_error, _) smonad) m2")
      have C: "c = Inr ()" "m3 ASSET_ADDRESS = m2 ASSET_ADDRESS" and r3: "val_rel H (val_keys A) m3 (a_clear a ?i (a_remove (of_nat j) ?f))"
        using clear_refines [OF lay m2(1) A(2) c] by simp_all
      have run: "slash_stake H pure_backend a m = (Inr (ucast s), m3)"
        using d' c C st False idz r vl1
        by (cases "0 < (ucast (?f (VStake a)) :: u128)") (simp_all add: slash_stake_def sbind_run vs_defs smap_err_def val_slots [of H] to_be_bytes_last s_def)
      have e3: "escrow H m3 = escrow H m1" using C m2 by simp
      have "val_inv A (a_clear a ?i (a_remove (of_nat j) ?f)) (escrow H m3)"
        using a_leave_inv [where f = ?f and a = a and i = ?i, OF inv A st j(1)] j(2) by (simp add: e3 s_def flip: es)
      then have "val_good H A m3" using val_good_rel [OF r3] es e3 e by simp
      with run es e3 show ?thesis using val_rel_load [OF r3] A(2) by simp
    qed
  qed
qed

text \<open>Conversely, staking and unstaking succeed where their guards hold.\<close>

lemma stake_run:
  assumes lay: "val_layout_ok H A" and a: "a \<in> A" "a \<noteq> STAKING_ESCROW"
    and ash: "asset_hash_ok H {CALL_ASSET_ID} {a, STAKING_ESCROW}"
    and g: "MIN_SELF_STAKE \<le> x" "pk \<noteq> replicate 32 0" "vload H m (VId a) = 0"
      "unat x \<le> unat (aload H m (Bal_Key CALL_ASSET_ID a))" "unat (aload H m (Bal_Key CALL_ASSET_ID a)) < 2 ^ 128"
      "escrow H m + unat x < 2 ^ 128"
      "unat (vload H m VCount) + 1 < 2 ^ 64" "unat (vload H m VActive) + 1 < 2 ^ 64"
  shows "\<exists>m'. stake H pure_backend pk x a m = (Inr (), m')"
proof -
  note inj = lay [unfolded val_layout_ok_def inj_on_def, rule_format, of VActive]
  have ne: "val_slot H VActive \<noteq> val_slot H VCount" "val_slot H VActive \<noteq> val_slot H (VId a)"
      "val_slot H VActive \<noteq> val_slot H (VIdx n)" "val_slot H VActive \<noteq> val_slot H (VStake a)"
      "val_slot H VActive \<noteq> val_slot H (VPub a)" "val_slot H VActive \<noteq> val_slot H (VStatus a)" for n
    using inj a(1) by (metis val_key.distinct val_keys_mem)+
  have "unat (ucast (vload H m VCount) :: u64) + 1 < 2 ^ 64" "unat (ucast (vload H m VActive) :: u64) + 1 < 2 ^ 64"
    using g(7,8) by simp_all
  then show ?thesis
    using g(1-6) bal_sep [OF ash a(2)] ne
    by (simp add: stake_def sbind_run vs_defs val_slots [of H] deduct_balance_pure add_balance_pure Let_def smap_err_def
        not_less sput_apply checked_add_def)
qed

lemma unstake_run:
  assumes lay: "val_layout_ok H A" and good: "val_good H A m" and a: "a \<in> A" and st: "vload H m (VStatus a) = 1"
    and i: "i = ucast (vload H m (VId a))"
    and g: "unat (ucast (vload H m VFloor) :: u64) < unat (vload H m VActive)" "unat (vload H m VQCount) + 1 < 2 ^ 64"
  shows "\<exists>m'. unstake H pure_backend i a blk m = (Inr (), m')"
proof -
  let ?f = "\<lambda>k. vload H m k"
  have inv: "val_inv A ?f (escrow H m)" using good by (simp add: val_good_def)
  have "?f (VId a) \<noteq> 0" using val_invD(4) [OF inv a] st by (auto simp: val_record_ok_def)
  then have i0: "i \<noteq> 0" unfolding i using ucast_small_back [OF id_small [OF inv a]] by (metis ucast_0)
  note inj = lay [unfolded val_layout_ok_def inj_on_def, rule_format, of VQCount]
  have ne: "val_slot H VQCount \<noteq> val_slot H VActive" "val_slot H VQCount \<noteq> val_slot H (VStatus a)"
      "val_slot H VQCount \<noteq> val_slot H (VUnbond a)" "val_slot H VQCount \<noteq> val_slot H (VQ n)" for n
    using inj a by (metis val_key.distinct val_keys_mem)+
  have act: "unat (ucast (?f VActive) :: u64) = unat (?f VActive)" using val_invD(3) [OF inv] by simp
  then have fl: "\<not> ((0 :: u64) < ucast (?f VActive) \<and> (ucast (?f VActive) :: u64) - 1 < ucast (?f VFloor))"
    using g(1) by (auto simp: word_less_nat_alt unat_sub word_le_nat_alt)
  have "unat (ucast (?f VQCount) :: u64) + 1 < 2 ^ 64" using g(2) by simp
  then show ?thesis
    using i0 i st fl ne
    by (auto simp: unstake_def sbind_run vs_defs val_slots [of H] Let_def to_be_bytes_last sput_apply checked_add_def)
qed

section \<open>Reachable storages\<close>

text \<open>
  The contract is deployed with no validator; the safety floor and the period may be preset. A step is
  a successful operation of the contract by an account of \<open>A\<close> other than the escrow (a failed one is
  rolled back), or activity elsewhere that leaves the contract alone and takes nothing out of the escrow.
\<close>

inductive val_step :: "(bytes \<Rightarrow> u256) \<Rightarrow> address set \<Rightarrow> evm_storage \<Rightarrow> evm_storage \<Rightarrow> bool" for H A where
  stake: "a \<in> A \<Longrightarrow> a \<noteq> STAKING_ESCROW \<Longrightarrow> stake H pure_backend pk x a m = (Inr (), m') \<Longrightarrow> val_step H A m m'"
| unstake: "a \<in> A \<Longrightarrow> unstake H pure_backend i a blk m = (Inr (), m') \<Longrightarrow> val_step H A m m'"
| claim: "a \<in> A \<Longrightarrow> a \<noteq> STAKING_ESCROW \<Longrightarrow> claim_unbonded H pure_backend i a blk m = (Inr x, m') \<Longrightarrow> val_step H A m m'"
| slash: "a \<in> A \<Longrightarrow> slash_stake H pure_backend a m = (Inr x, m') \<Longrightarrow> val_step H A m m'"
| elsewhere: "m' VALIDATOR_ADDRESS = m VALIDATOR_ADDRESS \<Longrightarrow> escrow H m \<le> escrow H m' \<Longrightarrow> escrow H m' < 2 ^ 128 \<Longrightarrow>
    val_step H A m m'"

inductive val_reach :: "(bytes \<Rightarrow> u256) \<Rightarrow> address set \<Rightarrow> evm_storage \<Rightarrow> bool" for H A where
  deployed: "(\<forall>k \<in> val_keys A - {VFloor, VPeriod}. vload H m k = 0) \<Longrightarrow> escrow H m < 2 ^ 128 \<Longrightarrow> val_reach H A m"
| step: "val_reach H A m \<Longrightarrow> val_step H A m m' \<Longrightarrow> val_reach H A m'"

definition val_hashes_ok :: "(bytes \<Rightarrow> u256) \<Rightarrow> address set \<Rightarrow> bool" where
  "val_hashes_ok H A \<longleftrightarrow> val_layout_ok H A \<and> asset_hash_ok H {CALL_ASSET_ID} (insert STAKING_ESCROW A)"

lemma val_hashes_okD:
  assumes "val_hashes_ok H A"
  shows "val_layout_ok H A" "a \<in> A \<Longrightarrow> asset_hash_ok H {CALL_ASSET_ID} {a, STAKING_ESCROW}"
proof -
  show "val_layout_ok H A" using assms by (simp add: val_hashes_ok_def)
  assume "a \<in> A"
  then have "asset_keys {CALL_ASSET_ID} {a, STAKING_ESCROW} \<subseteq> asset_keys {CALL_ASSET_ID} (insert STAKING_ESCROW A)"
    by (auto simp: asset_keys_def)
  then show "asset_hash_ok H {CALL_ASSET_ID} {a, STAKING_ESCROW}"
    using assms unfolding val_hashes_ok_def asset_hash_ok_def by (blast intro: hash_ok_mono)
qed

lemma status_exact:
  assumes "val_inv A f e" "a \<in> A" "(ucast (f (VStatus a)) :: u8) = n" "n = 1 \<or> n = 2"
  shows "f (VStatus a) = ucast n"
  using val_invD(4) [OF assms(1,2)] assms(3,4) by (auto simp: val_record_ok_def)

text \<open>The escrow credit of a stake is checked against 128 bits.\<close>

lemma stake_escrow_small:
  assumes "stake H pure_backend pk x a m = (Inr u, m')"
  shows "escrow H m' < 2 ^ 128"
  using assms
  by (auto simp: stake_def smonad_Inr vs_defs val_slots [of H] deduct_balance_pure add_balance_pure Let_def
      sput_apply unat_add_no_overflow split: if_splits)

lemma val_step_good:
  assumes ok: "val_hashes_ok H A" "finite A" and good: "val_good H A m" and step: "val_step H A m m'"
  shows "val_good H A m'"
  using step
proof cases
  let ?f = "\<lambda>k. vload H m k"
  have inv: "val_inv A ?f (escrow H m)" and e: "escrow H m < 2 ^ 128" using good by (simp_all add: val_good_def)
  note lay = val_hashes_okD(1) [OF ok(1)] and ash = val_hashes_okD(2) [OF ok(1)]
  {
    case (stake a pk x)
    note R = stake_refines [where f = ?f, OF lay val_rel_self stake(1,2) ash [OF stake(1)] stake(3)]
    then have "val_inv A (a_stake a x pk ?f) (escrow H m')"
      using a_stake_inv [where f = ?f and a = a and x = x and pk = pk, OF inv ok(2) stake(1)] by simp
    moreover have "escrow H m' < 2 ^ 128" by (rule stake_escrow_small [OF stake(3)])
    ultimately show ?thesis using R val_good_rel by blast
  next
    case (unstake a i blk)
    note R = unstake_refines [where f = ?f, OF lay val_rel_self unstake]
    then have st: "?f (VStatus a) = 1" using status_exact [where f = ?f, OF inv unstake(1)] by fastforce
    have "val_inv A (a_unstake a blk ?f) (escrow H m')"
      using a_unstake_inv [where f = ?f and a = a and blk = blk, OF inv ok(2) unstake(1) st] R by simp
    then show ?thesis using R e val_good_rel by fastforce
  next
    case (claim a i blk x)
    note G = claim_guards [where f = ?f, OF val_rel_self claim(1,3)]
    have st: "?f (VStatus a) = 2" using status_exact [where f = ?f, OF inv claim(1)] G(3) by fastforce
    from claim_run [OF lay good ok(2) claim(1,2) ash [OF claim(1)] st G(1) [symmetric] G(2,4,5)] claim(3)
    show ?thesis by (auto split: if_splits)
  next
    case (slash a x)
    from slash_run [OF lay good ok(2) slash(1)] slash(2) show ?thesis by auto
  next
    case elsewhere
    then show ?thesis using inv by (auto simp: val_good_def intro: val_inv_mono)
  }
qed

lemma val_reach_good:
  assumes "val_hashes_ok H A" "finite A" "val_reach H A m"
  shows "val_good H A m"
  using assms(3)
proof induction
  case (deployed m)
  then have "vload H m k = 0" if "k \<in> val_keys A" "k \<noteq> VFloor" "k \<noteq> VPeriod" for k using that by blast
  then show ?case using deployed(2) by (auto simp: val_good_def val_inv_def val_record_ok_def queue_def inj_on_def)
next
  case (step m m')
  then show ?case using val_step_good [OF assms(1,2)] by blast
qed

section \<open>A concrete chain\<close>

text \<open>
  Two accounts, 1 and 2, and a hash that places the two arrays far away from the other slots; account 1
  owns 5000000 of the native asset and stakes 2000000 of it.
\<close>

definition val_table :: "bytes list" where
  "val_table = [to_be_bytes a @ bstr s. a \<leftarrow> [1 :: address, 2], s \<leftarrow> [''validator_id'', ''stake'', ''pubkey'', ''status'', ''unbond_at'']] @
     map asset_key_bytes (asset_key_list [CALL_ASSET_ID] [1, 2, STAKING_ESCROW])"

definition val_hash :: "bytes \<Rightarrow> u256" where
  "val_hash k = (if k = bstr ''validators'' then 2 ^ 200 else if k = bstr ''unbonding'' then 2 ^ 201
     else table_hash val_table k + 4)"

definition funded_storage :: evm_storage where
  "funded_storage = aput (asset_slot val_hash (Bal_Key CALL_ASSET_ID 1)) 5000000 empty_storage"

definition sample_pubkey :: bytes where
  "sample_pubkey = replicate 32 7"

abbreviation staked_storage :: evm_storage where
  "staked_storage \<equiv> snd (stake val_hash pure_backend sample_pubkey 2000000 1 funded_storage)"

abbreviation unbonding_storage :: evm_storage where
  "unbonding_storage \<equiv> snd (unstake val_hash pure_backend 1 1 100 staked_storage)"

lemma long_key: "length k \<noteq> length s \<Longrightarrow> k \<noteq> bstr s"
  by auto

lemma val_hash_other: "length k \<noteq> 10 \<Longrightarrow> length k \<noteq> 9 \<Longrightarrow> val_hash k = table_hash val_table k + 4"
  by (auto simp: val_hash_def)

lemma val_hash_slots:
  "val_slot val_hash (VId 1) = 5" "val_slot val_hash (VStake 1) = 6" "val_slot val_hash (VPub 1) = 7"
  "val_slot val_hash (VStatus 1) = 8" "val_slot val_hash (VUnbond 1) = 9"
  "val_slot val_hash (VId 2) = 10" "val_slot val_hash (VStake 2) = 11" "val_slot val_hash (VPub 2) = 12"
  "val_slot val_hash (VStatus 2) = 13" "val_slot val_hash (VUnbond 2) = 14"
  "val_slot val_hash (VIdx i) = 2 ^ 200 + ucast i" "val_slot val_hash (VQ i) = 2 ^ 201 + ucast i"
  by (simp_all add: val_slot.simps slot_validator_by_addr_def slot_validator_stake_def slot_validator_pubkey_def
      slot_validator_status_def slot_validator_unbond_height_def slot_validator_addr_def slot_unbonding_def
      storage_slot_def val_hash_other table_hash_def val_table_def bstr_inject)
     (simp_all add: val_hash_def bstr_inject)

lemma val_hash_unat:
  "unat (val_slot val_hash VCount) = 0" "unat (val_slot val_hash VQCount) = 1" "unat (val_slot val_hash VActive) = 2"
  "unat (val_slot val_hash VFloor) = 3" "unat (val_slot val_hash VPeriod) = 4"
  "unat (val_slot val_hash (VIdx i)) = 2 ^ 200 + unat i" "unat (val_slot val_hash (VQ i)) = 2 ^ 201 + unat i"
proof -
  have i: "unat i < 2 ^ 64" using unsigned_less [of i, where ?'a = nat] by simp
  show "unat (val_slot val_hash (VIdx i)) = 2 ^ 200 + unat i" "unat (val_slot val_hash (VQ i)) = 2 ^ 201 + unat i"
    using i by (simp_all add: val_hash_slots unat_add_no_overflow)
qed (simp_all add: val_slot.simps slot_validator_count_def slot_unbonding_count_def slot_active_validator_count_def
    slot_safety_floor_def slot_unbonding_period_blocks_def)

lemma val_hash_layout: "val_layout_ok val_hash {1, 2}"
  unfolding val_layout_ok_def
proof (rule inj_onI)
  fix k l assume k: "k \<in> val_keys {1, 2}" and l: "l \<in> val_keys {1, 2}" and "val_slot val_hash k = val_slot val_hash l"
  then have eq: "unat (val_slot val_hash k) = unat (val_slot val_hash l)" by simp
  have b: "unat (i :: u64) < 18446744073709551616" for i using unsigned_less [of i, where ?'a = nat] by simp
  have ne: "2 ^ 200 + unat (i :: u64) \<noteq> 2 ^ 201 + unat (j :: u64)" for i j using b [of i] b [of j] by simp
  have "val_keys {1, 2} = {VCount, VQCount, VActive, VFloor, VPeriod, VId 1, VStake 1, VPub 1, VStatus 1, VUnbond 1,
      VId 2, VStake 2, VPub 2, VStatus 2, VUnbond 2} \<union> range VIdx \<union> range VQ" by (auto simp: val_keys_def)
  note K = this
  from k consider (few) "unat (val_slot val_hash k) < 15" | (idx) i where "k = VIdx i" | (q) i where "k = VQ i"
    unfolding K by (auto simp: val_hash_slots(1-10) val_hash_unat)
  then show "k = l"
  proof cases
    case few
    with k l eq show ?thesis unfolding K by (auto simp: val_hash_slots(1-10) val_hash_unat)
  next
    case idx
    with l eq ne show ?thesis unfolding K by (auto simp: val_hash_slots(1-10) val_hash_unat word_unat_eq_iff)
  next
    case q
    with l eq ne [symmetric] show ?thesis unfolding K by (auto simp: val_hash_slots(1-10) val_hash_unat word_unat_eq_iff)
  qed
qed

lemma val_hash_assets: "asset_hash_ok val_hash {CALL_ASSET_ID} {STAKING_ESCROW, 1, 2}"
proof -
  let ?K = "asset_key_bytes ` asset_keys {CALL_ASSET_ID} {STAKING_ESCROW, 1, 2}"
  have sub: "?K \<subseteq> set val_table"
    by (auto simp: val_table_def set_asset_key_list insert_commute)
  have t: "hash_ok (table_hash val_table) (set val_table)"
    by (rule table_hash_ok) (simp add: val_table_def asset_key_list_def meta_names_def)
  have "length (takeWhile (\<lambda>x. x \<noteq> k) val_table) \<le> 1000" for k
    by (rule order_trans [OF length_takeWhile_le]) (simp add: val_table_def asset_key_list_def meta_names_def)
  then have b: "unat (table_hash val_table k) \<le> 1001" for k
    unfolding table_hash_def unat_of_nat by (intro order_trans [OF mod_less_eq_dividend]) simp
  have eq: "val_hash k = table_hash val_table k + 4" if "k \<in> ?K" for k
    using that by (intro val_hash_other) (auto simp: asset_keys_def meta_names_def)
  have "inj_on val_hash ?K"
    using hash_ok_mono [OF t sub] eq by (simp add: hash_ok_def inj_on_def)
  moreover have "val_hash k \<noteq> 0" if "k \<in> ?K" for k
    using b [of k] by (simp add: eq [OF that] unat_add_no_overflow word_unat_eq_iff)
  ultimately show ?thesis by (force simp: asset_hash_ok_def hash_ok_def)
qed

lemma val_hash_ok: "val_hashes_ok val_hash {1, 2}"
  using val_hash_layout val_hash_assets by (simp add: val_hashes_ok_def)

lemma sample_pubkey_ok: "sample_pubkey \<noteq> replicate 32 0"
  by (simp add: sample_pubkey_def)

lemma account_1 [simp]: "1 \<noteq> STAKING_ESCROW"
  by (simp add: STAKING_ESCROW_def)

lemma funded_load [simp]: "funded_storage VALIDATOR_ADDRESS k = 0" "escrow val_hash funded_storage = 0"
  "aload val_hash funded_storage (Bal_Key CALL_ASSET_ID 1) = 5000000"
  using bal_sep [OF val_hashes_okD(2) [OF val_hash_ok], of 1]
  by (simp_all add: funded_storage_def empty_storage_def sput_apply STAKING_ESCROW_def)

lemma funded_reach: "val_reach val_hash {1, 2} funded_storage"
  by (rule val_reach.deployed) simp_all

lemma staked_run: "stake val_hash pure_backend sample_pubkey 2000000 1 funded_storage = (Inr (), staked_storage)"
proof -
  have "\<exists>m'. stake val_hash pure_backend sample_pubkey 2000000 1 funded_storage = (Inr (), m')"
    by (rule stake_run [OF val_hashes_okD(1) [OF val_hash_ok] _ _ val_hashes_okD(2) [OF val_hash_ok]])
       (simp_all add: sample_pubkey_ok MIN_SELF_STAKE_def)
  then show ?thesis by auto
qed

lemma staked_reach: "val_reach val_hash {1, 2} staked_storage"
  by (rule val_reach.step [OF funded_reach val_step.stake [OF _ _ staked_run]]) simp_all

lemma staked_load:
  "vload val_hash staked_storage (VStake 1) = 2000000" "vload val_hash staked_storage (VStatus 1) = 1"
  "vload val_hash staked_storage (VId 1) = 1" "vload val_hash staked_storage VActive = 1"
  "vload val_hash staked_storage VFloor = 0" "vload val_hash staked_storage VPeriod = 0"
  "vload val_hash staked_storage VQCount = 0" "vload val_hash staked_storage (VStake 2) = 0"
  "escrow val_hash staked_storage = 2000000" "unat (aload val_hash staked_storage (Bal_Key CALL_ASSET_ID 1)) = 3000000"
proof -
  note R = stake_refines [where f = "\<lambda>k. vload val_hash funded_storage k", OF val_hashes_okD(1) [OF val_hash_ok] val_rel_self _ _
    val_hashes_okD(2) [OF val_hash_ok] staked_run]
  have r: "val_rel val_hash (val_keys {1, 2}) staked_storage (a_stake 1 2000000 sample_pubkey (\<lambda>k. vload val_hash funded_storage k))"
    and e: "escrow val_hash staked_storage = escrow val_hash funded_storage + unat (2000000 :: u128)"
      "unat (aload val_hash staked_storage (Bal_Key CALL_ASSET_ID 1)) + unat (2000000 :: u128) = 5000000"
    using R by simp_all
  show "vload val_hash staked_storage (VStake 1) = 2000000" "vload val_hash staked_storage (VStatus 1) = 1"
    "vload val_hash staked_storage (VId 1) = 1" "vload val_hash staked_storage VActive = 1"
    "vload val_hash staked_storage VFloor = 0" "vload val_hash staked_storage VPeriod = 0"
    "vload val_hash staked_storage VQCount = 0" "vload val_hash staked_storage (VStake 2) = 0"
    by (simp_all add: val_rel_load [OF r] a_stake_def Let_def)
  show "escrow val_hash staked_storage = 2000000" "unat (aload val_hash staked_storage (Bal_Key CALL_ASSET_ID 1)) = 3000000"
    using e by simp_all
qed

lemma unbonding_run: "unstake val_hash pure_backend 1 1 100 staked_storage = (Inr (), unbonding_storage)"
proof -
  have "\<exists>m'. unstake val_hash pure_backend 1 1 100 staked_storage = (Inr (), m')"
    by (rule unstake_run [OF val_hashes_okD(1) [OF val_hash_ok] val_reach_good [OF val_hash_ok _ staked_reach]])
       (simp_all add: staked_load)
  then show ?thesis by auto
qed

lemma unbonding_reach: "val_reach val_hash {1, 2} unbonding_storage"
  by (rule val_reach.step [OF staked_reach val_step.unstake [OF _ unbonding_run]]) simp

lemma unbonding_load:
  "vload val_hash unbonding_storage (VStake 1) = 2000000" "vload val_hash unbonding_storage (VStatus 1) = 2"
  "vload val_hash unbonding_storage (VId 1) = 1" "vload val_hash unbonding_storage (VUnbond 1) = 100"
  "vload val_hash unbonding_storage VPeriod = 0"
  "escrow val_hash unbonding_storage = 2000000" "unat (aload val_hash unbonding_storage (Bal_Key CALL_ASSET_ID 1)) = 3000000"
proof -
  note R = unstake_refines [where f = "\<lambda>k. vload val_hash staked_storage k", OF val_hashes_okD(1) [OF val_hash_ok] val_rel_self _
    unbonding_run]
  have r: "val_rel val_hash (val_keys {1, 2}) unbonding_storage (a_unstake 1 100 (\<lambda>k. vload val_hash staked_storage k))"
    and e: "unbonding_storage ASSET_ADDRESS = staked_storage ASSET_ADDRESS" using R by simp_all
  show "vload val_hash unbonding_storage (VStake 1) = 2000000" "vload val_hash unbonding_storage (VStatus 1) = 2"
    "vload val_hash unbonding_storage (VId 1) = 1" "vload val_hash unbonding_storage (VUnbond 1) = 100"
    "vload val_hash unbonding_storage VPeriod = 0"
    by (simp_all add: val_rel_load [OF r] a_unstake_def Let_def staked_load)
  show "escrow val_hash unbonding_storage = 2000000" "unat (aload val_hash unbonding_storage (Bal_Key CALL_ASSET_ID 1)) = 3000000"
    by (simp_all only: e staked_load)
qed

section \<open>Facts for the properties\<close>

lemma unbonding_id:
  assumes "val_good H A m" "a \<in> A" "vload H m (VStatus a) = 2"
  shows "(ucast (vload H m (VId a)) :: u64) \<noteq> 0"
proof -
  let ?f = "\<lambda>k. vload H m k"
  have inv: "val_inv A ?f (escrow H m)" using assms(1) by (simp add: val_good_def)
  have "?f (VId a) \<noteq> 0" using val_invD(4) [OF inv assms(2)] assms(3) by (auto simp: val_record_ok_def)
  then show ?thesis using ucast_small_back [OF id_small [OF inv assms(2)]] by (metis ucast_0)
qed

lemma record_entry_inj:
  assumes inv: "val_inv A f e"
  shows "inj_on (record_entry f) {a\<in>A. f (VStatus a) = 2}"
proof (rule inj_onI)
  fix a b assume a: "a \<in> {a\<in>A. f (VStatus a) = 2}" and b: "b \<in> {a\<in>A. f (VStatus a) = 2}"
    and eq: "record_entry f a = record_entry f b"
  have "(ucast (f (VId a)) :: u64) = ucast (f (VId b))" using eq by (metis entry_id_record(1))
  then have "f (VId a) = f (VId b)"
    using ucast_small_back [OF id_small [OF inv]] a b by (metis (no_types, lifting) mem_Collect_eq)
  moreover have "f (VId a) \<noteq> 0" "f (VId b) \<noteq> 0" using val_invD(4) [OF inv] a b by (auto simp: val_record_ok_def)
  ultimately show "a = b" using inj_onD [OF val_invD(5) [OF inv]] a b by simp
qed

section \<open>Properties\<close>

text \<open>
  C2. In every reachable storage the escrow account holds at least the sum of all stakes on record,
  active and unbonding ones; the active counter is the number of active validators; the words of the
  unbonding queue up to its count are the entries made from the records of the unbonding validators,
  identifier and stake, each of these validators having exactly one entry and nobody else any; and no
  two validators share an identifier.
\<close>

theorem escrow_covers_stakes:
  assumes "val_hashes_ok H A" "finite A" "val_reach H A m"
  shows "(\<Sum>a\<in>A. unat (vload H m (VStake a))) \<le> escrow H m \<and>
    unat (vload H m VActive) = card {a\<in>A. vload H m (VStatus a) = 1} \<and>
    unat (vload H m VQCount) = card {a\<in>A. vload H m (VStatus a) = 2} \<and>
    set (queue (\<lambda>k. vload H m k)) = record_entry (\<lambda>k. vload H m k) ` {a\<in>A. vload H m (VStatus a) = 2} \<and>
    distinct (map entry_id (queue (\<lambda>k. vload H m k))) \<and>
    inj_on (\<lambda>a. vload H m (VId a)) {a\<in>A. vload H m (VId a) \<noteq> 0}"
proof -
  let ?f = "\<lambda>k. vload H m k" and ?U = "{a\<in>A. vload H m (VStatus a) = 2}"
  have inv: "val_inv A ?f (escrow H m)" using val_reach_good [OF assms] by (simp add: val_good_def)
  note I = val_invD [OF inv]
  have "distinct (queue ?f)" using I(7) distinct_map by blast
  then have "unat (?f VQCount) = card (record_entry ?f ` ?U)"
    using distinct_card [of "queue ?f"] unfolding I(8) by simp
  also have "\<dots> = card ?U" by (rule card_image) (rule record_entry_inj [OF inv])
  finally show ?thesis using I(5-9) by simp
qed

theorem escrow_covers_stakes_witness:
  "vload val_hash unbonding_storage (VStake 1) = 2000000 \<and>
   (\<Sum>a\<in>{1, 2}. unat (vload val_hash unbonding_storage (VStake a))) \<le> escrow val_hash unbonding_storage \<and>
   set (queue (\<lambda>k. vload val_hash unbonding_storage k)) =
     record_entry (\<lambda>k. vload val_hash unbonding_storage k) ` {a\<in>{1, 2}. vload val_hash unbonding_storage (VStatus a) = 2}"
  using escrow_covers_stakes [OF val_hash_ok _ unbonding_reach] unbonding_load(1) by simp

text \<open>
  C26. A validator that is unbonding gets the whole stake back: on every reachable storage, from the
  unlock block on, a claim with the validator's identifier succeeds and returns the recorded stake, moves
  exactly that amount from the escrow to the caller, and deletes the record. The only proviso is that the
  caller's balance has room for it.
\<close>

theorem claim_pays_stake:
  assumes "val_hashes_ok H A" "finite A" "val_reach H A m" "a \<in> A" "a \<noteq> STAKING_ESCROW"
    "vload H m (VStatus a) = 2" "unlock_block (\<lambda>k. vload H m k) a \<le> unat blk"
    "unat (aload H m (Bal_Key CALL_ASSET_ID a)) + unat (vload H m (VStake a)) < 2 ^ 128"
  shows "\<exists>m'. claim_unbonded H pure_backend (ucast (vload H m (VId a))) a blk m = (Inr (ucast (vload H m (VStake a))), m') \<and>
    unat (aload H m' (Bal_Key CALL_ASSET_ID a)) = unat (aload H m (Bal_Key CALL_ASSET_ID a)) + unat (vload H m (VStake a)) \<and>
    escrow H m' + unat (vload H m (VStake a)) = escrow H m \<and>
    vload H m' (VId a) = 0 \<and> vload H m' (VStatus a) = 0 \<and> vload H m' (VStake a) = 0"
proof -
  have good: "val_good H A m" using val_reach_good [OF assms(1-3)] .
  have i: "(ucast (vload H m (VId a)) :: u64) \<noteq> 0" using unbonding_id [OF good assms(4,6)] .
  have u: "unlock_block (\<lambda>k. vload H m k) a < 2 ^ 64"
    using assms(7) unsigned_less [of blk, where ?'a = nat] by simp
  show ?thesis
    using claim_run [OF val_hashes_okD(1) [OF assms(1)] good assms(2,4,5) val_hashes_okD(2) [OF assms(1,4)] assms(6) refl i u assms(7)]
      assms(8) by auto
qed

theorem claim_pays_stake_witness:
  "\<exists>m'. claim_unbonded val_hash pure_backend 1 1 121060 unbonding_storage = (Inr 2000000, m') \<and>
    unat (aload val_hash m' (Bal_Key CALL_ASSET_ID 1)) = 5000000 \<and> escrow val_hash m' = 0"
  using claim_pays_stake [OF val_hash_ok _ unbonding_reach, of 1 121060]
  by (auto simp: unbonding_load unlock_block_def)

text \<open>
  Before the unlock block, or when that block is beyond 64 bits, the claim of an unbonding validator is
  refused and the storage is left as it is.
\<close>

theorem claim_too_early:
  assumes "vload H m (VId a) = ucast i" "i \<noteq> (0 :: u64)" "vload H m (VStatus a) = 2"
    "unat blk < unlock_block (\<lambda>k. vload H m k) a"
  shows "claim_unbonded H pure_backend i a blk m = (Inl UnbondingPeriodNotElapsed, m)"
  using assms
  by (auto simp: claim_unbonded_def sbind_run vs_defs val_slots [of H] Let_def to_be_bytes_last checked_add_def
      unlock_block_def unat_add_no_overflow word_less_nat_alt)

theorem claim_too_early_witness:
  "claim_unbonded val_hash pure_backend 1 1 121059 unbonding_storage = (Inl UnbondingPeriodNotElapsed, unbonding_storage)"
  by (rule claim_too_early) (simp_all add: unbonding_load unlock_block_def)

text \<open>
  C10. Leaving never breaks the safety floor: where an unstake succeeds on a reachable storage, exactly one
  validator less is active afterwards, the number of active validators is still at least the floor, no token
  has moved, and the validator is unbonding from the given block.
\<close>

theorem unstake_keeps_floor:
  assumes "val_hashes_ok H A" "finite A" "val_reach H A m" "a \<in> A"
    "unstake H pure_backend i a blk m = (Inr (), m')"
  shows "card {b\<in>A. vload H m' (VStatus b) = 1} + 1 = card {b\<in>A. vload H m (VStatus b) = 1} \<and>
    unat (ucast (vload H m' VFloor) :: u64) \<le> card {b\<in>A. vload H m' (VStatus b) = 1} \<and>
    m' ASSET_ADDRESS = m ASSET_ADDRESS \<and> vload H m' (VStatus a) = 2 \<and> vload H m' (VUnbond a) = ucast blk \<and>
    vload H m' (VStake a) = vload H m (VStake a)"
proof -
  let ?f = "\<lambda>k. vload H m k"
  have inv: "val_inv A ?f (escrow H m)" using val_reach_good [OF assms(1-3)] by (simp add: val_good_def)
  have R: "(ucast (?f (VStatus a)) :: u8) = 1"
    "(ucast (?f VActive) :: u64) = 0 \<or> (ucast (?f VFloor) :: u64) \<le> ucast (?f VActive) - 1"
    "val_rel H (val_keys A) m' (a_unstake a blk ?f)" "m' ASSET_ADDRESS = m ASSET_ADDRESS"
    using unstake_refines [where f = ?f, OF val_hashes_okD(1) [OF assms(1)] val_rel_self assms(4,5)] by simp_all
  note l = val_rel_load [OF R(3)]
  have st: "?f (VStatus a) = 1" using status_exact [where f = ?f, OF inv assms(4) R(1)] by simp
  have eq: "{b\<in>A. ?f (VStatus b) = 1} = insert a {b\<in>A. vload H m' (VStatus b) = 1}"
    using st assms(4) by (auto simp: l a_unstake_def Let_def split: if_splits)
  have "a \<notin> {b\<in>A. vload H m' (VStatus b) = 1}" using assms(4) by (simp add: l a_unstake_def Let_def)
  then have c: "card {b\<in>A. ?f (VStatus b) = 1} = Suc (card {b\<in>A. vload H m' (VStatus b) = 1})"
    unfolding eq using assms(2) by simp
  have act: "unat (ucast (?f VActive) :: u64) = Suc (card {b\<in>A. vload H m' (VStatus b) = 1})"
    using val_invD(3,6) [OF inv] c by simp
  then have nz: "(ucast (?f VActive) :: u64) \<noteq> 0" by auto
  then have "unat ((ucast (?f VActive) :: u64) - 1) = card {b\<in>A. vload H m' (VStatus b) = 1}"
    using act by (simp add: unat_minus_one)
  then have "unat (ucast (?f VFloor) :: u64) \<le> card {b\<in>A. vload H m' (VStatus b) = 1}"
    using R(2) nz by (simp add: word_le_nat_alt)
  then show ?thesis using c R(4) assms(4) by (simp add: l a_unstake_def Let_def)
qed

theorem unstake_keeps_floor_witness:
  "card {b\<in>{1, 2}. vload val_hash unbonding_storage (VStatus b) = 1} + 1 =
     card {b\<in>{1, 2}. vload val_hash staked_storage (VStatus b) = 1} \<and>
   vload val_hash unbonding_storage (VUnbond 1) = 100"
  using unstake_keeps_floor [OF val_hash_ok _ staked_reach _ unbonding_run] by simp

text \<open>
  C27. Slashing cannot fail: on every reachable storage, for every account, active, unbonding or not a
  validator at all, it returns the recorded stake, takes exactly that amount out of the escrow and leaves
  no record; the storage it leads to is reachable again, so the other stakes stay covered.
\<close>

theorem slash_always_succeeds:
  assumes "val_hashes_ok H A" "finite A" "val_reach H A m" "a \<in> A"
  shows "\<exists>m'. slash_stake H pure_backend a m = (Inr (ucast (vload H m (VStake a))), m') \<and>
    escrow H m' + unat (vload H m (VStake a)) = escrow H m \<and>
    vload H m' (VId a) = 0 \<and> vload H m' (VStatus a) = 0 \<and> vload H m' (VStake a) = 0 \<and> val_reach H A m'"
  using slash_run [OF val_hashes_okD(1) [OF assms(1)] val_reach_good [OF assms(1-3)] assms(2,4)]
    val_reach.step [OF assms(3)] val_step.slash [OF assms(4)] by blast

theorem slash_always_succeeds_witness:
  "\<exists>m'. slash_stake val_hash pure_backend 1 unbonding_storage = (Inr 2000000, m') \<and> escrow val_hash m' = 0 \<and>
    vload val_hash m' (VStatus 1) = 0"
  using slash_always_succeeds [OF val_hash_ok _ unbonding_reach, of 1] by (auto simp: unbonding_load)

end
