(* ===== verification/Genesis_Props.thy ===== *)
theory Genesis_Props
  imports Genesis Validator_Props
begin

text \<open>
  What the genesis flow leaves behind. \<open>ms\<close> shows that the in-memory state is a lawful storage backend, so
  its contents are read as a storage map; over that map the registration of the genesis validators is a
  fold of \<open>g_register\<close>. The properties combine the genesis state with the validator contract and the asset
  ledger that start from it.
\<close>

section \<open>The state container as a storage map\<close>

abbreviation im_storage :: "in_memory \<Rightarrow> evm_storage" where
  "im_storage st \<equiv> \<lambda>a k. get_storage st a k"

lemma get_account_entry [simp]:
  "get_account (entry_or_default a f st) b =
     (if b = a then Some (f (unwrap_or default_account (get_account st a))) else get_account st b)"
  by (simp add: get_account_def entry_or_default_def update_conv')

lemma default_storage [simp]: "acc_storage default_account = []"
  by (simp add: default_account_def)

lemma get_storage_entry:
  "get_storage (entry_or_default a f st) b k =
     (if b = a then unwrap_or 0 (map_of (acc_storage (f (unwrap_or default_account (get_account st a)))) k) else get_storage st b k)"
  by (simp add: get_storage_def)

lemma get_storage_default:
  "unwrap_or 0 (map_of (acc_storage (unwrap_or default_account (get_account st a))) k) = get_storage st a k"
  by (cases "get_account st a") (simp_all add: get_storage_def)

lemma get_storage_frame [simp]:
  "get_storage (set_balance a b st) = get_storage st" "get_storage (create_account a st) = get_storage st"
  "get_storage (set_code a c st) = get_storage st"
  by (rule ext, rule ext, simp add: set_balance_def create_account_def set_code_def get_storage_entry get_storage_default)+

lemma im_storage_set [simp]: "get_storage (set_storage a k v st) = sput a k v (im_storage st)"
proof (rule ext, rule ext)
  fix b l
  show "get_storage (set_storage a k v st) b l = sput a k v (im_storage st) b l"
    using get_storage_default [of st a l]
    by (auto simp: set_storage_def get_storage_entry update_conv' sput_apply)
qed

interpretation ms: storage_backend state_backend get_storage "\<lambda>_. \<infinity>"
  by unfold_locales (auto simp: state_backend_def sput_def)

lemma mstore_state [simp]: "mstore state_backend a k v st = (Inr (), set_storage a k v st)"
  by (simp add: mstore_def state_backend_def)

section \<open>The asset counter\<close>

text \<open>No genesis step writes the counter of the asset contract, given that the hash never yields slot 0.\<close>

definition hash_nonzero :: "(bytes \<Rightarrow> u256) \<Rightarrow> bool" where
  "hash_nonzero H \<longleftrightarrow> (\<forall>bs. H bs \<noteq> 0)"

abbreviation counter_of :: "in_memory \<Rightarrow> u256" where
  "counter_of st \<equiv> get_storage st ASSET_ADDRESS 0"

lemma keeps_counter_store:
  "k \<noteq> 0 \<or> a \<noteq> ASSET_ADDRESS \<Longrightarrow> keeps counter_of (mstore state_backend a k v)"
  by (auto simp: keeps_def sput_apply)

lemma keeps_counter_modify [keep_intros]:
  "keeps counter_of (smodify (set_balance a b))" "keeps counter_of (smodify (create_account a))"
  "keeps counter_of (smodify (set_code a c))" "keeps counter_of (smodify (set_storage VALIDATOR_ADDRESS k v))"
  by (rule keeps_modify; simp add: sput_apply)+

lemma keeps_counter_seed [keep_intros]:
  assumes "hash_nonzero H"
  shows "keeps counter_of (seed_balance H i a x)" "keeps counter_of (seed_asset H i sy nm d iss mx su stt)"
    "keeps counter_of (seed_asset_contract_address H i a)"
proof -
  have nz: "slot_balance H i a \<noteq> 0" "slot_asset_meta H i k \<noteq> 0" for i a k
    using assms by (simp_all add: hash_nonzero_def slot_balance_def slot_asset_meta_def storage_slot_def)
  have m: "keeps counter_of (store_meta_u256 H state_backend i k v)" "keeps counter_of (store_meta_string H state_backend i k s)" for i k v s
    unfolding store_meta_u256_def store_meta_string_def by (intro keep_intros keeps_counter_store; simp add: nz)+
  show "keeps counter_of (seed_balance H i a x)"
    unfolding seed_balance_def write_balance_def by (intro keep_intros keeps_counter_store) (simp add: nz)
  show "keeps counter_of (seed_asset H i sy nm d iss mx su stt)"
    unfolding seed_asset_def write_meta_def by (intro keep_intros m)
  show "keeps counter_of (seed_asset_contract_address H i a)"
    unfolding seed_asset_contract_address_def by (intro keep_intros m)
qed

lemma keeps_parse [keep_intros]: "keeps obs (parse_address hexd s)" "keeps obs (parse_pubkey hexd s)"
  by (simp_all add: parse_address_def parse_pubkey_def keeps_ret keeps_fail split: sum.splits)

lemma keeps_distribute [keep_intros]:
  assumes "hash_nonzero H"
  shows "keeps counter_of (distribute hexd H i ds t)"
proof (induction ds arbitrary: t)
  case (Cons d ds)
  obtain s x where "d = (s, x)" by (cases d)
  with Cons show ?case by (simp, intro keep_intros keeps_counter_seed [OF assms])
qed (simp add: keeps_ret)

text \<open>
  What genesis runs on the executor are creations with the init code of \<^verbatim>\<open>WrappedToken.sol\<close>, whose constructor
  stores its arguments in its own contract and calls nobody: they leave the identifier counter of the asset
  contract as it is. Other transactions are not restricted; the executor has the asset precompile installed.
\<close>

definition isolated :: "evm_executor \<Rightarrow> bool" where
  "isolated E \<longleftrightarrow> (\<forall>tx st r rs nm sy dec b iss mx i.
     tx_to tx = None \<and> tx_data tx = ex_init_code E nm sy dec b iss mx i \<and> ex_execute_tx_db E tx st = Inr (r, rs) \<longrightarrow>
     counter_of (apply_from_revm_state rs st) = counter_of st)"

lemma keeps_counter_deploy:
  assumes "isolated E"
  shows "keeps counter_of (deploy_erc20_template E c d nm sy dec b iss mx i)"
proof (rule keepsI)
  fix st
  let ?tx = "\<lparr>tx_caller = d, tx_nonce = get_nonce st d, tx_gas_limit = 10000000, tx_gas_price = 10, tx_max_priority_fee = None,
      tx_type = 0, tx_to = None, tx_value = 0, tx_data = ex_init_code E nm sy dec b iss mx i, tx_chain_id = c\<rparr>"
  show "counter_of (snd (deploy_erc20_template E c d nm sy dec b iss mx i st)) = counter_of st"
  proof (cases "ex_execute_tx_db E ?tx st")
    case (Inl e)
    then show ?thesis by (simp add: deploy_erc20_template_def Let_def sbind_run)
  next
    case (Inr r)
    obtain ok out rs where r: "r = ((ok, out), rs)" by (metis prod.collapse)
    have "counter_of (apply_from_revm_state rs st) = counter_of st"
      using assms [unfolded isolated_def, rule_format, of ?tx nm sy dec b iss mx i st "(ok, out)" rs] Inr r by simp
    with Inr r show ?thesis by (simp add: deploy_erc20_template_def Let_def sbind_run)
  qed
qed

lemma keeps_counter_genesis:
  assumes "hash_nonzero H" "isolated E"
  shows "keeps counter_of (register_assets hexd H as)" "keeps counter_of (register_validators hexd H vs)"
    "keeps counter_of (deploy_evm_templates E H c as)"
proof -
  show "keeps counter_of (register_assets hexd H as)"
    unfolding register_assets_def by (intro keep_intros keeps_distribute keeps_counter_seed assms)
  show "keeps counter_of (register_validators hexd H vs)"
    unfolding register_validators_def register_validator_def Let_def case_prod_beta
    by (intro keep_intros keeps_counter_seed assms)
  show "keeps counter_of (deploy_evm_templates E H c as)"
    unfolding deploy_evm_templates_def case_prod_beta
    by (intro keep_intros keeps_counter_seed keeps_counter_deploy assms)
qed

lemma genesis_counter:
  assumes "hash_nonzero H" "isolated E" "genesis_execute hexd H E g = Inr gs"
  shows "counter_of (gs_evm_state gs) = 0"
proof -
  note K = keeps_counter_genesis [OF assms(1,2)]
  have k: "keeps counter_of (genesis_init hexd H E g)"
    unfolding genesis_init_def Let_def
    by (rule keeps_bind [OF K(1)], rule keeps_bind [OF K(2)], rule keeps_bind [OF K(3)], rule keeps_ret)
  obtain u where "genesis_init hexd H E g im_new = (Inr u, gs_evm_state gs)"
    using assms(3) unfolding genesis_execute_def by (auto split: sum.splits prod.splits)
  from keepsD [OF k this] show ?thesis by (simp add: get_storage_def get_account_def im_new_def)
qed

section \<open>The genesis validators\<close>

definition parsed :: "(string \<Rightarrow> string + bytes) \<Rightarrow> genesis_validator \<Rightarrow> address \<Rightarrow> bool" where
  "parsed hexd gv a \<longleftrightarrow> (\<exists>bs. hexd (strip_0x (gv_address gv)) = Inr bs \<and> length bs = 20 \<and> a = from_be_bytes bs)"

text \<open>The effect of one registration on the validator contract, as a function of keys.\<close>

definition g_register :: "nat \<Rightarrow> address \<Rightarrow> u128 \<Rightarrow> u256 \<Rightarrow> (val_key \<Rightarrow> u256) \<Rightarrow> val_key \<Rightarrow> u256" where
  "g_register i a s pk f = (let n = of_nat (i + 1) :: u64 in
     f(VCount := ucast n, VId a := ucast n, VIdx n := ucast a, VStake a := ucast s, VPub a := pk, VStatus a := 1))"

lemma register_validator_run:
  assumes lay: "val_layout_ok H A" and rel: "val_rel H (val_keys A) (im_storage st) f"
    and run: "register_validator hexd H i gv st = (Inr u, st')" and A: "\<And>a. parsed hexd gv a \<Longrightarrow> a \<in> A"
  shows "\<exists>a pk. parsed hexd gv a \<and> val_rel H (val_keys A) (im_storage st') (g_register i a (gv_self_stake gv) pk f) \<and>
    escrow H (im_storage st') = unat (gv_self_stake gv)"
proof -
  let ?n = "of_nat (i + 1) :: u64"
  obtain bs pk where bs: "hexd (strip_0x (gv_address gv)) = Inr bs" "length bs = 20"
    and pk: "hexd (strip_0x (gv_ed25519_pubkey gv)) = Inr pk" "length pk = 32"
    using run by (auto simp: register_validator_def parse_address_def parse_pubkey_def smonad_Inr split: sum.splits if_splits)
  define a where "a = (from_be_bytes bs :: address)"
  have p: "parsed hexd gv a" using bs by (simp add: parsed_def a_def)
  have st': "get_storage st' = aput (asset_slot H (Bal_Key CALL_ASSET_ID STAKING_ESCROW)) (ucast (gv_self_stake gv))
      (vput H (VStatus a) 1 (vput H (VPub a) (from_be_bytes pk) (vput H (VStake a) (ucast (gv_self_stake gv))
      (vput H (VIdx ?n) (ucast a) (vput H (VId a) (ucast ?n) (vput H VCount (ucast ?n) (im_storage st)))))))"
    using run bs pk
    by (auto simp: register_validator_def parse_address_def parse_pubkey_def sbind_run Let_def seed_balance_def write_balance_def
        asset_slots val_slot.simps slot_validator_count_def slot_validator_by_addr_def slot_validator_addr_def slot_validator_stake_def
        slot_validator_pubkey_def slot_validator_status_def a_def signore_def)
  have "val_rel H (val_keys A) (im_storage st') (g_register i a (gv_self_stake gv) (from_be_bytes pk) f)"
    unfolding st' g_register_def Let_def val_rel_other [OF val_addresses(1)]
    by (intro val_rel_put lay [unfolded val_layout_ok_def] rel) (use A [OF p] in simp_all)
  moreover have "escrow H (im_storage st') = unat (gv_self_stake gv)"
    by (simp add: st' sput_apply)
  ultimately show ?thesis using p by blast
qed

text \<open>The addresses of a list of genesis validators, in order.\<close>

definition all_parsed :: "(string \<Rightarrow> string + bytes) \<Rightarrow> genesis_validator list \<Rightarrow> address list \<Rightarrow> bool" where
  "all_parsed hexd vs as \<longleftrightarrow> list_all2 (parsed hexd) vs as"

lemma parsed_unique: "parsed hexd gv a \<Longrightarrow> parsed hexd gv b \<Longrightarrow> a = b"
  by (auto simp: parsed_def)

text \<open>
  Registering validators with distinct addresses from index \<open>i\<close> on: every one has its own record, and the
  counters other than the validator count are as before.
\<close>

lemma register_validators_run:
  assumes lay: "val_layout_ok H A"
    and rel: "val_rel H (val_keys A) (im_storage st) f"
    and run: "sfor (List.enumerate i vs) (\<lambda>(i, gv). register_validator hexd H i gv) st = (Inr u, st')"
    and ps: "all_parsed hexd vs as" "set as \<subseteq> A" "distinct as"
  shows "\<exists>g. val_rel H (val_keys A) (im_storage st') g \<and>
    (\<forall>j<length vs. g (VStake (as ! j)) = ucast (gv_self_stake (vs ! j)) \<and> g (VStatus (as ! j)) = 1 \<and>
       g (VId (as ! j)) = ucast (of_nat (i + j + 1) :: u64)) \<and>
    g VActive = f VActive \<and> g VFloor = f VFloor \<and> g VQCount = f VQCount \<and>
    (\<forall>a. a \<notin> set as \<longrightarrow> g (VStake a) = f (VStake a) \<and> g (VStatus a) = f (VStatus a) \<and> g (VId a) = f (VId a)) \<and>
    (vs \<noteq> [] \<longrightarrow> escrow H (im_storage st') = unat (gv_self_stake (last vs)))"
  using rel run ps
proof (induction vs arbitrary: i st f as)
  case Nil
  then show ?case by (auto simp: all_parsed_def)
next
  case (Cons v vs)
  from Cons.prems(3) obtain a bs where as: "as = a # bs" "parsed hexd v a" "all_parsed hexd vs bs"
    by (auto simp: all_parsed_def list_all2_Cons1)
  from Cons.prems(2) obtain st1 where r1: "register_validator hexd H i v st = (Inr (), st1)"
    and r2: "sfor (List.enumerate (Suc i) vs) (\<lambda>(i, gv). register_validator hexd H i gv) st1 = (Inr u, st')"
    by (auto simp: smonad_Inr)
  have "b \<in> A" if "parsed hexd v b" for b
    using parsed_unique [OF that as(2)] Cons.prems(4) as(1) by simp
  from register_validator_run [OF lay Cons.prems(1) r1 this] obtain pk where
    v: "val_rel H (val_keys A) (im_storage st1) (g_register i a (gv_self_stake v) pk f)"
      "escrow H (im_storage st1) = unat (gv_self_stake v)"
    using parsed_unique [OF _ as(2)] by blast
  let ?f = "g_register i a (gv_self_stake v) pk f"
  have F: "?f (VStake a) = ucast (gv_self_stake v)" "?f (VStatus a) = 1" "?f (VId a) = ucast (of_nat (i + 1) :: u64)"
    "?f VActive = f VActive" "?f VFloor = f VFloor" "?f VQCount = f VQCount"
    "b \<noteq> a \<Longrightarrow> ?f (VStake b) = f (VStake b) \<and> ?f (VStatus b) = f (VStatus b) \<and> ?f (VId b) = f (VId b)" for b
    by (simp_all add: g_register_def Let_def)
  obtain g where g: "val_rel H (val_keys A) (im_storage st') g"
    "\<forall>j<length vs. g (VStake (bs ! j)) = ucast (gv_self_stake (vs ! j)) \<and> g (VStatus (bs ! j)) = 1 \<and>
       g (VId (bs ! j)) = ucast (of_nat (Suc i + j + 1) :: u64)"
    "g VActive = ?f VActive" "g VFloor = ?f VFloor" "g VQCount = ?f VQCount"
    "\<forall>a. a \<notin> set bs \<longrightarrow> g (VStake a) = ?f (VStake a) \<and> g (VStatus a) = ?f (VStatus a) \<and> g (VId a) = ?f (VId a)"
    "vs \<noteq> [] \<longrightarrow> escrow H (im_storage st') = unat (gv_self_stake (last vs))"
    using Cons.IH [OF v(1) r2 as(3)] Cons.prems(4,5) as(1) by auto
  have "a \<notin> set bs" using Cons.prems(5) as(1) by simp
  then have ga: "g (VStake a) = ucast (gv_self_stake v)" "g (VStatus a) = 1" "g (VId a) = ucast (of_nat (i + 1) :: u64)"
    using g(6) F(1-3) by simp_all
  have "\<forall>j<length (v # vs). g (VStake (as ! j)) = ucast (gv_self_stake ((v # vs) ! j)) \<and> g (VStatus (as ! j)) = 1 \<and>
       g (VId (as ! j)) = ucast (of_nat (i + j + 1) :: u64)"
    using ga g(2) by (auto simp: as(1) nth_Cons' less_Suc_eq_0_disj)
  moreover have "\<forall>b. b \<notin> set as \<longrightarrow> g (VStake b) = f (VStake b) \<and> g (VStatus b) = f (VStatus b) \<and> g (VId b) = f (VId b)"
    using g(6) F(7) by (simp add: as(1))
  moreover have "escrow H (im_storage st') = unat (gv_self_stake (last (v # vs)))"
    using g(7) v(2) r2 by (cases vs) auto
  ultimately show ?case using g(1,3-5) F(4-6) by (intro exI [of _ g] conjI impI) (assumption | simp only:)+
qed

section \<open>Consequences for the contracts\<close>

text \<open>An asset contract whose counter is 0 hands out the identifier of the native asset.\<close>

lemma register_takes_native:
  assumes "asset_hash_ok H {CALL_ASSET_ID} A" "m ASSET_ADDRESS 0 = 0"
    and args: "d \<le> 18" "length sy \<le> 32" "length nm \<le> 32" "utf8_valid sy" "utf8_valid nm" "0 \<notin> set sy" "0 \<notin> set nm" "iss \<noteq> 0"
  shows "\<exists>m' meta. register H pure_backend sy nm d 0 iss ra m = (Inr CALL_ASSET_ID, m') \<and> meta_of H m' CALL_ASSET_ID = Inr meta \<and>
    am_issuer meta = iss \<and> am_max_supply meta = 0 \<and> am_supply meta = 0"
proof -
  obtain r m' where r: "register H pure_backend sy nm d 0 iss ra m = (r, m')" by (cases "register H pure_backend sy nm d 0 iss ra m")
  have "next_free m = 1" using assms(2) by (simp add: next_free_def)
  then have "of_nat (next_free m) \<in> {CALL_ASSET_ID}" "unat (m ASSET_ADDRESS 0) < 2 ^ 64 - 1"
    using assms(2) by (simp_all add: CALL_ASSET_ID_def)
  from register_reads_back [OF assms(1) this args(1-7) _ r] args(8) obtain i meta where
    "r = Inr i" "unat i = next_free m" "read_meta H pure_backend i m' = (Inr meta, m')" "am_issuer meta = iss"
    "am_max_supply meta = 0" "am_supply meta = 0" by auto
  moreover from this have "i = CALL_ASSET_ID"
    using \<open>next_free m = 1\<close> by (simp add: CALL_ASSET_ID_def word_unat_eq_iff)
  ultimately show ?thesis using r by (simp add: read_meta_pure)
qed

lemma register_keeps_balance:
  assumes h: "asset_hash_ok H {CALL_ASSET_ID} A" "t \<in> A" "m ASSET_ADDRESS 0 = 0"
    and args: "d \<le> 18" "length sy \<le> 32" "length nm \<le> 32"
    and r: "register H pure_backend sy nm d 0 iss ra m = (Inr CALL_ASSET_ID, m')"
  shows "aload H m' (Bal_Key CALL_ASSET_ID t) = aload H m (Bal_Key CALL_ASSET_ID t)"
proof -
  have al: "allocate_asset_id pure_backend m = (Inr 1, aput 0 2 m)" using h(3) by (simp add: allocate_pure Let_def)
  let ?ws = "base_writes sy nm d 0 iss ra @ [(''has_erc20'', 0)]"
  have ws: "fst ` set ?ws \<subseteq> set meta_names" using base_writes_names by (simp add: image_Un)
  have k: "Bal_Key CALL_ASSET_ID t \<in> asset_keys {CALL_ASSET_ID} A" using h(2) by (simp add: asset_keys_def)
  have "m' = put_meta H 1 ?ws (aput 0 2 m)" using register_pure [OF args al] r by simp
  then have "aload H m' (Bal_Key CALL_ASSET_ID t) = aload H (aput 0 2 m) (Bal_Key CALL_ASSET_ID t)"
    using put_meta_load [OF h(1) _ ws k, of 1] by (simp add: CALL_ASSET_ID_def)
  then show ?thesis using aload_aput_counter(1) [OF h(1) k] by simp
qed

lemma slash_uncovered:
  assumes "vload H m (VId a) = ucast i" "(i :: u64) \<noteq> 0" "vload H m (VStake a) = ucast (s :: u128)" "escrow H m < unat s"
  shows "slash_stake H pure_backend a m = (Inl EscrowUnderflow, m)"
proof -
  have "s \<noteq> 0" using assms(4) by auto
  moreover have "escrow H m < 2 ^ 128" using assms(4) unsigned_less [of s, where ?'a = nat] by simp
  ultimately show ?thesis using assms
    by (simp add: slash_stake_def sbind_run vs_defs val_slots [of H] deduct_balance_pure Let_def smap_err_def word_gt_0)
qed

section \<open>A concrete genesis\<close>

definition sample_hexd :: "string \<Rightarrow> string + bytes" where
  "sample_hexd s = (if s = ''01'' then Inr (to_be_bytes (1 :: address)) else if s = ''02'' then Inr (to_be_bytes (2 :: address))
     else if s = ''07'' then Inr (replicate 32 7) else Inl ''odd'')"

definition sample_executor :: evm_executor where
  "sample_executor = \<lparr>ex_init_code = (\<lambda>_ _ _ _ _ _ _. []), ex_create_address = (\<lambda>a n. 0),
     ex_execute_tx_db = (\<lambda>tx st. Inr ((True, []), []))\<rparr>"

definition sample_genesis :: "(unit, unit) genesis" where
  "sample_genesis =
     with_validator \<lparr>gv_address = ''0x02'', gv_ed25519_pubkey = ''0x07'', gv_self_stake = 2000000\<rparr>
     (with_validator \<lparr>gv_address = ''0x01'', gv_ed25519_pubkey = ''0x07'', gv_self_stake = 3000000\<rparr>
     (with_fee_currency \<lparr>gf_symbol = ''CALL'', gf_asset_id = 1, gf_oracle_address = None\<rparr>
     (with_asset \<lparr>ga_asset_id = 1, ga_symbol = [67], ga_name = [67], ga_decimals = 18, ga_initial_supply = 100,
        ga_distribution = [(''0x01'', 100)]\<rparr>
     (genesis_new () () ''test'' 1 1))))"

lemma val_hash_nonzero: "hash_nonzero val_hash"
proof -
  have "length (takeWhile (\<lambda>x. x \<noteq> k) val_table) \<le> 1000" for k
    by (rule order_trans [OF length_takeWhile_le]) (simp add: val_table_def asset_key_list_def meta_names_def)
  then have b: "unat (table_hash val_table k) \<le> 1001" for k
    unfolding table_hash_def unat_of_nat by (intro order_trans [OF mod_less_eq_dividend]) simp
  have "unat (table_hash val_table k + 4) \<noteq> 0" for k
    using b [of k] by (simp add: unat_add_no_overflow)
  then have "table_hash val_table k + 4 \<noteq> 0" for k by (metis unat_0)
  then show ?thesis by (simp add: hash_nonzero_def val_hash_def)
qed

lemma sample_isolated: "isolated sample_executor"
  by (simp add: isolated_def sample_executor_def apply_from_revm_state_def)

lemma sample_genesis_fields:
  "g_validators sample_genesis = [\<lparr>gv_address = ''0x01'', gv_ed25519_pubkey = ''0x07'', gv_self_stake = 3000000\<rparr>,
     \<lparr>gv_address = ''0x02'', gv_ed25519_pubkey = ''0x07'', gv_self_stake = 2000000\<rparr>]"
  "g_initial_assets sample_genesis = [\<lparr>ga_asset_id = 1, ga_symbol = [67], ga_name = [67], ga_decimals = 18, ga_initial_supply = 100,
     ga_distribution = [(''0x01'', 100)]\<rparr>]"
  "validate sample_genesis = Inr ()"
  by (simp_all add: sample_genesis_def with_validator_def with_fee_currency_def with_asset_def genesis_new_def validate_def)

lemmas sample_parse = parse_address_def parse_pubkey_def sample_hexd_def strip_0x_def

lemma sample_parsed: "all_parsed sample_hexd (g_validators sample_genesis) [1, 2]"
  by (simp add: all_parsed_def sample_genesis_fields parsed_def sample_hexd_def strip_0x_def from_to_be_bytes)

lemma sample_validators_run:
  "\<exists>st'. register_validators sample_hexd val_hash (g_validators sample_genesis) st = (Inr (), st') \<and>
     escrow val_hash (get_storage st') = 2000000"
proof -
  have "\<exists>st'. register_validators sample_hexd val_hash (g_validators sample_genesis) st = (Inr (), st')"
    by (simp add: sample_genesis_fields register_validators_def register_validator_def sample_parse sbind_run Let_def
        seed_balance_def signore_def)
  then obtain st' where r: "register_validators sample_hexd val_hash (g_validators sample_genesis) st = (Inr (), st')" by blast
  have "escrow val_hash (get_storage st') = unat (gv_self_stake (last (g_validators sample_genesis)))"
    using register_validators_run [OF val_hash_layout val_rel_self r [unfolded register_validators_def] sample_parsed]
    by (auto simp: sample_genesis_fields)
  with r show ?thesis by (simp add: sample_genesis_fields)
qed

lemma sample_genesis_run:
  "\<exists>gs. genesis_execute sample_hexd val_hash sample_executor sample_genesis = Inr gs \<and>
    escrow val_hash (get_storage (gs_evm_state gs)) = 2000000"
proof -
  have "\<exists>st. register_assets sample_hexd val_hash (g_initial_assets sample_genesis) im_new = (Inr (), st)"
    by (simp add: sample_genesis_fields register_assets_def sample_parse sbind_run CALL_ASSET_ID_def seed_asset_def signore_def checked_add_def)
  then obtain st where a: "register_assets sample_hexd val_hash (g_initial_assets sample_genesis) im_new = (Inr (), st)" by blast
  obtain st' where v: "register_validators sample_hexd val_hash (g_validators sample_genesis) st = (Inr (), st')"
    "escrow val_hash (get_storage st') = 2000000" using sample_validators_run by blast
  have "deploy_evm_templates sample_executor val_hash c (g_initial_assets sample_genesis) st' = (Inr (), st')" for c
    by (simp add: deploy_evm_templates_def sample_genesis_fields CALL_ASSET_ID_def sbind_run)
  then have "\<exists>fc. genesis_init sample_hexd val_hash sample_executor sample_genesis im_new = (Inr fc, st')"
    using a v by (simp add: genesis_init_def sbind_run Let_def)
  then show ?thesis using v(2) by (auto simp: genesis_execute_def sample_genesis_fields(3))
qed

section \<open>Properties\<close>

text \<open>
  C37. Genesis does not reserve the identifiers it assigns: after a successful genesis, whatever assets it
  registers and whatever templates it deploys (creations that, as the template's constructor does, leave the
  counter of the asset contract alone), the next registration, open to every account, is given the identifier
  of the native asset, replaces its metadata with the registrant as issuer, and lets the registrant mint it to
  any account whose balance has room.
\<close>

theorem native_asset_can_be_taken:
  assumes "hash_nonzero H" "isolated E" "genesis_execute hexd H E g = Inr gs"
    and h: "asset_hash_ok H {CALL_ASSET_ID} A" "t \<in> A"
    and args: "d \<le> 18" "length sy \<le> 32" "length nm \<le> 32" "utf8_valid sy" "utf8_valid nm" "0 \<notin> set sy" "0 \<notin> set nm" "iss \<noteq> 0"
    and x: "unat (aload H (get_storage (gs_evm_state gs)) (Bal_Key CALL_ASSET_ID t)) + unat x < 2 ^ 128"
  shows "\<exists>m' m''. register H pure_backend sy nm d 0 iss ra (get_storage (gs_evm_state gs)) = (Inr CALL_ASSET_ID, m') \<and>
    mint H pure_backend CALL_ASSET_ID iss t x m' = (Inr (), m'') \<and>
    unat (aload H m'' (Bal_Key CALL_ASSET_ID t)) = unat (aload H (get_storage (gs_evm_state gs)) (Bal_Key CALL_ASSET_ID t)) + unat x"
proof -
  let ?m = "get_storage (gs_evm_state gs)"
  have c: "?m ASSET_ADDRESS 0 = 0" using genesis_counter [OF assms(1-3)] .
  obtain m' meta where r: "register H pure_backend sy nm d 0 iss ra ?m = (Inr CALL_ASSET_ID, m')"
    and meta: "meta_of H m' CALL_ASSET_ID = Inr meta" "am_issuer meta = iss" "am_max_supply meta = 0" "am_supply meta = 0"
    using register_takes_native [where H = H and A = A and m = ?m, OF h(1) c args] by blast
  note b = register_keeps_balance [where H = H and A = A and m = ?m, OF h c args(1-3) r]
  have sep: "asset_slot H (Meta_Key CALL_ASSET_ID ''supply'') \<noteq> asset_slot H (Bal_Key CALL_ASSET_ID t)"
    using asset_slot_eq [OF h(1), of "Meta_Key CALL_ASSET_ID ''supply''" "Bal_Key CALL_ASSET_ID t"] h(2)
    by (simp add: asset_keys_def meta_names_def)
  have x': "unat x < 2 ^ 128" using unsigned_less [of x, where ?'a = nat] by simp
  show ?thesis
    using r x x' sep by (simp add: mint_pure meta b sput_apply unat_add_no_overflow)
qed

theorem native_asset_can_be_taken_witness:
  "\<exists>gs m' m''. genesis_execute sample_hexd val_hash sample_executor sample_genesis = Inr gs \<and>
    register val_hash pure_backend [67] [67] 6 0 2 0 (get_storage (gs_evm_state gs)) = (Inr CALL_ASSET_ID, m') \<and>
    mint val_hash pure_backend CALL_ASSET_ID 2 STAKING_ESCROW 1000 m' = (Inr (), m'')"
proof -
  obtain gs where g: "genesis_execute sample_hexd val_hash sample_executor sample_genesis = Inr gs"
    "escrow val_hash (get_storage (gs_evm_state gs)) = 2000000"
    using sample_genesis_run by blast
  show ?thesis
    using native_asset_can_be_taken [OF val_hash_nonzero sample_isolated g(1) val_hash_assets, of STAKING_ESCROW 6 "[67]" "[67]" 2 1000 0] g
    by (auto simp: ascii_C)
qed

text \<open>
  C38. Genesis leaves the escrow short: registering several validators overwrites the escrow balance with each
  one's stake, so that it ends up as the stake of the last one. The stake of a validator who put in more than the
  last one is not covered, and slashing that validator fails; the active counter is not raised either.
\<close>

theorem genesis_stakes_uncovered:
  assumes "val_layout_ok H A" "register_validators hexd H vs st = (Inr u, st')"
    "all_parsed hexd vs as" "set as \<subseteq> A" "distinct as" "length vs < 2 ^ 64 - 1"
    "j < length vs" "gv_self_stake (last vs) < gv_self_stake (vs ! j)"
  shows "escrow H (get_storage st') = unat (gv_self_stake (last vs)) \<and>
    vload H (get_storage st') (VStake (as ! j)) = ucast (gv_self_stake (vs ! j)) \<and>
    slash_stake H pure_backend (as ! j) (get_storage st') = (Inl EscrowUnderflow, get_storage st') \<and>
    vload H (get_storage st') (VStatus (as ! j)) = 1 \<and> vload H (get_storage st') VActive = vload H (get_storage st) VActive"
proof -
  obtain g where g: "val_rel H (val_keys A) (get_storage st') g"
    "g (VStake (as ! j)) = ucast (gv_self_stake (vs ! j))" "g (VStatus (as ! j)) = 1"
    "g (VId (as ! j)) = ucast (of_nat (0 + j + 1) :: u64)" "g VActive = vload H (get_storage st) VActive"
    "escrow H (get_storage st') = unat (gv_self_stake (last vs))"
    using register_validators_run [OF assms(1) val_rel_self assms(2) [unfolded register_validators_def] assms(3-5)] assms(7) by auto
  have "length as = length vs" using assms(3) by (simp add: all_parsed_def list_all2_lengthD)
  then have "as ! j \<in> A" using assms(4,7) by auto
  then have l: "vload H (get_storage st') (VStake (as ! j)) = ucast (gv_self_stake (vs ! j))" "vload H (get_storage st') (VStatus (as ! j)) = 1"
    "vload H (get_storage st') (VId (as ! j)) = ucast (of_nat (0 + j + 1) :: u64)" "vload H (get_storage st') VActive = vload H (get_storage st) VActive"
    using val_rel_load [OF g(1)] g(2-5) by simp_all
  have "unat (of_nat (0 + j + 1) :: u64) = j + 1" using assms(6,7) by (subst unat_of_nat) (simp del: of_nat_add)
  then have "(of_nat (0 + j + 1) :: u64) \<noteq> 0" by (metis add_is_0 unat_0 zero_neq_one)
  then have "slash_stake H pure_backend (as ! j) (get_storage st') = (Inl EscrowUnderflow, get_storage st')"
    by (intro slash_uncovered [where m = "get_storage st'", OF l(3) _ l(1)]) (use g(6) assms(8) in \<open>simp_all add: word_less_nat_alt\<close>)
  then show ?thesis using l g(6) by simp
qed

theorem genesis_stakes_uncovered_witness:
  "\<exists>st'. register_validators sample_hexd val_hash (g_validators sample_genesis) im_new = (Inr (), st') \<and>
    escrow val_hash (get_storage st') = 2000000 \<and> vload val_hash (get_storage st') (VStake 1) = 3000000 \<and>
    slash_stake val_hash pure_backend 1 (get_storage st') = (Inl EscrowUnderflow, get_storage st')"
proof -
  obtain st' where r: "register_validators sample_hexd val_hash (g_validators sample_genesis) im_new = (Inr (), st')"
    using sample_validators_run by blast
  from genesis_stakes_uncovered [OF val_hash_layout r sample_parsed, of 0] r show ?thesis
    by (auto simp: sample_genesis_fields word_less_nat_alt)
qed

end
