(* ===== verification/Fork_Props.thy ===== *)
theory Fork_Props
  imports Fork
begin

text \<open>
  The fork manager over whole histories: a rollback is granted only on signatures of enough distinct validators on its
  target, no signature counts twice, a governance upgrade waits for its timelock; and how the version a producer stamps
  on a block relates to the version the validation expects.
\<close>

section \<open>Versions and features\<close>

text \<open>The feature gate is the order of versions.\<close>

lemma feature_enabled_order: "is_feature_enabled f v \<longleftrightarrow> min_version f \<le> v"
  by (auto simp: is_feature_enabled_def less_eq_protocol_version_def Let_def)

lemma feature_enabled_mono: "is_feature_enabled f v \<Longrightarrow> v \<le> w \<Longrightarrow> is_feature_enabled f w"
  by (simp add: feature_enabled_order)

section \<open>The quorum\<close>

lemma unat_rollback_quorum:
  assumes "unat n < 2 ^ 31"
  shows "unat (rollback_quorum n) = (2 * unat n + 2) div 3"
proof -
  have two: "unat (2 * n) = 2 * unat n" using assms by (simp add: unat_word_ariths)
  have m: "(2 * n) mod 3 = 0 \<longleftrightarrow> 2 * unat n mod 3 = 0" using two by (simp add: word_unat_eq_iff unat_mod)
  have d: "unat (2 * n div 3) = 2 * unat n div 3" using two by (simp add: unat_div)
  have "unat (2 * n div 3 + 1) = 2 * unat n div 3 + 1" using assms d by (subst unat_add_no_overflow) auto
  then show ?thesis unfolding rollback_quorum_def div_ceil_def m using d by auto presburger+
qed

section \<open>Rollback signatures\<close>

record signature_entry =
  se_validator :: validator_id
  se_key :: bytes
  se_height :: u64
  se_version :: protocol_version
  se_nonce :: u64
  se_signature :: bytes

definition verified :: "(bytes \<Rightarrow> bytes \<Rightarrow> bytes \<Rightarrow> bool) \<Rightarrow> signature_entry \<Rightarrow> bool" where
  "verified vf e \<longleftrightarrow> vf (se_key e) (se_signature e) (rollback_message_hash (se_validator e) (se_height e) (se_version e) (se_nonce e))"

text \<open>
  The histories of a fork manager for \<open>n\<close> validators, with the log of the signatures it has accepted. Every operation
  that changes the manager is a step.
\<close>

inductive fork_run :: "(bytes \<Rightarrow> bytes \<Rightarrow> bytes \<Rightarrow> bool) \<Rightarrow> protocol_version \<Rightarrow> u32 \<Rightarrow> fork_manager \<Rightarrow> signature_entry list \<Rightarrow> bool"
  for vf v0 n where
  start: "fork_run vf v0 n (fm_new v0 n) []"
| register: "fork_run vf v0 n fm L \<Longrightarrow> fork_run vf v0 n (fm_register_validator v k fm) L"
| schedule: "fork_run vf v0 n fm L \<Longrightarrow> fork_run vf v0 n (schedule_upgrade e fm) L"
| governance: "fork_run vf v0 n fm L \<Longrightarrow> fork_run vf v0 n (snd (schedule_governance_upgrade w h p c fm)) L"
| timelock: "fork_run vf v0 n fm L \<Longrightarrow> fork_run vf v0 n (set_timelock_blocks b fm) L"
| upgrade: "fork_run vf v0 n fm L \<Longrightarrow> fork_run vf v0 n (snd (check_upgrades_at_height h fm)) L"
| ready: "fork_run vf v0 n fm L \<Longrightarrow> fork_run vf v0 n (snd (signal_upgrade_readiness v w fm)) L"
| clear: "fork_run vf v0 n fm L \<Longrightarrow> fork_run vf v0 n (clear_upgrade_readiness w fm) L"
| execute: "fork_run vf v0 n fm L \<Longrightarrow> fork_run vf v0 n (snd (execute_rollback r h fm)) L"
| refused: "fork_run vf v0 n fm L \<Longrightarrow> submit_rollback_signature vf v th tv nonce sig fm = (Inl e, fm') \<Longrightarrow> fork_run vf v0 n fm' L"
| accepted: "fork_run vf v0 n fm L \<Longrightarrow> submit_rollback_signature vf v th tv nonce sig fm = (Inr r, fm') \<Longrightarrow>
    fm_validator_keys fm v = Some pk \<Longrightarrow>
    fork_run vf v0 n fm' (L @ [\<lparr>se_validator = v, se_key = pk, se_height = th, se_version = tv, se_nonce = nonce, se_signature = sig\<rparr>])"

definition fresh_rollback :: "u64 \<Rightarrow> protocol_version \<Rightarrow> fork_manager \<Rightarrow> emergency_rollback" where
  "fresh_rollback th tv fm = \<lparr>er_target_height = th, er_target_version = tv, er_signatures = [], er_total_validators = fm_total_validators fm\<rparr>"

lemma fresh_rollback_simps [simp]:
  "er_target_height (fresh_rollback th tv fm) = th" "er_target_version (fresh_rollback th tv fm) = tv"
  "er_signatures (fresh_rollback th tv fm) = []"
  by (simp_all add: fresh_rollback_def)

text \<open>A refused signature leaves the manager as it was; an accepted one is described in full.\<close>

lemma submit_refused: "submit_rollback_signature vf v th tv nonce sig fm = (Inl e, fm') \<Longrightarrow> fm' = fm"
  by (auto simp: submit_rollback_signature_def sbind_run sget_def sok_or_def sguard_def smodify_def sfail_def sret_def Let_def
    unwrap_or_def split: option.splits if_splits prod.splits sum.splits)

lemma submit_accepted:
  assumes "submit_rollback_signature vf v th tv nonce sig fm = (Inr res, fm')"
  defines "r \<equiv> unwrap_or (fresh_rollback th tv fm) (fm_active_rollback fm)"
  defines "sigs \<equiv> (v, sig) # er_signatures r"
  defines "done \<equiv> rollback_quorum (fm_total_validators fm) \<le> of_nat (length sigs)"
  shows "\<exists>pk. fm_validator_keys fm v = Some pk \<and> vf pk sig (rollback_message_hash v th tv nonce)"
    and "nonce = unwrap_or 0 (fm_rollback_nonces fm v)" "er_target_height r = th" "er_target_version r = tv" "v \<notin> fst ` set (er_signatures r)"
    and "fm' = fm\<lparr>fm_active_rollback := (if done then None else Some (r\<lparr>er_signatures := sigs\<rparr>)),
      fm_rollback_nonces := (fm_rollback_nonces fm)(v \<mapsto> nonce + 1)\<rparr>"
    and "res = (if done then Some \<lparr>rr_target_height = th, rr_target_version = tv, rr_signature_count = of_nat (length sigs),
      rr_total_validators = fm_total_validators fm\<rparr> else None)"
  using assms(1) unfolding r_def sigs_def done_def fresh_rollback_def
  by (auto simp: submit_rollback_signature_def sbind_run sget_def sok_or_def sguard_def smodify_def sfail_def sret_def Let_def
    map_of_eq_None_iff split: option.splits if_splits)

text \<open>
  What the log says about the manager: the nonce of a validator counts its accepted signatures, and the open rollback
  holds signatures of distinct validators from the log, too few for the quorum.
\<close>

definition by_validator :: "validator_id \<Rightarrow> signature_entry list \<Rightarrow> signature_entry list" where
  "by_validator v L = filter (\<lambda>e. se_validator e = v) L"

definition open_ok :: "u32 \<Rightarrow> signature_entry list \<Rightarrow> emergency_rollback \<Rightarrow> bool" where
  "open_ok n L r \<longleftrightarrow> (\<exists>es. set es \<subseteq> set L \<and> map (\<lambda>e. (se_validator e, se_signature e)) es = er_signatures r \<and>
     distinct (map se_validator es) \<and> (\<forall>e \<in> set es. se_height e = er_target_height r \<and> se_version e = er_target_version r) \<and>
     length es < unat (rollback_quorum n))"

definition nonces_ok :: "(validator_id \<rightharpoonup> u64) \<Rightarrow> signature_entry list \<Rightarrow> bool" where
  "nonces_ok nn L \<longleftrightarrow> (\<forall>v. unwrap_or 0 (nn v) = of_nat (length (by_validator v L)) \<and>
     map se_nonce (by_validator v L) = map of_nat [0..<length (by_validator v L)])"

definition fork_ok :: "(bytes \<Rightarrow> bytes \<Rightarrow> bytes \<Rightarrow> bool) \<Rightarrow> u32 \<Rightarrow> fork_manager \<Rightarrow> signature_entry list \<Rightarrow> bool" where
  "fork_ok vf n fm L \<longleftrightarrow> fm_total_validators fm = n \<and> (\<forall>e \<in> set L. verified vf e) \<and>
     nonces_ok (fm_rollback_nonces fm) L \<and> (\<forall>r. fm_active_rollback fm = Some r \<longrightarrow> open_ok n L r)"

lemma by_validator_snoc [simp]: "by_validator v (L @ [e]) = by_validator v L @ (if se_validator e = v then [e] else [])"
  by (simp add: by_validator_def)

lemma nonces_ok_snoc:
  assumes "nonces_ok nn L" "se_nonce e = unwrap_or 0 (nn (se_validator e))"
  shows "nonces_ok (nn(se_validator e \<mapsto> se_nonce e + 1)) (L @ [e])"
  unfolding nonces_ok_def
proof
  fix v
  show "unwrap_or 0 ((nn(se_validator e \<mapsto> se_nonce e + 1)) v) = of_nat (length (by_validator v (L @ [e]))) \<and>
      map se_nonce (by_validator v (L @ [e])) = map of_nat [0..<length (by_validator v (L @ [e]))]"
    using assms by (cases "v = se_validator e") (simp_all add: nonces_ok_def unwrap_or_def)
qed

lemma open_ok_mono: "open_ok n L r \<Longrightarrow> set L \<subseteq> set L' \<Longrightarrow> open_ok n L' r"
  unfolding open_ok_def by blast

text \<open>Steps that touch neither the rollback nor the nonces.\<close>

lemma fork_ok_cong:
  "fm_total_validators fm' = fm_total_validators fm \<Longrightarrow> fm_rollback_nonces fm' = fm_rollback_nonces fm \<Longrightarrow>
    fm_active_rollback fm' = fm_active_rollback fm \<Longrightarrow> fork_ok vf n fm L \<Longrightarrow> fork_ok vf n fm' L"
  by (simp add: fork_ok_def)

text \<open>An accepted signature joins those of the rollback.\<close>

lemma accepted_signatures:
  assumes ok: "fork_ok vf n fm L" and run: "submit_rollback_signature vf v th tv nonce sig fm = (Inr res, fm')"
    and pk: "fm_validator_keys fm v = Some pk"
  defines "new \<equiv> \<lparr>se_validator = v, se_key = pk, se_height = th, se_version = tv, se_nonce = nonce, se_signature = sig\<rparr>"
  shows "verified vf new"
    and "\<exists>es. set es \<subseteq> set (L @ [new]) \<and> distinct (map se_validator es) \<and>
      map (\<lambda>e. (se_validator e, se_signature e)) es = (v, sig) # er_signatures (unwrap_or (fresh_rollback th tv fm) (fm_active_rollback fm)) \<and>
      (\<forall>e \<in> set es. se_height e = th \<and> se_version e = tv) \<and> length es \<le> max 1 (unat (rollback_quorum n))"
proof -
  note sub = submit_accepted [OF run]
  show "verified vf new" using sub(1) pk by (simp add: verified_def new_def)
  let ?r = "unwrap_or (fresh_rollback th tv fm) (fm_active_rollback fm)"
  obtain es where es: "set es \<subseteq> set L" "map (\<lambda>e. (se_validator e, se_signature e)) es = er_signatures ?r"
    "distinct (map se_validator es)" "\<forall>e \<in> set es. se_height e = th \<and> se_version e = tv" "Suc (length es) \<le> max 1 (unat (rollback_quorum n))"
  proof (cases "fm_active_rollback fm")
    case None
    then show ?thesis by (intro that [of "[]"]) (auto simp: unwrap_or_def)
  next
    case (Some r)
    then have "open_ok n L r" using ok by (simp add: fork_ok_def)
    then show ?thesis using Some sub(3,4) that by (fastforce simp: open_ok_def unwrap_or_def)
  qed
  have "v \<notin> set (map se_validator es)"
  proof
    assume "v \<in> set (map se_validator es)"
    then have "v \<in> fst ` set (map (\<lambda>e. (se_validator e, se_signature e)) es)" by force
    then show False using sub(5) es(2) by simp
  qed
  then show "\<exists>es. set es \<subseteq> set (L @ [new]) \<and> distinct (map se_validator es) \<and>
      map (\<lambda>e. (se_validator e, se_signature e)) es = (v, sig) # er_signatures ?r \<and>
      (\<forall>e \<in> set es. se_height e = th \<and> se_version e = tv) \<and> length es \<le> max 1 (unat (rollback_quorum n))"
    using es by (intro exI [of _ "new # es"]) (auto simp: new_def)
qed

lemma count_no_wrap: "k \<le> max 1 (unat q) \<Longrightarrow> (q :: u32) \<le> of_nat k \<longleftrightarrow> unat q \<le> k"
proof -
  assume k: "k \<le> max 1 (unat q)"
  have "max 1 (unat q) < 2 ^ 32" using unsigned_less [of q, where ?'a = nat] by simp
  then have "unat (of_nat k :: u32) = k" using k by (simp add: unat_of_nat)
  then show ?thesis by (simp add: word_le_nat_alt)
qed

lemma accepted_ok:
  assumes ok: "fork_ok vf n fm L" and run: "submit_rollback_signature vf v th tv nonce sig fm = (Inr res, fm')"
    and pk: "fm_validator_keys fm v = Some pk"
  shows "fork_ok vf n fm' (L @ [\<lparr>se_validator = v, se_key = pk, se_height = th, se_version = tv, se_nonce = nonce, se_signature = sig\<rparr>])"
proof -
  let ?new = "\<lparr>se_validator = v, se_key = pk, se_height = th, se_version = tv, se_nonce = nonce, se_signature = sig\<rparr>"
  note sub = submit_accepted [OF run] and acc = accepted_signatures [OF ok run pk]
  have n: "fm_total_validators fm = n" using ok by (simp add: fork_ok_def)
  have op: "open_ok n (L @ [?new]) r" if r: "fm_active_rollback fm' = Some r" for r
  proof -
    obtain es where es: "set es \<subseteq> set (L @ [?new])" "distinct (map se_validator es)"
      "map (\<lambda>e. (se_validator e, se_signature e)) es = (v, sig) # er_signatures (unwrap_or (fresh_rollback th tv fm) (fm_active_rollback fm))"
      "\<forall>e \<in> set es. se_height e = th \<and> se_version e = tv" "length es \<le> max 1 (unat (rollback_quorum n))"
      using acc(2) by (elim exE conjE) (rule that)
    have len: "length ((v, sig) # er_signatures (unwrap_or (fresh_rollback th tv fm) (fm_active_rollback fm))) = length es"
      using arg_cong [OF es(3), of length] by simp
    have active: "fm_active_rollback fm' = (if rollback_quorum n \<le> of_nat (length es) then None
        else Some ((unwrap_or (fresh_rollback th tv fm) (fm_active_rollback fm))\<lparr>er_signatures := map (\<lambda>e. (se_validator e, se_signature e)) es\<rparr>))"
      unfolding es(3) sub(6) n len by simp
    then have few: "\<not> rollback_quorum n \<le> of_nat (length es)" using r by (simp split: if_splits)
    then have rr: "r = (unwrap_or (fresh_rollback th tv fm) (fm_active_rollback fm))\<lparr>er_signatures := map (\<lambda>e. (se_validator e, se_signature e)) es\<rparr>"
      using r active by simp
    have "length es < unat (rollback_quorum n)" using few count_no_wrap [OF es(5)] by simp
    then show ?thesis unfolding open_ok_def rr using sub(3,4) es(1,2,4) by (intro exI [of _ es]) simp
  qed
  have "nonces_ok ((fm_rollback_nonces fm)(v \<mapsto> nonce + 1)) (L @ [?new])"
    using nonces_ok_snoc [of "fm_rollback_nonces fm" L ?new] ok unfolding sub(2) by (simp add: fork_ok_def)
  then have "nonces_ok (fm_rollback_nonces fm') (L @ [?new])" unfolding sub(6) by simp
  moreover have "fm_total_validators fm' = n" unfolding sub(6) using n by simp
  moreover have "\<forall>e \<in> set (L @ [?new]). verified vf e" using ok acc(1) by (simp add: fork_ok_def)
  ultimately show ?thesis unfolding fork_ok_def using op by (intro conjI allI impI)
qed

lemma fork_run_ok: "fork_run vf v0 n fm L \<Longrightarrow> fork_ok vf n fm L"
proof (induction rule: fork_run.induct)
  case start
  then show ?case by (simp add: fork_ok_def nonces_ok_def fm_new_def by_validator_def unwrap_or_def)
next
  case (upgrade fm L h)
  show ?case using upgrade.IH by (rule fork_ok_cong [rotated -1])
    (simp_all add: check_upgrades_at_height_def clear_upgrade_readiness_def Let_def split: prod.splits option.splits)
next
  case (governance fm L w h p c)
  show ?case using governance.IH by (rule fork_ok_cong [rotated -1])
    (simp_all add: schedule_governance_upgrade_def schedule_upgrade_def sbind_run sget_def sguard_def smodify_def sfail_def sret_def)
next
  case (ready fm L v w)
  show ?case using ready.IH by (rule fork_ok_cong [rotated -1])
    (simp_all add: signal_upgrade_readiness_def sbind_run sget_def sguard_def smodify_def sfail_def sret_def)
next
  case (refused fm L v th tv nonce sig e fm')
  then show ?case using submit_refused [OF refused(2)] by simp
next
  case (accepted fm L v th tv nonce sig r fm' pk)
  then show ?case by (intro accepted_ok)
qed (erule fork_ok_cong [rotated -1], simp_all add: fm_register_validator_def schedule_upgrade_def set_timelock_blocks_def
    clear_upgrade_readiness_def execute_rollback_def)+

text \<open>No accepted signature carries the validator and nonce of another one.\<close>

lemma distinct_by_key: "(\<And>v. distinct (map g (filter (\<lambda>e. f e = v) L))) \<Longrightarrow> distinct (map (\<lambda>e. (f e, g e)) L)"
proof (induction L)
  case (Cons e L)
  have "distinct (map g (filter (\<lambda>x. f x = v) L))" for v using Cons.prems [of v] by (simp split: if_splits)
  moreover have "g e \<notin> g ` {x \<in> set L. f x = f e}" using Cons.prems [of "f e"] by simp
  ultimately show ?case using Cons.IH by auto
qed simp

lemma log_no_replay:
  assumes "nonces_ok nn L" "length L \<le> 2 ^ 64"
  shows "distinct (map (\<lambda>e. (se_validator e, se_nonce e)) L)"
proof (rule distinct_by_key)
  fix v
  have "length (by_validator v L) \<le> 2 ^ 64" using assms(2) length_filter_le [of _ L] unfolding by_validator_def by (rule order_trans [rotated])
  then have "inj_on (of_nat :: nat \<Rightarrow> u64) (set [0..<length (by_validator v L)])"
    by (intro inj_onI) (auto dest: arg_cong [where f = unat] simp: unat_of_nat)
  then have "distinct (map (of_nat :: nat \<Rightarrow> u64) [0..<length (by_validator v L)])" by (simp add: distinct_map)
  then show "distinct (map se_nonce (filter (\<lambda>e. se_validator e = v) L))"
    using assms(1) by (simp add: nonces_ok_def by_validator_def)
qed

section \<open>Upgrades\<close>

lemma version_at_height_last:
  "version_at_height fm h = last (fm_current_version fm # map ue_version (filter (\<lambda>e. ue_activation_height e \<le> h) (fm_scheduled_upgrades fm)))"
proof -
  have "fold (\<lambda>e v. if ue_activation_height e \<le> h then ue_version e else v) es c =
      last (c # map ue_version (filter (\<lambda>e. ue_activation_height e \<le> h) es))" for es c
    by (induction es arbitrary: c) auto
  then show ?thesis unfolding version_at_height_def .
qed

lemma apply_upgrades_filter:
  "map (\<lambda>e. (ue_version e, ue_activation_height e)) (fst (apply_upgrades h skip es acc)) = map (\<lambda>e. (ue_version e, ue_activation_height e)) es"
  by (induction h skip es acc rule: apply_upgrades.induct) (auto split: prod.splits)

lemma apply_upgrades_current:
  "fst (snd (apply_upgrades h {} es acc)) = last (fst acc # map ue_version (filter (due h) es))"
  by (induction h "{} :: protocol_version set" es acc rule: apply_upgrades.induct) (auto split: prod.splits)

text \<open>The versions an upgrade run leaves in the schedule, and so the version expected at any height, are those it found.\<close>

lemma filter_versions:
  "map (\<lambda>e. (ue_version e, ue_activation_height e)) es = map (\<lambda>e. (ue_version e, ue_activation_height e)) es' \<Longrightarrow>
    map ue_version (filter (\<lambda>e. ue_activation_height e \<le> h) es) = map ue_version (filter (\<lambda>e. ue_activation_height e \<le> h) es')"
proof (induction es arbitrary: es')
  case (Cons e es)
  then show ?case by (cases es') auto
qed simp

lemma upgrades_current:
  assumes "\<not> fm_require_validator_readiness fm"
  shows "fm_current_version (snd (check_upgrades_at_height h fm)) =
      last (fm_current_version fm # map ue_version (filter (due h) (fm_scheduled_upgrades fm)))"
    "map (\<lambda>e. (ue_version e, ue_activation_height e)) (fm_scheduled_upgrades (snd (check_upgrades_at_height h fm))) =
      map (\<lambda>e. (ue_version e, ue_activation_height e)) (fm_scheduled_upgrades fm)"
  using assms apply_upgrades_current [of h "fm_scheduled_upgrades fm" "(fm_current_version fm, None)", unfolded fst_conv]
    apply_upgrades_filter [of h "{}" "fm_scheduled_upgrades fm" "(fm_current_version fm, None)"]
  by (auto simp: check_upgrades_at_height_def skip_versions_def clear_upgrade_readiness_def Let_def split: prod.splits option.splits)

text \<open>A governance upgrade is scheduled at least the timelock after its approval.\<close>

lemma governance_timelock:
  "schedule_governance_upgrade w h p c fm = (Inr (), fm') \<Longrightarrow> unat c + unat (fm_timelock_blocks fm) < 2 ^ 64 \<Longrightarrow>
    unat c + unat (fm_timelock_blocks fm) \<le> unat h"
  by (auto simp: schedule_governance_upgrade_def sbind_run sget_def sguard_def smodify_def sfail_def sret_def not_less
    word_le_nat_alt unat_add_no_overflow split: if_splits)

text \<open>
  A rollback changes the current version only: what the validation expects at a height that some scheduled upgrade has
  reached is not affected by it.
\<close>

lemma rollback_keeps_expected:
  assumes "e \<in> set (fm_scheduled_upgrades fm)" "ue_activation_height e \<le> h"
  shows "version_at_height (snd (execute_rollback r c fm)) h = version_at_height fm h"
proof -
  have "filter (\<lambda>e. ue_activation_height e \<le> h) (fm_scheduled_upgrades fm) \<noteq> []" using assms by (auto simp: filter_empty_conv)
  then show ?thesis by (simp add: version_at_height_last execute_rollback_def)
qed

section \<open>Properties\<close>

text \<open>
  C4: an emergency rollback of \<open>n\<close> validators is granted only if the signatures accepted so far contain verified
  signatures on exactly its target height and version by at least two thirds of \<open>n\<close> distinct registered validators,
  as many as it reports; and over the whole history no two accepted signatures carry the same validator and nonce,
  so that no signature counts twice.
\<close>

theorem rollback_needs_quorum:
  assumes "fork_run vf v0 n fm L" "submit_rollback_signature vf v th tv nonce sig fm = (Inr (Some r), fm')"
    "unat n < 2 ^ 31" "length L < 2 ^ 64"
  shows "rr_target_height r = th \<and> rr_target_version r = tv \<and>
    (\<exists>pk L'. L' = L @ [\<lparr>se_validator = v, se_key = pk, se_height = th, se_version = tv, se_nonce = nonce, se_signature = sig\<rparr>] \<and>
      fm_validator_keys fm v = Some pk \<and> distinct (map (\<lambda>e. (se_validator e, se_nonce e)) L') \<and>
      (\<exists>es. set es \<subseteq> set L' \<and> distinct (map se_validator es) \<and> 2 * unat n \<le> 3 * length es \<and>
        unat (rr_signature_count r) = length es \<and> (\<forall>e \<in> set es. se_height e = th \<and> se_version e = tv \<and> verified vf e)))"
proof -
  note sub = submit_accepted [OF assms(2)]
  obtain pk where pk: "fm_validator_keys fm v = Some pk" using sub(1) by blast
  let ?new = "\<lparr>se_validator = v, se_key = pk, se_height = th, se_version = tv, se_nonce = nonce, se_signature = sig\<rparr>"
  have ok: "fork_ok vf n fm L" by (rule fork_run_ok [OF assms(1)])
  have ok': "fork_ok vf n fm' (L @ [?new])" by (rule accepted_ok [OF ok assms(2) pk])
  have replay: "distinct (map (\<lambda>e. (se_validator e, se_nonce e)) (L @ [?new]))"
    using ok' assms(4) by (intro log_no_replay [of "fm_rollback_nonces fm'"]) (simp_all add: fork_ok_def)
  obtain es where es: "set es \<subseteq> set (L @ [?new])" "distinct (map se_validator es)"
    "map (\<lambda>e. (se_validator e, se_signature e)) es = (v, sig) # er_signatures (unwrap_or (fresh_rollback th tv fm) (fm_active_rollback fm))"
    "\<forall>e \<in> set es. se_height e = th \<and> se_version e = tv" "length es \<le> max 1 (unat (rollback_quorum n))"
    using accepted_signatures(2) [OF ok assms(2) pk] by (elim exE conjE) (rule that)
  have n: "fm_total_validators fm = n" using ok by (simp add: fork_ok_def)
  have len: "length ((v, sig) # er_signatures (unwrap_or (fresh_rollback th tv fm) (fm_active_rollback fm))) = length es"
    using arg_cong [OF es(3), of length] by simp
  have q: "rollback_quorum n \<le> of_nat (length es)" and r: "r = \<lparr>rr_target_height = th, rr_target_version = tv,
      rr_signature_count = of_nat (length es), rr_total_validators = n\<rparr>"
    using sub(7) [unfolded n len] by (simp_all split: if_splits)
  have "unat (rollback_quorum n) \<le> length es" using q count_no_wrap [OF es(5)] by simp
  then have enough: "2 * unat n \<le> 3 * length es" using unat_rollback_quorum [OF assms(3)] by linarith
  have "max 1 (unat (rollback_quorum n)) < 2 ^ 32" using unsigned_less [of "rollback_quorum n", where ?'a = nat] by simp
  then have count: "unat (rr_signature_count r) = length es" using es(5) by (simp add: r unat_of_nat)
  have "\<forall>e \<in> set es. verified vf e" using es(1) ok' unfolding fork_ok_def by blast
  then have "\<exists>es. set es \<subseteq> set (L @ [?new]) \<and> distinct (map se_validator es) \<and> 2 * unat n \<le> 3 * length es \<and>
      unat (rr_signature_count r) = length es \<and> (\<forall>e \<in> set es. se_height e = th \<and> se_version e = tv \<and> verified vf e)"
    using es(1,2,4) enough count by (intro exI [of _ es]) simp
  then show ?thesis using pk replay r by simp
qed

text \<open>Three validators of whom two are known; a signature is valid if it repeats the key.\<close>

definition sample_verify :: "bytes \<Rightarrow> bytes \<Rightarrow> bytes \<Rightarrow> bool" where
  "sample_verify key sig msg \<longleftrightarrow> sig = key"

definition sample_fork :: fork_manager where
  "sample_fork = fm_register_validator 2 [2] (fm_register_validator 1 [1] (fm_new (ProtocolVersion 1 0 0) 3))"

definition sample_fork1 :: fork_manager where
  "sample_fork1 = sample_fork\<lparr>fm_active_rollback := Some \<lparr>er_target_height = 90, er_target_version = ProtocolVersion 1 0 0,
     er_signatures = [(1, [1])], er_total_validators = 3\<rparr>, fm_rollback_nonces := [1 \<mapsto> 1]\<rparr>"

lemmas submit_eval = submit_rollback_signature_def sbind_run sget_def sok_or_def sguard_def smodify_def sfail_def sret_def
  unwrap_or_def sample_verify_def sample_fork_def sample_fork1_def fm_register_validator_def fm_new_def rollback_quorum_def div_ceil_def word_le_nat_alt

lemma sample_submit1: "submit_rollback_signature sample_verify 1 90 (ProtocolVersion 1 0 0) 0 [1] sample_fork = (Inr None, sample_fork1)"
  by (simp add: submit_eval)

lemma sample_submit2: "\<exists>fm. submit_rollback_signature sample_verify 2 90 (ProtocolVersion 1 0 0) 0 [2] sample_fork1 =
    (Inr (Some \<lparr>rr_target_height = 90, rr_target_version = ProtocolVersion 1 0 0, rr_signature_count = 2, rr_total_validators = 3\<rparr>), fm)"
  by (simp add: submit_eval)

lemma sample_run1: "fork_run sample_verify (ProtocolVersion 1 0 0) 3 sample_fork1
    [\<lparr>se_validator = 1, se_key = [1], se_height = 90, se_version = ProtocolVersion 1 0 0, se_nonce = 0, se_signature = [1]\<rparr>]"
proof -
  have "fork_run sample_verify (ProtocolVersion 1 0 0) 3 sample_fork []"
    unfolding sample_fork_def by (intro fork_run.intros)
  from accepted [OF this sample_submit1, of "[1]"] show ?thesis
    by (simp add: sample_fork_def fm_register_validator_def fm_new_def)
qed

theorem rollback_needs_quorum_witness:
  "\<exists>es. distinct (map se_validator es) \<and> 2 * unat (3 :: u32) \<le> 3 * length es \<and>
     (\<exists>L. fork_run sample_verify (ProtocolVersion 1 0 0) 3 sample_fork1 L \<and> length L = 1) \<and>
     list_all (\<lambda>e. se_height e = 90 \<and> verified sample_verify e) es"
proof -
  obtain fm where run: "submit_rollback_signature sample_verify 2 90 (ProtocolVersion 1 0 0) 0 [2] sample_fork1 =
      (Inr (Some \<lparr>rr_target_height = 90, rr_target_version = ProtocolVersion 1 0 0, rr_signature_count = 2, rr_total_validators = 3\<rparr>), fm)"
    using sample_submit2 by blast
  show ?thesis
    using rollback_needs_quorum [OF sample_run1 run] sample_run1 by (fastforce simp: list_all_iff)
qed

text \<open>
  at the height of a scheduled upgrade, the last one due there and to another version, the validation refuses every
  block that carries the version of the fork manager, which is what a producer stamps on a block before the upgrades of
  that height are applied; once they are applied, the version of the manager is the expected one. (Without the readiness
  requirement.)
\<close>

theorem activation_block_rejected:
  assumes "filter (\<lambda>e. ue_activation_height e \<le> h) (fm_scheduled_upgrades fm) = es @ [e]" "due h e"
    "fm_current_version fm \<noteq> ue_version e" "\<not> fm_require_validator_readiness fm"
  shows "validate_block_version fm h (current_version fm) = Inl (VersionMismatch h (ue_version e) (current_version fm)) \<and>
    current_version (snd (check_upgrades_at_height h fm)) = ue_version e \<and>
    validate_block_version (snd (check_upgrades_at_height h fm)) h (current_version (snd (check_upgrades_at_height h fm))) = Inr ()"
proof -
  have expected: "version_at_height fm h = ue_version e" by (simp add: version_at_height_last assms(1))
  have "filter (due h) (fm_scheduled_upgrades fm) = filter (\<lambda>e. \<not> ue_applied e) (es @ [e])"
    unfolding assms(1) [symmetric] filter_filter by (rule filter_cong) (auto simp: due_def)
  then have cur: "current_version (snd (check_upgrades_at_height h fm)) = ue_version e"
    using assms(2) upgrades_current(1) [OF assms(4)] by (simp add: current_version_def due_def)
  have "map ue_version (filter (\<lambda>e. ue_activation_height e \<le> h) (fm_scheduled_upgrades (snd (check_upgrades_at_height h fm)))) = map ue_version (es @ [e])"
    unfolding assms(1) [symmetric] by (rule filter_versions [OF upgrades_current(2) [OF assms(4)]])
  then have "version_at_height (snd (check_upgrades_at_height h fm)) h = ue_version e"
    by (simp add: version_at_height_last)
  then show ?thesis using cur expected assms(3) by (simp add: validate_block_version_def current_version_def)
qed

definition sample_upgrade :: upgrade_entry where
  "sample_upgrade = \<lparr>ue_version = ProtocolVersion 1 1 0, ue_activation_height = 100, ue_applied = False,
     ue_proposal_id = Some 1, ue_approved_at_height = None\<rparr>"

theorem activation_block_rejected_witness:
  "validate_block_version (schedule_upgrade sample_upgrade (fm_new (ProtocolVersion 1 0 0) 1)) 100 (ProtocolVersion 1 0 0) =
     Inl (VersionMismatch 100 (ProtocolVersion 1 1 0) (ProtocolVersion 1 0 0)) \<and>
   validate_block_version (schedule_upgrade sample_upgrade (fm_new (ProtocolVersion 1 0 0) 1)) 99 (ProtocolVersion 1 0 0) = Inr ()"
  using activation_block_rejected [of 100 "schedule_upgrade sample_upgrade (fm_new (ProtocolVersion 1 0 0) 1)" "[]" sample_upgrade]
  by (simp add: schedule_upgrade_def sample_upgrade_def fm_new_def due_def current_version_def validate_block_version_def version_at_height_def)

end
