(* ===== verification/Consensus_Props.thy ===== *)
theory Consensus_Props
  imports Consensus Genesis_Props Fork_Props
begin

text \<open>
  The consensus driver over the validator contract: what the churn at the end of an epoch removes, as a reference
  definition (\<open>exiting\<close>), what it does to the stakes of the removed validators, the shape of the proposer subset and the
  rotation of the proposers, the block cache as a bounded queue.
\<close>

section \<open>Reading the validator contract\<close>

lemma val_slot_eq:
  "val_layout_ok H A \<Longrightarrow> k \<in> val_keys A \<Longrightarrow> k' \<in> val_keys A \<Longrightarrow> val_slot H k = val_slot H k' \<longleftrightarrow> k = k'"
  by (auto simp: val_layout_ok_def inj_on_def)

lemmas read_defs = read_validator_count_def read_validator_addr_def read_validator_stake_def read_validator_status_def
  read_validator_unbond_height_def read_validator_pubkey_def read_validator_id_by_addr_def

lemma remove_storage:
  "get_storage (remove_validator_evm H a st) = vput H (VStatus a) 0 (vput H (VStake a) 0 (get_storage st))"
  by (simp add: remove_validator_evm_def val_slots [of H])

lemma remove_reads:
  assumes "val_layout_ok H A" "a \<in> A"
  shows "read_validator_count (remove_validator_evm H a st) = read_validator_count st"
    "read_validator_addr H (remove_validator_evm H a st) i = read_validator_addr H st i"
    "read_validator_stake H (remove_validator_evm H a st) a = 0"
    "read_validator_status H (remove_validator_evm H a st) a = 0"
    "b \<in> A \<Longrightarrow> read_validator_id_by_addr H (remove_validator_evm H a st) b = read_validator_id_by_addr H st b"
    "b \<in> A \<Longrightarrow> b \<noteq> a \<Longrightarrow> read_validator_stake H (remove_validator_evm H a st) b = read_validator_stake H st b"
    "b \<in> A \<Longrightarrow> b \<noteq> a \<Longrightarrow> read_validator_status H (remove_validator_evm H a st) b = read_validator_status H st b"
    "b \<in> A \<Longrightarrow> read_validator_unbond_height H (remove_validator_evm H a st) b = read_validator_unbond_height H st b"
    "get_storage (remove_validator_evm H a st) ASSET_ADDRESS = get_storage st ASSET_ADDRESS"
  using assms(2) val_slot_eq [OF assms(1)]
  by (simp_all add: read_defs val_slots [of H] remove_storage sput_apply to_be_bytes_last u256_to_u128_def fun_eq_iff)

section \<open>The churn at the end of an epoch\<close>

text \<open>A validator leaves if its unbonding period is over or if it is active with less than the minimal stake.\<close>

definition exits :: "(bytes \<Rightarrow> u256) \<Rightarrow> consensus_params \<Rightarrow> u64 \<Rightarrow> in_memory \<Rightarrow> address \<Rightarrow> bool" where
  "exits H params current_block st a \<longleftrightarrow> a \<noteq> 0 \<and>
     (read_validator_status H st a = 2 \<and>
        saturating_add (read_validator_unbond_height H st a) (cp_unbonding_period_blocks params) \<le> current_block
      \<or> read_validator_status H st a = 1 \<and> read_validator_stake H st a < cp_min_self_stake params)"

lemma exits_remove:
  assumes "val_layout_ok H A" "a \<in> A" "b \<in> insert 0 A" "b \<noteq> a"
  shows "exits H params blk (remove_validator_evm H a st) b = exits H params blk st b"
  using assms by (auto simp: exits_def remove_reads [OF assms(1,2)])

lemma churn_loop_reference:
  assumes ok: "val_layout_ok H A"
  shows "\<lbrakk>\<forall>i \<in> set ids. read_validator_addr H st i \<in> insert 0 A; distinct (filter (\<lambda>a. a \<noteq> 0) (map (read_validator_addr H st) ids))\<rbrakk> \<Longrightarrow>
    snd (churn_loop H params blk limit ids p st) =
      fold (remove_validator_evm H) (take (unat limit - unat p) (filter (exits H params blk st) (map (read_validator_addr H st) ids))) st"
proof (induction ids arbitrary: p st)
  case Nil
  then show ?case by simp
next
  case (Cons i ids)
  let ?a = "read_validator_addr H st i"
  let ?go = "churn_loop H params blk limit ids"
  show ?case
  proof (cases "limit \<le> p")
    case True
    then show ?thesis by (simp add: word_le_nat_alt)
  next
    case False
    then have lt: "unat p < unat limit" by (simp add: word_le_nat_alt)
    have step: "unat (p + 1) = unat p + 1" using lt unsigned_less [of limit, where ?'a = nat] by (subst unat_add_no_overflow) simp_all
    show ?thesis
    proof (cases "exits H params blk st ?a")
      case stay: False
      then have "churn_loop H params blk limit (i # ids) p st = ?go p st"
        using False by (auto simp: exits_def Let_def)
      then show ?thesis using Cons stay by (auto split: if_splits)
    next
      case True
      let ?st = "remove_validator_evm H ?a st"
      have run: "churn_loop H params blk limit (i # ids) p st = ?go (p + 1) ?st"
        using False True by (auto simp: exits_def Let_def)
      have a: "?a \<noteq> 0" "?a \<in> A" using True Cons.prems(1) by (auto simp: exits_def)
      note rd = remove_reads [OF ok a(2)]
      have "?a \<notin> set (map (read_validator_addr H st) ids)" using Cons.prems(2) a(1) by simp
      then have fresh: "b \<noteq> ?a" if "b \<in> set (map (read_validator_addr H st) ids)" for b using that by metis
      have same: "filter (exits H params blk ?st) (map (read_validator_addr H st) ids) =
          filter (exits H params blk st) (map (read_validator_addr H st) ids)"
        using Cons.prems(1) fresh by (intro filter_cong) (auto intro!: exits_remove [OF ok a(2)])
      have "snd (?go (p + 1) ?st) = fold (remove_validator_evm H)
          (take (unat limit - unat (p + 1)) (filter (exits H params blk ?st) (map (read_validator_addr H ?st) ids))) ?st"
        using Cons.prems by (intro Cons.IH) (auto simp: rd split: if_splits)
      then show ?thesis using run True lt step same by (simp add: rd(2) [abs_def] take_Cons' )
    qed
  qed
qed

definition validator_addrs :: "(bytes \<Rightarrow> u256) \<Rightarrow> in_memory \<Rightarrow> address list" where
  "validator_addrs H st = map (read_validator_addr H st) (ids_upto (read_validator_count st))"

definition exiting :: "(bytes \<Rightarrow> u256) \<Rightarrow> simplex \<Rightarrow> in_memory \<Rightarrow> address list" where
  "exiting H c st = filter (exits H (sc_params c) (saturating_sub (sc_current_height c) 1) st) (validator_addrs H st)"

text \<open>The registered addresses are those of known accounts, each registered once.\<close>

definition registry_ok :: "(bytes \<Rightarrow> u256) \<Rightarrow> address set \<Rightarrow> in_memory \<Rightarrow> bool" where
  "registry_ok H A st \<longleftrightarrow> set (validator_addrs H st) \<subseteq> insert 0 A \<and> distinct (filter (\<lambda>a. a \<noteq> 0) (validator_addrs H st))"

lemma churn_run:
  assumes "val_layout_ok H A" "registry_ok H A st"
  shows "process_epoch_churn H c st = map_option (\<lambda>limit. fold (remove_validator_evm H) (take (unat limit) (exiting H c st)) st)
    (churn_limit (sc_params c) (read_validator_count st))"
proof -
  have "\<forall>i \<in> set (ids_upto (read_validator_count st)). read_validator_addr H st i \<in> insert 0 A"
    "distinct (filter (\<lambda>a. a \<noteq> 0) (map (read_validator_addr H st) (ids_upto (read_validator_count st))))"
    using assms(2) by (auto simp: registry_ok_def validator_addrs_def)
  from churn_loop_reference [OF assms(1) this, of "sc_params c" "saturating_sub (sc_current_height c) 1" _ 0] show ?thesis
    by (auto simp: process_epoch_churn_def exiting_def validator_addrs_def Let_def split: option.splits)
qed

lemma exiting_accounts: "registry_ok H A st \<Longrightarrow> set (take n (exiting H c st)) \<subseteq> A"
  by (auto simp: registry_ok_def exiting_def exits_def dest!: in_set_takeD)

lemma fold_remove_reads:
  assumes ok: "val_layout_ok H A"
  shows "set xs \<subseteq> A \<Longrightarrow> a \<in> A \<Longrightarrow>
    read_validator_stake H (fold (remove_validator_evm H) xs st) a = (if a \<in> set xs then 0 else read_validator_stake H st a) \<and>
    read_validator_status H (fold (remove_validator_evm H) xs st) a = (if a \<in> set xs then 0 else read_validator_status H st a) \<and>
    read_validator_id_by_addr H (fold (remove_validator_evm H) xs st) a = read_validator_id_by_addr H st a \<and>
    get_storage (fold (remove_validator_evm H) xs st) ASSET_ADDRESS = get_storage st ASSET_ADDRESS"
proof (induction xs arbitrary: st)
  case (Cons x xs)
  have x: "x \<in> A" using Cons.prems by simp
  show ?case
    using Cons.IH [of "remove_validator_evm H x st"] Cons.prems remove_reads(3,4,9) [OF ok x, of st]
      remove_reads(5,6,7) [OF ok x, where b = a and st = st]
    by (cases "x = a") simp_all
qed simp

lemma mload_state [simp]: "mload state_backend a k st = (Inr (get_storage st a k), st)"
  by (simp add: mload_def state_backend_def)

text \<open>An account on record with neither the active nor the unbonding status is shut out of the contract.\<close>

lemma shut_out:
  assumes "read_validator_status H st a = 0" "read_validator_id_by_addr H st a \<noteq> 0"
  shows "\<exists>e. fst (claim_unbonded H state_backend i a blk st) = Inl e" "\<exists>e. fst (unstake H state_backend i a blk st) = Inl e"
    "\<exists>e. fst (stake H state_backend pk x a st) = Inl e"
proof -
  have id: "vs_validator_id H state_backend a st = (Inr (read_validator_id_by_addr H st a), st)"
    by (simp add: vs_validator_id_def read_validator_id_by_addr_def sbind_run sret_def)
  have status: "vs_status H state_backend a st = (Inr 0, st)"
    using assms(1) by (simp add: vs_status_def read_validator_status_def sbind_run sret_def)
  show "\<exists>e. fst (claim_unbonded H state_backend i a blk st) = Inl e"
    by (cases "read_validator_id_by_addr H st a = i") (simp_all add: claim_unbonded_def sbind_def sguard_def sfail_def sret_def id status assms(2))
  show "\<exists>e. fst (unstake H state_backend i a blk st) = Inl e"
    by (cases "read_validator_id_by_addr H st a = i") (simp_all add: unstake_def sbind_def sguard_def sfail_def sret_def id status assms(2))
  show "\<exists>e. fst (stake H state_backend pk x a st) = Inl e"
    by (cases "x < MIN_SELF_STAKE"; cases "pk = replicate 32 0") (simp_all add: stake_def sbind_def sguard_def sfail_def sret_def id assms(2))
qed

section \<open>The proposer subset\<close>

lemma map_filter_scored:
  "map fst (List.map_filter (\<lambda>i. map_option (\<lambda>pk. (i, f pk)) (keys i)) vs) = filter (\<lambda>i. keys i \<noteq> None) vs"
  by (induction vs) (auto simp: List.map_filter_def)

lemma select_subset_wf:
  assumes "distinct vs"
  shows "sorted (select_proposer_subset H vs keys seed n)" "distinct (select_proposer_subset H vs keys seed n)"
    "set (select_proposer_subset H vs keys seed n) \<subseteq> set vs"
    "length (select_proposer_subset H vs keys seed n) = min (unat n) (length (filter (\<lambda>i. keys i \<noteq> None) vs))"
proof -
  let ?scored = "List.map_filter (\<lambda>i. map_option (\<lambda>pk. (i, vrf_sortition_score H pk seed)) (keys i)) vs"
  have fst_scored: "map fst ?scored = filter (\<lambda>i. keys i \<noteq> None) vs" by (rule map_filter_scored)
  have m: "mset (map fst (sort_key snd ?scored)) = mset (filter (\<lambda>i. keys i \<noteq> None) vs)"
    by (simp only: mset_map mset_sort flip: fst_scored)
  have d: "distinct (map fst (sort_key snd ?scored))" "set (map fst (sort_key snd ?scored)) \<subseteq> set vs"
      "length (map fst (sort_key snd ?scored)) = length (filter (\<lambda>i. keys i \<noteq> None) vs)"
    using assms mset_eq_imp_distinct_iff [OF m] mset_eq_setD [OF m] mset_eq_length [OF m] by (simp_all only: distinct_filter filter_is_subset)
  show "sorted (select_proposer_subset H vs keys seed n)" by (simp add: select_proposer_subset_def Let_def)
  show "distinct (select_proposer_subset H vs keys seed n)"
    using d(1) by (simp add: select_proposer_subset_def Let_def flip: take_map)
  show "set (select_proposer_subset H vs keys seed n) \<subseteq> set vs"
    using d(2) set_take_subset [of "unat n" "map fst (sort_key snd ?scored)"] by (auto simp: select_proposer_subset_def Let_def simp flip: take_map)
  show "length (select_proposer_subset H vs keys seed n) = min (unat n) (length (filter (\<lambda>i. keys i \<noteq> None) vs))"
    using d(3) by (auto simp: select_proposer_subset_def Let_def)
qed

lemma unat_ids: "map unat (ids_upto n) = [1..<Suc (unat n)]"
proof -
  have "unat (of_nat k :: u64) = k" if "k \<in> set [1..<Suc (unat n)]" for k
    using that unsigned_less [of n, where ?'a = nat] by (auto simp: unat_of_nat)
  then show ?thesis unfolding ids_upto_def map_map comp_def by (intro map_idI)
qed

text \<open>Fewer than \<open>2 ^ 32\<close> validators keep distinct 32-bit identifiers.\<close>

lemma ids_distinct:
  assumes "unat n < 2 ^ 32"
  shows "distinct (map (ucast :: u64 \<Rightarrow> validator_id) (ids_upto n))"
proof -
  have "unat (ucast i :: validator_id) = unat i" if "i \<in> set (ids_upto n)" for i
  proof -
    have "unat i \<in> set (map unat (ids_upto n))" using that by simp
    then have "unat i < 2 ^ 32" using assms by (auto simp only: unat_ids set_upt atLeastLessThan_iff)
    then show ?thesis by (simp add: unsigned_ucast_eq take_bit_nat_eq_self)
  qed
  then have "map unat (map (ucast :: u64 \<Rightarrow> validator_id) (ids_upto n)) = map unat (ids_upto n)" by simp
  then have "distinct (map unat (map (ucast :: u64 \<Rightarrow> validator_id) (ids_upto n)))" unfolding unat_ids by simp
  then show ?thesis by (simp only: distinct_map)
qed

lemma qualified_distinct:
  assumes "unat (read_validator_count st) < 2 ^ 32"
  shows "distinct (qualified_validators_internal H st params)"
proof -
  have "distinct (map (ucast :: u64 \<Rightarrow> validator_id) (filter Q (ids_upto (read_validator_count st))))" for Q
    using ids_distinct [OF assms] by (simp add: distinct_map inj_on_def)
  then show ?thesis by (simp add: qualified_validators_internal_def)
qed

text \<open>Every qualified validator has a key in the map.\<close>

lemma pubkey_known:
  "i \<in> set is \<Longrightarrow> read_validator_addr H st i \<noteq> 0 \<Longrightarrow>
    fold (\<lambda>i m. let a = read_validator_addr H st i in if a \<noteq> 0 then m(ucast i \<mapsto> read_validator_pubkey H st a) else m) is m
      (ucast i :: validator_id) \<noteq> None"
proof (induction "is" rule: rev_induct)
  case (snoc j "is")
  then show ?case by (auto simp: Let_def)
qed simp

lemma qualified_known: "i \<in> set (qualified_validators_internal H st params) \<Longrightarrow> build_pubkey_map_internal H st i \<noteq> None"
proof -
  assume "i \<in> set (qualified_validators_internal H st params)"
  then obtain x where "x \<in> set (ids_upto (read_validator_count st))" "read_validator_addr H st x \<noteq> 0" "i = ucast x"
    by (auto simp: qualified_validators_internal_def Let_def)
  then show ?thesis unfolding build_pubkey_map_internal_def by (simp only: pubkey_known not_False_eq_True)
qed

lemma subset_for_wf:
  assumes "unat (read_validator_count st) < 2 ^ 32"
  shows "sorted (subset_for H st params h r)" "distinct (subset_for H st params h r)"
    "set (subset_for H st params h r) \<subseteq> set (qualified_validators_internal H st params)"
    "length (subset_for H st params h r) = min (unat (cp_subset_size params)) (length (qualified_validators_internal H st params))"
proof -
  have "filter (\<lambda>i. build_pubkey_map_internal H st i \<noteq> None) (qualified_validators_internal H st params) = qualified_validators_internal H st params"
    using qualified_known by (simp add: filter_id_conv)
  then show "length (subset_for H st params h r) = min (unat (cp_subset_size params)) (length (qualified_validators_internal H st params))"
    unfolding subset_for_def select_subset_wf(4) [OF qualified_distinct [OF assms]] by simp
qed (simp_all add: subset_for_def select_subset_wf [OF qualified_distinct [OF assms]])

lemma rotate_mset: "mset (rotate n xs) = mset xs"
proof -
  have "mset (rotate n xs) = mset (take (n mod length xs) xs @ drop (n mod length xs) xs)"
    unfolding rotate_drop_take mset_append by (rule add.commute)
  then show ?thesis unfolding append_take_drop_id .
qed

text \<open>Consecutive rounds go through the subset in order.\<close>

lemma proposer_rotation:
  assumes "S \<noteq> []" "unat r + length S \<le> 2 ^ 64"
  shows "map (\<lambda>k. select_proposer S (r + of_nat k)) [0..<length S] = map Some (rotate (unat r mod length S) S)"
proof (rule nth_equalityI)
  fix k
  assume "k < length (map (\<lambda>k. select_proposer S (r + of_nat k)) [0..<length S])"
  then have k: "k < length S" by simp
  then have "unat (of_nat k :: u64) = k" "unat r + k < 2 ^ 64" using assms(2) by (simp_all add: unat_of_nat)
  then have "unat (r + of_nat k) = unat r + k" by (subst unat_add_no_overflow) simp_all
  then show "map (\<lambda>k. select_proposer S (r + of_nat k)) [0..<length S] ! k = map Some (rotate (unat r mod length S) S) ! k"
    using k assms(1) by (simp add: select_proposer_def nth_rotate mod_simps)
qed simp

text \<open>The states of the driver, over any states of the chain with fewer than \<open>2 ^ 32\<close> validators.\<close>

inductive driver_reach :: "(bytes \<Rightarrow> u256) \<Rightarrow> consensus_params \<Rightarrow> simplex \<Rightarrow> bool" for H params where
  start: "unat (read_validator_count st) < 2 ^ 32 \<Longrightarrow> driver_reach H params (sc_new H params st)"
| restore: "unat (read_validator_count st) < 2 ^ 32 \<Longrightarrow> ps_params p = params \<Longrightarrow> driver_reach H params (restore_from_persisted H p st)"
| advance: "driver_reach H params c \<Longrightarrow> advance_round H c st = Some (c', st') \<Longrightarrow> unat (read_validator_count st') < 2 ^ 32 \<Longrightarrow>
    driver_reach H params c'"
| refresh: "driver_reach H params c \<Longrightarrow> unat (read_validator_count st) < 2 ^ 32 \<Longrightarrow> driver_reach H params (refresh_proposer_subset H st c)"
| commit: "driver_reach H params c \<Longrightarrow> driver_reach H params (snd (commit_block H b c))"
| rollback: "driver_reach H params c \<Longrightarrow> driver_reach H params (set_current_height h (set_last_block_hash x c))"

definition driver_ok :: "consensus_params \<Rightarrow> simplex \<Rightarrow> bool" where
  "driver_ok params c \<longleftrightarrow> sc_params c = params \<and> sorted (sc_proposer_subset c) \<and> distinct (sc_proposer_subset c) \<and>
     length (sc_proposer_subset c) \<le> unat (cp_subset_size params)"

lemma driver_reach_ok: "driver_reach H params c \<Longrightarrow> driver_ok params c"
proof (induction rule: driver_reach.induct)
  case (start st)
  then show ?case by (simp add: driver_ok_def sc_new_def subset_for_wf)
next
  case (restore st p)
  then show ?case by (simp add: driver_ok_def restore_from_persisted_def subset_for_wf)
next
  case (advance c st c' st')
  then show ?case
    by (auto simp: advance_round_def driver_ok_def recompute_proposer_subset_def subset_for_wf Let_def split: if_splits option.splits)
next
  case (refresh c st)
  then show ?case by (simp add: driver_ok_def refresh_proposer_subset_def recompute_proposer_subset_def subset_for_wf)
next
  case (commit c b)
  then show ?case by (simp add: driver_ok_def commit_block_def)
next
  case (rollback c h x)
  then show ?case by (simp add: driver_ok_def set_current_height_def set_last_block_hash_def)
qed

section \<open>The block cache\<close>

text \<open>Its order lists exactly the cached digests, once each, and no more than its capacity (at least one).\<close>

definition cache_ok :: "'b block_cache \<Rightarrow> bool" where
  "cache_ok c \<longleftrightarrow> distinct (map fst (bc_blocks c)) \<and> distinct (bc_order c) \<and> set (bc_order c) = fst ` set (bc_blocks c) \<and>
     length (bc_blocks c) \<le> max 1 (bc_max_size c)"

lemma keys_delete: "fst ` set (AList.delete k xs) = fst ` set xs - {k}"
  using arg_cong [OF delete_keys [of k xs], of set] by simp

lemma delete_shorter: "distinct (map fst xs) \<Longrightarrow> k \<in> fst ` set xs \<Longrightarrow> Suc (length (AList.delete k xs)) = length xs"
proof -
  assume a: "distinct (map fst xs)" "k \<in> fst ` set xs"
  have "length (AList.delete k xs) = length (removeAll k (map fst xs))" by (simp flip: delete_keys)
  also have "\<dots> = length xs - 1" using a by (simp add: length_remove1 flip: distinct_remove1_removeAll)
  finally show ?thesis using a(2) by (cases xs) auto
qed

lemma cache_new: "cache_ok (bc_new n)"
  by (simp add: cache_ok_def bc_new_def)

lemma cache_clear: "cache_ok c \<Longrightarrow> cache_ok (bc_clear c)"
  by (simp add: cache_ok_def bc_clear_def)

lemma cache_remove:
  assumes "cache_ok c"
  shows "cache_ok (snd (bc_remove d c))" "bc_get (snd (bc_remove d c)) d = None"
proof -
  have "length (AList.delete d (bc_blocks c)) \<le> length (bc_blocks c)" by (simp add: AList.delete_eq)
  then show "cache_ok (snd (bc_remove d c))"
    using assms by (auto simp: cache_ok_def bc_remove_def distinct_delete keys_delete)
  show "bc_get (snd (bc_remove d c)) d = None" by (simp add: bc_get_def bc_remove_def delete_conv')
qed

text \<open>Dropping the oldest block makes room: what is left is one short of the capacity.\<close>

lemma cache_evict:
  assumes "cache_ok c" "bc_max_size c \<le> length (bc_blocks c)" "bc_order c = oldest # rest"
  shows "cache_ok (c\<lparr>bc_blocks := AList.delete oldest (bc_blocks c), bc_order := rest\<rparr>)"
    "length (AList.delete oldest (bc_blocks c)) < max 1 (bc_max_size c)"
proof -
  have "oldest \<in> fst ` set (bc_blocks c)" using assms(1,3) by (auto simp: cache_ok_def)
  then have "Suc (length (AList.delete oldest (bc_blocks c))) = length (bc_blocks c)"
    using assms(1) by (intro delete_shorter) (simp_all add: cache_ok_def)
  then show "length (AList.delete oldest (bc_blocks c)) < max 1 (bc_max_size c)" using assms(1) by (simp add: cache_ok_def)
  then show "cache_ok (c\<lparr>bc_blocks := AList.delete oldest (bc_blocks c), bc_order := rest\<rparr>)"
    using assms(1,3) by (auto simp: cache_ok_def distinct_delete keys_delete)
qed

lemma cache_add:
  assumes "cache_ok c" "d \<notin> fst ` set (bc_blocks c)" "length (bc_blocks c) < max 1 (bc_max_size c)"
  shows "cache_ok (c\<lparr>bc_order := bc_order c @ [d], bc_blocks := AList.update d b (bc_blocks c)\<rparr>)"
proof -
  have keys: "map fst (AList.update d b (bc_blocks c)) = map fst (bc_blocks c) @ [d]" using assms(2) by (simp add: update_keys)
  have "fst ` set (AList.update d b (bc_blocks c)) = insert d (fst ` set (bc_blocks c))"
    "length (AList.update d b (bc_blocks c)) = Suc (length (bc_blocks c))"
    using arg_cong [OF keys, of set] arg_cong [OF keys, of length] by simp_all
  then show ?thesis using assms keys by (simp add: cache_ok_def)
qed

lemma cache_insert:
  assumes "cache_ok c"
  shows "cache_ok (bc_insert d b c)" "bc_get (bc_insert d b c) d = (case bc_get c d of None \<Rightarrow> Some b | Some b' \<Rightarrow> Some b')"
proof -
  show "cache_ok (bc_insert d b c)"
  proof (cases "d \<in> fst ` set (bc_blocks c)")
    case True
    then show ?thesis using assms by (auto simp: bc_insert_def map_of_eq_None_iff)
  next
    case fresh: False
    show ?thesis
    proof (cases "bc_order c")
      case Nil
      then have "bc_blocks c = []" using assms by (simp add: cache_ok_def)
      then show ?thesis using cache_add [OF assms fresh, of b] Nil by (simp add: bc_insert_def)
    next
      case (Cons oldest rest)
      have "d \<notin> fst ` set (AList.delete oldest (bc_blocks c))" using fresh by (simp add: keys_delete)
      then show ?thesis
        using fresh cache_add [OF assms fresh, of b] cache_evict [OF assms _ Cons] cache_add [OF cache_evict(1) [OF assms _ Cons], of d b]
        by (auto simp: bc_insert_def map_of_eq_None_iff Cons not_le less_max_iff_disj)
    qed
  qed
  show "bc_get (bc_insert d b c) d = (case bc_get c d of None \<Rightarrow> Some b | Some b' \<Rightarrow> Some b')"
    by (auto simp: bc_insert_def bc_get_def update_conv' Let_def split: option.splits)
qed

section \<open>A concrete registry\<close>

text \<open>
  Validator 1 with the minimal stake of the consensus parameters, validator 2 with a stake the contract accepts and the
  parameters do not.
\<close>

definition two_validators :: in_memory where
  "two_validators = fold (\<lambda>(k, v). set_storage VALIDATOR_ADDRESS (val_slot val_hash k) v)
     [(VCount, 2), (VIdx 1, 1), (VIdx 2, 2), (VId 1, 1), (VId 2, 2), (VStake 1, 10 ^ 24), (VStake 2, 2000000),
      (VStatus 1, 1), (VStatus 2, 1)] im_new"

lemma im_new_storage: "get_storage im_new a k = 0"
  by (simp add: get_storage_def get_account_def im_new_def)

lemma two_validators_load:
  "k \<in> val_keys {1, 2} \<Longrightarrow> vload val_hash (get_storage two_validators) k =
    ((\<lambda>_. 0)(VCount := 2, VIdx 1 := 1, VIdx 2 := 2, VId 1 := 1, VId 2 := 2, VStake 1 := 10 ^ 24, VStake 2 := 2000000,
      VStatus 1 := 1, VStatus 2 := 1)) k"
  by (simp add: two_validators_def sput_apply val_slot_eq [OF val_hash_layout] im_new_storage)

lemma two_validators_read:
  "read_validator_count two_validators = 2" "read_validator_addr val_hash two_validators 1 = 1"
  "read_validator_addr val_hash two_validators 2 = 2" "read_validator_id_by_addr val_hash two_validators 2 = 2"
  "read_validator_stake val_hash two_validators 1 = 10 ^ 24" "read_validator_stake val_hash two_validators 2 = 2000000"
  "read_validator_status val_hash two_validators 1 = 1" "read_validator_status val_hash two_validators 2 = 1"
  by (simp_all add: read_defs val_slots [of val_hash] two_validators_load to_be_bytes_last u256_to_u64_def u256_to_address_def u256_to_u128_def)

lemma two_ids: "ids_upto 2 = [1, 2]"
  by (simp add: ids_upto_def upt_rec)

lemma two_registry: "validator_addrs val_hash two_validators = [1, 2]" "registry_ok val_hash {1, 2} two_validators"
  by (simp_all add: validator_addrs_def registry_ok_def two_validators_read two_ids)

lemma two_exiting: "exiting val_hash (sc_new val_hash default_consensus_params two_validators) two_validators = [2]"
  by (simp add: exiting_def two_registry exits_def two_validators_read sc_new_def default_consensus_params_def word_less_nat_alt)

lemma two_limit: "churn_limit default_consensus_params 2 = Some 2"
  by (simp add: churn_limit_def default_consensus_params_def)

section \<open>Properties\<close>

text \<open>
  C16: the churn at the end of an epoch takes the stake of those it removes. If it removes a validator on record (one
  whose unbonding period is over but who has not claimed yet, or an active one below the minimal stake of the consensus
  parameters), then no balance has changed, the escrow's included, the stake on record is gone, and in the storage the
  churn leaves every attempt of that account to claim, to unstake or to stake again is refused, with whatever arguments.
  (It is the identifier left on record that shuts the account out; a later slash of the account would clear it.)
\<close>

theorem churn_forfeits_stake:
  assumes "val_layout_ok H A" "registry_ok H A st" "process_epoch_churn H c st = Some st'"
    "churn_limit (sc_params c) (read_validator_count st) = Some limit" "a \<in> set (take (unat limit) (exiting H c st))"
    "read_validator_id_by_addr H st a \<noteq> 0"
  shows "get_storage st' ASSET_ADDRESS = get_storage st ASSET_ADDRESS \<and> read_validator_stake H st' a = 0 \<and>
    (\<forall>i blk. \<exists>e. fst (claim_unbonded H state_backend i a blk st') = Inl e) \<and>
    (\<forall>i blk. \<exists>e. fst (unstake H state_backend i a blk st') = Inl e) \<and>
    (\<forall>pk x. \<exists>e. fst (stake H state_backend pk x a st') = Inl e)"
proof -
  let ?xs = "take (unat limit) (exiting H c st)"
  have st': "st' = fold (remove_validator_evm H) ?xs st" using churn_run [OF assms(1,2), of c] assms(3,4) by simp
  have xs: "set ?xs \<subseteq> A" by (rule exiting_accounts [OF assms(2)])
  have "a \<in> A" using xs assms(5) by blast
  from fold_remove_reads [OF assms(1) xs this, of st] have
    "read_validator_stake H st' a = 0" "read_validator_status H st' a = 0" "read_validator_id_by_addr H st' a \<noteq> 0"
    "get_storage st' ASSET_ADDRESS = get_storage st ASSET_ADDRESS"
    using assms(5,6) by (simp_all add: st')
  then show ?thesis using shut_out by blast
qed

theorem churn_forfeits_stake_witness:
  "\<exists>st'. process_epoch_churn val_hash (sc_new val_hash default_consensus_params two_validators) two_validators = Some st' \<and>
     MIN_SELF_STAKE \<le> read_validator_stake val_hash two_validators 2 \<and> read_validator_stake val_hash st' 2 = 0 \<and>
     get_storage st' ASSET_ADDRESS = get_storage two_validators ASSET_ADDRESS \<and>
     (\<exists>e. fst (claim_unbonded val_hash state_backend 2 2 1000000 st') = Inl e)"
proof -
  let ?c = "sc_new val_hash default_consensus_params two_validators"
  have limit: "churn_limit (sc_params ?c) (read_validator_count two_validators) = Some 2"
    by (simp add: two_validators_read two_limit sc_new_def)
  then obtain st' where run: "process_epoch_churn val_hash ?c two_validators = Some st'"
    using churn_run [OF val_hash_layout two_registry(2), of ?c] by simp
  have "2 \<in> set (take (unat (2 :: u64)) (exiting val_hash ?c two_validators))" by (simp add: two_exiting)
  from churn_forfeits_stake [OF val_hash_layout two_registry(2) run limit this] run show ?thesis
    by (simp add: two_validators_read MIN_SELF_STAKE_def)
qed

text \<open>
  C15: the loop of the churn is its reference definition: with a registry in order it removes, in the order of their
  identifiers, the first validators that are due to leave in the state before the churn, as many as the churn limit
  allows, and changes nothing else; it panics exactly if the quotient of the limit is 0. The limit is the larger of the
  minimal limit and the number of all registered identifiers divided by the quotient: validators that have left, are
  unbonding or do not qualify count as well, where the comments in the source speak of the qualified validators.
\<close>

theorem churn_equals_reference:
  assumes "val_layout_ok H A" "registry_ok H A st"
  shows "process_epoch_churn H c st =
    (if cp_churn_limit_quotient (sc_params c) = 0 then None
     else Some (fold (remove_validator_evm H)
       (take (max (unat (cp_min_churn_limit (sc_params c))) (unat (read_validator_count st) div unat (cp_churn_limit_quotient (sc_params c))))
         (exiting H c st)) st))"
proof -
  have "unat (max x y :: u64) = max (unat x) (unat y)" for x y by (simp add: max_def word_le_nat_alt)
  then show ?thesis by (simp add: churn_run [OF assms] churn_limit_def unat_div)
qed

theorem churn_equals_reference_witness:
  "process_epoch_churn val_hash (sc_new val_hash default_consensus_params two_validators) two_validators =
     Some (remove_validator_evm val_hash 2 two_validators)"
  using churn_equals_reference [OF val_hash_layout two_registry(2), of "sc_new val_hash default_consensus_params two_validators"]
  by (simp add: two_exiting two_validators_read) (simp add: sc_new_def default_consensus_params_def)

text \<open>
  C28: in every state of the driver the proposer subset is well formed: sorted, without repetition, no longer than the
  subset size of the parameters, which never change; and starting at any round (before the counter wraps around)
  as many consecutive rounds as the subset has members go once through all of them.
\<close>

theorem proposer_subset_wf:
  assumes "driver_reach H params c"
  shows "sc_params c = params \<and> sorted (sc_proposer_subset c) \<and> distinct (sc_proposer_subset c) \<and>
    length (sc_proposer_subset c) \<le> unat (cp_subset_size params) \<and>
    (\<forall>r. sc_proposer_subset c \<noteq> [] \<longrightarrow> unat r + length (sc_proposer_subset c) \<le> 2 ^ 64 \<longrightarrow>
      mset (map (\<lambda>k. current_proposer (c\<lparr>sc_current_round := r + of_nat k\<rparr>)) [0..<length (sc_proposer_subset c)]) =
      mset (map Some (sc_proposer_subset c)))"
proof -
  have "mset (map (\<lambda>k. current_proposer (c\<lparr>sc_current_round := r + of_nat k\<rparr>)) [0..<length (sc_proposer_subset c)]) =
      mset (map Some (sc_proposer_subset c))"
    if "sc_proposer_subset c \<noteq> []" "unat r + length (sc_proposer_subset c) \<le> 2 ^ 64" for r
  proof -
    have "map (\<lambda>k. current_proposer (c\<lparr>sc_current_round := r + of_nat k\<rparr>)) [0..<length (sc_proposer_subset c)] =
        map Some (rotate (unat r mod length (sc_proposer_subset c)) (sc_proposer_subset c))"
      using proposer_rotation [OF that] by (simp add: current_proposer_def)
    also have "mset \<dots> = mset (map Some (sc_proposer_subset c))" by (simp only: mset_map rotate_mset)
    finally show ?thesis .
  qed
  then show ?thesis using driver_reach_ok [OF assms] by (simp add: driver_ok_def)
qed

theorem proposer_subset_wf_witness:
  "sc_proposer_subset (sc_new val_hash default_consensus_params two_validators) = [1] \<and>
   sorted (sc_proposer_subset (sc_new val_hash default_consensus_params two_validators))"
proof -
  let ?c = "sc_new val_hash default_consensus_params two_validators"
  have small: "unat (read_validator_count two_validators) < 2 ^ 32" by (simp add: two_validators_read)
  have q: "qualified_validators_internal val_hash two_validators default_consensus_params = [1]"
    by (simp add: qualified_validators_internal_def two_validators_read two_ids default_consensus_params_def word_le_nat_alt)
  have len: "length (sc_proposer_subset ?c) = 1" and sub: "set (sc_proposer_subset ?c) \<subseteq> {1}"
    using subset_for_wf(3,4) [OF small, of val_hash default_consensus_params 0 0]
    by (simp_all add: sc_new_def q) (simp add: default_consensus_params_def)
  then have "sc_proposer_subset ?c = [1]" by (cases "sc_proposer_subset ?c") auto
  moreover have "sorted (sc_proposer_subset ?c)"
    using proposer_subset_wf [OF driver_reach.start [OF small]] by blast
  ultimately show ?thesis by simp
qed

end
