(* ===== verification/Rlp.thy ===== *)
theory Rlp
  imports Mempool
begin

text \<open>
  What the light client reads of Ethereum: \<^verbatim>\<open>crates/light-client/src/ethereum/proof.rs\<close> (receipts and the bridge event),
  \<^verbatim>\<open>crates/light-client/src/types.rs\<close> (block headers) and \<^verbatim>\<open>crates/light-client/src/verifier.rs\<close> (Merkle-Patricia proofs).
  Lengths are \<^verbatim>\<open>usize\<close> words with the wrap-around of a release build; a slice out of range is \<open>Panicked\<close>. The parsing
  loops run until their input is used up and may run forever, so they are partial functions whose value is
  \<open>None\<close> where they do not return. The error texts are kept as the name of the check that failed. The hash and
  alloy's decoder of an RLP header are parameters.
\<close>

section \<open>Results of a parser\<close>

definition rbind :: "('e + 'a) outcome \<Rightarrow> ('a \<Rightarrow> ('e + 'b) outcome) \<Rightarrow> ('e + 'b) outcome" where
  "rbind m f = (case m of Panicked \<Rightarrow> Panicked | Returned (Inl e) \<Rightarrow> Returned (Inl e) | Returned (Inr x) \<Rightarrow> f x)"

definition dbind :: "('e + 'a) outcome option \<Rightarrow> ('a \<Rightarrow> ('e + 'b) outcome option) \<Rightarrow> ('e + 'b) outcome option" where
  "dbind m f = (case m of None \<Rightarrow> None | Some Panicked \<Rightarrow> Some Panicked | Some (Returned (Inl e)) \<Rightarrow> Some (Returned (Inl e))
     | Some (Returned (Inr x)) \<Rightarrow> f x)"

abbreviation ok :: "'a \<Rightarrow> ('e + 'a) outcome" where
  "ok x \<equiv> Returned (Inr x)"

abbreviation err :: "'e \<Rightarrow> ('e + 'a) outcome" where
  "err e \<equiv> Returned (Inl e)"

definition slice_item :: "bytes \<Rightarrow> usize \<Rightarrow> usize \<Rightarrow> ('e + bytes \<times> usize) outcome" where
  "slice_item data a b = (case slice_range data a b of Panicked \<Rightarrow> Panicked | Returned x \<Rightarrow> ok (x, b))"

section \<open>Receipts\<close>

datatype rlp_error =
    EmptyReceipt | ReceiptFields nat | EmptyData | ListLengthMismatch | InvalidLongList | LongListLengthMismatch | NotAList u8
  | ShortString | ShortLongString | TruncatedLongString | ShortList | FewLogFields

record receipt_log =
  rl_address :: bytes
  rl_topics :: "u256 list"
  rl_data :: bytes

record bridge_event =
  ev_source_chain :: u64
  ev_source_tx_hash :: u256
  ev_source_block :: u64
  ev_sender :: bytes
  ev_recipient :: address
  ev_asset_id :: u64
  ev_amount :: u128

definition BRIDGE_DEPOSIT_EVENT_SIG :: u256 where
  "BRIDGE_DEPOSIT_EVENT_SIG = 0x3a957f168e13a027b53e7f6fe958a0bca90d515b66bf4b5a6c61608479135406"

definition rlp_encode_u64 :: "u64 \<Rightarrow> bytes" where
  "rlp_encode_u64 value =
     (if value = 0 then [0x80]
      else let data = dropWhile (\<lambda>b. b = 0) (to_be_bytes value)
           in if length data = 1 \<and> data ! 0 < 0x80 then data else (0x80 + of_nat (length data)) # data)"

text \<open>The length field behind a first byte whose length of the length is \<open>n\<close>.\<close>

definition length_field :: "bytes \<Rightarrow> usize \<Rightarrow> usize" where
  "length_field data n = from_be_bytes (take (unat n) (drop 1 data))"

definition decode_one_rlp_item :: "bytes \<Rightarrow> (rlp_error + bytes \<times> usize) outcome" where
  "decode_one_rlp_item data =
     (if data = [] then err EmptyData
      else let first = data ! 0 in
        if first < 0x80 then slice_item data 0 1
        else if first < 0xB8 then
          let len = ucast (first - 0x80) in
          if len_u data < 1 + len then err ShortString else slice_item data 1 (1 + len)
        else if first < 0xC0 then
          let len_of_len = ucast (first - 0xB7) in
          if len_u data < 1 + len_of_len then err ShortLongString
          else
            let len = length_field data len_of_len; total = 1 + len_of_len + len in
            if len_u data < total then err TruncatedLongString else slice_item data (1 + len_of_len) total
        else if first < 0xF8 then
          let list_len = ucast (first - 0xC0) in
          if len_u data < 1 + list_len then err ShortList else slice_item data 0 (1 + list_len)
        else
          let len_of_len = ucast (first - 0xF7) in
          if len_u data < 1 + len_of_len then err InvalidLongList
          else
            let total_payload = length_field data len_of_len; total = 1 + len_of_len + total_payload in
            if len_u data < total then err LongListLengthMismatch else slice_item data 0 total)"

text \<open>The loop over the payload of a list.\<close>

partial_function (option) rlp_items :: "bytes \<Rightarrow> bytes list \<Rightarrow> (rlp_error + bytes list) outcome option" where
  "rlp_items cursor items =
     (if cursor = [] then Some (ok (rev items))
      else case decode_one_rlp_item cursor of
             Panicked \<Rightarrow> Some Panicked
           | Returned (Inl e) \<Rightarrow> Some (err e)
           | Returned (Inr (item, consumed)) \<Rightarrow> rlp_items (drop (unat consumed) cursor) (item # items))"

definition list_payload :: "bytes \<Rightarrow> (rlp_error + nat) outcome" where
  "list_payload data =
     (if data = [] then err EmptyData
      else let first = data ! 0 in
        if 0xC0 \<le> first \<and> first < 0xF8 then
          let list_len = ucast (first - 0xC0) in
          if list_len = 0 \<or> 1 + list_len \<noteq> len_u data then err ListLengthMismatch else ok 1
        else if 0xF8 \<le> first then
          let len_of_len = ucast (first - 0xF7) in
          if len_u data < 1 + len_of_len then err InvalidLongList
          else if 1 + len_of_len + length_field data len_of_len \<noteq> len_u data then err LongListLengthMismatch
          else ok (1 + unat len_of_len)
        else err (NotAList first))"

definition parse_rlp_list_items :: "bytes \<Rightarrow> (rlp_error + bytes list) outcome option" where
  "parse_rlp_list_items data = dbind (Some (list_payload data)) (\<lambda>payload_start. rlp_items (drop payload_start data) [])"

fun parse_log_entries :: "bytes list \<Rightarrow> receipt_log list \<Rightarrow> (rlp_error + receipt_log list) outcome option" where
  "parse_log_entries [] logs = Some (ok (rev logs))"
| "parse_log_entries (entry # entries) logs =
     dbind (parse_rlp_list_items entry) (\<lambda>parts.
     if length parts < 3 then Some (err FewLogFields)
     else dbind (parse_rlp_list_items (parts ! 1)) (\<lambda>topics_items.
       parse_log_entries entries
         (\<lparr>rl_address = parts ! 0, rl_topics = map from_be_bytes (filter (\<lambda>t. length t = 32) topics_items), rl_data = parts ! 2\<rparr> # logs)))"

definition parse_logs_rlp :: "bytes \<Rightarrow> (rlp_error + receipt_log list) outcome option" where
  "parse_logs_rlp logs_rlp = dbind (parse_rlp_list_items logs_rlp) (\<lambda>log_entries. parse_log_entries log_entries [])"

definition parse_receipt_logs :: "bytes \<Rightarrow> (rlp_error + receipt_log list) outcome option" where
  "parse_receipt_logs receipt_rlp =
     (if receipt_rlp = [] then Some (err EmptyReceipt)
      else
        let rlp_body = (if receipt_rlp ! 0 \<le> 0x7f then drop 1 receipt_rlp else receipt_rlp)
        in dbind (parse_rlp_list_items rlp_body) (\<lambda>items.
           if length items < 4 then Some (err (ReceiptFields (length items))) else parse_logs_rlp (items ! 3)))"

definition lc_decode_u64 :: "bytes \<Rightarrow> u64 option" where
  "lc_decode_u64 data = (if data = [] \<or> 8 < length data then None else Some (from_be_bytes data))"

definition lc_decode_u128 :: "bytes \<Rightarrow> u128 option" where
  "lc_decode_u128 data = (if data = [] \<or> 16 < length data then None else Some (from_be_bytes data))"

text \<open>An error of the parser is dropped by \<^verbatim>\<open>ok()\<close>, a panic or an endless loop is not.\<close>

definition try_parse_bridge_log :: "receipt_log \<Rightarrow> bridge_event option outcome option" where
  "try_parse_bridge_log l =
     (case rl_topics l of
        [] \<Rightarrow> Some (Returned None)
      | event_sig # _ \<Rightarrow>
          if event_sig \<noteq> BRIDGE_DEPOSIT_EVENT_SIG \<and> BRIDGE_DEPOSIT_EVENT_SIG \<noteq> 0 then Some (Returned None)
          else case parse_rlp_list_items (rl_data l) of
            None \<Rightarrow> None
          | Some Panicked \<Rightarrow> Some Panicked
          | Some (Returned (Inl _)) \<Rightarrow> Some (Returned None)
          | Some (Returned (Inr parts)) \<Rightarrow>
              Some (Returned (
                if length parts < 5 then None
                else
                  Option.bind (lc_decode_u64 (parts ! 0)) (\<lambda>source_chain.
                  Option.bind (lc_decode_u64 (parts ! 1)) (\<lambda>source_block.
                  let s = parts ! 2;
                      sender = (if length s = 32 then s else if length s \<le> 1 then (if s = [] \<or> s ! 0 = 0x80 then [] else s) else s)
                  in Option.bind (lc_decode_u64 (parts ! 3)) (\<lambda>asset_id.
                     Option.bind (lc_decode_u128 (parts ! 4)) (\<lambda>amount.
                     Some \<lparr>ev_source_chain = source_chain,
                        ev_source_tx_hash = (if 2 \<le> length (rl_topics l) then rl_topics l ! 1 else 0),
                        ev_source_block = source_block, ev_sender = sender,
                        ev_recipient = (if 3 \<le> length (rl_topics l) then from_be_bytes (drop 12 (to_be_bytes (rl_topics l ! 2))) else 0),
                        ev_asset_id = asset_id, ev_amount = amount\<rparr>)))))))"

fun parse_bridge_event_from_logs :: "receipt_log list \<Rightarrow> bridge_event option outcome option" where
  "parse_bridge_event_from_logs [] = Some (Returned None)"
| "parse_bridge_event_from_logs (l # logs) =
     (case try_parse_bridge_log l of
        Some (Returned None) \<Rightarrow> parse_bridge_event_from_logs logs
      | r \<Rightarrow> r)"

section \<open>Block headers\<close>

record eth_header =
  eh_rlp_bytes :: bytes
  eh_block_hash :: u256

definition from_rlp :: "(bytes \<Rightarrow> u256) \<Rightarrow> bytes \<Rightarrow> eth_header" where
  "from_rlp H rlp_bytes = \<lparr>eh_rlp_bytes = rlp_bytes, eh_block_hash = H rlp_bytes\<rparr>"

definition slice_some :: "bytes \<Rightarrow> usize \<Rightarrow> usize \<Rightarrow> (bytes \<times> usize) option outcome" where
  "slice_some data a b = (case slice_range data a b of Panicked \<Rightarrow> Panicked | Returned x \<Rightarrow> Returned (Some (x, b)))"

definition decode_rlp_item :: "bytes \<Rightarrow> (bytes \<times> usize) option outcome" where
  "decode_rlp_item data =
     (if data = [] then Returned None
      else let first = data ! 0 in
        if first < 0x80 then slice_some data 0 1
        else if first < 0xB8 then
          let len = ucast (first - 0x80) in
          if len_u data < 1 + len then Returned None else slice_some data 1 (1 + len)
        else if first < 0xC0 then
          let len_of_len = ucast (first - 0xB7) in
          if len_u data < 1 + len_of_len then Returned None
          else
            let len = length_field data len_of_len; total = 1 + len_of_len + len in
            if len_u data < total then Returned None else slice_some data (1 + len_of_len) total
        else if first < 0xF8 then
          let list_len = ucast (first - 0xC0) in
          if len_u data < 1 + list_len then Returned None else slice_some data 0 (1 + list_len)
        else
          let len_of_len = ucast (first - 0xF7) in
          if len_u data < 1 + len_of_len then Returned None
          else
            let total_payload = length_field data len_of_len; total = 1 + len_of_len + total_payload in
            if len_u data < total then Returned None else slice_some data 0 total)"

text \<open>The loop of \<^verbatim>\<open>decode_rlp_field\<close>: the item \<open>i\<close> places behind the cursor.\<close>

fun rlp_field_at :: "bytes \<Rightarrow> nat \<Rightarrow> bytes option outcome" where
  "rlp_field_at cursor 0 = obind (decode_rlp_item cursor) (\<lambda>(item, _). Returned (Some item))"
| "rlp_field_at cursor (Suc i) =
     obind (decode_rlp_item cursor) (\<lambda>(_, consumed). rlp_field_at (drop (unat consumed) cursor) i)"

definition decode_rlp_field :: "bytes \<Rightarrow> nat \<Rightarrow> bytes option outcome" where
  "decode_rlp_field data idx =
     (if data = [] then Returned None
      else
        let first = data ! 0; payload_start = (if first < 0xF8 then 1 else 1 + unat (first - 0xF7)) in
        if length data \<le> payload_start then Returned None else rlp_field_at (drop payload_start data) idx)"

definition root_field :: "eth_header \<Rightarrow> nat \<Rightarrow> u256 option outcome" where
  "root_field h idx =
     obind (decode_rlp_field (eh_rlp_bytes h) idx) (\<lambda>item.
       Returned (if length item = 32 then Some (from_be_bytes item) else None))"

definition parent_hash :: "eth_header \<Rightarrow> u256 option outcome" where "parent_hash h = root_field h 0"

definition state_root :: "eth_header \<Rightarrow> u256 option outcome" where "state_root h = root_field h 3"

definition transactions_root :: "eth_header \<Rightarrow> u256 option outcome" where "transactions_root h = root_field h 4"

definition receipts_root :: "eth_header \<Rightarrow> u256 option outcome" where "receipts_root h = root_field h 5"

text \<open>An item of more than 8 bytes does not fit the array it is copied into, which unwinds.\<close>

definition header_number :: "eth_header \<Rightarrow> u64 option outcome" where
  "header_number h =
     obind (decode_rlp_field (eh_rlp_bytes h) 8) (\<lambda>item.
       if 8 < length item then Panicked else Returned (Some (from_be_bytes item)))"

section \<open>Merkle-Patricia proofs\<close>

datatype mpt_error = InvalidRlp | ProofIncomplete | NodeHashMismatch u256 u256 | InvalidNode

definition bytes_to_nibbles :: "bytes \<Rightarrow> u8 list" where
  "bytes_to_nibbles bs = concat (map (\<lambda>b. [drop_bit 4 b, and b 0x0F]) bs)"

definition compact_decode :: "bytes \<Rightarrow> mpt_error + bool \<times> u8 list" where
  "compact_decode data =
     (if data = [] then Inl InvalidNode
      else
        let first = data ! 0; high = drop_bit 4 first; low = and first 0x0F; rest = bytes_to_nibbles (drop 1 data) in
        if low = 0 then
          (if high = 0 then Inr (False, rest) else if high = 2 then Inr (True, rest) else Inl InvalidNode)
        else if low = 1 then Inr (False, high # rest)
        else if low = 3 then Inr (True, high # rest)
        else Inl InvalidNode)"

text \<open>\<open>hd_ok\<close> tells whether alloy's \<^verbatim>\<open>Header::decode\<close> accepts the item that its argument starts with.\<close>

definition mpt_decode_item :: "(bytes \<Rightarrow> bool) \<Rightarrow> bytes \<Rightarrow> (mpt_error + bytes \<times> usize) outcome" where
  "mpt_decode_item hd_ok data =
     (if data = [] then err InvalidRlp
      else let first = data ! 0 in
        if first < 0x80 then slice_item data 0 1
        else if first < 0xB8 then
          let len = ucast (first - 0x80) in
          if len_u data < 1 + len then err InvalidRlp else slice_item data 1 (1 + len)
        else if first < 0xC0 then
          let len_of_len = ucast (first - 0xB7) in
          if len_u data < 1 + len_of_len then err InvalidRlp
          else
            let len = length_field data len_of_len; total = 1 + len_of_len + len in
            if len_u data < total then err InvalidRlp else slice_item data (1 + len_of_len) total
        else if \<not> hd_ok data then err InvalidRlp
        else if first < 0xF8 then
          let total = 1 + ucast (first - 0xC0) in
          if len_u data < total then err InvalidRlp else slice_item data 0 total
        else
          let len_of_len = ucast (first - 0xF7) in
          if len_u data < 1 + len_of_len then err InvalidRlp
          else
            let total = 1 + length_field data len_of_len in
            if len_u data < total then err InvalidRlp else slice_item data 0 total)"

partial_function (option) mpt_items :: "(bytes \<Rightarrow> bool) \<Rightarrow> bytes \<Rightarrow> bytes list \<Rightarrow> (mpt_error + bytes list) outcome option" where
  "mpt_items hd_ok payload items =
     (if payload = [] then Some (ok (rev items))
      else case mpt_decode_item hd_ok payload of
             Panicked \<Rightarrow> Some Panicked
           | Returned (Inl e) \<Rightarrow> Some (err e)
           | Returned (Inr (item, consumed)) \<Rightarrow> mpt_items hd_ok (drop (unat consumed) payload) (item # items))"

definition mpt_payload :: "bytes \<Rightarrow> (mpt_error + nat) outcome" where
  "mpt_payload data =
     (if data = [] then err InvalidRlp
      else let first_byte = data ! 0 in
        if first_byte < 0xC0 then err InvalidRlp
        else if first_byte < 0xF8 then
          let list_len = ucast (first_byte - 0xC0) in
          if list_len = 0 \<or> 1 + list_len \<noteq> len_u data then err InvalidRlp else ok 1
        else
          let len_of_len = ucast (first_byte - 0xF7) in
          if len_u data < 1 + len_of_len then err InvalidRlp
          else if 1 + len_of_len + length_field data len_of_len \<noteq> len_u data then err InvalidRlp
          else ok (1 + unat len_of_len))"

definition parse_rlp_list :: "(bytes \<Rightarrow> bool) \<Rightarrow> bytes \<Rightarrow> (mpt_error + bytes list) outcome option" where
  "parse_rlp_list hd_ok data = dbind (Some (mpt_payload data)) (\<lambda>payload_start. mpt_items hd_ok (drop payload_start data) [])"

definition extract_child_ref :: "(bytes \<Rightarrow> u256) \<Rightarrow> bytes \<Rightarrow> u256" where
  "extract_child_ref H data =
     (if length data = 32 then from_be_bytes data
      else if length data = 34 \<and> data ! 0 = 0xb8 \<and> data ! 1 = 0x20 then from_be_bytes (drop 2 data)
      else H data)"

definition starts_with :: "'a list \<Rightarrow> 'a list \<Rightarrow> bool" where
  "starts_with xs ys \<longleftrightarrow> take (length ys) xs = ys"

text \<open>
  One node of the proof. \<open>Inl\<close> is a result of the verification, \<open>Inr\<close> the expected hash and the rest of the key for
  the next node.
\<close>

definition mpt_node :: "(bytes \<Rightarrow> u256) \<Rightarrow> bytes list \<Rightarrow> u8 list \<Rightarrow> (mpt_error + bytes option) + u256 \<times> u8 list" where
  "mpt_node H items remaining =
     (if length items = 2 then
        (case compact_decode (items ! 0) of
           Inl e \<Rightarrow> Inl (Inl e)
         | Inr (is_leaf, node_key) \<Rightarrow>
             if is_leaf then Inl (Inr (if starts_with remaining node_key then Some (items ! 1) else None))
             else if starts_with remaining node_key
                  then Inr (extract_child_ref H (items ! 1), drop (length node_key) remaining)
                  else Inl (Inr None))
      else if length items = 17 then
        (case remaining of
           [] \<Rightarrow> Inl (Inr (Some (items ! 16)))
         | nibble # rest \<Rightarrow>
             if 15 < nibble then Inl (Inl InvalidNode)
             else
               let child_ref = items ! unat nibble in
               if child_ref = [] \<or> (length child_ref = 1 \<and> child_ref ! 0 = 0x80) then Inl (Inr None)
               else Inr (extract_child_ref H child_ref, rest))
      else Inl (Inl InvalidNode))"

fun mpt_walk :: "(bytes \<Rightarrow> u256) \<Rightarrow> (bytes \<Rightarrow> bool) \<Rightarrow> bytes list \<Rightarrow> u256 \<Rightarrow> u8 list \<Rightarrow> (mpt_error + bytes option) outcome option" where
  "mpt_walk H hd_ok [] expected_hash remaining = Some (ok None)"
| "mpt_walk H hd_ok (node_rlp # proof) expected_hash remaining =
     (if H node_rlp \<noteq> expected_hash then Some (err (NodeHashMismatch expected_hash (H node_rlp)))
      else dbind (parse_rlp_list hd_ok node_rlp) (\<lambda>items.
        case mpt_node H items remaining of
          Inl r \<Rightarrow> Some (Returned r)
        | Inr (expected_hash', remaining') \<Rightarrow> mpt_walk H hd_ok proof expected_hash' remaining'))"

definition verify_mpt_proof :: "(bytes \<Rightarrow> u256) \<Rightarrow> (bytes \<Rightarrow> bool) \<Rightarrow> u256 \<Rightarrow> bytes \<Rightarrow> bytes list \<Rightarrow>
    (mpt_error + bytes option) outcome option" where
  "verify_mpt_proof H hd_ok root_hash key_bytes proof =
     (if proof = [] then Some (ok None) else mpt_walk H hd_ok proof root_hash (bytes_to_nibbles key_bytes))"

end
