(* ===== verification/Bridge.thy ===== *)
theory Bridge
  imports Validator Rlp
begin

text \<open>
  The bridge precompile, \<^verbatim>\<open>crates/bridge/src/precompile.rs\<close>: \<^verbatim>\<open>BridgeStorage\<close> over any backend, with the asset ledger and the
  validator contract on the same backend, and the precompile at 0x103. The fraud proofs are checked with the parsers
  of the light client (the crate's default feature \<^verbatim>\<open>light-client-bridge\<close>); the decoder of a proof (postcard) and alloy's decoder of an RLP header are parameters. A source
  transaction is named by its hash as a word. A call that unwinds ends in \<open>B_Panic\<close>, one that never returns in \<open>B_Hang\<close>.
\<close>

section \<open>Constants and errors\<close>

definition MAX_PROOF_LEN :: nat where "MAX_PROOF_LEN = 16 * 1024"

definition DEFAULT_MAX_PER_TX :: u128 where "DEFAULT_MAX_PER_TX = 1000000000000000000000"

definition DEFAULT_DAILY_LIMIT :: u128 where "DEFAULT_DAILY_LIMIT = 10000000000000000000000"

definition DEFAULT_BLOCKS_PER_DAY :: u64 where "DEFAULT_BLOCKS_PER_DAY = 345600"

definition DEFAULT_MAX_WITHDRAW_PER_PERIOD :: u128 where "DEFAULT_MAX_WITHDRAW_PER_PERIOD = 5000000000000000000000"

definition DEFAULT_BRIDGE_FEE :: u128 where "DEFAULT_BRIDGE_FEE = 0"

definition DEFAULT_PROCESSED_RETENTION :: u64 where "DEFAULT_PROCESSED_RETENTION = 4838400"

definition DEFAULT_CHALLENGE_PERIOD :: u64 where "DEFAULT_CHALLENGE_PERIOD = 2419200"

definition DEFAULT_WITHDRAW_PERIOD_BLOCKS :: u64 where "DEFAULT_WITHDRAW_PERIOD_BLOCKS = 2419200"

definition DEFAULT_CHALLENGE_BOND :: u128 where "DEFAULT_CHALLENGE_BOND = 1000"

datatype bridge_error =
    B_AssetNotRegistered | B_BridgePaused | B_AssetZeroNotBridgeable | B_AlreadyProcessed | B_NotProcessed | B_AlreadyChallenged
  | B_ChallengePeriodExpired | B_ChallengeNotPending | B_ChallengeDeadlineNotReached | B_NotChallenger | B_ChallengeNotSuccessful
  | B_InsufficientBalance | B_BalanceOverflow | B_InvalidInput | B_ExceedsMaxPerTx u64 u128 u128 | B_ExceedsDailyLimit u64 u128 u128
  | B_ExternalAssetNotAllowed u64 | B_UnauthorizedBridgeContract u64 address | B_ExceedsWithdrawLimit u64 u128 u128
  | B_BridgeFeeExceedsAmount u128 u128 | B_UnauthorizedResolver address | B_Panic | B_Hang

definition dec :: "'a::len word \<Rightarrow> string" where
  "dec w = show_dec (unat w)"

fun bridge_error_text :: "(address \<Rightarrow> string) \<Rightarrow> bridge_error \<Rightarrow> string" where
  "bridge_error_text fmt B_AssetNotRegistered = ''asset not registered''"
| "bridge_error_text fmt B_BridgePaused = ''bridge paused''"
| "bridge_error_text fmt B_AssetZeroNotBridgeable = ''asset 0 not bridgeable''"
| "bridge_error_text fmt B_AlreadyProcessed = ''source tx already processed''"
| "bridge_error_text fmt B_NotProcessed = ''source tx not processed''"
| "bridge_error_text fmt B_AlreadyChallenged = ''challenge already exists''"
| "bridge_error_text fmt B_ChallengePeriodExpired = ''challenge period expired''"
| "bridge_error_text fmt B_ChallengeNotPending = ''challenge not pending''"
| "bridge_error_text fmt B_ChallengeDeadlineNotReached = ''challenge deadline not reached''"
| "bridge_error_text fmt B_NotChallenger = ''not challenger''"
| "bridge_error_text fmt B_ChallengeNotSuccessful = ''challenge not successful''"
| "bridge_error_text fmt B_InsufficientBalance = ''insufficient balance''"
| "bridge_error_text fmt B_BalanceOverflow = ''balance overflow''"
| "bridge_error_text fmt B_InvalidInput = ''invalid input''"
| "bridge_error_text fmt (B_ExceedsMaxPerTx i a l) = ''exceeds max per tx: asset='' @ dec i @ '', amount='' @ dec a @ '', limit='' @ dec l"
| "bridge_error_text fmt (B_ExceedsDailyLimit i u l) = ''exceeds daily limit: asset='' @ dec i @ '', daily_used='' @ dec u @ '', limit='' @ dec l"
| "bridge_error_text fmt (B_ExternalAssetNotAllowed i) = ''external bridge asset not allowed: '' @ dec i"
| "bridge_error_text fmt (B_UnauthorizedBridgeContract c a) = ''unauthorized bridge contract: chain='' @ dec c @ '', contract='' @ fmt a"
| "bridge_error_text fmt (B_ExceedsWithdrawLimit i w l) =
     ''exceeds withdraw limit: asset='' @ dec i @ '', period_withdrawn='' @ dec w @ '', limit='' @ dec l"
| "bridge_error_text fmt (B_BridgeFeeExceedsAmount f a) = ''bridge fee exceeds amount: fee='' @ dec f @ '', amount='' @ dec a"
| "bridge_error_text fmt (B_UnauthorizedResolver a) = ''unauthorized resolver: '' @ fmt a"
| "bridge_error_text fmt B_Panic = ''panic''"
| "bridge_error_text fmt B_Hang = ''hang''"

fun from_asset_error :: "asset_error \<Rightarrow> bridge_error" where
  "from_asset_error InsufficientBalance = B_InsufficientBalance"
| "from_asset_error BalanceOverflow = B_BalanceOverflow"
| "from_asset_error _ = B_InvalidInput"

section \<open>Storage slots\<close>

definition slot_bridge_total_deposits :: u256 where "slot_bridge_total_deposits = 0"

definition slot_bridge_total_withdrawals :: u256 where "slot_bridge_total_withdrawals = 1"

definition slot_bridge_paused :: "(bytes \<Rightarrow> u256) \<Rightarrow> u256" where "slot_bridge_paused H = storage_slot H [bstr ''paused'']"

definition slot_bridge_processed :: "(bytes \<Rightarrow> u256) \<Rightarrow> u256 \<Rightarrow> u256" where
  "slot_bridge_processed H tx_hash = storage_slot H [bstr ''processed'', to_be_bytes tx_hash]"

definition slot_bridge_challenge_status :: "(bytes \<Rightarrow> u256) \<Rightarrow> u256 \<Rightarrow> u256" where
  "slot_bridge_challenge_status H tx_hash = storage_slot H [bstr ''challenge_status'', to_be_bytes tx_hash]"

definition slot_bridge_challenge_challenger :: "(bytes \<Rightarrow> u256) \<Rightarrow> u256 \<Rightarrow> u256" where
  "slot_bridge_challenge_challenger H tx_hash = storage_slot H [bstr ''challenge_challenger'', to_be_bytes tx_hash]"

definition slot_bridge_challenge_deadline :: "(bytes \<Rightarrow> u256) \<Rightarrow> u256 \<Rightarrow> u256" where
  "slot_bridge_challenge_deadline H tx_hash = storage_slot H [bstr ''challenge_deadline'', to_be_bytes tx_hash]"

definition slot_bridge_challenge_bond :: "(bytes \<Rightarrow> u256) \<Rightarrow> u256 \<Rightarrow> u256" where
  "slot_bridge_challenge_bond H tx_hash = storage_slot H [bstr ''challenge_bond'', to_be_bytes tx_hash]"

definition slot_bridge_challenge_proof_hash :: "(bytes \<Rightarrow> u256) \<Rightarrow> u256 \<Rightarrow> u256" where
  "slot_bridge_challenge_proof_hash H tx_hash = storage_slot H [bstr ''challenge_proof_hash'', to_be_bytes tx_hash]"

definition slot_bridge_challenge_proof_len :: "(bytes \<Rightarrow> u256) \<Rightarrow> u256 \<Rightarrow> u256" where
  "slot_bridge_challenge_proof_len H tx_hash = storage_slot H [bstr ''challenge_proof_len'', to_be_bytes tx_hash]"

definition slot_bridge_challenge_original_validator :: "(bytes \<Rightarrow> u256) \<Rightarrow> u256 \<Rightarrow> u256" where
  "slot_bridge_challenge_original_validator H tx_hash = storage_slot H [bstr ''challenge_validator'', to_be_bytes tx_hash]"

definition slot_bridge_deposit_asset_id :: "(bytes \<Rightarrow> u256) \<Rightarrow> u256 \<Rightarrow> u256" where
  "slot_bridge_deposit_asset_id H tx_hash = storage_slot H [bstr ''deposit_asset_id'', to_be_bytes tx_hash]"

definition slot_bridge_deposit_recipient :: "(bytes \<Rightarrow> u256) \<Rightarrow> u256 \<Rightarrow> u256" where
  "slot_bridge_deposit_recipient H tx_hash = storage_slot H [bstr ''deposit_recipient'', to_be_bytes tx_hash]"

definition slot_bridge_deposit_amount :: "(bytes \<Rightarrow> u256) \<Rightarrow> u256 \<Rightarrow> u256" where
  "slot_bridge_deposit_amount H tx_hash = storage_slot H [bstr ''deposit_amount'', to_be_bytes tx_hash]"

definition slot_bridge_deposit_block_height :: "(bytes \<Rightarrow> u256) \<Rightarrow> u256 \<Rightarrow> u256" where
  "slot_bridge_deposit_block_height H tx_hash = storage_slot H [bstr ''deposit_block'', to_be_bytes tx_hash]"

definition slot_challenge_period :: "(bytes \<Rightarrow> u256) \<Rightarrow> u256" where
  "slot_challenge_period H = storage_slot H [bstr ''challenge_period'']"

definition slot_challenge_bond_amount :: "(bytes \<Rightarrow> u256) \<Rightarrow> u256" where
  "slot_challenge_bond_amount H = storage_slot H [bstr ''challenge_bond'']"

definition slot_bridge_challenge_proof_chunk :: "(bytes \<Rightarrow> u256) \<Rightarrow> u256 \<Rightarrow> u64 \<Rightarrow> u256" where
  "slot_bridge_challenge_proof_chunk H tx_hash chunk_index = storage_slot H [bstr ''challenge_proof'', to_be_bytes tx_hash, to_be_bytes chunk_index]"

definition slot_bridge_max_per_tx :: "(bytes \<Rightarrow> u256) \<Rightarrow> u64 \<Rightarrow> u256" where
  "slot_bridge_max_per_tx H asset_id = storage_slot H [bstr ''max_per_tx'', to_be_bytes asset_id]"

definition slot_bridge_daily_limit :: "(bytes \<Rightarrow> u256) \<Rightarrow> u64 \<Rightarrow> u256" where
  "slot_bridge_daily_limit H asset_id = storage_slot H [bstr ''daily_limit'', to_be_bytes asset_id]"

definition slot_bridge_daily_used :: "(bytes \<Rightarrow> u256) \<Rightarrow> u64 \<Rightarrow> u64 \<Rightarrow> u256" where
  "slot_bridge_daily_used H asset_id day = storage_slot H [bstr ''daily_used'', to_be_bytes asset_id, to_be_bytes day]"

definition slot_bridge_blocks_per_day :: "(bytes \<Rightarrow> u256) \<Rightarrow> u256" where
  "slot_bridge_blocks_per_day H = storage_slot H [bstr ''blocks_per_day'']"

definition slot_bridge_asset_allowed :: "(bytes \<Rightarrow> u256) \<Rightarrow> u64 \<Rightarrow> u256" where
  "slot_bridge_asset_allowed H asset_id = storage_slot H [bstr ''asset_allowed'', to_be_bytes asset_id]"

definition slot_bridge_authorized_contract :: "(bytes \<Rightarrow> u256) \<Rightarrow> u64 \<Rightarrow> address \<Rightarrow> u256" where
  "slot_bridge_authorized_contract H chain_id contract = storage_slot H [bstr ''authorized'', to_be_bytes chain_id, to_be_bytes contract]"

definition slot_bridge_max_withdraw_per_period :: "(bytes \<Rightarrow> u256) \<Rightarrow> u256" where
  "slot_bridge_max_withdraw_per_period H = storage_slot H [bstr ''max_withdraw_period'']"

definition slot_bridge_period_withdrawn :: "(bytes \<Rightarrow> u256) \<Rightarrow> u64 \<Rightarrow> u256" where
  "slot_bridge_period_withdrawn H asset_id = storage_slot H [bstr ''period_withdrawn'', to_be_bytes asset_id]"

definition slot_bridge_withdraw_period :: "(bytes \<Rightarrow> u256) \<Rightarrow> u256" where
  "slot_bridge_withdraw_period H = storage_slot H [bstr ''withdraw_period'']"

definition slot_bridge_bridge_fee :: "(bytes \<Rightarrow> u256) \<Rightarrow> u256" where
  "slot_bridge_bridge_fee H = storage_slot H [bstr ''bridge_fee'']"

definition slot_bridge_current_period_start :: "(bytes \<Rightarrow> u256) \<Rightarrow> u256" where
  "slot_bridge_current_period_start H = storage_slot H [bstr ''period_start'']"

definition slot_bridge_processed_retention :: "(bytes \<Rightarrow> u256) \<Rightarrow> u256" where
  "slot_bridge_processed_retention H = storage_slot H [bstr ''processed_retention'']"

section \<open>Read operations\<close>

datatype challenge_status = CS_None | CS_Pending | CS_Successful | CS_Failed | CS_Withdrawn

definition bload :: "'b backend \<Rightarrow> u256 \<Rightarrow> ('b, 'e, u256) smonad" where
  "bload B k = mload B BRIDGE_ADDRESS k"

definition bstore :: "'b backend \<Rightarrow> u256 \<Rightarrow> u256 \<Rightarrow> ('b, 'e, unit) smonad" where
  "bstore B k v = mstore B BRIDGE_ADDRESS k v"

definition get_total_deposits :: "'b backend \<Rightarrow> ('b, 'e, u128) smonad" where
  "get_total_deposits B = sbind (bload B slot_bridge_total_deposits) (\<lambda>v. sret (u256_to_u128 v))"

definition get_total_withdrawals :: "'b backend \<Rightarrow> ('b, 'e, u128) smonad" where
  "get_total_withdrawals B = sbind (bload B slot_bridge_total_withdrawals) (\<lambda>v. sret (u256_to_u128 v))"

definition is_paused :: "(bytes \<Rightarrow> u256) \<Rightarrow> 'b backend \<Rightarrow> ('b, 'e, bool) smonad" where
  "is_paused H B = sbind (bload B (slot_bridge_paused H)) (\<lambda>v. sret (to_be_bytes v ! 31 \<noteq> 0))"

definition load_u64_or_default :: "'b backend \<Rightarrow> u256 \<Rightarrow> u64 \<Rightarrow> ('b, 'e, u64) smonad" where
  "load_u64_or_default B slot dflt =
     sbind (bload B slot) (\<lambda>v. let stored = u256_to_u64 v in sret (if stored = 0 then dflt else stored - 1))"

definition load_u128_or_default :: "'b backend \<Rightarrow> u256 \<Rightarrow> u128 \<Rightarrow> ('b, 'e, u128) smonad" where
  "load_u128_or_default B slot dflt =
     sbind (bload B slot) (\<lambda>v. let stored = u256_to_u128 v in sret (if stored = 0 then dflt else stored - 1))"

definition read_processed_retention_blocks :: "(bytes \<Rightarrow> u256) \<Rightarrow> 'b backend \<Rightarrow> ('b, 'e, u64) smonad" where
  "read_processed_retention_blocks H B = load_u64_or_default B (slot_bridge_processed_retention H) DEFAULT_PROCESSED_RETENTION"

definition is_processed :: "(bytes \<Rightarrow> u256) \<Rightarrow> 'b backend \<Rightarrow> u256 \<Rightarrow> u64 \<Rightarrow> ('b, 'e, bool) smonad" where
  "is_processed H B tx_hash current_block =
     sbind (bload B (slot_bridge_processed H tx_hash)) (\<lambda>stored.
     if stored = 0 then sret False
     else
       sbind (read_processed_retention_blocks H B) (\<lambda>retention.
       sret (saturating_sub current_block (u256_to_u64 stored) \<le> retention)))"

definition read_challenge_status :: "(bytes \<Rightarrow> u256) \<Rightarrow> 'b backend \<Rightarrow> u256 \<Rightarrow> ('b, 'e, challenge_status) smonad" where
  "read_challenge_status H B tx_hash =
     sbind (bload B (slot_bridge_challenge_status H tx_hash)) (\<lambda>v.
     let status = to_be_bytes v ! 31 in
     sret (if status = 1 then CS_Pending else if status = 2 then CS_Successful else if status = 3 then CS_Failed
           else if status = 4 then CS_Withdrawn else CS_None))"

definition read_challenge_deadline :: "(bytes \<Rightarrow> u256) \<Rightarrow> 'b backend \<Rightarrow> u256 \<Rightarrow> ('b, 'e, u64) smonad" where
  "read_challenge_deadline H B tx_hash = sbind (bload B (slot_bridge_challenge_deadline H tx_hash)) (\<lambda>v. sret (u256_to_u64 v))"

definition read_challenge_bond_for_tx :: "(bytes \<Rightarrow> u256) \<Rightarrow> 'b backend \<Rightarrow> u256 \<Rightarrow> ('b, 'e, u128) smonad" where
  "read_challenge_bond_for_tx H B tx_hash = sbind (bload B (slot_bridge_challenge_bond H tx_hash)) (\<lambda>v. sret (u256_to_u128 v))"

definition read_challenge_challenger :: "(bytes \<Rightarrow> u256) \<Rightarrow> 'b backend \<Rightarrow> u256 \<Rightarrow> ('b, 'e, address) smonad" where
  "read_challenge_challenger H B tx_hash = sbind (bload B (slot_bridge_challenge_challenger H tx_hash)) (\<lambda>v. sret (u256_to_address v))"

definition read_deposit_asset_id :: "(bytes \<Rightarrow> u256) \<Rightarrow> 'b backend \<Rightarrow> u256 \<Rightarrow> ('b, 'e, u64) smonad" where
  "read_deposit_asset_id H B tx_hash = sbind (bload B (slot_bridge_deposit_asset_id H tx_hash)) (\<lambda>v. sret (u256_to_u64 v))"

definition read_deposit_recipient :: "(bytes \<Rightarrow> u256) \<Rightarrow> 'b backend \<Rightarrow> u256 \<Rightarrow> ('b, 'e, address) smonad" where
  "read_deposit_recipient H B tx_hash = sbind (bload B (slot_bridge_deposit_recipient H tx_hash)) (\<lambda>v. sret (u256_to_address v))"

definition read_deposit_amount :: "(bytes \<Rightarrow> u256) \<Rightarrow> 'b backend \<Rightarrow> u256 \<Rightarrow> ('b, 'e, u128) smonad" where
  "read_deposit_amount H B tx_hash = sbind (bload B (slot_bridge_deposit_amount H tx_hash)) (\<lambda>v. sret (u256_to_u128 v))"

definition read_deposit_block_height :: "(bytes \<Rightarrow> u256) \<Rightarrow> 'b backend \<Rightarrow> u256 \<Rightarrow> ('b, 'e, u64) smonad" where
  "read_deposit_block_height H B tx_hash = sbind (bload B (slot_bridge_deposit_block_height H tx_hash)) (\<lambda>v. sret (u256_to_u64 v))"

definition read_challenge_period :: "(bytes \<Rightarrow> u256) \<Rightarrow> 'b backend \<Rightarrow> ('b, 'e, u64) smonad" where
  "read_challenge_period H B = load_u64_or_default B (slot_challenge_period H) DEFAULT_CHALLENGE_PERIOD"

definition read_global_challenge_bond :: "(bytes \<Rightarrow> u256) \<Rightarrow> 'b backend \<Rightarrow> ('b, 'e, u128) smonad" where
  "read_global_challenge_bond H B = load_u128_or_default B (slot_challenge_bond_amount H) DEFAULT_CHALLENGE_BOND"

definition read_max_per_tx :: "(bytes \<Rightarrow> u256) \<Rightarrow> 'b backend \<Rightarrow> u64 \<Rightarrow> ('b, 'e, u128) smonad" where
  "read_max_per_tx H B asset_id = load_u128_or_default B (slot_bridge_max_per_tx H asset_id) DEFAULT_MAX_PER_TX"

definition read_daily_limit :: "(bytes \<Rightarrow> u256) \<Rightarrow> 'b backend \<Rightarrow> u64 \<Rightarrow> ('b, 'e, u128) smonad" where
  "read_daily_limit H B asset_id = load_u128_or_default B (slot_bridge_daily_limit H asset_id) DEFAULT_DAILY_LIMIT"

definition read_blocks_per_day :: "(bytes \<Rightarrow> u256) \<Rightarrow> 'b backend \<Rightarrow> ('b, 'e, u64) smonad" where
  "read_blocks_per_day H B = load_u64_or_default B (slot_bridge_blocks_per_day H) DEFAULT_BLOCKS_PER_DAY"

definition read_asset_allowed :: "(bytes \<Rightarrow> u256) \<Rightarrow> 'b backend \<Rightarrow> u64 \<Rightarrow> ('b, 'e, bool) smonad" where
  "read_asset_allowed H B asset_id =
     sbind (bload B (slot_bridge_asset_allowed H asset_id)) (\<lambda>stored.
     sret (if stored = 0 then asset_id = CALL_ASSET_ID else to_be_bytes stored ! 31 \<noteq> 0))"

definition read_authorized_contract :: "(bytes \<Rightarrow> u256) \<Rightarrow> 'b backend \<Rightarrow> u64 \<Rightarrow> address \<Rightarrow> ('b, 'e, bool) smonad" where
  "read_authorized_contract H B chain_id contract =
     sbind (bload B (slot_bridge_authorized_contract H chain_id contract)) (\<lambda>stored.
     sret (if stored = 0 then False else to_be_bytes stored ! 31 \<noteq> 0))"

definition read_max_external_withdraw_per_period :: "(bytes \<Rightarrow> u256) \<Rightarrow> 'b backend \<Rightarrow> ('b, 'e, u128) smonad" where
  "read_max_external_withdraw_per_period H B =
     load_u128_or_default B (slot_bridge_max_withdraw_per_period H) DEFAULT_MAX_WITHDRAW_PER_PERIOD"

definition read_withdraw_period :: "(bytes \<Rightarrow> u256) \<Rightarrow> 'b backend \<Rightarrow> ('b, 'e, u64) smonad" where
  "read_withdraw_period H B = load_u64_or_default B (slot_bridge_withdraw_period H) DEFAULT_WITHDRAW_PERIOD_BLOCKS"

definition read_bridge_fee :: "(bytes \<Rightarrow> u256) \<Rightarrow> 'b backend \<Rightarrow> ('b, 'e, u128) smonad" where
  "read_bridge_fee H B = load_u128_or_default B (slot_bridge_bridge_fee H) DEFAULT_BRIDGE_FEE"

definition read_daily_used :: "(bytes \<Rightarrow> u256) \<Rightarrow> 'b backend \<Rightarrow> u64 \<Rightarrow> u64 \<Rightarrow> ('b, 'e, u128) smonad" where
  "read_daily_used H B asset_id day = sbind (bload B (slot_bridge_daily_used H asset_id day)) (\<lambda>v. sret (u256_to_u128 v))"

section \<open>Limits\<close>

definition check_limits :: "(bytes \<Rightarrow> u256) \<Rightarrow> 'b backend \<Rightarrow> u64 \<Rightarrow> u128 \<Rightarrow> u64 \<Rightarrow> ('b, bridge_error, u64) smonad" where
  "check_limits H B asset_id amount block_height =
     sbind (read_max_per_tx H B asset_id) (\<lambda>max_per_tx.
     sbind (sguard (max_per_tx < amount) (B_ExceedsMaxPerTx asset_id amount max_per_tx)) (\<lambda>_.
     sbind (read_blocks_per_day H B) (\<lambda>blocks_per_day.
     sbind (sguard (blocks_per_day = 0) B_InvalidInput) (\<lambda>_.
     let day = block_height div blocks_per_day in
     sbind (read_daily_limit H B asset_id) (\<lambda>daily_limit.
     sbind (read_daily_used H B asset_id day) (\<lambda>daily_used.
     sbind (sok_or B_BalanceOverflow (checked_add daily_used amount)) (\<lambda>new_daily_used.
     sbind (sguard (daily_limit < new_daily_used) (B_ExceedsDailyLimit asset_id daily_used daily_limit)) (\<lambda>_.
     sret day))))))))"

definition record_daily_used :: "(bytes \<Rightarrow> u256) \<Rightarrow> 'b backend \<Rightarrow> u64 \<Rightarrow> u128 \<Rightarrow> u64 \<Rightarrow> ('b, 'e, unit) smonad" where
  "record_daily_used H B asset_id amount day =
     sbind (read_daily_used H B asset_id day) (\<lambda>daily_used.
     bstore B (slot_bridge_daily_used H asset_id day) (u128_to_u256 (saturating_add daily_used amount)))"

definition asset_registered :: "(bytes \<Rightarrow> u256) \<Rightarrow> 'b backend \<Rightarrow> u64 \<Rightarrow> ('b, 'e, bool) smonad" where
  "asset_registered H B asset_id =
     sbind (mload B ASSET_ADDRESS (slot_asset_meta H asset_id (bstr ''issuer''))) (\<lambda>v. sret (u256_to_address v \<noteq> 0))"

definition validate_basic :: "(bytes \<Rightarrow> u256) \<Rightarrow> 'b backend \<Rightarrow> u64 \<Rightarrow> ('b, bridge_error, unit) smonad" where
  "validate_basic H B asset_id =
     sbind (sguard (asset_id = 0) B_AssetZeroNotBridgeable) (\<lambda>_.
     sbind (asset_registered H B asset_id) (\<lambda>registered.
     sbind (sguard (\<not> registered) B_AssetNotRegistered) (\<lambda>_.
     sbind (is_paused H B) (\<lambda>paused.
     sguard paused B_BridgePaused))))"

definition add_total_deposits :: "'b backend \<Rightarrow> u128 \<Rightarrow> ('b, bridge_error, unit) smonad" where
  "add_total_deposits B amount =
     sbind (get_total_deposits B) (\<lambda>total_now.
     sbind (sok_or B_BalanceOverflow (checked_add total_now amount)) (\<lambda>new_total.
     bstore B slot_bridge_total_deposits (u128_to_u256 new_total)))"

definition add_total_withdrawals :: "'b backend \<Rightarrow> u128 \<Rightarrow> ('b, bridge_error, unit) smonad" where
  "add_total_withdrawals B amount =
     sbind (get_total_withdrawals B) (\<lambda>total_now.
     sbind (sok_or B_BalanceOverflow (checked_add total_now amount)) (\<lambda>new_total.
     bstore B slot_bridge_total_withdrawals (u128_to_u256 new_total)))"

definition sub_total_deposits :: "'b backend \<Rightarrow> u128 \<Rightarrow> ('b, bridge_error, unit) smonad" where
  "sub_total_deposits B amount =
     sbind (get_total_deposits B) (\<lambda>total_now.
     sbind (sok_or B_BalanceOverflow (checked_sub total_now amount)) (\<lambda>new_total.
     bstore B slot_bridge_total_deposits (u128_to_u256 new_total)))"

section \<open>Deposits and withdrawals\<close>

definition asset_step :: "('b, asset_error, 'a) smonad \<Rightarrow> ('b, bridge_error, 'a) smonad" where
  "asset_step m = smap_err from_asset_error m"

definition external_deposit :: "(bytes \<Rightarrow> u256) \<Rightarrow> 'b backend \<Rightarrow> u64 \<Rightarrow> address \<Rightarrow> u256 \<Rightarrow> u64 \<Rightarrow> address \<Rightarrow> u128 \<Rightarrow> address \<Rightarrow> u64 \<Rightarrow>
    ('b, bridge_error, u128) smonad" where
  "external_deposit H B source_chain source_contract source_tx_hash asset_id recipient amount validator block_height =
     sbind (sguard (amount = 0) B_InvalidInput) (\<lambda>_.
     sbind (sguard (recipient = 0) B_InvalidInput) (\<lambda>_.
     sbind (sguard (source_tx_hash = 0) B_InvalidInput) (\<lambda>_.
     sbind (is_processed H B source_tx_hash block_height) (\<lambda>processed.
     sbind (sguard processed B_AlreadyProcessed) (\<lambda>_.
     sbind (validate_basic H B asset_id) (\<lambda>_.
     sbind (read_asset_allowed H B asset_id) (\<lambda>allowed.
     sbind (sguard (\<not> allowed) (B_ExternalAssetNotAllowed asset_id)) (\<lambda>_.
     sbind (read_authorized_contract H B source_chain source_contract) (\<lambda>authorized.
     sbind (sguard (\<not> authorized) (B_UnauthorizedBridgeContract source_chain source_contract)) (\<lambda>_.
     sbind (check_limits H B asset_id amount block_height) (\<lambda>day.
     sbind (read_bridge_fee H B) (\<lambda>fee.
     sbind (sguard (amount \<le> fee) (B_BridgeFeeExceedsAmount fee amount)) (\<lambda>_.
     let net_amount = amount - fee in
     sbind (asset_step (add_balance H B asset_id recipient net_amount)) (\<lambda>_.
     sbind (if 0 < fee then asset_step (add_balance H B asset_id BRIDGE_ADDRESS fee) else sret ()) (\<lambda>_.
     sbind (add_total_deposits B net_amount) (\<lambda>_.
     sbind (record_daily_used H B asset_id amount day) (\<lambda>_.
     sbind (bstore B (slot_bridge_processed H source_tx_hash) (u64_to_u256 block_height)) (\<lambda>_.
     sbind (bstore B (slot_bridge_deposit_asset_id H source_tx_hash) (u64_to_u256 asset_id)) (\<lambda>_.
     sbind (bstore B (slot_bridge_deposit_recipient H source_tx_hash) (address_to_u256 recipient)) (\<lambda>_.
     sbind (bstore B (slot_bridge_deposit_amount H source_tx_hash) (u128_to_u256 net_amount)) (\<lambda>_.
     sbind (bstore B (slot_bridge_deposit_block_height H source_tx_hash) (u64_to_u256 block_height)) (\<lambda>_.
     sbind (bstore B (slot_bridge_challenge_original_validator H source_tx_hash) (address_to_u256 validator)) (\<lambda>_.
     sret net_amount)))))))))))))))))))))))"

datatype withdraw_limit_check = NewPeriod | ExistingPeriod u128

definition check_withdraw_limit :: "(bytes \<Rightarrow> u256) \<Rightarrow> 'b backend \<Rightarrow> u64 \<Rightarrow> u128 \<Rightarrow> u64 \<Rightarrow> ('b, bridge_error, withdraw_limit_check) smonad" where
  "check_withdraw_limit H B asset_id amount current_block =
     sbind (read_max_external_withdraw_per_period H B) (\<lambda>max_per_period.
     sbind (bload B (slot_bridge_current_period_start H)) (\<lambda>v.
     sbind (read_withdraw_period H B) (\<lambda>withdraw_period.
     if saturating_add (u256_to_u64 v) withdraw_period \<le> current_block then
       sbind (sguard (max_per_period < amount) (B_ExceedsWithdrawLimit asset_id 0 max_per_period)) (\<lambda>_. sret NewPeriod)
     else
       sbind (bload B (slot_bridge_period_withdrawn H asset_id)) (\<lambda>w.
       let period_withdrawn = u256_to_u128 w in
       sbind (sok_or B_BalanceOverflow (checked_add period_withdrawn amount)) (\<lambda>new_total.
       sbind (sguard (max_per_period < new_total) (B_ExceedsWithdrawLimit asset_id period_withdrawn max_per_period)) (\<lambda>_.
       sret (ExistingPeriod new_total)))))))"

fun record_withdraw_used :: "(bytes \<Rightarrow> u256) \<Rightarrow> 'b backend \<Rightarrow> u64 \<Rightarrow> u128 \<Rightarrow> u64 \<Rightarrow> withdraw_limit_check \<Rightarrow> ('b, bridge_error, unit) smonad" where
  "record_withdraw_used H B asset_id amount current_block NewPeriod =
     sbind (bstore B (slot_bridge_current_period_start H) (u64_to_u256 current_block)) (\<lambda>_.
     bstore B (slot_bridge_period_withdrawn H asset_id) (u128_to_u256 amount))"
| "record_withdraw_used H B asset_id amount current_block (ExistingPeriod new_total) =
     bstore B (slot_bridge_period_withdrawn H asset_id) (u128_to_u256 new_total)"

definition external_withdraw :: "(bytes \<Rightarrow> u256) \<Rightarrow> 'b backend \<Rightarrow> u64 \<Rightarrow> u128 \<Rightarrow> address \<Rightarrow> u64 \<Rightarrow> ('b, bridge_error, u128) smonad" where
  "external_withdraw H B asset_id amount caller current_block =
     sbind (sguard (amount = 0) B_InvalidInput) (\<lambda>_.
     sbind (validate_basic H B asset_id) (\<lambda>_.
     sbind (check_withdraw_limit H B asset_id amount current_block) (\<lambda>limit_check.
     sbind (read_bridge_fee H B) (\<lambda>fee.
     sbind (sguard (amount \<le> fee) (B_BridgeFeeExceedsAmount fee amount)) (\<lambda>_.
     let net_amount = amount - fee in
     sbind (asset_step (deduct_balance H B asset_id caller amount)) (\<lambda>_.
     sbind (if 0 < fee then asset_step (add_balance H B asset_id BRIDGE_ADDRESS fee) else sret ()) (\<lambda>_.
     sbind (add_total_withdrawals B net_amount) (\<lambda>_.
     sbind (record_withdraw_used H B asset_id amount current_block limit_check) (\<lambda>_.
     sret net_amount)))))))))"

section \<open>Fraud proofs\<close>

datatype fraud_proof_type = TxNonExistence | ReceiptConflict u64

record fraud_proof =
  fp_header :: eth_header
  fp_proof_type :: fraud_proof_type
  fp_mpt_nodes :: "bytes list"

text \<open>The parts that are not in the sources: postcard's decoder of a fraud proof and alloy's decoder of a header.\<close>

record proof_env =
  pe_decode :: "bytes \<Rightarrow> fraud_proof option"
  pe_hd_ok :: "bytes \<Rightarrow> bool"

definition run_parser :: "'a outcome option \<Rightarrow> ('a \<Rightarrow> ('b, bridge_error, 'c) smonad) \<Rightarrow> ('b, bridge_error, 'c) smonad" where
  "run_parser r f = (case r of None \<Rightarrow> sfail B_Hang | Some Panicked \<Rightarrow> sfail B_Panic | Some (Returned x) \<Rightarrow> f x)"

definition verify_fraud_proof_cryptographic :: "(bytes \<Rightarrow> u256) \<Rightarrow> proof_env \<Rightarrow> 'b backend \<Rightarrow> u256 \<Rightarrow> bytes \<Rightarrow> ('b, bridge_error, bool) smonad" where
  "verify_fraud_proof_cryptographic H E B source_tx_hash proof_bytes =
     (case pe_decode E proof_bytes of
        None \<Rightarrow> sret False
      | Some fp \<Rightarrow>
          if H (eh_rlp_bytes (fp_header fp)) \<noteq> eh_block_hash (fp_header fp) then sret False
          else case fp_proof_type fp of
            TxNonExistence \<Rightarrow>
              run_parser (Some (transactions_root (fp_header fp))) (\<lambda>root_opt.
              case root_opt of
                None \<Rightarrow> sret False
              | Some tx_root \<Rightarrow>
                  run_parser (verify_mpt_proof H (pe_hd_ok E) tx_root (to_be_bytes source_tx_hash) (fp_mpt_nodes fp)) (\<lambda>result.
                  sret (result = Inr None)))
          | ReceiptConflict receipt_index \<Rightarrow>
              run_parser (Some (receipts_root (fp_header fp))) (\<lambda>root_opt.
              case root_opt of
                None \<Rightarrow> sret False
              | Some rroot \<Rightarrow>
                  run_parser (verify_mpt_proof H (pe_hd_ok E) rroot (rlp_encode_u64 receipt_index) (fp_mpt_nodes fp)) (\<lambda>result.
                  case result of
                    Inr (Some receipt_rlp) \<Rightarrow>
                      run_parser (parse_receipt_logs receipt_rlp) (\<lambda>logs_result.
                      case logs_result of
                        Inl _ \<Rightarrow> sret False
                      | Inr logs \<Rightarrow>
                          run_parser (parse_bridge_event_from_logs logs) (\<lambda>event_opt.
                          case event_opt of
                            None \<Rightarrow> sret False
                          | Some event \<Rightarrow>
                              sbind (read_deposit_asset_id H B source_tx_hash) (\<lambda>stored_asset_id.
                              sbind (read_deposit_recipient H B source_tx_hash) (\<lambda>stored_recipient.
                              sbind (read_deposit_amount H B source_tx_hash) (\<lambda>stored_amount.
                              sret (ev_asset_id event \<noteq> stored_asset_id \<or> ev_recipient event \<noteq> stored_recipient
                                    \<or> ev_amount event \<noteq> stored_amount))))))
                  | _ \<Rightarrow> sret False)))"

text \<open>The number of storage words of a proof, \<^verbatim>\<open>(proof_len + 31) / 32\<close>.\<close>

definition num_chunks :: "u64 \<Rightarrow> nat" where
  "num_chunks proof_len = unat ((proof_len + 31) div 32)"

text \<open>\<open>n\<close> words from index \<open>i\<close> on, appended to the bytes read so far, the last one cut to the length of the proof.\<close>

fun load_chunks :: "(bytes \<Rightarrow> u256) \<Rightarrow> 'b backend \<Rightarrow> u256 \<Rightarrow> nat \<Rightarrow> nat \<Rightarrow> nat \<Rightarrow> bytes \<Rightarrow> ('b, 'e, bytes) smonad" where
  "load_chunks H B tx_hash proof_len i 0 acc = sret acc"
| "load_chunks H B tx_hash proof_len i (Suc n) acc =
     sbind (bload B (slot_bridge_challenge_proof_chunk H tx_hash (of_nat i))) (\<lambda>chunk.
     load_chunks H B tx_hash proof_len (Suc i) n (acc @ take (min 32 (proof_len - length acc)) (to_be_bytes chunk)))"

definition verify_fraud_proof :: "(bytes \<Rightarrow> u256) \<Rightarrow> proof_env \<Rightarrow> 'b backend \<Rightarrow> u256 \<Rightarrow> ('b, bridge_error, bool) smonad" where
  "verify_fraud_proof H E B source_tx_hash =
     sbind (bload B (slot_bridge_challenge_proof_hash H source_tx_hash)) (\<lambda>proof_hash.
     if proof_hash = 0 then sret False
     else
       sbind (bload B (slot_bridge_challenge_proof_len H source_tx_hash)) (\<lambda>v.
       let proof_len = u256_to_u64 v in
       if proof_len < 32 then sret False
       else
         sbind (load_chunks H B source_tx_hash (unat proof_len) 0 (num_chunks proof_len) []) (\<lambda>proof_bytes.
         if H proof_bytes \<noteq> proof_hash then sret False
         else verify_fraud_proof_cryptographic H E B source_tx_hash proof_bytes)))"

section \<open>Challenges\<close>

fun chunks32 :: "bytes \<Rightarrow> bytes list" where
  "chunks32 bs = (if bs = [] then [] else take 32 bs # chunks32 (drop 32 bs))"

declare chunks32.simps [simp del]

fun store_chunks :: "(bytes \<Rightarrow> u256) \<Rightarrow> 'b backend \<Rightarrow> u256 \<Rightarrow> nat \<Rightarrow> bytes list \<Rightarrow> ('b, 'e, unit) smonad" where
  "store_chunks H B tx_hash i [] = sret ()"
| "store_chunks H B tx_hash i (chunk # chunks) =
     sbind (bstore B (slot_bridge_challenge_proof_chunk H tx_hash (of_nat i)) (from_be_bytes (chunk @ replicate (32 - length chunk) 0))) (\<lambda>_.
     store_chunks H B tx_hash (Suc i) chunks)"

definition initiate_challenge :: "(bytes \<Rightarrow> u256) \<Rightarrow> 'b backend \<Rightarrow> u256 \<Rightarrow> bytes \<Rightarrow> address \<Rightarrow> u64 \<Rightarrow> ('b, bridge_error, unit) smonad" where
  "initiate_challenge H B source_tx_hash proof_data challenger current_block =
     sbind (read_deposit_block_height H B source_tx_hash) (\<lambda>deposit_height.
     sbind (sguard (deposit_height = 0) B_NotProcessed) (\<lambda>_.
     sbind (read_challenge_status H B source_tx_hash) (\<lambda>status.
     sbind (sguard (status \<noteq> CS_None) B_AlreadyChallenged) (\<lambda>_.
     sbind (read_challenge_period H B) (\<lambda>challenge_period.
     sbind (sok_or B_ChallengePeriodExpired (checked_add deposit_height challenge_period)) (\<lambda>challenge_deadline.
     sbind (sguard (challenge_deadline \<le> current_block) B_ChallengePeriodExpired) (\<lambda>_.
     sbind (sguard (length proof_data < 32 \<or> MAX_PROOF_LEN < length proof_data) B_InvalidInput) (\<lambda>_.
     sbind (read_global_challenge_bond H B) (\<lambda>bond.
     sbind (asset_step (deduct_balance H B CALL_ASSET_ID challenger bond)) (\<lambda>_.
     sbind (sok_or B_ChallengePeriodExpired (checked_add current_block challenge_period)) (\<lambda>deadline.
     sbind (bstore B (slot_bridge_challenge_status H source_tx_hash) 1) (\<lambda>_.
     sbind (bstore B (slot_bridge_challenge_challenger H source_tx_hash) (address_to_u256 challenger)) (\<lambda>_.
     sbind (bstore B (slot_bridge_challenge_deadline H source_tx_hash) (u64_to_u256 deadline)) (\<lambda>_.
     sbind (bstore B (slot_bridge_challenge_bond H source_tx_hash) (u128_to_u256 bond)) (\<lambda>_.
     sbind (bstore B (slot_bridge_challenge_proof_hash H source_tx_hash) (H proof_data)) (\<lambda>_.
     sbind (bstore B (slot_bridge_challenge_proof_len H source_tx_hash) (u64_to_u256 (of_nat (length proof_data)))) (\<lambda>_.
     store_chunks H B source_tx_hash 0 (chunks32 proof_data))))))))))))))))))"

fun zero_chunks :: "(bytes \<Rightarrow> u256) \<Rightarrow> 'b backend \<Rightarrow> u256 \<Rightarrow> nat \<Rightarrow> nat \<Rightarrow> ('b, 'e, unit) smonad" where
  "zero_chunks H B tx_hash i 0 = sret ()"
| "zero_chunks H B tx_hash i (Suc n) =
     sbind (bstore B (slot_bridge_challenge_proof_chunk H tx_hash (of_nat i)) 0) (\<lambda>_. zero_chunks H B tx_hash (Suc i) n)"

definition clear_challenge_metadata :: "(bytes \<Rightarrow> u256) \<Rightarrow> 'b backend \<Rightarrow> u256 \<Rightarrow> bool \<Rightarrow> ('b, 'e, unit) smonad" where
  "clear_challenge_metadata H B source_tx_hash keep_payout_info =
     sbind (bload B (slot_bridge_challenge_proof_len H source_tx_hash)) (\<lambda>v.
     sbind (zero_chunks H B source_tx_hash 0 (num_chunks (u256_to_u64 v))) (\<lambda>_.
     sbind (if keep_payout_info then sret ()
            else sbind (bstore B (slot_bridge_challenge_challenger H source_tx_hash) 0) (\<lambda>_.
                 bstore B (slot_bridge_challenge_bond H source_tx_hash) 0)) (\<lambda>_.
     sbind (bstore B (slot_bridge_challenge_deadline H source_tx_hash) 0) (\<lambda>_.
     sbind (bstore B (slot_bridge_challenge_proof_hash H source_tx_hash) 0) (\<lambda>_.
     sbind (bstore B (slot_bridge_challenge_proof_len H source_tx_hash) 0) (\<lambda>_.
     bstore B (slot_bridge_challenge_original_validator H source_tx_hash) 0))))))"

definition resolve_challenge :: "(bytes \<Rightarrow> u256) \<Rightarrow> proof_env \<Rightarrow> 'b backend \<Rightarrow> u256 \<Rightarrow> u64 \<Rightarrow> address \<Rightarrow> ('b, bridge_error, bool \<times> address) smonad" where
  "resolve_challenge H E B source_tx_hash current_block resolver =
     sbind (read_challenge_status H B source_tx_hash) (\<lambda>status.
     sbind (sguard (status \<noteq> CS_Pending) B_ChallengeNotPending) (\<lambda>_.
     sbind (read_challenge_deadline H B source_tx_hash) (\<lambda>deadline.
     sbind (sguard (current_block < deadline) B_ChallengeDeadlineNotReached) (\<lambda>_.
     sbind (read_challenge_challenger H B source_tx_hash) (\<lambda>challenger.
     sbind (bload B (slot_bridge_challenge_original_validator H source_tx_hash)) (\<lambda>v.
     let validator = u256_to_address v in
     sbind (sguard (resolver \<noteq> challenger \<and> resolver \<noteq> validator) (B_UnauthorizedResolver resolver)) (\<lambda>_.
     sbind (verify_fraud_proof H E B source_tx_hash) (\<lambda>proof_valid.
     sbind (read_challenge_bond_for_tx H B source_tx_hash) (\<lambda>bond.
     if proof_valid then
       sbind (smap_err (\<lambda>_. B_InvalidInput) (slash_stake H B validator)) (\<lambda>_.
       sbind (read_deposit_asset_id H B source_tx_hash) (\<lambda>asset_id.
       sbind (read_deposit_recipient H B source_tx_hash) (\<lambda>recipient.
       sbind (read_deposit_amount H B source_tx_hash) (\<lambda>amount.
       sbind (smap_err (\<lambda>_. B_InsufficientBalance) (deduct_balance H B asset_id recipient amount)) (\<lambda>_.
       sbind (sub_total_deposits B amount) (\<lambda>_.
       sbind (bstore B (slot_bridge_challenge_status H source_tx_hash) 2) (\<lambda>_.
       sbind (bstore B (slot_bridge_deposit_asset_id H source_tx_hash) 0) (\<lambda>_.
       sbind (bstore B (slot_bridge_deposit_recipient H source_tx_hash) 0) (\<lambda>_.
       sbind (bstore B (slot_bridge_deposit_amount H source_tx_hash) 0) (\<lambda>_.
       sbind (bstore B (slot_bridge_deposit_block_height H source_tx_hash) 0) (\<lambda>_.
       sbind (clear_challenge_metadata H B source_tx_hash True) (\<lambda>_.
       sret (True, challenger)))))))))))))
     else
       sbind (smap_err (\<lambda>_. B_BalanceOverflow) (add_balance H B CALL_ASSET_ID validator bond)) (\<lambda>_.
       sbind (bstore B (slot_bridge_challenge_status H source_tx_hash) 3) (\<lambda>_.
       sbind (clear_challenge_metadata H B source_tx_hash False) (\<lambda>_.
       sret (False, validator)))))))))))))"

definition withdraw_challenge_bond :: "(bytes \<Rightarrow> u256) \<Rightarrow> 'b backend \<Rightarrow> u256 \<Rightarrow> address \<Rightarrow> ('b, bridge_error, u128) smonad" where
  "withdraw_challenge_bond H B source_tx_hash caller =
     sbind (read_challenge_status H B source_tx_hash) (\<lambda>status.
     sbind (sguard (status \<noteq> CS_Successful) B_ChallengeNotSuccessful) (\<lambda>_.
     sbind (read_challenge_challenger H B source_tx_hash) (\<lambda>challenger.
     sbind (sguard (challenger \<noteq> caller) B_NotChallenger) (\<lambda>_.
     sbind (read_challenge_bond_for_tx H B source_tx_hash) (\<lambda>bond.
     sbind (sok_or B_BalanceOverflow (checked_add bond (bond div 10))) (\<lambda>reward.
     sbind (smap_err (\<lambda>_. B_BalanceOverflow) (add_balance H B CALL_ASSET_ID challenger reward)) (\<lambda>_.
     sbind (bstore B (slot_bridge_challenge_status H source_tx_hash) 4) (\<lambda>_.
     sbind (bstore B (slot_bridge_challenge_bond H source_tx_hash) 0) (\<lambda>_.
     sret reward)))))))))"

section \<open>The precompile\<close>

record bridge_abi =
  sel_getTotalDeposits :: bytes
  sel_getTotalWithdrawals :: bytes
  sel_externalDeposit :: bytes
  sel_externalWithdraw :: bytes
  sel_initiateChallenge :: bytes
  sel_resolveChallenge :: bytes
  sel_getChallengeStatus :: bytes
  sel_withdrawChallengeBond :: bytes
  dec_unit :: "bytes \<Rightarrow> string + unit"
  dec_externalDeposit :: "bytes \<Rightarrow> string + u64 \<times> address \<times> u256 \<times> u64 \<times> address \<times> u128"
  dec_externalWithdraw :: "bytes \<Rightarrow> string + u64 \<times> bytes \<times> u64 \<times> u128"
  dec_initiateChallenge :: "bytes \<Rightarrow> string + u256 \<times> bytes"
  dec_tx :: "bytes \<Rightarrow> string + u256"
  enc_total :: "u128 \<Rightarrow> bytes"
  enc_challenge :: "u64 \<times> u64 \<times> u128 \<times> address \<Rightarrow> bytes"
  fmt_addr :: "address \<Rightarrow> string"

definition bridge_err :: "bridge_abi \<Rightarrow> ('s, bridge_error, 'a) smonad \<Rightarrow> ('s, precompile_error, 'a) smonad" where
  "bridge_err abi m = smap_err (\<lambda>e. if e = B_Panic \<or> e = B_Hang then Unwind else Other (bridge_error_text (fmt_addr abi) e)) m"

definition pc_get_total_deposits :: "bridge_abi \<Rightarrow> 's provider \<Rightarrow> bytes \<Rightarrow> ('s, precompile_error, precompile_output) smonad" where
  "pc_get_total_deposits abi P calldata = view P (dec_unit abi) (enc_total abi) calldata 1500 (\<lambda>_. get_total_deposits (storage_ref P))"

definition pc_get_total_withdrawals :: "bridge_abi \<Rightarrow> 's provider \<Rightarrow> bytes \<Rightarrow> ('s, precompile_error, precompile_output) smonad" where
  "pc_get_total_withdrawals abi P calldata = view P (dec_unit abi) (enc_total abi) calldata 1500 (\<lambda>_. get_total_withdrawals (storage_ref P))"

definition pc_external_deposit :: "(bytes \<Rightarrow> u256) \<Rightarrow> bridge_abi \<Rightarrow> 's provider \<Rightarrow> bytes \<Rightarrow> address \<Rightarrow> ('s, precompile_error, precompile_output) smonad" where
  "pc_external_deposit H abi P calldata msg_sender =
     mutate_void P (dec_externalDeposit abi) calldata 30000 (\<lambda>(sourceChain, sourceContract, sourceTxHash, assetId, recipient, amount).
       sbind (require_caller msg_sender) (\<lambda>validator.
       sbind (is_validator H P validator) (\<lambda>known.
       sbind (sguard (\<not> known) (Other ''not a validator'')) (\<lambda>_.
       sbind (check_compliance H P validator) (\<lambda>_.
       sbind (check_compliance H P recipient) (\<lambda>_.
       sbind (sget (p_block_number P)) (\<lambda>block_height.
       sbind (bridge_err abi (external_deposit H (storage_ref P) sourceChain sourceContract sourceTxHash assetId recipient amount validator block_height)) (\<lambda>net_amount.
       p_emit_event P BRIDGE_ADDRESS
         \<lparr>log_topics = [H (bstr ''ExternalDeposit(bytes32,uint64,address,uint128,address,uint64,uint64,address)''), sourceTxHash,
            address_to_u256 recipient, address_to_u256 validator],
          log_bytes = concat (map to_be_bytes [u64_to_u256 assetId, address_to_u256 sourceContract, u128_to_u256 net_amount,
            u64_to_u256 block_height, u64_to_u256 sourceChain])\<rparr>))))))))"

definition pc_external_withdraw :: "(bytes \<Rightarrow> u256) \<Rightarrow> bridge_abi \<Rightarrow> 's provider \<Rightarrow> bytes \<Rightarrow> address \<Rightarrow> ('s, precompile_error, precompile_output) smonad" where
  "pc_external_withdraw H abi P calldata msg_sender =
     mutate_void P (dec_externalWithdraw abi) calldata 30000 (\<lambda>(targetChain, targetAddress, assetId, amount).
       sbind (require_caller msg_sender) (\<lambda>caller.
       sbind (check_compliance H P caller) (\<lambda>_.
       sbind (sget (p_block_number P)) (\<lambda>block_number.
       sbind (bridge_err abi (external_withdraw H (storage_ref P) assetId amount caller block_number)) (\<lambda>net_amount.
       p_emit_event P BRIDGE_ADDRESS
         \<lparr>log_topics = [H (bstr ''ExternalWithdraw(address,uint64,uint128,uint64,bytes32)''), address_to_u256 caller],
          log_bytes = concat (map to_be_bytes [u64_to_u256 assetId, u128_to_u256 net_amount, u64_to_u256 targetChain, H targetAddress])\<rparr>)))))"

definition pc_initiate_challenge :: "(bytes \<Rightarrow> u256) \<Rightarrow> bridge_abi \<Rightarrow> 's provider \<Rightarrow> bytes \<Rightarrow> address \<Rightarrow> ('s, precompile_error, precompile_output) smonad" where
  "pc_initiate_challenge H abi P calldata msg_sender =
     mutate_void P (dec_initiateChallenge abi) calldata 50000 (\<lambda>(sourceTxHash, proof_data).
       sbind (require_caller msg_sender) (\<lambda>challenger.
       sbind (check_compliance H P challenger) (\<lambda>_.
       sbind (sget (p_block_number P)) (\<lambda>block_number.
       sbind (bridge_err abi (initiate_challenge H (storage_ref P) sourceTxHash proof_data challenger block_number)) (\<lambda>_.
       sbind (read_challenge_deadline H (storage_ref P) sourceTxHash) (\<lambda>deadline.
       sbind (read_challenge_bond_for_tx H (storage_ref P) sourceTxHash) (\<lambda>bond.
       p_emit_event P BRIDGE_ADDRESS
         \<lparr>log_topics = [H (bstr ''ChallengeInitiated(bytes32,address,uint64,uint128)''), sourceTxHash, address_to_u256 challenger],
          log_bytes = concat (map to_be_bytes [u64_to_u256 deadline, u128_to_u256 bond])\<rparr>)))))))"

definition pc_resolve_challenge :: "(bytes \<Rightarrow> u256) \<Rightarrow> proof_env \<Rightarrow> bridge_abi \<Rightarrow> 's provider \<Rightarrow> bytes \<Rightarrow> address \<Rightarrow> ('s, precompile_error, precompile_output) smonad" where
  "pc_resolve_challenge H E abi P calldata msg_sender =
     mutate_void P (dec_tx abi) calldata 150000 (\<lambda>sourceTxHash.
       sbind (require_caller msg_sender) (\<lambda>resolver.
       sbind (check_compliance H P resolver) (\<lambda>_.
       sbind (sget (p_block_number P)) (\<lambda>block_number.
       sbind (bridge_err abi (resolve_challenge H E (storage_ref P) sourceTxHash block_number resolver)) (\<lambda>(success, beneficiary).
       p_emit_event P BRIDGE_ADDRESS
         \<lparr>log_topics = [H (bstr ''ChallengeResolved(bytes32,bool,address)''), sourceTxHash, address_to_u256 beneficiary],
          log_bytes = to_be_bytes (u64_to_u256 (if success then 1 else 0))\<rparr>)))))"

definition pc_get_challenge_status :: "(bytes \<Rightarrow> u256) \<Rightarrow> bridge_abi \<Rightarrow> 's provider \<Rightarrow> bytes \<Rightarrow> ('s, precompile_error, precompile_output) smonad" where
  "pc_get_challenge_status H abi P calldata =
     view P (dec_tx abi) (enc_challenge abi) calldata 1500 (\<lambda>sourceTxHash.
       sbind (read_challenge_status H (storage_ref P) sourceTxHash) (\<lambda>status.
       sbind (read_challenge_deadline H (storage_ref P) sourceTxHash) (\<lambda>deadline.
       sbind (read_challenge_bond_for_tx H (storage_ref P) sourceTxHash) (\<lambda>bond.
       sbind (read_challenge_challenger H (storage_ref P) sourceTxHash) (\<lambda>challenger.
       sret (case status of CS_Pending \<Rightarrow> 1 | CS_Successful \<Rightarrow> 2 | CS_Failed \<Rightarrow> 3 | CS_Withdrawn \<Rightarrow> 4 | CS_None \<Rightarrow> 0, deadline, bond, challenger))))))"

definition pc_withdraw_challenge_bond :: "(bytes \<Rightarrow> u256) \<Rightarrow> bridge_abi \<Rightarrow> 's provider \<Rightarrow> bytes \<Rightarrow> address \<Rightarrow> ('s, precompile_error, precompile_output) smonad" where
  "pc_withdraw_challenge_bond H abi P calldata msg_sender =
     mutate_void P (dec_tx abi) calldata 5000 (\<lambda>sourceTxHash.
       sbind (require_caller msg_sender) (\<lambda>caller.
       sbind (check_compliance H P caller) (\<lambda>_.
       sbind (bridge_err abi (withdraw_challenge_bond H (storage_ref P) sourceTxHash caller)) (\<lambda>reward.
       p_emit_event P BRIDGE_ADDRESS
         \<lparr>log_topics = [H (bstr ''ChallengeBondWithdrawn(bytes32,address,uint128)''), sourceTxHash, address_to_u256 caller],
          log_bytes = to_be_bytes (u128_to_u256 reward)\<rparr>))))"

definition bridge_call :: "(bytes \<Rightarrow> u256) \<Rightarrow> proof_env \<Rightarrow> bridge_abi \<Rightarrow> 's provider \<Rightarrow> bytes \<Rightarrow> address \<Rightarrow> ('s, precompile_error, precompile_output) smonad" where
  "bridge_call H E abi P calldata msg_sender =
     (if length calldata < 4 then sfail (Other ''invalid input'')
      else let selector = take 4 calldata in
        if selector = sel_getTotalDeposits abi then pc_get_total_deposits abi P calldata
        else if selector = sel_getTotalWithdrawals abi then pc_get_total_withdrawals abi P calldata
        else if selector = sel_externalDeposit abi then pc_external_deposit H abi P calldata msg_sender
        else if selector = sel_externalWithdraw abi then pc_external_withdraw H abi P calldata msg_sender
        else if selector = sel_initiateChallenge abi then pc_initiate_challenge H abi P calldata msg_sender
        else if selector = sel_resolveChallenge abi then pc_resolve_challenge H E abi P calldata msg_sender
        else if selector = sel_getChallengeStatus abi then pc_get_challenge_status H abi P calldata
        else if selector = sel_withdrawChallengeBond abi then pc_withdraw_challenge_bond H abi P calldata msg_sender
        else sfail (Other ''unknown selector''))"

end
