(* ===== verification/Bridge_Laws.thy ===== *)
theory Bridge_Laws
  imports Bridge Validator_Props
begin

text \<open>
  The bridge contract on a storage map. Its slots are indexed by \<open>bridge_key\<close>; under a hash that keeps the keys in use
  apart, what an operation writes is read back and everything else stays. A proof stored in pieces is read back
  as it was.
\<close>

section \<open>Keys and slots\<close>

datatype bridge_key =
    BTotalDep | BTotalWd | BPaused | BProcessed u256 | BStatus u256 | BChallenger u256 | BDeadline u256 | BBond u256
  | BProofHash u256 | BProofLen u256 | BValidator u256 | BAsset u256 | BRecipient u256 | BAmount u256 | BHeight u256
  | BPeriod | BBondAmount | BChunk u256 u64 | BMaxTx u64 | BDailyLimit u64 | BDailyUsed u64 u64 | BBlocksPerDay | BAllowed u64
  | BAuthorized u64 address | BMaxWd | BPeriodWd u64 | BWdPeriod | BFee | BPeriodStart | BRetention

fun bridge_slot :: "(bytes \<Rightarrow> u256) \<Rightarrow> bridge_key \<Rightarrow> u256" where
  "bridge_slot H BTotalDep = slot_bridge_total_deposits"
| "bridge_slot H BTotalWd = slot_bridge_total_withdrawals"
| "bridge_slot H BPaused = slot_bridge_paused H"
| "bridge_slot H (BProcessed h) = slot_bridge_processed H h"
| "bridge_slot H (BStatus h) = slot_bridge_challenge_status H h"
| "bridge_slot H (BChallenger h) = slot_bridge_challenge_challenger H h"
| "bridge_slot H (BDeadline h) = slot_bridge_challenge_deadline H h"
| "bridge_slot H (BBond h) = slot_bridge_challenge_bond H h"
| "bridge_slot H (BProofHash h) = slot_bridge_challenge_proof_hash H h"
| "bridge_slot H (BProofLen h) = slot_bridge_challenge_proof_len H h"
| "bridge_slot H (BValidator h) = slot_bridge_challenge_original_validator H h"
| "bridge_slot H (BAsset h) = slot_bridge_deposit_asset_id H h"
| "bridge_slot H (BRecipient h) = slot_bridge_deposit_recipient H h"
| "bridge_slot H (BAmount h) = slot_bridge_deposit_amount H h"
| "bridge_slot H (BHeight h) = slot_bridge_deposit_block_height H h"
| "bridge_slot H BPeriod = slot_challenge_period H"
| "bridge_slot H BBondAmount = slot_challenge_bond_amount H"
| "bridge_slot H (BChunk h i) = slot_bridge_challenge_proof_chunk H h i"
| "bridge_slot H (BMaxTx i) = slot_bridge_max_per_tx H i"
| "bridge_slot H (BDailyLimit i) = slot_bridge_daily_limit H i"
| "bridge_slot H (BDailyUsed i d) = slot_bridge_daily_used H i d"
| "bridge_slot H BBlocksPerDay = slot_bridge_blocks_per_day H"
| "bridge_slot H (BAllowed i) = slot_bridge_asset_allowed H i"
| "bridge_slot H (BAuthorized c a) = slot_bridge_authorized_contract H c a"
| "bridge_slot H BMaxWd = slot_bridge_max_withdraw_per_period H"
| "bridge_slot H (BPeriodWd i) = slot_bridge_period_withdrawn H i"
| "bridge_slot H BWdPeriod = slot_bridge_withdraw_period H"
| "bridge_slot H BFee = slot_bridge_bridge_fee H"
| "bridge_slot H BPeriodStart = slot_bridge_current_period_start H"
| "bridge_slot H BRetention = slot_bridge_processed_retention H"

lemma bridge_slots:
  "slot_bridge_total_deposits = bridge_slot H BTotalDep" "slot_bridge_total_withdrawals = bridge_slot H BTotalWd"
  "slot_bridge_paused H = bridge_slot H BPaused" "slot_bridge_processed H h = bridge_slot H (BProcessed h)"
  "slot_bridge_challenge_status H h = bridge_slot H (BStatus h)" "slot_bridge_challenge_challenger H h = bridge_slot H (BChallenger h)"
  "slot_bridge_challenge_deadline H h = bridge_slot H (BDeadline h)" "slot_bridge_challenge_bond H h = bridge_slot H (BBond h)"
  "slot_bridge_challenge_proof_hash H h = bridge_slot H (BProofHash h)" "slot_bridge_challenge_proof_len H h = bridge_slot H (BProofLen h)"
  "slot_bridge_challenge_original_validator H h = bridge_slot H (BValidator h)" "slot_bridge_deposit_asset_id H h = bridge_slot H (BAsset h)"
  "slot_bridge_deposit_recipient H h = bridge_slot H (BRecipient h)" "slot_bridge_deposit_amount H h = bridge_slot H (BAmount h)"
  "slot_bridge_deposit_block_height H h = bridge_slot H (BHeight h)" "slot_challenge_period H = bridge_slot H BPeriod"
  "slot_challenge_bond_amount H = bridge_slot H BBondAmount" "slot_bridge_challenge_proof_chunk H h j = bridge_slot H (BChunk h j)"
  "slot_bridge_max_per_tx H i = bridge_slot H (BMaxTx i)" "slot_bridge_daily_limit H i = bridge_slot H (BDailyLimit i)"
  "slot_bridge_daily_used H i d = bridge_slot H (BDailyUsed i d)" "slot_bridge_blocks_per_day H = bridge_slot H BBlocksPerDay"
  "slot_bridge_asset_allowed H i = bridge_slot H (BAllowed i)" "slot_bridge_authorized_contract H c a = bridge_slot H (BAuthorized c a)"
  "slot_bridge_max_withdraw_per_period H = bridge_slot H BMaxWd" "slot_bridge_period_withdrawn H i = bridge_slot H (BPeriodWd i)"
  "slot_bridge_withdraw_period H = bridge_slot H BWdPeriod" "slot_bridge_bridge_fee H = bridge_slot H BFee"
  "slot_bridge_current_period_start H = bridge_slot H BPeriodStart" "slot_bridge_processed_retention H = bridge_slot H BRetention"
  by simp_all

declare bridge_slot.simps [simp del]

text \<open>What the layout needs of the hash: no two of the keys \<open>K\<close> share a slot.\<close>

definition bridge_layout_ok :: "(bytes \<Rightarrow> u256) \<Rightarrow> bridge_key set \<Rightarrow> bool" where
  "bridge_layout_ok H K \<longleftrightarrow> inj_on (bridge_slot H) K"

lemma bridge_slot_eq: "bridge_layout_ok H K \<Longrightarrow> k \<in> K \<Longrightarrow> l \<in> K \<Longrightarrow> bridge_slot H k = bridge_slot H l \<longleftrightarrow> k = l"
  by (auto simp: bridge_layout_ok_def inj_on_def)

abbreviation bget :: "(bytes \<Rightarrow> u256) \<Rightarrow> evm_storage \<Rightarrow> bridge_key \<Rightarrow> u256" where
  "bget H m k \<equiv> m BRIDGE_ADDRESS (bridge_slot H k)"

abbreviation bput :: "(bytes \<Rightarrow> u256) \<Rightarrow> bridge_key \<Rightarrow> u256 \<Rightarrow> evm_storage \<Rightarrow> evm_storage" where
  "bput H k v m \<equiv> sput BRIDGE_ADDRESS (bridge_slot H k) v m"

lemma bridge_addresses [simp]:
  "ASSET_ADDRESS \<noteq> BRIDGE_ADDRESS" "BRIDGE_ADDRESS \<noteq> ASSET_ADDRESS" "VALIDATOR_ADDRESS \<noteq> BRIDGE_ADDRESS" "BRIDGE_ADDRESS \<noteq> VALIDATOR_ADDRESS"
  by (simp_all add: ASSET_ADDRESS_def BRIDGE_ADDRESS_def VALIDATOR_ADDRESS_def)

lemma bload_pure: "bload pure_backend k m = (Inr (m BRIDGE_ADDRESS k), m)"
  by (simp add: bload_def)

lemma bstore_pure: "bstore pure_backend k v m = (Inr (), sput BRIDGE_ADDRESS k v m)"
  by (simp add: bstore_def)

text \<open>The configuration as the contract reads it.\<close>

definition cfg64 :: "(bytes \<Rightarrow> u256) \<Rightarrow> evm_storage \<Rightarrow> bridge_key \<Rightarrow> u64 \<Rightarrow> u64" where
  "cfg64 H m k dflt = (let v = u256_to_u64 (bget H m k) in if v = 0 then dflt else v - 1)"

definition cfg128 :: "(bytes \<Rightarrow> u256) \<Rightarrow> evm_storage \<Rightarrow> bridge_key \<Rightarrow> u128 \<Rightarrow> u128" where
  "cfg128 H m k dflt = (let v = u256_to_u128 (bget H m k) in if v = 0 then dflt else v - 1)"

lemma cfg_pure:
  "load_u64_or_default pure_backend (bridge_slot H k) d64 m = (Inr (cfg64 H m k d64), m)"
  "load_u128_or_default pure_backend (bridge_slot H k) d128 m = (Inr (cfg128 H m k d128), m)"
  by (simp_all add: load_u64_or_default_def load_u128_or_default_def sbind_run bload_pure cfg64_def cfg128_def Let_def sret_def)

lemmas bridge_reads = get_total_deposits_def get_total_withdrawals_def is_paused_def is_processed_def read_challenge_status_def
  read_challenge_deadline_def read_challenge_bond_for_tx_def read_challenge_challenger_def read_deposit_asset_id_def
  read_deposit_recipient_def read_deposit_amount_def read_deposit_block_height_def read_challenge_period_def
  read_global_challenge_bond_def read_max_per_tx_def read_daily_limit_def read_blocks_per_day_def read_asset_allowed_def
  read_authorized_contract_def read_max_external_withdraw_per_period_def read_withdraw_period_def read_bridge_fee_def
  read_processed_retention_blocks_def read_daily_used_def

text \<open>The keys for source transactions \<open>T\<close>, assets \<open>I\<close>, days \<open>D\<close> and source contracts \<open>C\<close>.\<close>

definition bridge_keys :: "u256 set \<Rightarrow> u64 set \<Rightarrow> u64 set \<Rightarrow> (u64 \<times> address) set \<Rightarrow> bridge_key set" where
  "bridge_keys T I D C =
     {BTotalDep, BTotalWd, BPaused, BPeriod, BBondAmount, BBlocksPerDay, BMaxWd, BWdPeriod, BFee, BPeriodStart, BRetention} \<union>
     (\<Union>h\<in>T. {BProcessed h, BStatus h, BChallenger h, BDeadline h, BBond h, BProofHash h, BProofLen h, BValidator h, BAsset h,
        BRecipient h, BAmount h, BHeight h} \<union> range (BChunk h)) \<union>
     (\<Union>i\<in>I. {BMaxTx i, BDailyLimit i, BAllowed i, BPeriodWd i} \<union> BDailyUsed i ` D) \<union> (\<lambda>(c, a). BAuthorized c a) ` C"

lemma bridge_keys_mem [simp]:
  "BTotalDep \<in> bridge_keys T I D C" "BTotalWd \<in> bridge_keys T I D C" "BPaused \<in> bridge_keys T I D C" "BPeriod \<in> bridge_keys T I D C"
  "BBondAmount \<in> bridge_keys T I D C" "BBlocksPerDay \<in> bridge_keys T I D C" "BMaxWd \<in> bridge_keys T I D C" "BWdPeriod \<in> bridge_keys T I D C"
  "BFee \<in> bridge_keys T I D C" "BPeriodStart \<in> bridge_keys T I D C" "BRetention \<in> bridge_keys T I D C"
  "BProcessed h \<in> bridge_keys T I D C \<longleftrightarrow> h \<in> T" "BStatus h \<in> bridge_keys T I D C \<longleftrightarrow> h \<in> T"
  "BChallenger h \<in> bridge_keys T I D C \<longleftrightarrow> h \<in> T" "BDeadline h \<in> bridge_keys T I D C \<longleftrightarrow> h \<in> T" "BBond h \<in> bridge_keys T I D C \<longleftrightarrow> h \<in> T"
  "BProofHash h \<in> bridge_keys T I D C \<longleftrightarrow> h \<in> T" "BProofLen h \<in> bridge_keys T I D C \<longleftrightarrow> h \<in> T" "BValidator h \<in> bridge_keys T I D C \<longleftrightarrow> h \<in> T"
  "BAsset h \<in> bridge_keys T I D C \<longleftrightarrow> h \<in> T" "BRecipient h \<in> bridge_keys T I D C \<longleftrightarrow> h \<in> T" "BAmount h \<in> bridge_keys T I D C \<longleftrightarrow> h \<in> T"
  "BHeight h \<in> bridge_keys T I D C \<longleftrightarrow> h \<in> T" "BChunk h j \<in> bridge_keys T I D C \<longleftrightarrow> h \<in> T"
  "BMaxTx i \<in> bridge_keys T I D C \<longleftrightarrow> i \<in> I" "BDailyLimit i \<in> bridge_keys T I D C \<longleftrightarrow> i \<in> I" "BAllowed i \<in> bridge_keys T I D C \<longleftrightarrow> i \<in> I"
  "BPeriodWd i \<in> bridge_keys T I D C \<longleftrightarrow> i \<in> I" "BDailyUsed i d \<in> bridge_keys T I D C \<longleftrightarrow> i \<in> I \<and> d \<in> D"
  "BAuthorized c a \<in> bridge_keys T I D C \<longleftrightarrow> (c, a) \<in> C"
  by (auto simp: bridge_keys_def) blast

lemma bget_bput:
  assumes "bridge_layout_ok H K" "k \<in> K" "l \<in> K"
  shows "bget H (bput H k v m) l = (if l = k then v else bget H m l)"
  using bridge_slot_eq [OF assms] by (auto simp: sput_apply)

lemma bget_aput [simp]: "bget H (aput s v m) k = bget H m k" "bget H (sput VALIDATOR_ADDRESS s v m) k = bget H m k"
  by (simp_all add: sput_apply)

section \<open>A deposit\<close>

lemma is_processed_pure:
  "is_processed H pure_backend h b m =
     (Inr (bget H m (BProcessed h) \<noteq> 0 \<and>
        saturating_sub b (u256_to_u64 (bget H m (BProcessed h))) \<le> cfg64 H m BRetention DEFAULT_PROCESSED_RETENTION), m)"
  by (simp add: bridge_reads bridge_slots [of H] sbind_run bload_pure cfg_pure sret_def)

lemma asset_step_Inr: "asset_step m s = (Inr x, s') \<longleftrightarrow> m s = (Inr x, s')"
  by (simp add: asset_step_def smonad_Inr)

text \<open>The first day-index in force at a block, and what the contract has on record for it.\<close>

definition day_of :: "(bytes \<Rightarrow> u256) \<Rightarrow> evm_storage \<Rightarrow> u64 \<Rightarrow> u64" where
  "day_of H m b = b div cfg64 H m BBlocksPerDay DEFAULT_BLOCKS_PER_DAY"

abbreviation daily :: "(bytes \<Rightarrow> u256) \<Rightarrow> evm_storage \<Rightarrow> u64 \<Rightarrow> u64 \<Rightarrow> u128" where
  "daily H m i d \<equiv> u256_to_u128 (bget H m (BDailyUsed i d))"

abbreviation daily_limit_of :: "(bytes \<Rightarrow> u256) \<Rightarrow> evm_storage \<Rightarrow> u64 \<Rightarrow> u128" where
  "daily_limit_of H m i \<equiv> cfg128 H m (BDailyLimit i) DEFAULT_DAILY_LIMIT"

abbreviation bridge_fee_of :: "(bytes \<Rightarrow> u256) \<Rightarrow> evm_storage \<Rightarrow> u128" where
  "bridge_fee_of H m \<equiv> cfg128 H m BFee DEFAULT_BRIDGE_FEE"

lemma check_limits_pure:
  "check_limits H pure_backend i x b m = (Inr d, m') \<longleftrightarrow>
    m' = m \<and> d = day_of H m b \<and> cfg64 H m BBlocksPerDay DEFAULT_BLOCKS_PER_DAY \<noteq> 0 \<and> unat (daily H m i d) + unat x < 2 ^ 128 \<and>
    unat (daily H m i d) + unat x \<le> unat (daily_limit_of H m i) \<and> x \<le> cfg128 H m (BMaxTx i) DEFAULT_MAX_PER_TX"
  by (auto simp: check_limits_def bridge_reads bridge_slots [of H] smonad_Inr bload_pure cfg_pure sret_def Let_def day_of_def
      checked_add_def word_le_nat_alt word_less_nat_alt unat_add_no_overflow not_less split: if_splits)

text \<open>The checks every transfer over the bridge starts with.\<close>

definition bridge_open :: "(bytes \<Rightarrow> u256) \<Rightarrow> evm_storage \<Rightarrow> u64 \<Rightarrow> bool" where
  "bridge_open H m i \<longleftrightarrow> i \<noteq> 0 \<and> u256_to_address (m ASSET_ADDRESS (slot_asset_meta H i (bstr ''issuer''))) \<noteq> 0 \<and> to_be_bytes (bget H m BPaused) ! 31 = 0"

lemma validate_basic_pure: "validate_basic H pure_backend i m = (Inr (), m') \<longleftrightarrow> m' = m \<and> bridge_open H m i"
  by (auto simp: validate_basic_def asset_registered_def bridge_reads bridge_slots [of H] smonad_Inr bload_pure sret_def bridge_open_def)

text \<open>The source contract and the asset the configuration admits.\<close>

definition allowed_asset :: "(bytes \<Rightarrow> u256) \<Rightarrow> evm_storage \<Rightarrow> u64 \<Rightarrow> bool" where
  "allowed_asset H m i = (if bget H m (BAllowed i) = 0 then i = CALL_ASSET_ID else to_be_bytes (bget H m (BAllowed i)) ! 31 \<noteq> 0)"

definition authorized_source :: "(bytes \<Rightarrow> u256) \<Rightarrow> evm_storage \<Rightarrow> u64 \<Rightarrow> address \<Rightarrow> bool" where
  "authorized_source H m c ct \<longleftrightarrow> bget H m (BAuthorized c ct) \<noteq> 0 \<and> to_be_bytes (bget H m (BAuthorized c ct)) ! 31 \<noteq> 0"

lemma admitted_pure:
  "read_asset_allowed H pure_backend i m = (Inr (allowed_asset H m i), m)"
  "read_authorized_contract H pure_backend c ct m = (Inr (authorized_source H m c ct), m)"
  by (simp_all add: bridge_reads bridge_slots [of H] bload_pure sret_def allowed_asset_def authorized_source_def sbind_run)

text \<open>Whether a source transaction counts as already seen at a block.\<close>

definition seen :: "(bytes \<Rightarrow> u256) \<Rightarrow> evm_storage \<Rightarrow> u256 \<Rightarrow> u64 \<Rightarrow> bool" where
  "seen H m h b \<longleftrightarrow> bget H m (BProcessed h) \<noteq> 0 \<and>
     saturating_sub b (u256_to_u64 (bget H m (BProcessed h))) \<le> cfg64 H m BRetention DEFAULT_PROCESSED_RETENTION"

lemma seen_pure: "is_processed H pure_backend h b m = (Inr (seen H m h b), m)"
  by (simp add: is_processed_pure seen_def)

text \<open>The two credits of a deposit, the net amount to the recipient and the fee to the bridge.\<close>

definition deposit_credit :: "(bytes \<Rightarrow> u256) \<Rightarrow> u64 \<Rightarrow> address \<Rightarrow> u128 \<Rightarrow> u128 \<Rightarrow> (evm_storage, asset_error, unit) smonad" where
  "deposit_credit H i r net fee =
     sbind (add_balance H pure_backend i r net) (\<lambda>_. if 0 < fee then add_balance H pure_backend i BRIDGE_ADDRESS fee else sret ())"

text \<open>The bridge contract's own writes of an accepted deposit, in the order of the code.\<close>

definition deposit_record :: "(bytes \<Rightarrow> u256) \<Rightarrow> u256 \<Rightarrow> u64 \<Rightarrow> address \<Rightarrow> u128 \<Rightarrow> u128 \<Rightarrow> address \<Rightarrow> u64 \<Rightarrow> u64 \<Rightarrow> u128 \<Rightarrow> evm_storage \<Rightarrow> evm_storage" where
  "deposit_record H h i r net tot v b d used m =
     bput H (BValidator h) (address_to_u256 v) (bput H (BHeight h) (u64_to_u256 b) (bput H (BAmount h) (u128_to_u256 net)
     (bput H (BRecipient h) (address_to_u256 r) (bput H (BAsset h) (u64_to_u256 i) (bput H (BProcessed h) (u64_to_u256 b)
     (bput H (BDailyUsed i d) (u128_to_u256 used) (bput H BTotalDep (u128_to_u256 tot) m)))))))"

lemma add_balance_bridge: "add_balance H pure_backend i a x m = (r, m') \<Longrightarrow> m' BRIDGE_ADDRESS = m BRIDGE_ADDRESS"
  by (auto simp: add_balance_pure Let_def sput_def split: if_splits)

lemma deposit_credit_bridge: "deposit_credit H i r net fee m = (Inr (), m') \<Longrightarrow> m' BRIDGE_ADDRESS = m BRIDGE_ADDRESS"
  by (auto simp: deposit_credit_def smonad_Inr sret_def dest!: add_balance_bridge split: if_splits)

lemma deposit_writes:
  "add_total_deposits pure_backend y m =
     (case checked_add (u256_to_u128 (bget H m BTotalDep)) y of None \<Rightarrow> (Inl B_BalanceOverflow, m)
      | Some t \<Rightarrow> (Inr (), bput H BTotalDep (u128_to_u256 t) m))"
  "record_daily_used H pure_backend i x d m = (Inr (), bput H (BDailyUsed i d) (u128_to_u256 (saturating_add (daily H m i d) x)) m)"
proof -
  show "add_total_deposits pure_backend y m =
     (case checked_add (u256_to_u128 (bget H m BTotalDep)) y of None \<Rightarrow> (Inl B_BalanceOverflow, m)
      | Some t \<Rightarrow> (Inr (), bput H BTotalDep (u128_to_u256 t) m))"
    unfolding add_total_deposits_def get_total_deposits_def bridge_slots [of H] sbind_run bload_pure bstore_pure sret_def sok_or_def sfail_def
    by (simp add: checked_add_def)
  show "record_daily_used H pure_backend i x d m = (Inr (), bput H (BDailyUsed i d) (u128_to_u256 (saturating_add (daily H m i d) x)) m)"
    unfolding record_daily_used_def read_daily_used_def bridge_slots [of H] sbind_run bload_pure bstore_pure sret_def by simp
qed

lemma fee_credit:
  "sbind (asset_step (add_balance H pure_backend i r y)) (\<lambda>_.
   sbind (if 0 < fee then asset_step (add_balance H pure_backend i BRIDGE_ADDRESS fee) else sret ()) f) =
   sbind (asset_step (deposit_credit H i r y fee)) f"
proof (rule ext)
  fix s
  obtain q s1 where 1: "add_balance H pure_backend i r y s = (q, s1)" by fastforce
  obtain p s2 where 2: "add_balance H pure_backend i BRIDGE_ADDRESS fee s1 = (p, s2)" by fastforce
  show "sbind (asset_step (add_balance H pure_backend i r y)) (\<lambda>_.
     sbind (if 0 < fee then asset_step (add_balance H pure_backend i BRIDGE_ADDRESS fee) else sret ()) f) s =
     sbind (asset_step (deposit_credit H i r y fee)) f s"
    by (cases q; cases p; simp add: deposit_credit_def asset_step_def smap_err_def sbind_def sret_def 1 2)
qed

lemma guard_run: "sbind (sguard c e) f s = (Inr y, s') \<longleftrightarrow> \<not> c \<and> f () s = (Inr y, s')"
  by (auto simp: smonad_Inr)

lemma read_run: "m s = (Inr v, s1) \<Longrightarrow> sbind m f s = (Inr y, s') \<longleftrightarrow> f v s1 = (Inr y, s')"
  by simp

lemma validate_run: "sbind (validate_basic H pure_backend i) f m = (Inr y, m') \<longleftrightarrow> bridge_open H m i \<and> f () m = (Inr y, m')"
  by (auto simp: smonad_Inr validate_basic_pure)

lemma store_run: "sbind (bstore pure_backend k v) f m = (Inr y, m') \<longleftrightarrow> f () (sput BRIDGE_ADDRESS k v m) = (Inr y, m')"
  by (simp add: smonad_Inr bstore_pure)

lemma fee_pure: "read_bridge_fee H pure_backend m = (Inr (bridge_fee_of H m), m)"
  by (simp add: read_bridge_fee_def bridge_slots [of H] cfg_pure)

lemma limits_run: "sbind (check_limits H pure_backend i x b) f m = (Inr y, m') \<longleftrightarrow>
    check_limits H pure_backend i x b m = (Inr (day_of H m b), m) \<and> f (day_of H m b) m = (Inr y, m')"
  unfolding sbind_eq_Inr check_limits_pure by blast

lemma asset_run:
  fixes p :: "(evm_storage, asset_error, unit) smonad"
  shows "sbind (asset_step p) f m = (Inr y, m') \<longleftrightarrow> (\<exists>m1. p m = (Inr (), m1) \<and> f () m1 = (Inr y, m'))"
  by (simp add: sbind_eq_Inr asset_step_Inr)

lemma total_run: "sbind (add_total_deposits pure_backend z) f m = (Inr y, m') \<longleftrightarrow>
    (\<exists>t. checked_add (u256_to_u128 (bget H m BTotalDep)) z = Some t \<and> f () (bput H BTotalDep (u128_to_u256 t) m) = (Inr y, m'))"
  by (cases "checked_add (u256_to_u128 (bget H m BTotalDep)) z"; simp only: sbind_eq_Inr deposit_writes [where H = H] option.case) auto

lemma deposit_pure:
  "external_deposit H pure_backend c ct h i r x v b m = (Inr y, m') \<longleftrightarrow>
     x \<noteq> 0 \<and> r \<noteq> 0 \<and> h \<noteq> 0 \<and> \<not> seen H m h b \<and> bridge_open H m i \<and> allowed_asset H m i \<and> authorized_source H m c ct \<and>
     check_limits H pure_backend i x b m = (Inr (day_of H m b), m) \<and> bridge_fee_of H m < x \<and>
     (\<exists>m1. deposit_credit H i r (x - bridge_fee_of H m) (bridge_fee_of H m) m = (Inr (), m1) \<and>
        (\<exists>t. checked_add (u256_to_u128 (bget H m1 BTotalDep)) (x - bridge_fee_of H m) = Some t \<and>
             x - bridge_fee_of H m = y \<and>
             deposit_record H h i r (x - bridge_fee_of H m) t v b (day_of H m b)
               (saturating_add (daily H (bput H BTotalDep (u128_to_u256 t) m1) i (day_of H m b)) x) m1 = m'))"
  unfolding external_deposit_def Let_def fee_credit
  by (simp only: guard_run validate_run store_run read_run [OF seen_pure] limits_run asset_run
        total_run [where H = H] read_run [OF deposit_writes(2)]
        read_run [OF admitted_pure(1)] read_run [OF admitted_pure(2)] read_run [OF fee_pure] bridge_slots [of H]
        not_not not_le sret_def prod.inject sum.inject deposit_record_def)

text \<open>
  What an accepted deposit has checked, and the storage it leaves: both totals and the record are written,
  the asset's balances are credited, and nothing else.
\<close>

lemma deposit_run:
  assumes run: "external_deposit H pure_backend c ct h i r x v b m = (Inr y, m')"
    and lay: "bridge_layout_ok H K" "BTotalDep \<in> K" "BDailyUsed i (day_of H m b) \<in> K"
  obtains m1 t where "x \<noteq> 0" "r \<noteq> 0" "h \<noteq> 0" "\<not> seen H m h b" "bridge_open H m i" "allowed_asset H m i" "authorized_source H m c ct"
    "bridge_fee_of H m < x" "y = x - bridge_fee_of H m"
    "unat (daily H m i (day_of H m b)) + unat x < 2 ^ 128" "unat (daily H m i (day_of H m b)) + unat x \<le> unat (daily_limit_of H m i)"
    "deposit_credit H i r y (bridge_fee_of H m) m = (Inr (), m1)" "checked_add (u256_to_u128 (bget H m BTotalDep)) y = Some t"
    "m' = deposit_record H h i r y t v b (day_of H m b) (daily H m i (day_of H m b) + x) m1"
proof -
  from run obtain m1 t where
    cl: "check_limits H pure_backend i x b m = (Inr (day_of H m b), m)"
    and a: "deposit_credit H i r y (bridge_fee_of H m) m = (Inr (), m1)"
    and t: "checked_add (u256_to_u128 (bget H m1 BTotalDep)) y = Some t"
    and m': "m' = deposit_record H h i r y t v b (day_of H m b)
      (saturating_add (daily H (bput H BTotalDep (u128_to_u256 t) m1) i (day_of H m b)) x) m1"
    unfolding deposit_pure by (elim conjE exE) simp
  have b: "m1 BRIDGE_ADDRESS = m BRIDGE_ADDRESS" by (rule deposit_credit_bridge [OF a])
  from cl have lim: "unat (daily H m i (day_of H m b)) + unat x < 2 ^ 128"
    "unat (daily H m i (day_of H m b)) + unat x \<le> unat (daily_limit_of H m i)"
    unfolding check_limits_pure by blast+
  have "daily H (bput H BTotalDep (u128_to_u256 t) m1) i (day_of H m b) = daily H m i (day_of H m b)"
    using lay b by (simp add: bget_bput [where K = K])
  with m' lim(1) have m'': "m' = deposit_record H h i r y t v b (day_of H m b) (daily H m i (day_of H m b) + x) m1"
    by (simp add: saturating_add_def)
  from run have "x \<noteq> 0 \<and> r \<noteq> 0 \<and> h \<noteq> 0 \<and> \<not> seen H m h b \<and> bridge_open H m i \<and> allowed_asset H m i \<and> authorized_source H m c ct
      \<and> bridge_fee_of H m < x \<and> y = x - bridge_fee_of H m"
    unfolding deposit_pure by (elim conjE exE) simp
  with lim a t [unfolded b] m'' show thesis by (elim conjE) (rule that [of m1 t])
qed

section \<open>The proof of a challenge, stored in words and read back\<close>

fun put_chunks :: "(bytes \<Rightarrow> u256) \<Rightarrow> u256 \<Rightarrow> nat \<Rightarrow> bytes list \<Rightarrow> evm_storage \<Rightarrow> evm_storage" where
  "put_chunks H h i [] m = m"
| "put_chunks H h i (c # cs) m = put_chunks H h (Suc i) cs (bput H (BChunk h (of_nat i)) (from_be_bytes (c @ replicate (32 - length c) 0)) m)"

lemma store_chunks_pure: "store_chunks H pure_backend h i cs m = (Inr (), put_chunks H h i cs m)"
  by (induction cs arbitrary: i m) (simp_all add: sret_def bstore_pure bridge_slots [of H] sbind_run)

lemma put_chunks_other:
  assumes "bridge_layout_ok H K" "k \<in> K" "\<And>j. i \<le> j \<Longrightarrow> j < i + length cs \<Longrightarrow> BChunk h (of_nat j) \<in> K \<and> k \<noteq> BChunk h (of_nat j)"
  shows "bget H (put_chunks H h i cs m) k = bget H m k"
  using assms(3)
proof (induction cs arbitrary: i m)
  case (Cons c cs)
  have "BChunk h (of_nat i) \<in> K \<and> k \<noteq> BChunk h (of_nat i)" using Cons.prems [of i] by simp
  with assms(1,2) show ?case using Cons.prems by (simp add: Cons.IH bget_bput [where K = K])
qed simp

lemma put_chunks_away: "put_chunks H h i cs m a = m a" if "a \<noteq> BRIDGE_ADDRESS"
  using that by (induction cs arbitrary: i m) (simp_all add: sput_def)

lemma length_chunks32: "length (chunks32 bs) = (length bs + 31) div 32"
proof (induction bs rule: chunks32.induct)
  case (1 bs)
  show ?case
  proof (cases "bs = []")
    case False
    then have "length (chunks32 bs) = Suc ((length bs - 32 + 31) div 32)" using 1 by (simp add: chunks32.simps [of bs])
    also have "\<dots> = (length bs + 31) div 32" using False by (cases "32 \<le> length bs") (auto simp: div_add_self1 neq_Nil_conv Suc_diff_le)
    finally show ?thesis .
  qed (simp add: chunks32.simps)
qed

lemma chunk_index: "a < 512 \<Longrightarrow> b < 512 \<Longrightarrow> (of_nat a :: u64) = of_nat b \<longleftrightarrow> a = b" "a < 512 \<Longrightarrow> unat (of_nat a :: u64) = a"
  by (simp_all add: word_unat_eq_iff unat_of_nat)

lemma put_chunks_at:
  assumes "bridge_layout_ok H K" "\<And>j. j < 512 \<Longrightarrow> BChunk h (of_nat j) \<in> K"
  shows "i + length cs \<le> 512 \<Longrightarrow> j < length cs \<Longrightarrow>
    bget H (put_chunks H h i cs m) (BChunk h (of_nat (i + j))) = from_be_bytes (cs ! j @ replicate (32 - length (cs ! j)) 0)"
proof (induction cs arbitrary: i j m)
  case (Cons c cs)
  show ?case
  proof (cases j)
    case 0
    have "bget H (put_chunks H h (Suc i) cs n) (BChunk h (of_nat i)) = bget H n (BChunk h (of_nat i))" for n
      using Cons.prems by (intro put_chunks_other [OF assms(1)] conjI assms(2)) (simp_all add: chunk_index)
    with 0 show ?thesis by (simp add: sput_apply)
  next
    case (Suc l)
    then show ?thesis using Cons.IH [of "Suc i" l] Cons.prems by simp
  qed
qed simp

lemma load_chunks_read:
  assumes "\<And>j. j < length (chunks32 bs) \<Longrightarrow>
      bget H m (BChunk h (of_nat (i + j))) = from_be_bytes (chunks32 bs ! j @ replicate (32 - length (chunks32 bs ! j)) 0)"
  shows "load_chunks H pure_backend h (length acc + length bs) i (length (chunks32 bs)) acc m = (Inr (acc @ bs) :: 'e + bytes, m)"
  using assms
proof (induction bs arbitrary: i acc rule: chunks32.induct)
  case (1 bs)
  show ?case
  proof (cases "bs = []")
    case False
    let ?c = "take 32 bs" and ?r = "drop 32 bs"
    have ch: "chunks32 bs = ?c # chunks32 ?r" using False by (simp add: chunks32.simps [of bs])
    have w: "to_be_bytes (bget H m (BChunk h (of_nat i))) = ?c @ replicate (32 - length ?c) 0"
      using "1.prems" [of 0] by (simp add: ch to_from_be_bytes_u256)
    have t: "take (min 32 (length bs)) (?c @ replicate (32 - length ?c) 0) = ?c" by (cases "length bs \<le> 32") simp_all
    have "load_chunks H pure_backend h (length (acc @ ?c) + length ?r) (Suc i) (length (chunks32 ?r)) (acc @ ?c) m = (Inr ((acc @ ?c) @ ?r) :: 'e + bytes, m)"
    proof (rule "1.IH" [OF False])
      fix j assume "j < length (chunks32 ?r)"
      then show "bget H m (BChunk h (of_nat (Suc i + j))) = from_be_bytes (chunks32 ?r ! j @ replicate (32 - length (chunks32 ?r ! j)) 0)"
        using "1.prems" [of "Suc j"] by (simp add: ch)
    qed
    moreover have "length (acc @ ?c) + length ?r = length acc + length bs" "take (min 32 (length bs)) bs = ?c"
      by (cases "length bs \<le> 32"; simp)+
    ultimately show ?thesis by (simp add: ch sbind_run bload_pure bridge_slots [of H] w t del: length_append)
  qed (simp add: chunks32.simps sret_def)
qed

lemma num_chunks_length: "length bs < 2 ^ 63 \<Longrightarrow> num_chunks (of_nat (length bs)) = length (chunks32 bs)"
  by (simp add: num_chunks_def length_chunks32 unat_div unat_of_nat unat_add_no_overflow)

section \<open>A challenge\<close>

definition status_of :: "(bytes \<Rightarrow> u256) \<Rightarrow> evm_storage \<Rightarrow> u256 \<Rightarrow> challenge_status" where
  "status_of H m h = (let s = (ucast (bget H m (BStatus h)) :: 8 word) in
     if s = 1 then CS_Pending else if s = 2 then CS_Successful else if s = 3 then CS_Failed else if s = 4 then CS_Withdrawn else CS_None)"

abbreviation period_of :: "(bytes \<Rightarrow> u256) \<Rightarrow> evm_storage \<Rightarrow> u64" where
  "period_of H m \<equiv> cfg64 H m BPeriod DEFAULT_CHALLENGE_PERIOD"

abbreviation bond_of :: "(bytes \<Rightarrow> u256) \<Rightarrow> evm_storage \<Rightarrow> u128" where
  "bond_of H m \<equiv> cfg128 H m BBondAmount DEFAULT_CHALLENGE_BOND"

lemma reads_pure:
  "read_challenge_status H pure_backend h m = (Inr (status_of H m h), m)"
  "read_challenge_deadline H pure_backend h m = (Inr (u256_to_u64 (bget H m (BDeadline h))), m)"
  "read_challenge_bond_for_tx H pure_backend h m = (Inr (u256_to_u128 (bget H m (BBond h))), m)"
  "read_challenge_challenger H pure_backend h m = (Inr (u256_to_address (bget H m (BChallenger h))), m)"
  "read_deposit_asset_id H pure_backend h m = (Inr (u256_to_u64 (bget H m (BAsset h))), m)"
  "read_deposit_recipient H pure_backend h m = (Inr (u256_to_address (bget H m (BRecipient h))), m)"
  "read_deposit_amount H pure_backend h m = (Inr (u256_to_u128 (bget H m (BAmount h))), m)"
  "read_deposit_block_height H pure_backend h m = (Inr (u256_to_u64 (bget H m (BHeight h))), m)"
  "read_challenge_period H pure_backend m = (Inr (period_of H m), m)"
  "read_global_challenge_bond H pure_backend m = (Inr (bond_of H m), m)"
  by (simp_all add: bridge_reads bridge_slots [of H] sbind_run bload_pure cfg_pure sret_def status_of_def to_be_bytes_last Let_def)

lemmas read_runs = reads_pure [THEN read_run]

lemma load_run: "sbind (bload pure_backend (bridge_slot H k)) f m = (Inr y, m') \<longleftrightarrow> f (bget H m k) m = (Inr y, m')"
  by (simp add: bload_pure)

lemma ok_run: "sbind (sok_or e z) f m = (Inr y, m') \<longleftrightarrow> (\<exists>t. z = Some t \<and> f t m = (Inr y, m'))"
  by (cases z) (simp_all add: sok_or_def sfail_def sret_def sbind_run)

text \<open>What an accepted challenge writes beside the words of its proof.\<close>

definition challenge_record :: "(bytes \<Rightarrow> u256) \<Rightarrow> u256 \<Rightarrow> address \<Rightarrow> u64 \<Rightarrow> u128 \<Rightarrow> bytes \<Rightarrow> evm_storage \<Rightarrow> evm_storage" where
  "challenge_record H h c dl bond pd m =
     bput H (BProofLen h) (u64_to_u256 (of_nat (length pd))) (bput H (BProofHash h) (H pd) (bput H (BBond h) (u128_to_u256 bond)
     (bput H (BDeadline h) (u64_to_u256 dl) (bput H (BChallenger h) (address_to_u256 c) (bput H (BStatus h) 1 m)))))"

lemma initiate_pure:
  "initiate_challenge H pure_backend h pd c b m = (Inr y, m') \<longleftrightarrow>
     u256_to_u64 (bget H m (BHeight h)) \<noteq> 0 \<and> status_of H m h = CS_None \<and>
     (\<exists>cd. checked_add (u256_to_u64 (bget H m (BHeight h))) (period_of H m) = Some cd \<and>
        b < cd \<and> \<not> (length pd < 32 \<or> MAX_PROOF_LEN < length pd) \<and>
        (\<exists>m1. deduct_balance H pure_backend CALL_ASSET_ID c (bond_of H m) m = (Inr (), m1) \<and>
          (\<exists>dl. checked_add b (period_of H m) = Some dl \<and>
             () = y \<and> put_chunks H h 0 (chunks32 pd) (challenge_record H h c dl (bond_of H m) pd m1) = m')))"
  unfolding initiate_challenge_def
  by (simp only: read_runs guard_run ok_run asset_run store_run store_chunks_pure bridge_slots [of H] not_not not_le
      sret_def prod.inject sum.inject challenge_record_def)

section \<open>The resolution of a challenge\<close>

lemma slash_keeps:
  assumes v: "\<And>s v m. obs (sput VALIDATOR_ADDRESS s v m) = obs m"
    and e: "\<And>v m. obs (aput (asset_slot H (Bal_Key CALL_ASSET_ID STAKING_ESCROW)) v m) = obs m"
  shows "keeps obs (slash_stake H pure_backend a)"
proof -
  have s: "keeps obs (mstore pure_backend VALIDATOR_ADDRESS k w :: (_, 'e, _) smonad)" for k w by (simp add: keeps_def v)
  have d: "keeps obs (deduct_balance H pure_backend CALL_ASSET_ID STAKING_ESCROW x)" for x
    by (simp add: keeps_def deduct_balance_pure Let_def e)
  have f: "keeps obs (find_unbonding H pure_backend z i n :: (_, 'e, _) smonad)" for z i n
    by (induction n arbitrary: i) (auto intro!: keep_intros)
  have r: "keeps obs (remove_from_unbonding_queue H pure_backend z)" for z
    unfolding remove_from_unbonding_queue_def vs_defs by (intro keep_intros s f)
  have c: "keeps obs (clear_validator_state H pure_backend b z :: (_, 'e, _) smonad)" for b z
    unfolding clear_validator_state_def by (intro keep_intros s)
  show ?thesis unfolding slash_stake_def vs_defs by (intro keep_intros s d r c)
qed

lemma slash_bridge: "slash_stake H pure_backend a m = (r, m') \<Longrightarrow> m' BRIDGE_ADDRESS = m BRIDGE_ADDRESS"
  by (rule keepsD [OF slash_keeps [where obs = "\<lambda>m. m BRIDGE_ADDRESS"]]) (simp_all add: sput_def)

lemma deduct_bridge: "deduct_balance H pure_backend i a x m = (r, m') \<Longrightarrow>
    m' BRIDGE_ADDRESS = m BRIDGE_ADDRESS \<and> m' VALIDATOR_ADDRESS = m VALIDATOR_ADDRESS"
  by (auto simp: deduct_balance_pure Let_def sput_def split: if_splits)

lemma sub_total_run: "sbind (sub_total_deposits pure_backend z) f m = (Inr y, m') \<longleftrightarrow>
    (\<exists>t. checked_sub (u256_to_u128 (bget H m BTotalDep)) z = Some t \<and> f () (bput H BTotalDep (u128_to_u256 t) m) = (Inr y, m'))"
  unfolding sub_total_deposits_def get_total_deposits_def bridge_slots [of H]
  by (auto simp: sbind_eq_Inr bload_pure bstore_pure sret_def sok_or_eq_Inr)

lemma zero_chunks_pure: "zero_chunks H pure_backend h i n m = (Inr (), put_chunks H h i (replicate n []) m)"
proof (induction n arbitrary: i m)
  case (Suc n)
  have "from_be_bytes (replicate 32 0) = (0 :: u256)" by (simp add: from_be_bytes_def be_nat_def numeral_eq_Suc)
  then show ?case by (simp add: Suc bstore_pure bridge_slots [of H])
qed (simp add: sret_def)

text \<open>The words a settled challenge leaves.\<close>

definition cleared :: "(bytes \<Rightarrow> u256) \<Rightarrow> u256 \<Rightarrow> bool \<Rightarrow> evm_storage \<Rightarrow> evm_storage" where
  "cleared H h keep m =
     (let n = num_chunks (u256_to_u64 (bget H m (BProofLen h))); m1 = put_chunks H h 0 (replicate n []) m;
          m2 = (if keep then m1 else bput H (BBond h) 0 (bput H (BChallenger h) 0 m1))
      in bput H (BValidator h) 0 (bput H (BProofLen h) 0 (bput H (BProofHash h) 0 (bput H (BDeadline h) 0 m2))))"

lemma clear_pure: "clear_challenge_metadata H pure_backend h keep m = (Inr (), cleared H h keep m)"
  by (simp add: clear_challenge_metadata_def cleared_def bload_pure bstore_pure zero_chunks_pure bridge_slots [of H] sret_def Let_def)

lemma cleared_away: "a \<noteq> BRIDGE_ADDRESS \<Longrightarrow> cleared H h keep m a = m a"
  by (simp add: cleared_def Let_def put_chunks_away sput_def)

text \<open>A fraud proof with no node at all is found valid: only the header has to hash to the hash it carries.\<close>

definition empty_proof :: "(bytes \<Rightarrow> u256) \<Rightarrow> proof_env \<Rightarrow> bytes \<Rightarrow> bool" where
  "empty_proof H E pd \<longleftrightarrow> (\<exists>hdr t. pe_decode E pd = Some \<lparr>fp_header = hdr, fp_proof_type = TxNonExistence, fp_mpt_nodes = []\<rparr> \<and>
     H (eh_rlp_bytes hdr) = eh_block_hash hdr \<and> transactions_root hdr = Returned (Some t))"

lemma empty_proof_valid: "empty_proof H E pd \<Longrightarrow> verify_fraud_proof_cryptographic H E B h pd = sret True"
  by (auto simp: empty_proof_def verify_fraud_proof_cryptographic_def run_parser_def verify_mpt_proof_def)

lemma stored_proof_read:
  assumes lay: "bridge_layout_ok H K" "\<And>j. j < 512 \<Longrightarrow> BChunk h (of_nat j) \<in> K"
    and "m = put_chunks H h 0 (chunks32 pd) n"
    and "bget H m (BProofHash h) = H pd" "H pd \<noteq> 0" "bget H m (BProofLen h) = u64_to_u256 (of_nat (length pd))"
    and len: "32 \<le> length pd" "length pd \<le> MAX_PROOF_LEN"
  shows "verify_fraud_proof H E pure_backend h m = verify_fraud_proof_cryptographic H E pure_backend h pd m"
proof -
  have l: "length pd \<le> 16384" using len by (simp add: MAX_PROOF_LEN_def)
  have u: "u256_to_u64 (u64_to_u256 (of_nat (length pd))) = of_nat (length pd)" "unat (of_nat (length pd) :: u64) = length pd"
    using l by (simp_all add: unat_of_nat)
  have c: "length (chunks32 pd) \<le> 512" using l by (simp add: length_chunks32)
  have "load_chunks H pure_backend h (length ([] :: bytes) + length pd) 0 (length (chunks32 pd)) [] m = (Inr ([] @ pd) :: bridge_error + bytes, m)"
  proof (rule load_chunks_read)
    fix j assume "j < length (chunks32 pd)"
    with put_chunks_at [OF lay, of 0 "chunks32 pd" j n] c
    show "bget H m (BChunk h (of_nat (0 + j))) = from_be_bytes (chunks32 pd ! j @ replicate (32 - length (chunks32 pd ! j)) 0)"
      by (simp add: assms(3))
  qed
  moreover have "num_chunks (of_nat (length pd)) = length (chunks32 pd)" using l by (intro num_chunks_length) simp
  moreover have "\<not> (of_nat (length pd) :: u64) < 32" using len(1) l by (simp add: word_less_nat_alt unat_of_nat)
  ultimately show ?thesis using assms(4-6) u
    by (simp add: verify_fraud_proof_def bload_pure bridge_slots [of H] Let_def)
qed

text \<open>A resolution that finds the proof valid, up to the point where the deposit is taken back.\<close>

lemma resolve_valid:
  assumes "status_of H m h = CS_Pending" "u256_to_u64 (bget H m (BDeadline h)) \<le> b"
    and "c = u256_to_address (bget H m (BChallenger h))"
    and "verify_fraud_proof H E pure_backend h m = (Inr True, m)"
    and slash: "slash_stake H pure_backend (u256_to_address (bget H m (BValidator h))) m = (Inr s, m1)"
  shows "resolve_challenge H E pure_backend h b c m =
    (sbind (smap_err (\<lambda>_. B_InsufficientBalance) (deduct_balance H pure_backend (u256_to_u64 (bget H m (BAsset h)))
        (u256_to_address (bget H m (BRecipient h))) (u256_to_u128 (bget H m (BAmount h))))) (\<lambda>_.
     sbind (sub_total_deposits pure_backend (u256_to_u128 (bget H m (BAmount h)))) (\<lambda>_.
     sbind (bstore pure_backend (bridge_slot H (BStatus h)) 2) (\<lambda>_.
     sbind (bstore pure_backend (bridge_slot H (BAsset h)) 0) (\<lambda>_.
     sbind (bstore pure_backend (bridge_slot H (BRecipient h)) 0) (\<lambda>_.
     sbind (bstore pure_backend (bridge_slot H (BAmount h)) 0) (\<lambda>_.
     sbind (bstore pure_backend (bridge_slot H (BHeight h)) 0) (\<lambda>_.
     sbind (clear_challenge_metadata H pure_backend h True) (\<lambda>_.
     sret (True, c)))))))))) m1"
proof -
  have "bget H m1 k = bget H m k" for k using slash_bridge [OF slash] by simp
  moreover have "smap_err (\<lambda>_. B_InvalidInput) (slash_stake H pure_backend (u256_to_address (bget H m (BValidator h)))) m = (Inr s, m1)"
    using slash by (simp add: smap_err_eq_Inr)
  moreover have "(b < u256_to_u64 (bget H m (BDeadline h))) = False" using assms(2) by simp
  ultimately show ?thesis using assms(1,3,4)
    by (simp add: resolve_challenge_def reads_pure bload_pure bridge_slots [of H] Let_def)
qed

lemma resolve_accepts:
  assumes v: "status_of H m h = CS_Pending" "u256_to_u64 (bget H m (BDeadline h)) \<le> b"
      "c = u256_to_address (bget H m (BChallenger h))" "verify_fraud_proof H E pure_backend h m = (Inr True, m)"
      "slash_stake H pure_backend (u256_to_address (bget H m (BValidator h))) m = (Inr s, m1)"
    and d: "deduct_balance H pure_backend (u256_to_u64 (bget H m (BAsset h))) (u256_to_address (bget H m (BRecipient h)))
      (u256_to_u128 (bget H m (BAmount h))) m1 = (Inr (), m2)"
    and t: "u256_to_u128 (bget H m (BAmount h)) \<le> u256_to_u128 (bget H m BTotalDep)"
  shows "\<exists>m3. resolve_challenge H E pure_backend h b c m = (Inr (True, c), m3) \<and>
    m3 ASSET_ADDRESS = m2 ASSET_ADDRESS \<and> m3 VALIDATOR_ADDRESS = m1 VALIDATOR_ADDRESS"
proof -
  have b: "m2 BRIDGE_ADDRESS = m BRIDGE_ADDRESS" "m2 VALIDATOR_ADDRESS = m1 VALIDATOR_ADDRESS"
    using slash_bridge [OF v(5)] deduct_bridge [OF d] by simp_all
  let ?t = "u256_to_u128 (bget H m BTotalDep) - u256_to_u128 (bget H m (BAmount h))"
  let ?m = "bput H (BHeight h) 0 (bput H (BAmount h) 0 (bput H (BRecipient h) 0 (bput H (BAsset h) 0 (bput H (BStatus h) 2
      (bput H BTotalDep (u128_to_u256 ?t) m2)))))"
  have "resolve_challenge H E pure_backend h b c m = (Inr (True, c), cleared H h True ?m)"
    unfolding resolve_valid [OF v] using t b d
    by (simp add: sbind_eq_Inr [of "smap_err _ _"] smap_err_eq_Inr sub_total_run [where H = H] bstore_pure clear_pure sret_def)
  moreover have "cleared H h True ?m ASSET_ADDRESS = m2 ASSET_ADDRESS" "cleared H h True ?m VALIDATOR_ADDRESS = m1 VALIDATOR_ADDRESS"
    using b by (simp_all add: cleared_away sput_def)
  ultimately show ?thesis by blast
qed

section \<open>What the operations leave alone\<close>

lemma keeps_bload [keep_intros]: "keeps obs (bload pure_backend k)"
  by (simp add: keeps_def bload_pure)

lemma keeps_bstore:
  assumes "bridge_layout_ok H K" "k \<in> K" "l \<in> K" "l \<noteq> k"
  shows "keeps (\<lambda>m. bget H m k) (bstore pure_backend (bridge_slot H l) v)"
  using assms by (simp add: keeps_def bstore_pure bget_bput [where K = K])

lemma keeps_cfg [keep_intros]:
  "keeps obs (load_u64_or_default pure_backend s d64)" "keeps obs (load_u128_or_default pure_backend s d128)"
  unfolding load_u64_or_default_def load_u128_or_default_def Let_def by (intro keep_intros)+

lemma keeps_bridge_reads [keep_intros]:
  "keeps obs (read_challenge_status H pure_backend h)" "keeps obs (read_challenge_deadline H pure_backend h)"
  "keeps obs (read_challenge_bond_for_tx H pure_backend h)" "keeps obs (read_challenge_challenger H pure_backend h)"
  "keeps obs (read_deposit_asset_id H pure_backend h)" "keeps obs (read_deposit_recipient H pure_backend h)"
  "keeps obs (read_deposit_amount H pure_backend h)" "keeps obs (get_total_deposits pure_backend)"
  "keeps obs (get_total_withdrawals pure_backend)" "keeps obs (read_bridge_fee H pure_backend)" "keeps obs (is_paused H pure_backend)"
  "keeps obs (read_max_external_withdraw_per_period H pure_backend)" "keeps obs (read_withdraw_period H pure_backend)"
  unfolding bridge_reads Let_def by (intro keep_intros)+

lemma keeps_asset_step [keep_intros]: "keeps obs m \<Longrightarrow> keeps obs (asset_step m)"
  unfolding asset_step_def by (intro keep_intros)

lemma keeps_balances [keep_intros]:
  "keeps (\<lambda>m. bget H m k) (add_balance G pure_backend i a x)" "keeps (\<lambda>m. bget H m k) (deduct_balance G pure_backend i a x)"
  by (simp_all add: keeps_def add_balance_pure deduct_balance_pure Let_def)

lemma keeps_load_chunks [keep_intros]: "keeps obs (load_chunks H pure_backend h l i n acc)"
  by (induction n arbitrary: i acc) (auto intro!: keep_intros)

lemma keeps_run_parser [keep_intros]: "(\<And>x. keeps obs (f x)) \<Longrightarrow> keeps obs (run_parser r f)"
  unfolding run_parser_def by (auto intro!: keep_intros split: option.split outcome.split)

lemma keeps_verify [keep_intros]: "keeps obs (verify_fraud_proof H E pure_backend h)"
proof -
  have "keeps obs (verify_fraud_proof_cryptographic H E pure_backend h pd)" for pd
    unfolding verify_fraud_proof_cryptographic_def
    by (auto intro!: keep_intros split: option.split sum.split fraud_proof_type.split)
  then show ?thesis unfolding verify_fraud_proof_def Let_def by (intro keep_intros)
qed

lemma keeps_slash [keep_intros]: "keeps (\<lambda>m. bget H m k) (slash_stake G pure_backend a)"
  by (rule slash_keeps) (simp_all add: sput_apply)

end
