(* ===== verification/Light_Client.thy ===== *)
theory Light_Client
  imports Rlp Fork
begin

text \<open>
  The Ethereum light client of the bridge: \<^verbatim>\<open>crates/light-client/src/beacon.rs\<close> (the beacon chain types and the message a
  sync committee signs) and \<^verbatim>\<open>crates/light-client/src/ethereum/client.rs\<close> (\<^verbatim>\<open>EthLightClient\<close>: the chain of verified headers, the
  buffer of early ones, reorganisations, the sync committee, inclusion proofs). The hash and the aggregate BLS
  verifier are parameters. An unwinding call is the error \<open>LC_Panic\<close>.
\<close>

section \<open>Beacon chain types\<close>

definition SYNC_COMMITTEE_SIZE :: nat where "SYNC_COMMITTEE_SIZE = 512"

definition DOMAIN_SYNC_COMMITTEE :: bytes where "DOMAIN_SYNC_COMMITTEE = [7, 0, 0, 0]"

definition NEXT_SYNC_COMMITTEE_BRANCH_DEPTH :: nat where "NEXT_SYNC_COMMITTEE_BRANCH_DEPTH = 5"

definition FINALIZED_BRANCH_DEPTH :: nat where "FINALIZED_BRANCH_DEPTH = 6"

definition from_le_bytes :: "bytes \<Rightarrow> 'a::len word" where
  "from_le_bytes bs = from_be_bytes (rev bs)"

text \<open>\<open>n\<close> bytes of \<open>data\<close> from position \<open>i\<close> on.\<close>

definition field :: "bytes \<Rightarrow> nat \<Rightarrow> nat \<Rightarrow> bytes" where
  "field data i n = take n (drop i data)"

record beacon_header =
  bb_slot :: u64
  bb_proposer_index :: u64
  bb_parent_root :: u256
  bb_state_root :: u256
  bb_body_root :: u256

definition header_from_ssz :: "bytes \<Rightarrow> beacon_header option" where
  "header_from_ssz data =
     (if length data < 112 then None
      else Some \<lparr>bb_slot = from_le_bytes (field data 0 8), bb_proposer_index = from_le_bytes (field data 8 8),
        bb_parent_root = from_be_bytes (field data 16 32), bb_state_root = from_be_bytes (field data 48 32),
        bb_body_root = from_be_bytes (field data 80 32)\<rparr>)"

definition header_tree_root :: "(bytes \<Rightarrow> u256) \<Rightarrow> beacon_header \<Rightarrow> u256" where
  "header_tree_root H h = H (to_le_bytes (bb_slot h) @ to_le_bytes (bb_proposer_index h) @ to_be_bytes (bb_parent_root h)
     @ to_be_bytes (bb_state_root h) @ to_be_bytes (bb_body_root h) @ replicate 16 0)"

record sync_committee =
  sy_pubkeys :: "bytes list"
  sy_aggregate_pubkey :: bytes

definition committee_from_ssz :: "bytes \<Rightarrow> sync_committee option" where
  "committee_from_ssz data =
     (if length data < SYNC_COMMITTEE_SIZE * 48 + 48 then None
      else Some \<lparr>sy_pubkeys = map (\<lambda>i. field data (i * 48) 48) [0..<SYNC_COMMITTEE_SIZE],
        sy_aggregate_pubkey = field data (SYNC_COMMITTEE_SIZE * 48) 48\<rparr>)"

text \<open>The validators whose bit is set; the bits of a byte count from the lowest.\<close>

definition participants :: "bytes \<Rightarrow> nat list" where
  "participants bits = concat (map (\<lambda>(byte_idx, b).
     filter (\<lambda>v. v < SYNC_COMMITTEE_SIZE) (map (\<lambda>j. byte_idx * 8 + j) (filter (bit b) [0..<8]))) (List.enumerate 0 bits))"

definition participant_pubkeys :: "sync_committee \<Rightarrow> bytes \<Rightarrow> bytes list outcome" where
  "participant_pubkeys c bits =
     (if \<forall>v\<in>set (participants bits). v < length (sy_pubkeys c)
      then Returned (map (\<lambda>v. sy_pubkeys c ! v) (participants bits)) else Panicked)"

record sync_aggregate =
  sa_bits :: bytes
  sa_signature :: bytes

definition aggregate_from_ssz :: "bytes \<Rightarrow> sync_aggregate option" where
  "aggregate_from_ssz data =
     (if length data < 160 then None else Some \<lparr>sa_bits = field data 0 64, sa_signature = field data 64 96\<rparr>)"

definition participant_count :: "sync_aggregate \<Rightarrow> nat" where
  "participant_count a = sum_list (map (\<lambda>b. length (filter (bit b) [0..<8])) (sa_bits a))"

record light_client_update =
  lu_attested_header :: beacon_header
  lu_next_sync_committee :: sync_committee
  lu_next_sync_committee_branch :: "u256 list"
  lu_finalized_header :: beacon_header
  lu_finality_branch :: "u256 list"
  lu_sync_aggregate :: sync_aggregate
  lu_signature_slot :: u64

definition update_from_ssz :: "bytes \<Rightarrow> light_client_update option" where
  "update_from_ssz data =
     (if length data < 112 + 24624 + 160 + 112 + 192 + 160 + 8 then None
      else
        Option.bind (header_from_ssz data) (\<lambda>attested.
        Option.bind (committee_from_ssz (drop 112 data)) (\<lambda>committee.
        Option.bind (header_from_ssz (drop 24896 data)) (\<lambda>finalized.
        Option.bind (aggregate_from_ssz (drop 25200 data)) (\<lambda>aggregate.
        Some \<lparr>lu_attested_header = attested, lu_next_sync_committee = committee,
          lu_next_sync_committee_branch = map (\<lambda>i. from_be_bytes (field data (24736 + 32 * i) 32)) [0..<NEXT_SYNC_COMMITTEE_BRANCH_DEPTH],
          lu_finalized_header = finalized,
          lu_finality_branch = map (\<lambda>i. from_be_bytes (field data (25008 + 32 * i) 32)) [0..<FINALIZED_BRANCH_DEPTH],
          lu_sync_aggregate = aggregate, lu_signature_slot = from_le_bytes (field data 25360 8)\<rparr>)))))"

record signing_data =
  sd_object_root :: u256
  sd_domain :: bytes

definition signing_tree_root :: "(bytes \<Rightarrow> u256) \<Rightarrow> signing_data \<Rightarrow> u256" where
  "signing_tree_root H d = H (to_be_bytes (sd_object_root d) @ sd_domain d)"

definition compute_domain_sync_committee :: "(bytes \<Rightarrow> u256) \<Rightarrow> bytes \<Rightarrow> u256 \<Rightarrow> bytes" where
  "compute_domain_sync_committee H fork_version genesis_validators_root =
     DOMAIN_SYNC_COMMITTEE @ take 28 (to_be_bytes (H (fork_version @ to_be_bytes genesis_validators_root)))"

definition compute_sync_committee_signing_root :: "(bytes \<Rightarrow> u256) \<Rightarrow> beacon_header \<Rightarrow> bytes \<Rightarrow> u256 \<Rightarrow> u256" where
  "compute_sync_committee_signing_root H h fork_version genesis_validators_root =
     signing_tree_root H \<lparr>sd_object_root = header_tree_root H h,
       sd_domain = compute_domain_sync_committee H fork_version genesis_validators_root\<rparr>"

definition sync_period :: "u64 \<Rightarrow> u64" where
  "sync_period slot = slot div 8192"

section \<open>The state of the light client\<close>

record anchor_state =
  an_anchor_hash :: u256
  an_anchor_block :: u64
  an_state_root :: u256

record beacon_config =
  bc_fork_version :: bytes
  bc_genesis_validators_root :: u256

datatype light_client_error =
    LC_InvalidHeader string | LC_ParentHashMismatch u64 u256 u256 | LC_HeaderNotFound u64 | LC_HeaderNotVerified u64 u64
  | LC_TxNotFound | LC_ReceiptNotFound | LC_BridgeEventNotFound | LC_LogParseError rlp_error | LC_MptProofError "string + mpt_error"
  | LC_NotInitialized | LC_BeforeAnchor u64 | LC_DuplicateHeader u64 | LC_BeforeFinalized u64 | LC_BufferFull
  | LC_AnchorNotVerified u64 | LC_SyncCommitteeSignatureInvalid string | LC_SyncCommitteeUpdateFailed string
  | LC_AlreadyInitialized | LC_InsufficientSyncParticipation nat nat | LC_Panic

text \<open>A \<^verbatim>\<open>HashMap\<close> is an association list, the \<^verbatim>\<open>BTreeMap\<close> of the buffer one in ascending key order.\<close>

record light_client =
  lc_genesis :: anchor_state
  lc_verified_headers :: "(u64 \<times> eth_header) list"
  lc_latest_block :: u64
  lc_finalized_block :: "(u64 \<times> u256) option"
  lc_buffer :: "(u64 \<times> eth_header) list"
  lc_beacon_config :: "beacon_config option"
  lc_sync_committee :: "sync_committee option"
  lc_current_sync_period :: u64

definition MAX_BUFFER_SIZE :: nat where "MAX_BUFFER_SIZE = 64"

definition init_with_beacon_config :: "anchor_state \<Rightarrow> beacon_config option \<Rightarrow> light_client" where
  "init_with_beacon_config genesis config =
     \<lparr>lc_genesis = genesis,
      lc_verified_headers = [(an_anchor_block genesis, \<lparr>eh_rlp_bytes = [], eh_block_hash = an_anchor_hash genesis\<rparr>)],
      lc_latest_block = an_anchor_block genesis, lc_finalized_block = None, lc_buffer = [],
      lc_beacon_config = config, lc_sync_committee = None, lc_current_sync_period = 0\<rparr>"

definition lc_init :: "anchor_state \<Rightarrow> light_client" where
  "lc_init genesis = init_with_beacon_config genesis None"

definition is_header_verified :: "light_client \<Rightarrow> u64 \<Rightarrow> bool" where
  "is_header_verified c n \<longleftrightarrow> map_of (lc_verified_headers c) n \<noteq> None"

definition get_header :: "light_client \<Rightarrow> u64 \<Rightarrow> eth_header option" where
  "get_header c n = map_of (lc_verified_headers c) n"

definition anchor_block :: "light_client \<Rightarrow> u64" where
  "anchor_block c = an_anchor_block (lc_genesis c)"

definition finalized_block :: "light_client \<Rightarrow> u64 option" where
  "finalized_block c = map_option fst (lc_finalized_block c)"

definition set_finalized_block :: "u64 \<Rightarrow> u256 \<Rightarrow> light_client \<Rightarrow> light_client" where
  "set_finalized_block n h c = c\<lparr>lc_finalized_block := Some (n, h)\<rparr>"

definition is_consensus_verified :: "light_client \<Rightarrow> u64 \<Rightarrow> bool" where
  "is_consensus_verified c n = (case lc_finalized_block c of None \<Rightarrow> False | Some (m, _) \<Rightarrow> n \<le> m)"

section \<open>Headers\<close>

definition decoded :: "string \<Rightarrow> 'a option outcome \<Rightarrow> ('s, light_client_error, 'a) smonad" where
  "decoded what r =
     (case r of Panicked \<Rightarrow> sfail LC_Panic | Returned None \<Rightarrow> sfail (LC_InvalidHeader what) | Returned (Some x) \<Rightarrow> sret x)"

definition put_header :: "u64 \<Rightarrow> eth_header \<Rightarrow> light_client \<Rightarrow> light_client" where
  "put_header n h c =
     (let c1 = c\<lparr>lc_verified_headers := AList.update n h (lc_verified_headers c)\<rparr>
      in if lc_latest_block c1 < n then c1\<lparr>lc_latest_block := n\<rparr> else c1)"

definition insert_verified_header :: "eth_header \<Rightarrow> (light_client, light_client_error, unit) smonad" where
  "insert_verified_header h =
     sbind (decoded ''cannot decode block number'' (header_number h)) (\<lambda>block_num.
     sbind (sget (\<lambda>c. map_of (lc_verified_headers c) block_num \<noteq> None)) (\<lambda>known.
     sbind (sguard known (LC_DuplicateHeader block_num)) (\<lambda>_.
     smodify (put_header block_num h))))"

lemma insert_verified_buffer: "(r, c') = insert_verified_header h c \<Longrightarrow> lc_buffer c' = lc_buffer c"
  by (auto simp: insert_verified_header_def decoded_def sbind_def sret_def sfail_def sget_def sguard_def smodify_def put_header_def Let_def
      split: outcome.splits option.splits sum.splits if_splits)

lemma bt_remove_shorter: "find P xs = Some (n, h) \<Longrightarrow> length (bt_remove n xs) < length xs"
  unfolding bt_remove_def by (rule length_filter_less [where x = "(n, h)"]) (auto simp: find_Some_iff)

text \<open>The loop of \<^verbatim>\<open>flush_buffer\<close>; it ends because each turn takes a header out of the buffer.\<close>

function flush_loop :: "(light_client_error + unit) list \<Rightarrow> (light_client, light_client_error, (light_client_error + unit) list) smonad" where
  "flush_loop results c =
     (case List.find (\<lambda>(n, _). map_of (lc_verified_headers c) (saturating_sub n 1) \<noteq> None) (lc_buffer c) of
        None \<Rightarrow> (Inr (rev results), c)
      | Some (n, _) \<Rightarrow>
          let c1 = c\<lparr>lc_buffer := bt_remove n (lc_buffer c)\<rparr> in
          case map_of (lc_buffer c) n of
            None \<Rightarrow> flush_loop results c1
          | Some h \<Rightarrow>
              (case insert_verified_header h c1 of
                 (r, c2) \<Rightarrow> if r = Inl LC_Panic then (Inl LC_Panic, c2) else flush_loop (r # results) c2))"
  by pat_completeness auto

termination
  by (relation "measure (\<lambda>(_, c). length (lc_buffer c))") (auto dest!: insert_verified_buffer dest: bt_remove_shorter)

definition flush_buffer :: "(light_client, light_client_error, (light_client_error + unit) list) smonad" where
  "flush_buffer = flush_loop []"

text \<open>The blocks from the first to the second number, both included.\<close>

definition blocks :: "u64 \<Rightarrow> u64 \<Rightarrow> u64 list" where
  "blocks a b = map of_nat [unat a..<Suc (unat b)]"

definition fork_point :: "light_client \<Rightarrow> u256 \<Rightarrow> u64 option" where
  "fork_point c ph =
     List.find (\<lambda>n. case map_of (lc_verified_headers c) n of None \<Rightarrow> False | Some h \<Rightarrow> eh_block_hash h = ph)
       (rev (blocks (an_anchor_block (lc_genesis c)) (lc_latest_block c)))"

definition handle_reorg :: "eth_header \<Rightarrow> (light_client, light_client_error, eth_header list) smonad" where
  "handle_reorg h =
     sbind (decoded ''cannot decode block number'' (header_number h)) (\<lambda>block_num.
     sbind (decoded ''cannot decode parent hash'' (parent_hash h)) (\<lambda>ph.
     sbind (sget (\<lambda>c. fork_point c ph)) (\<lambda>found.
     sbind (sok_or (LC_HeaderNotFound (saturating_sub block_num 1)) found) (\<lambda>fork.
     sbind (sget lc_finalized_block) (\<lambda>fin.
     sbind (sguard (case fin of None \<Rightarrow> False | Some (finalized_n, _) \<Rightarrow> fork \<le> finalized_n) (LC_BeforeFinalized fork)) (\<lambda>_.
     sbind (sget (\<lambda>c. List.map_filter (map_of (lc_verified_headers c)) (blocks (fork + 1) (lc_latest_block c)))) (\<lambda>unwound.
     sbind (smodify (\<lambda>c. c\<lparr>lc_verified_headers := fold AList.delete (blocks (fork + 1) (lc_latest_block c)) (lc_verified_headers c),
                           lc_latest_block := fork\<rparr>)) (\<lambda>_.
     sbind (smodify (put_header block_num h)) (\<lambda>_.
     sret unwound)))))))))"

definition handle_reorg_and_submit :: "eth_header \<Rightarrow> (light_client, light_client_error, unit) smonad" where
  "handle_reorg_and_submit h = sbind (handle_reorg h) (\<lambda>_. sbind flush_buffer (\<lambda>_. sret ()))"

definition buffer_header :: "u64 \<Rightarrow> eth_header \<Rightarrow> (light_client, light_client_error, unit) smonad" where
  "buffer_header n h = smodify (\<lambda>c. c\<lparr>lc_buffer := bt_insert n h (lc_buffer c)\<rparr>)"

definition submit_header :: "(bytes \<Rightarrow> u256) \<Rightarrow> eth_header \<Rightarrow> (light_client, light_client_error, unit) smonad" where
  "submit_header H h =
     sbind (decoded ''cannot decode block number'' (header_number h)) (\<lambda>block_num.
     sbind (sget (\<lambda>c. c)) (\<lambda>c.
     sbind (sguard (block_num \<le> an_anchor_block (lc_genesis c)) (LC_BeforeAnchor block_num)) (\<lambda>_.
     sbind (sguard (map_of (lc_verified_headers c) block_num \<noteq> None) (LC_DuplicateHeader block_num)) (\<lambda>_.
     sbind (sguard (map_of (lc_buffer c) block_num \<noteq> None) (LC_DuplicateHeader block_num)) (\<lambda>_.
     let parent_num = saturating_sub block_num 1 in
     case map_of (lc_verified_headers c) parent_num of
       Some parent \<Rightarrow>
         sbind (decoded ''cannot decode parent hash'' (parent_hash h)) (\<lambda>actual_parent.
         if actual_parent \<noteq> eh_block_hash parent then handle_reorg_and_submit h
         else
           sbind (sguard (H (eh_rlp_bytes h) \<noteq> eh_block_hash h) (LC_InvalidHeader ''block hash does not match RLP encoding'')) (\<lambda>_.
           sbind (smodify (put_header block_num h)) (\<lambda>_.
           sbind flush_buffer (\<lambda>_.
           sret ()))))
     | None \<Rightarrow>
         if map_of (lc_buffer c) parent_num \<noteq> None then
           sbind (sguard (MAX_BUFFER_SIZE \<le> length (lc_buffer c)) LC_BufferFull) (\<lambda>_. buffer_header block_num h)
         else
           sbind (sguard (MAX_BUFFER_SIZE \<le> length (lc_buffer c)) LC_BufferFull) (\<lambda>_.
           if block_num \<le> lc_latest_block c + of_nat MAX_BUFFER_SIZE then buffer_header block_num h
           else sfail (LC_HeaderNotVerified parent_num (lc_latest_block c))))))))"

definition min_keep :: "light_client \<Rightarrow> u64" where
  "min_keep c = min (an_anchor_block (lc_genesis c)) (unwrap_or (- 1) (map_option fst (lc_finalized_block c)))"

definition prune_headers_before :: "u64 \<Rightarrow> light_client \<Rightarrow> light_client" where
  "prune_headers_before before_block c =
     c\<lparr>lc_verified_headers := filter (\<lambda>(k, _). min_keep c \<le> k) (lc_verified_headers c)\<rparr>"

definition prune_headers :: "u64 \<Rightarrow> light_client \<Rightarrow> nat \<times> light_client" where
  "prune_headers before_block c =
     (let effective_before = max before_block (min_keep c + 1);
          kept = filter (\<lambda>(k, _). effective_before \<le> k) (lc_verified_headers c)
      in (length (lc_verified_headers c) - length kept, c\<lparr>lc_verified_headers := kept\<rparr>))"

definition advance_anchor :: "u64 \<Rightarrow> u256 \<Rightarrow> (light_client, light_client_error, unit) smonad" where
  "advance_anchor n hash =
     sbind (sget (\<lambda>c. c)) (\<lambda>c.
     sbind (sguard (map_of (lc_verified_headers c) n = None) (LC_AnchorNotVerified n)) (\<lambda>_.
     sbind (case lc_finalized_block c of
              None \<Rightarrow> sret ()
            | Some (finalized_n, _) \<Rightarrow> sguard (n \<le> finalized_n) (LC_BeforeFinalized finalized_n)) (\<lambda>_.
     sbind (smodify (\<lambda>c. c\<lparr>lc_genesis := (lc_genesis c)\<lparr>an_anchor_block := n, an_anchor_hash := hash\<rparr>\<rparr>)) (\<lambda>_.
     smodify (prune_headers_before n)))))"

section \<open>The sync committee\<close>

definition bootstrap_sync_committee :: "u64 \<Rightarrow> sync_committee \<Rightarrow> (light_client, light_client_error, unit) smonad" where
  "bootstrap_sync_committee period committee =
     sbind (sget (\<lambda>c. lc_sync_committee c \<noteq> None)) (\<lambda>known.
     sbind (sguard known LC_AlreadyInitialized) (\<lambda>_.
     smodify (\<lambda>c. c\<lparr>lc_sync_committee := Some committee, lc_current_sync_period := period\<rparr>)))"

text \<open>\<open>bls\<close> verifies an aggregate signature: the keys, the message, the signature, an error text if it fails.\<close>

definition verify_sync_aggregate :: "(bytes \<Rightarrow> u256) \<Rightarrow> (bytes list \<Rightarrow> bytes \<Rightarrow> bytes \<Rightarrow> string + unit) \<Rightarrow> beacon_header \<Rightarrow> sync_aggregate \<Rightarrow>
    sync_committee \<Rightarrow> beacon_config \<Rightarrow> ('s, light_client_error, unit) smonad" where
  "verify_sync_aggregate H bls h aggregate committee config =
     (let signing_root = compute_sync_committee_signing_root H h (bc_fork_version config) (bc_genesis_validators_root config)
      in case participant_pubkeys committee (sa_bits aggregate) of
           Panicked \<Rightarrow> sfail LC_Panic
         | Returned keys \<Rightarrow>
             if keys = [] then sfail (LC_SyncCommitteeSignatureInvalid ''no participants'')
             else case bls keys (to_be_bytes signing_root) (sa_signature aggregate) of
                    Inl e \<Rightarrow> sfail (LC_SyncCommitteeSignatureInvalid e)
                  | Inr _ \<Rightarrow> sret ())"

definition MIN_SYNC_PARTICIPATION :: nat where "MIN_SYNC_PARTICIPATION = 342"

definition apply_light_client_update :: "(bytes \<Rightarrow> u256) \<Rightarrow> (bytes list \<Rightarrow> bytes \<Rightarrow> bytes \<Rightarrow> string + unit) \<Rightarrow> light_client_update \<Rightarrow>
    (light_client, light_client_error, u64 \<times> u256) smonad" where
  "apply_light_client_update H bls u =
     sbind (sget (\<lambda>c. c)) (\<lambda>c.
     sbind (sok_or LC_NotInitialized (lc_beacon_config c)) (\<lambda>config.
     let new_period = sync_period (saturating_sub (lu_signature_slot u) 1);
         committee = (case lc_sync_committee c of
            Some current \<Rightarrow> if new_period = lc_current_sync_period c then current else lu_next_sync_committee u
          | None \<Rightarrow> lu_next_sync_committee u)
     in sbind (verify_sync_aggregate H bls (lu_attested_header u) (lu_sync_aggregate u) committee config) (\<lambda>_.
        let participation = participant_count (lu_sync_aggregate u) in
        sbind (sguard (participation < MIN_SYNC_PARTICIPATION) (LC_InsufficientSyncParticipation participation MIN_SYNC_PARTICIPATION)) (\<lambda>_.
        sbind (if lc_current_sync_period c < new_period
               then smodify (\<lambda>c. c\<lparr>lc_sync_committee := Some (lu_next_sync_committee u), lc_current_sync_period := new_period\<rparr>)
               else sret ()) (\<lambda>_.
        sret (bb_slot (lu_finalized_header u), header_tree_root H (lu_finalized_header u)))))))"

section \<open>Inclusion proofs\<close>

text \<open>A step that may fail, unwind or not return, with the error of a proof reported as one of the light client.\<close>

definition lc_step :: "('e \<Rightarrow> light_client_error) \<Rightarrow> ('e + 'a) outcome option \<Rightarrow> ('a \<Rightarrow> (light_client_error + 'b) outcome option) \<Rightarrow>
    (light_client_error + 'b) outcome option" where
  "lc_step g m f = (case m of None \<Rightarrow> None | Some Panicked \<Rightarrow> Some Panicked | Some (Returned (Inl e)) \<Rightarrow> Some (err (g e))
     | Some (Returned (Inr x)) \<Rightarrow> f x)"

definition need :: "light_client_error \<Rightarrow> 'a option outcome \<Rightarrow> (light_client_error + 'a) outcome option" where
  "need e r = Some (case r of Panicked \<Rightarrow> Panicked | Returned None \<Rightarrow> err e | Returned (Some x) \<Rightarrow> ok x)"

definition verify_tx_inclusion :: "(bytes \<Rightarrow> u256) \<Rightarrow> (bytes \<Rightarrow> bool) \<Rightarrow> light_client \<Rightarrow> u64 \<Rightarrow> u256 \<Rightarrow> bytes list \<Rightarrow>
    (light_client_error + unit) outcome option" where
  "verify_tx_inclusion H hd_ok c block_number tx_hash nodes =
     dbind (need (LC_HeaderNotFound block_number) (Returned (map_of (lc_verified_headers c) block_number))) (\<lambda>h.
     dbind (need (LC_InvalidHeader ''no transactions root'') (transactions_root h)) (\<lambda>tx_root.
     if nodes = [] then Some (err (LC_MptProofError (Inl ''empty tx proof'')))
     else lc_step (\<lambda>e. LC_MptProofError (Inr e)) (verify_mpt_proof H hd_ok tx_root (to_be_bytes tx_hash) nodes) (\<lambda>result.
       Some (if result = None then err LC_TxNotFound else ok ()))))"

definition verify_receipt_and_parse_bridge_event :: "(bytes \<Rightarrow> u256) \<Rightarrow> (bytes \<Rightarrow> bool) \<Rightarrow> light_client \<Rightarrow> u64 \<Rightarrow> u64 \<Rightarrow> bytes list \<Rightarrow>
    (light_client_error + bridge_event) outcome option" where
  "verify_receipt_and_parse_bridge_event H hd_ok c block_number receipt_index nodes =
     dbind (need (LC_HeaderNotFound block_number) (Returned (map_of (lc_verified_headers c) block_number))) (\<lambda>h.
     dbind (need (LC_InvalidHeader ''no receipts root'') (receipts_root h)) (\<lambda>root.
     if nodes = [] then Some (err (LC_MptProofError (Inl ''empty receipt proof'')))
     else lc_step (\<lambda>e. LC_MptProofError (Inr e)) (verify_mpt_proof H hd_ok root (rlp_encode_u64 receipt_index) nodes) (\<lambda>result.
       dbind (need LC_ReceiptNotFound (Returned result)) (\<lambda>receipt_rlp.
       lc_step LC_LogParseError (parse_receipt_logs receipt_rlp) (\<lambda>logs.
       case parse_bridge_event_from_logs logs of
         None \<Rightarrow> None
       | Some r \<Rightarrow> need LC_BridgeEventNotFound r)))))"

end
