(* ===== verification/Rlp_Props.thy ===== *)
theory Rlp_Props
  imports Rlp "HOL-Library.Sublist"
begin

text \<open>
  Facts about the parsers of the light client: which inputs the list parser never returns from, that it inverts the
  RLP encoding, and that a trie proof binds the value it proves.
\<close>

section \<open>Items\<close>

text \<open>A byte string as large as Rust allows one to be.\<close>

abbreviation sliceable :: "bytes \<Rightarrow> bool" where
  "sliceable bs \<equiv> length bs < 2 ^ 63"

lemma unat_len_u: "sliceable bs \<Longrightarrow> unat (len_u bs) = length bs"
  by (simp add: len_u_def unat_of_nat)

lemma slice_item_ok: "slice_item data a b = ok (x, n) \<longleftrightarrow> n = b \<and> slice_range data a b = Returned x"
  by (auto simp: slice_item_def split: outcome.splits)

lemma slice_item_err: "slice_item data a b \<noteq> err e"
  by (simp add: slice_item_def split: outcome.splits)

text \<open>The header of a list whose length field makes the total length wrap around to 0.\<close>

definition stall :: bytes where
  "stall = [0xFF, 0xFF, 0xFF, 0xFF, 0xFF, 0xFF, 0xFF, 0xFF, 0xF7]"

lemma first_range:
  fixes b k :: u8
  assumes "k \<le> b"
  shows "unat (ucast (b - k) :: usize) = unat b - unat k"
  using assms unsigned_less [of b, where ?'a = nat]
  by (simp add: unsigned_ucast_eq unat_sub word_le_nat_alt take_bit_nat_eq_self)

lemma small_sum: "unat (x :: usize) < 2 ^ 62 \<Longrightarrow> unat y < 2 ^ 62 \<Longrightarrow> unat (x + y) = unat x + unat y"
  by (simp add: unat_add_no_overflow)

lemma length_field_less: "length_field data n = w \<Longrightarrow> unat n \<le> 8 \<Longrightarrow> unat w < 256 ^ unat n"
proof -
  assume w: "length_field data n = w" and n: "unat n \<le> 8"
  let ?f = "take (unat n) (drop 1 data)"
  have "be_nat ?f < 256 ^ length ?f" by (rule be_nat_less)
  also have "\<dots> \<le> 256 ^ unat n" by (intro power_increasing) simp_all
  finally have l: "be_nat ?f < 256 ^ unat n" .
  also have "(256 :: nat) ^ unat n \<le> 256 ^ 8" using n by (intro power_increasing) simp_all
  finally show "unat w < 256 ^ unat n" using l w by (auto simp: length_field_def from_be_bytes_def unat_of_nat)
qed

lemma be_nat_inj: "length xs = length ys \<Longrightarrow> be_nat xs = be_nat ys \<Longrightarrow> xs = ys"
  by (metis nat_be_be_nat)

text \<open>The total length of an item with a long length field wraps around to 0 for one header only.\<close>

lemma wrapped_total:
  assumes data: "sliceable data" "\<not> len_u data < 1 + n" and n: "unat n \<le> 8" and z: "1 + n + length_field data n = (0 :: usize)"
  shows "n = 8 \<and> take 8 (drop 1 data) = [0xFF, 0xFF, 0xFF, 0xFF, 0xFF, 0xFF, 0xFF, 0xF7]"
proof -
  let ?w = "length_field data n"
  have n1: "unat (1 + n) = 1 + unat n" using n by (simp add: small_sum)
  have w: "unat ?w < 256 ^ unat n" by (rule length_field_less [OF refl n])
  have big: "2 ^ 64 \<le> 1 + unat n + unat ?w"
  proof (rule ccontr)
    assume "\<not> 2 ^ 64 \<le> 1 + unat n + unat ?w"
    then have "unat (1 + n + ?w) = 1 + unat n + unat ?w" using n1 by (simp add: unat_add_no_overflow)
    with z show False by simp
  qed
  have n8: "unat n = 8"
  proof (rule ccontr)
    assume "unat n \<noteq> 8"
    then have "(256 :: nat) ^ unat n \<le> 256 ^ 7" using n by (intro power_increasing) simp_all
    with w big n show False by simp
  qed
  then have n: "n = 8" by (simp add: word_unat_eq_iff)
  have "?w = - 9" using z n by (simp add: eq_neg_iff_add_eq_0 add.commute)
  then have "unat ?w = 2 ^ 64 - 9" by simp
  moreover have len: "length (take 8 (drop 1 data)) = 8"
    using data n unat_len_u [OF data(1)] by (simp add: word_less_nat_alt)
  moreover have "be_nat (take 8 (drop 1 data)) < 2 ^ 64" using be_nat_less [of "take 8 (drop 1 data)"] len by simp
  ultimately have "be_nat (take 8 (drop 1 data)) = 2 ^ 64 - 9"
    using n by (simp add: length_field_def from_be_bytes_def unat_of_nat)
  also have "\<dots> = be_nat [0xFF, 0xFF, 0xFF, 0xFF, 0xFF, 0xFF, 0xFF, 0xF7]" by (simp add: be_nat_def)
  finally have "take 8 (drop 1 data) = [0xFF, 0xFF, 0xFF, 0xFF, 0xFF, 0xFF, 0xFF, 0xF7]"
    using len by (intro be_nat_inj) simp_all
  with n show ?thesis ..
qed

lemma decode_zero:
  assumes "sliceable data" "decode_one_rlp_item data = ok (item, 0)"
  shows "take 9 data = stall"
proof -
  have ne: "data \<noteq> []" using assms(2) by (auto simp: decode_one_rlp_item_def)
  let ?b = "data ! 0" and ?l = "ucast (data ! 0 - 0xF7) :: usize"
  have b: "unat ?b < 256" using unsigned_less [of ?b, where ?'a = nat] by simp
  have short: "1 + ucast (?b - k) \<noteq> (0 :: usize)" if "k \<le> ?b" for k
  proof -
    have "unat (1 + ucast (?b - k) :: usize) = 1 + (unat ?b - unat k)"
      using b by (simp add: small_sum first_range [OF that])
    then show ?thesis by (metis One_nat_def plus_1_eq_Suc nat.distinct(1) unat_0)
  qed
  have start: "slice_range data (1 + ucast (?b - k)) 0 \<noteq> Returned x" if "k \<le> ?b" for k x
    using short [OF that] by (simp add: slice_range_def)
  have long: "0xB7 \<le> ?b" if "0xB8 \<le> ?b" using that by (simp add: word_le_nat_alt)
  have "0xF8 \<le> ?b" "\<not> len_u data < 1 + ?l" "1 + ?l + length_field data ?l = 0"
    using assms(2) ne short [of "0x80"] short [of "0xC0"] start [OF long]
    by (auto simp: decode_one_rlp_item_def Let_def slice_item_ok slice_item_err not_less split: if_splits)
  moreover have "unat ?l \<le> 8" using b calculation(1) by (subst first_range) (simp_all add: word_le_nat_alt)
  ultimately have l: "?l = 8" "take 8 (drop 1 data) = [0xFF, 0xFF, 0xFF, 0xFF, 0xFF, 0xFF, 0xFF, 0xF7]"
    using wrapped_total [OF assms(1), of ?l] by simp_all
  have "unat ?l = unat ?b - 0xF7" using \<open>0xF8 \<le> ?b\<close> by (subst first_range) (simp_all add: word_le_nat_alt)
  then have "unat ?b = 0xFF" using l(1) b by simp
  then have "?b = 0xFF" by (simp add: word_unat_eq_iff)
  moreover have "take 9 data = ?b # take 8 (drop 1 data)" using ne by (cases data) simp_all
  ultimately show ?thesis using l(2) by (simp add: stall_def)
qed

lemma decode_stall: "decode_one_rlp_item stall = ok ([], 0)"
  by (simp add: decode_one_rlp_item_def stall_def Let_def len_u_def length_field_def from_be_bytes_def be_nat_def slice_item_def slice_range_def)

section \<open>The list parser\<close>

declare rlp_items.simps [simp del]

lemma rlp_items_Nil: "rlp_items [] items = Some (ok (rev items))"
  by (subst rlp_items.simps) simp

lemma rlp_items_step:
  assumes "cursor \<noteq> []" "decode_one_rlp_item cursor = ok (item, n)"
  shows "rlp_items cursor items = rlp_items (drop (unat n) cursor) (item # items)"
  using assms by (subst rlp_items.simps) simp

text \<open>Nothing is consumed at the header \<open>stall\<close>, so the loop over it never ends.\<close>

lemma rlp_items_stall: "rlp_items stall items = None"
proof -
  have "c \<noteq> stall" if "rlp_items c xs = Some y" for c xs y
  proof (rule rlp_items.raw_induct [of "\<lambda>c xs y. c \<noteq> stall", OF _ that])
    fix f :: "bytes \<Rightarrow> bytes list \<Rightarrow> (rlp_error + bytes list) outcome option" and c xs y
    assume IH: "\<And>c xs y. f c xs = Some y \<Longrightarrow> c \<noteq> stall"
      and "(if c = [] then Some (ok (rev xs))
         else case decode_one_rlp_item c of
             Returned (Inl e) \<Rightarrow> Some (err e)
           | Returned (Inr (item, consumed)) \<Rightarrow> f (drop (unat consumed) c) (item # xs) | Panicked \<Rightarrow> Some Panicked) = Some y"
    then show "c \<noteq> stall" using IH [of stall "[] # xs" y] decode_stall by (auto simp: stall_def)
  qed
  then show ?thesis by (cases "rlp_items stall items") auto
qed

lemma rlp_items_returns:
  assumes "sliceable c" "\<not> sublist stall c"
  shows "\<exists>r. rlp_items c items = Some r"
  using assms
proof (induction "length c" arbitrary: c items rule: less_induct)
  case less
  show ?case
  proof (cases "c = []")
    case False
    show ?thesis
    proof (cases "decode_one_rlp_item c")
      case (Returned r)
      show ?thesis
      proof (cases r)
        case (Inr p)
        obtain item n where p: "p = (item, n)" by (cases p)
        have "n \<noteq> 0"
          using decode_zero [OF less.prems(1), of item] less.prems(2) Returned Inr p
          by (metis append_Nil append_take_drop_id sublist_appendI)
        then have "0 < unat n" by (simp add: unat_gt_0)
        then have "length (drop (unat n) c) < length c" using False by simp
        moreover have "\<not> sublist stall (drop (unat n) c)"
          using less.prems(2) sublist_drop sublist_order.order_trans by blast
        ultimately have "\<exists>r. rlp_items (drop (unat n) c) (item # items) = Some r"
          using less.prems(1) by (intro less.hyps) simp_all
        then show ?thesis using rlp_items_step [OF False] Returned Inr p by simp
      qed (use False Returned in \<open>subst rlp_items.simps, simp\<close>)
    qed (use False in \<open>subst rlp_items.simps, simp\<close>)
  qed (simp add: rlp_items_Nil)
qed

text \<open>
  C17: the parser of RLP lists returns on every input that does not contain the nine bytes of \<open>stall\<close>, the header of a
  list whose announced length wraps the total length around to 0; and it does not return, so it hangs the node, on the
  ten bytes of a list that holds only that header.
\<close>

theorem rlp_parser_termination:
  "(sliceable data \<longrightarrow> \<not> sublist stall data \<longrightarrow> (\<exists>r. parse_rlp_list_items data = Some r)) \<and>
   parse_rlp_list_items (0xC9 # stall) = None"
proof (intro conjI impI)
  assume data: "sliceable data" "\<not> sublist stall data"
  have "\<exists>r. rlp_items (drop n data) [] = Some r" for n
    using data sublist_drop [of n data] by (intro rlp_items_returns) (auto dest: sublist_order.order_trans)
  then show "\<exists>r. parse_rlp_list_items data = Some r"
    by (auto simp: parse_rlp_list_items_def dbind_def list_payload_def Let_def split: if_splits)
next
  have "list_payload (0xC9 # stall) = ok 1" by (simp add: list_payload_def stall_def len_u_def Let_def)
  then show "parse_rlp_list_items (0xC9 # stall) = None"
    by (simp add: parse_rlp_list_items_def dbind_def rlp_items_stall)
qed

theorem rlp_parser_termination_witness:
  "(\<exists>r. parse_rlp_list_items [0xC2, 0x01, 0x02] = Some r) \<and> parse_rlp_list_items (0xC9 # stall) = None"
proof -
  have "\<not> sublist stall [0xC2, 0x01, 0x02]" using sublist_length_le by (fastforce simp: stall_def)
  then show ?thesis using rlp_parser_termination [of "[0xC2, 0x01, 0x02]"] by simp
qed

section \<open>The parser inverts the encoding\<close>

text \<open>The RLP encoding of a byte string and of a list of encoded items.\<close>

definition be_trim :: "nat \<Rightarrow> bytes" where
  "be_trim n = dropWhile (\<lambda>b. b = 0) (nat_be 8 n)"

definition rlp_string :: "bytes \<Rightarrow> bytes" where
  "rlp_string s =
     (if length s = 1 \<and> s ! 0 < 0x80 then s
      else if length s < 56 then (0x80 + of_nat (length s)) # s
      else (0xB7 + of_nat (length (be_trim (length s)))) # be_trim (length s) @ s)"

definition rlp_list :: "bytes list \<Rightarrow> bytes" where
  "rlp_list xs =
     (let p = concat xs in
      if length p < 56 then (0xC0 + of_nat (length p)) # p
      else (0xF7 + of_nat (length (be_trim (length p)))) # be_trim (length p) @ p)"

lemma be_nat_dropWhile: "be_nat (dropWhile (\<lambda>b. b = 0) bs) = be_nat bs"
  by (induction bs) (simp_all add: be_nat_Cons)

lemma be_trim:
  assumes "n < 2 ^ 64" "0 < n"
  shows "be_nat (be_trim n) = n" "length (be_trim n) \<le> 8" "0 < length (be_trim n)"
proof -
  show n: "be_nat (be_trim n) = n" using assms(1) by (simp add: be_trim_def be_nat_dropWhile)
  show "length (be_trim n) \<le> 8" using length_dropWhile_le [of "\<lambda>b. b = 0" "nat_be 8 n"] by (simp add: be_trim_def)
  show "0 < length (be_trim n)" using n assms(2) by auto
qed

lemma unat_of_nat_u8: "n < 256 \<Longrightarrow> unat (of_nat n :: u8) = n"
  by (simp add: unat_of_nat)

lemma first_byte:
  assumes "n < 256 - unat k"
  shows "unat (k + of_nat n :: u8) = unat k + n" "ucast (k + of_nat n - k :: u8) = (of_nat n :: usize)"
proof -
  have n: "unat (of_nat n :: u8) = n" using assms by (simp add: unat_of_nat_u8)
  then show "unat (k + of_nat n :: u8) = unat k + n" using assms by (simp add: unat_add_no_overflow)
  have "ucast (of_nat n :: u8) = (of_nat (unat (of_nat n :: u8)) :: usize)" by (rule of_nat_unat [symmetric])
  then show "ucast (k + of_nat n - k :: u8) = (of_nat n :: usize)" using n by simp
qed

lemma usize_sum: "of_nat a + of_nat b = (of_nat (a + b) :: usize)" "1 + of_nat b = (of_nat (1 + b) :: usize)"
  by simp_all

lemma usize_less: "sliceable data \<Longrightarrow> n < 2 ^ 63 \<Longrightarrow> len_u data < of_nat n \<longleftrightarrow> length data < n"
  by (simp add: word_less_nat_alt unat_len_u unat_of_nat)

lemma slice_nat:
  assumes "sliceable data" "a \<le> b" "b \<le> length data"
  shows "slice_item data (of_nat a) (of_nat b) = ok (take (b - a) (drop a data), of_nat b)"
  using assms by (simp add: slice_item_def slice_range_def word_le_nat_alt unat_len_u unat_of_nat)

lemma length_field_append:
  assumes "length l = n" "n < 2 ^ 63"
  shows "length_field (b # l @ xs) (of_nat n) = of_nat (be_nat l)"
  using assms by (simp add: length_field_def from_be_bytes_def unat_of_nat)

lemma decode_string:
  assumes "sliceable (rlp_string s @ rest)"
  shows "decode_one_rlp_item (rlp_string s @ rest) = ok (s, of_nat (length (rlp_string s)))"
proof -
  let ?n = "length s" and ?data = "rlp_string s @ rest"
  consider (byte) "?n = 1 \<and> s ! 0 < 0x80" | (short) "\<not> (?n = 1 \<and> s ! 0 < 0x80)" "?n < 56" | (long) "56 \<le> ?n" by fastforce
  then show ?thesis
  proof cases
    case byte
    then obtain b where b: "s = [b]" "b < 0x80" by (cases s) auto
    have "slice_item (b # rest) 0 1 = ok ([b], 1)" using slice_nat [of "b # rest" 0 1] assms b by (simp add: rlp_string_def)
    then show ?thesis using b by (simp add: rlp_string_def decode_one_rlp_item_def)
  next
    case short
    have d: "?data = (0x80 + of_nat ?n) # s @ rest" using short by (auto simp: rlp_string_def)
    have f: "unat (0x80 + of_nat ?n :: u8) = 0x80 + ?n" "ucast (0x80 + of_nat ?n - 0x80 :: u8) = (of_nat ?n :: usize)"
      using first_byte [of ?n "0x80"] short(2) by simp_all
    have "\<not> len_u ?data < of_nat (1 + ?n)" using assms by (subst usize_less) (use short(2) d in simp_all)
    moreover have "slice_item ?data 1 (of_nat (1 + ?n)) = ok (s, of_nat (1 + ?n))"
      using slice_nat [OF assms, of 1 "1 + ?n"] d by simp
    ultimately show ?thesis using f short d
      by (auto simp: decode_one_rlp_item_def Let_def word_less_nat_alt rlp_string_def)
  next
    case long
    let ?l = "be_trim ?n"
    have d: "?data = (0xB7 + of_nat (length ?l)) # ?l @ s @ rest" using long by (simp add: rlp_string_def)
    have n: "?n < 2 ^ 63" using assms long by (simp add: rlp_string_def)
    have n': "?n < 2 ^ 64" "0 < ?n" using n long by (simp, linarith)
    note l = be_trim [OF n']
    have f: "unat (0xB7 + of_nat (length ?l) :: u8) = 0xB7 + length ?l" "ucast (0xB7 + of_nat (length ?l) - 0xB7 :: u8) = (of_nat (length ?l) :: usize)"
      using first_byte [of "length ?l" "0xB7"] l(2) by simp_all
    have e: "length_field ?data (of_nat (length ?l)) = of_nat ?n"
      unfolding d using length_field_append [of ?l "length ?l"] l by simp
    have "\<not> len_u ?data < of_nat (1 + length ?l)" using assms by (subst usize_less) (use l d in simp_all)
    moreover have "\<not> len_u ?data < of_nat (1 + length ?l + ?n)" using assms d l n by (subst usize_less) simp_all
    moreover have "slice_item ?data (of_nat (1 + length ?l)) (of_nat (1 + length ?l + ?n)) = ok (s, of_nat (1 + length ?l + ?n))"
      using slice_nat [OF assms, of "1 + length ?l" "1 + length ?l + ?n"] d by simp
    moreover have "length (rlp_string s) = 1 + length ?l + ?n" using long by (simp add: rlp_string_def)
    moreover have "?data ! 0 = 0xB7 + of_nat (length ?l)" by (simp add: d)
    moreover have "\<not> ?data ! 0 < 0x80" "\<not> ?data ! 0 < 0xB8" "?data ! 0 < 0xC0" "?data \<noteq> []"
      using f l by (simp_all add: word_less_nat_alt d)
    ultimately show ?thesis using e f(2)
      by (simp add: decode_one_rlp_item_def Let_def add.assoc)
  qed
qed

lemma rlp_string_nonempty: "rlp_string s \<noteq> []"
  by (auto simp: rlp_string_def)

lemma rlp_items_strings:
  assumes "sliceable (concat (map rlp_string ss))"
  shows "rlp_items (concat (map rlp_string ss)) items = Some (ok (rev items @ ss))"
  using assms
proof (induction ss arbitrary: items)
  case (Cons s ss)
  let ?e = "rlp_string s" and ?rest = "concat (map rlp_string ss)"
  have l: "unat (of_nat (length ?e) :: usize) = length ?e" using Cons.prems by (simp add: unat_of_nat)
  have "rlp_items (?e @ ?rest) items = rlp_items (drop (length ?e) (?e @ ?rest)) (s # items)"
    using rlp_items_step [OF _ decode_string, of s ?rest items] Cons.prems rlp_string_nonempty [of s] l by simp
  also have "\<dots> = Some (ok (rev items @ s # ss))" using Cons by simp
  finally show ?case by simp
qed (simp add: rlp_items_Nil)

lemma list_payload_rlp_list:
  assumes "concat xs \<noteq> []" "length (concat xs) < 2 ^ 62"
  shows "\<exists>h. rlp_list xs = h @ concat xs \<and> list_payload (rlp_list xs) = ok (length h)"
proof -
  let ?p = "concat xs" let ?n = "length ?p"
  have n0: "0 < ?n" using assms(1) by simp
  show ?thesis
  proof (cases "?n < 56")
    case True
    let ?d = "(0xC0 + of_nat ?n) # ?p"
    have f: "unat (0xC0 + of_nat ?n :: u8) = 0xC0 + ?n" "ucast (0xC0 + of_nat ?n - 0xC0 :: u8) = (of_nat ?n :: usize)"
      using first_byte [of ?n "0xC0"] True by simp_all
    have "(of_nat ?n :: usize) \<noteq> 0" using n0 True by (simp add: word_unat_eq_iff unat_of_nat)
    moreover have "0xC0 \<le> ?d ! 0" "?d ! 0 < 0xF8" using f(1) True by (simp_all add: word_le_nat_alt word_less_nat_alt)
    ultimately have "list_payload ?d = ok (length [0xC0 + of_nat ?n :: u8])"
      using f(2) by (simp add: list_payload_def Let_def len_u_def)
    moreover have "rlp_list xs = [0xC0 + of_nat ?n] @ ?p" using True by (simp add: rlp_list_def Let_def)
    ultimately show ?thesis by (intro exI [of _ "[0xC0 + of_nat ?n]"]) simp
  next
    case False
    let ?l = "be_trim ?n" and ?d = "rlp_list xs"
    have n': "?n < 2 ^ 64" "0 < ?n" using assms(2) n0 by (simp, linarith)
    note l = be_trim [OF n']
    have d: "?d = (0xF7 + of_nat (length ?l)) # ?l @ ?p" using False by (simp add: rlp_list_def Let_def)
    have f: "unat (0xF7 + of_nat (length ?l) :: u8) = 0xF7 + length ?l" "ucast (0xF7 + of_nat (length ?l) - 0xF7 :: u8) = (of_nat (length ?l) :: usize)"
      using first_byte [of "length ?l" "0xF7"] l(2) by simp_all
    have s: "sliceable ?d" using assms(2) l(2) by (simp add: d)
    have "length_field ?d (of_nat (length ?l)) = of_nat ?n"
      unfolding d using length_field_append [of ?l "length ?l"] l by simp
    moreover have "\<not> len_u ?d < of_nat (1 + length ?l)" using s by (subst usize_less) (use l d in simp_all)
    moreover have "of_nat (1 + length ?l) + of_nat ?n = len_u ?d" by (simp add: d len_u_def)
    moreover have "0xF8 \<le> ?d ! 0" "\<not> ?d ! 0 < 0xF8" using f(1) l(3) by (simp_all add: d word_le_nat_alt word_less_nat_alt Suc_le_eq)
    moreover have "unat (of_nat (length ?l) :: usize) = length ?l" using l(2) by (simp add: unat_of_nat)
    moreover have "?d ! 0 = 0xF7 + of_nat (length ?l)" "?d \<noteq> []" by (simp_all add: d)
    ultimately have "list_payload ?d = ok (1 + length ?l)"
      using f(2) by (simp add: list_payload_def Let_def)
    then show ?thesis by (intro exI [of _ "(0xF7 + of_nat (length ?l)) # ?l"]) (simp add: d)
  qed
qed

text \<open>
  C18: parsing inverts encoding: from the RLP encoding of a non-empty list of byte strings the parser returns those
  strings. The encoding of the empty list, which a log without topics contains, is refused.
\<close>

theorem rlp_list_round_trip:
  assumes "items \<noteq> []" "length (concat (map rlp_string items)) < 2 ^ 62"
  shows "parse_rlp_list_items (rlp_list (map rlp_string items)) = Some (ok items) \<and>
    parse_rlp_list_items (rlp_list []) = Some (err ListLengthMismatch)"
proof -
  have "concat (map rlp_string items) \<noteq> []" using assms(1) rlp_string_nonempty by (cases items) auto
  from list_payload_rlp_list [OF this assms(2)] obtain h where
    "rlp_list (map rlp_string items) = h @ concat (map rlp_string items)" "list_payload (rlp_list (map rlp_string items)) = ok (length h)"
    by blast
  then have "parse_rlp_list_items (rlp_list (map rlp_string items)) = Some (ok items)"
    using rlp_items_strings [of items "[]"] assms(2) by (simp add: parse_rlp_list_items_def dbind_def)
  moreover have "parse_rlp_list_items (rlp_list []) = Some (err ListLengthMismatch)"
    by (simp add: rlp_list_def parse_rlp_list_items_def list_payload_def dbind_def)
  ultimately show ?thesis ..
qed

theorem rlp_list_round_trip_witness:
  "parse_rlp_list_items (rlp_list (map rlp_string [[1], [], [0x83, 2]])) = Some (ok [[1], [], [0x83, 2]])"
  using rlp_list_round_trip [of "[[1], [], [0x83, 2]]"] by (simp add: rlp_string_def)

section \<open>Trie proofs\<close>

lemma mpt_walk_binding:
  assumes "mpt_walk H hd_ok p e key = Some (ok (Some v))" "mpt_walk H hd_ok q e key = Some (ok (Some w))"
    "inj_on H (set p \<union> set q)"
  shows "v = w"
  using assms
proof (induction p arbitrary: q e key)
  case (Cons n p)
  obtain m q' where q: "q = m # q'" using Cons.prems(2) by (cases q) auto
  have h: "H n = e" "H m = e" using Cons.prems(1,2) q by (auto split: if_splits)
  then have eq: "m = n" using Cons.prems(3) q by (auto dest: inj_onD)
  obtain items where items: "parse_rlp_list hd_ok n = Some (ok items)"
    using Cons.prems(1) h by (auto simp: dbind_def split: option.splits outcome.splits sum.splits)
  show ?case
  proof (cases "mpt_node H items key")
    case (Inl r)
    then show ?thesis using Cons.prems(1,2) q eq h items by (simp add: dbind_def)
  next
    case (Inr x)
    obtain e' key' where "x = (e', key')" by (cases x)
    moreover have "inj_on H (set p \<union> set q')" by (rule inj_on_subset [OF Cons.prems(3)]) (auto simp: q)
    ultimately show ?thesis using Cons.IH [of e' key' q'] Cons.prems(1,2) q eq h items Inr by (simp add: dbind_def)
  qed
qed simp

text \<open>
  C8: a proof of inclusion binds the value: two accepted proofs for a key under one root prove the same value, unless
  their nodes contain two with the same hash.
\<close>

theorem mpt_value_binding:
  assumes "verify_mpt_proof H hd_ok root_hash key p = Some (ok (Some v))" "verify_mpt_proof H hd_ok root_hash key q = Some (ok (Some w))"
    "inj_on H (set p \<union> set q)"
  shows "v = w"
  using assms mpt_walk_binding by (auto simp: verify_mpt_proof_def split: if_splits)

text \<open>A leaf for the two nibbles 1, 2 with the value 5, hashed to its bytes.\<close>

definition sample_leaf :: bytes where
  "sample_leaf = [0xC4, 0x82, 0x20, 0x12, 0x05]"

lemma sample_leaf_proof:
  "verify_mpt_proof from_be_bytes (\<lambda>_. True) (from_be_bytes sample_leaf) [0x12] [sample_leaf] = Some (ok (Some [5]))"
proof -
  have 1: "mpt_decode_item (\<lambda>_. True) [0x82, 0x20, 0x12, 0x05] = ok ([0x20, 0x12], 3)"
    "mpt_decode_item (\<lambda>_. True) [0x05] = ok ([0x05], 1)"
    by (simp_all add: mpt_decode_item_def len_u_def slice_item_def slice_range_def)
  have "mpt_items (\<lambda>_. True) [0x82, 0x20, 0x12, 0x05] [] = Some (ok [[0x20, 0x12], [5]])"
    by (subst mpt_items.simps, simp add: 1)+
  then have "parse_rlp_list (\<lambda>_. True) sample_leaf = Some (ok [[0x20, 0x12], [5]])"
    by (simp add: parse_rlp_list_def mpt_payload_def sample_leaf_def len_u_def dbind_def)
  then show ?thesis
    by (simp add: verify_mpt_proof_def dbind_def mpt_node_def compact_decode_def bytes_to_nibbles_def starts_with_def)
qed

theorem mpt_value_binding_witness:
  "\<exists>v. verify_mpt_proof from_be_bytes (\<lambda>_. True) (from_be_bytes sample_leaf) [0x12] [sample_leaf] = Some (ok (Some v)) \<and> v = [5]"
  using sample_leaf_proof mpt_value_binding [OF sample_leaf_proof sample_leaf_proof] by simp

end
