(* ===== verification/Light_Client_Props.thy ===== *)
theory Light_Client_Props
  imports Light_Client Rlp_Props
begin

text \<open>
  What the light client guarantees and what it does not: finalized headers stay, but a header that was buffered is
  never checked against its parent, and an update of the sync committee may bring the committee that signs it.
\<close>

declare flush_loop.simps [simp del]

section \<open>Finality\<close>

abbreviation verified :: "light_client \<Rightarrow> u64 \<Rightarrow> eth_header option" where
  "verified c n \<equiv> map_of (lc_verified_headers c) n"

lemma put_header_simps [simp]:
  "verified (put_header n h c) m = (if m = n then Some h else verified c m)"
  "lc_genesis (put_header n h c) = lc_genesis c" "lc_buffer (put_header n h c) = lc_buffer c"
  "lc_finalized_block (put_header n h c) = lc_finalized_block c"
  by (simp_all add: put_header_def Let_def update_conv')

lemma insert_verified_keeps:
  "(r, c') = insert_verified_header h c \<Longrightarrow> verified c n = Some x \<Longrightarrow> verified c' n = Some x"
  by (auto simp: insert_verified_header_def decoded_def sbind_def sret_def sfail_def sget_def sguard_def smodify_def
      split: outcome.splits option.splits sum.splits if_splits)

lemma flush_keeps: "verified c n = Some x \<Longrightarrow> verified (snd (flush_loop rs c)) n = Some x"
proof (induction rs c rule: flush_loop.induct)
  case (1 rs c)
  show ?case
  proof (cases "List.find (\<lambda>(n, _). verified c (saturating_sub n 1) \<noteq> None) (lc_buffer c)")
    case None
    then show ?thesis using 1 by (subst flush_loop.simps) simp
  next
    case (Some p)
    obtain m y where p: "p = (m, y)" by (cases p)
    let ?c1 = "c\<lparr>lc_buffer := bt_remove m (lc_buffer c)\<rparr>"
    show ?thesis
    proof (cases "map_of (lc_buffer c) m")
      case None
      then show ?thesis using 1 Some p by (subst flush_loop.simps) simp
    next
      case (Some h)
      obtain r c2 where i: "insert_verified_header h ?c1 = (r, c2)" by fastforce
      then have k: "verified c2 n = Some x" using insert_verified_keeps [OF i [symmetric]] "1.prems" by simp
      show ?thesis
      proof (cases "r = Inl LC_Panic")
        case True
        then show ?thesis using k i Some \<open>List.find _ _ = Some p\<close> p by (subst flush_loop.simps) simp
      next
        case False
        have "verified (snd (flush_loop (r # rs) c2)) n = Some x"
          using "1.IH"(2) [OF \<open>List.find _ _ = Some p\<close> p [symmetric] refl Some i [symmetric] False k] .
        then show ?thesis using False i Some \<open>List.find _ _ = Some p\<close> p by (subst flush_loop.simps) simp
      qed
    qed
  qed
qed

lemma delete_all: "map_of (fold AList.delete ks xs) n = (if n \<in> set ks then None else map_of xs n)"
  by (induction ks arbitrary: xs) (auto simp: delete_conv')

lemma in_blocks: "n \<in> set (blocks a b) \<longleftrightarrow> a \<le> n \<and> n \<le> b"
proof
  assume "n \<in> set (blocks a b)"
  then obtain k where k: "unat a \<le> k" "k \<le> unat b" "n = of_nat k" by (auto simp: blocks_def)
  then have "k < 2 ^ 64" using unsigned_less [of b, where ?'a = nat] by simp
  with k show "a \<le> n \<and> n \<le> b" by (simp add: word_le_nat_alt unat_of_nat)
next
  assume "a \<le> n \<and> n \<le> b"
  then have "n = of_nat (unat n)" "unat n \<in> {unat a..<Suc (unat b)}" by (simp_all add: word_le_nat_alt)
  then show "n \<in> set (blocks a b)" unfolding blocks_def set_map set_upt by (rule image_eqI)
qed

lemma fork_point_bound: "fork_point c ph = Some fork \<Longrightarrow> fork \<le> lc_latest_block c"
proof -
  assume "fork_point c ph = Some fork"
  then have "fork \<in> set (blocks (an_anchor_block (lc_genesis c)) (lc_latest_block c))"
    unfolding fork_point_def by (metis find_Some_iff nth_mem set_rev)
  then show ?thesis by (simp add: in_blocks)
qed

text \<open>A reorganisation keeps every header up to the fork point, which lies above the finalized block.\<close>

lemma handle_reorg_keeps:
  assumes "verified c n = Some x" "lc_finalized_block c = Some (m, hash)" "n \<le> m" "lc_latest_block c \<noteq> - 1"
    "\<And>k. header_number h = Returned (Some k) \<Longrightarrow> verified c k = None"
  shows "verified (snd (handle_reorg h c)) n = Some x"
proof -
  have above: "\<not> fork + 1 \<le> n" if "\<not> fork \<le> m" "fork_point c ph = Some fork" for fork ph
  proof -
    have "fork \<noteq> - 1" using fork_point_bound [OF that(2)] assms(4) by (auto simp: word_order.extremum_unique)
    then have "unat (fork + 1) = unat fork + 1" by (metis unatSuc add.commute eq_neg_iff_add_eq_0 plus_1_eq_Suc)
    then show ?thesis using assms(3) that(1) by (simp add: word_le_nat_alt)
  qed
  show ?thesis
    using assms above
    by (auto simp: handle_reorg_def decoded_def sbind_def sret_def sfail_def sget_def sguard_def smodify_def sok_or_def delete_all in_blocks
        split: outcome.splits option.splits sum.splits if_splits)
qed

lemma reorg_submit_keeps:
  assumes "verified c n = Some x" "lc_finalized_block c = Some (m, hash)" "n \<le> m" "lc_latest_block c \<noteq> - 1"
    "\<And>k. header_number h = Returned (Some k) \<Longrightarrow> verified c k = None"
  shows "verified (snd (handle_reorg_and_submit h c)) n = Some x"
proof -
  obtain r c1 where r: "handle_reorg h c = (r, c1)" by fastforce
  have k: "verified c1 n = Some x" using handle_reorg_keeps [OF assms(1-4), of h] assms(5) r by simp
  then show ?thesis
    using flush_keeps [OF k, of "[]"] r
    by (cases r; cases "flush_loop [] c1")
      (auto simp: handle_reorg_and_submit_def flush_buffer_def sbind_run sret_def split: sum.splits)
qed

text \<open>
  C7: whatever header is submitted and however the submission ends, the verified headers up to the finalized block
  stay what they are.
\<close>

theorem finalized_headers_kept:
  assumes "get_header c n = Some x" "finalized_block c = Some m" "n \<le> m" "lc_latest_block c \<noteq> - 1"
  shows "get_header (snd (submit_header H h c)) n = Some x"
proof -
  have x: "verified c n = Some x" using assms(1) by (simp add: get_header_def)
  obtain hash where fin: "lc_finalized_block c = Some (m, hash)" using assms(2) by (auto simp: finalized_block_def)
  have flush: "verified (snd (flush_loop [] (put_header k h c))) n = Some x" if "verified c k = None" for k
    by (rule flush_keeps) (use that x in auto)
  note reorg = reorg_submit_keeps [OF x fin assms(3,4), of h]
  show ?thesis
  proof (cases "header_number h")
    case (Returned nr)
    show ?thesis
    proof (cases nr)
      case (Some k)
      have "verified (snd (submit_header H h c)) n = Some x" if "verified c k \<noteq> None"
        using that x Some Returned
        by (auto simp: submit_header_def decoded_def sbind_run sret_def sfail_def sget_def sguard_def)
      moreover have "verified (snd (submit_header H h c)) n = Some x" if v: "verified c k = None"
      proof -
        obtain r1 s1 where f: "flush_loop [] (put_header k h c) = (r1, s1)" by fastforce
        have "verified s1 n = Some x" using flush [OF v] f by simp
        moreover have "verified (snd (handle_reorg_and_submit h c)) n = Some x" using reorg v Some Returned by simp
        ultimately show ?thesis
          using v x Some Returned f
          by (cases r1) (auto simp: submit_header_def decoded_def sbind_run sret_def sfail_def sget_def sguard_def smodify_def flush_buffer_def
              buffer_header_def Let_def split: option.splits outcome.splits)
      qed
      ultimately show ?thesis by (auto simp: get_header_def)
    qed (use Returned x in \<open>simp add: submit_header_def decoded_def sbind_run sfail_def get_header_def\<close>)
  qed (use x in \<open>simp add: submit_header_def decoded_def sbind_run sfail_def get_header_def\<close>)
qed

text \<open>A header with nine fields: the hash of the parent, seven fields with the byte 1, the number.\<close>

definition sample_header :: "u256 \<Rightarrow> u8 \<Rightarrow> eth_header" where
  "sample_header ph k = from_rlp from_be_bytes (0xC0 # (0xA0 # to_be_bytes ph) @ replicate 7 1 @ [k])"

definition sample_anchor :: anchor_state where
  "sample_anchor = \<lparr>an_anchor_hash = 77, an_anchor_block = 0, an_state_root = 0\<rparr>"

lemma byte_field:
  assumes "b < 0x80" "sliceable (b # xs)"
  shows "decode_rlp_item (b # xs) = Returned (Some ([b], 1))" "rlp_field_at (b # xs) (Suc i) = rlp_field_at xs i"
proof -
  have "(1 :: usize) \<le> len_u (b # xs)" using unat_len_u [OF assms(2)] by (simp add: word_le_nat_alt)
  then show "decode_rlp_item (b # xs) = Returned (Some ([b], 1))"
    using assms(1) by (simp add: decode_rlp_item_def slice_some_def slice_range_def)
  then show "rlp_field_at (b # xs) (Suc i) = rlp_field_at xs i" by (simp add: obind_def)
qed

lemma sample_header_fields:
  assumes "k < 0x80"
  shows "header_number (sample_header ph k) = Returned (Some (ucast k))" "parent_hash (sample_header ph k) = Returned (Some ph)"
    "from_be_bytes (eh_rlp_bytes (sample_header ph k)) = eh_block_hash (sample_header ph k)"
proof -
  let ?c = "(0xA0 # to_be_bytes ph) @ replicate 7 1 @ [k]"
  have d: "decode_rlp_item ?c = Returned (Some (to_be_bytes ph, 33))"
    by (simp add: decode_rlp_item_def slice_some_def slice_range_def len_u_def)
  have f: "decode_rlp_field (eh_rlp_bytes (sample_header ph k)) i = rlp_field_at ?c i" for i
    by (simp add: decode_rlp_field_def sample_header_def from_rlp_def)
  have step: "rlp_field_at ?c (Suc i) = rlp_field_at (replicate 7 1 @ [k]) i" for i
    using d by (simp add: obind_def)
  have "rlp_field_at (replicate m 1 @ [k]) m = Returned (Some [k])" if "m < 8" for m
    using that byte_field(1) [OF assms, of "[]"] by (induction m) (simp_all add: byte_field(1) obind_def)
  then have 7: "rlp_field_at (replicate 7 1 @ [k]) 7 = Returned (Some [k])" by simp
  have 8: "(8 :: nat) = Suc 7" by simp
  have "from_be_bytes [k] = (ucast k :: u64)" by (simp add: from_be_bytes_def be_nat_def of_nat_unat)
  then show "header_number (sample_header ph k) = Returned (Some (ucast k))"
    unfolding header_number_def f 8 step 7 by (simp add: obind_def)
  show "parent_hash (sample_header ph k) = Returned (Some ph)"
    using d by (simp add: parent_hash_def root_field_def f obind_def from_to_be_bytes)
  show "from_be_bytes (eh_rlp_bytes (sample_header ph k)) = eh_block_hash (sample_header ph k)"
    by (simp add: sample_header_def from_rlp_def)
qed

theorem finalized_headers_kept_witness:
  "get_header (snd (submit_header from_be_bytes (sample_header 5 1) (set_finalized_block 0 77 (lc_init sample_anchor)))) 0 =
     Some \<lparr>eh_rlp_bytes = [], eh_block_hash = 77\<rparr>"
  by (rule finalized_headers_kept [where m = 0])
    (simp_all add: get_header_def finalized_block_def set_finalized_block_def lc_init_def init_with_beacon_config_def sample_anchor_def)

section \<open>Buffered headers\<close>

lemma flush_none: "lc_buffer c = [] \<Longrightarrow> flush_loop rs c = (Inr (rev rs), c)"
  by (subst flush_loop.simps) simp

text \<open>
  C39: a header that arrives before its parent is never checked. Given a client whose latest header is that of block
  \<open>n\<close>, let any header \<open>f\<close> with the number \<open>n + 2\<close> be submitted, whatever it names as its parent and as its hash; it is
  buffered, and as soon as the genuine header of block \<open>n + 1\<close> is submitted, the client reports \<open>f\<close> as verified.
\<close>

theorem forged_header_accepted:
  assumes "header_number f = Returned (Some (n + 2))"
    and "header_number h = Returned (Some (n + 1))" "parent_hash h = Returned (Some (eh_block_hash p))" "H (eh_rlp_bytes h) = eh_block_hash h"
    and "get_header c n = Some p" "get_header c (n + 1) = None" "get_header c (n + 2) = None" "lc_buffer c = []"
    and "lc_latest_block c = n" "anchor_block c \<le> n" "unat n + 66 < 2 ^ 64"
  shows "\<exists>c1 c2. submit_header H f c = (Inr (), c1) \<and> submit_header H h c1 = (Inr (), c2) \<and> get_header c2 (n + 2) = Some f"
proof -
  have u: "unat (n + 2) = unat n + 2" "unat (n + 1) = unat n + 1" "unat (n + 64) = unat n + 64"
    using assms(11) by (simp_all add: unat_add_no_overflow)
  have s: "saturating_sub (n + 2) 1 = n + 1" "saturating_sub (n + 1) 1 = n"
    using u by (simp_all add: saturating_sub_def word_le_nat_alt)
  have a: "\<not> n + 2 \<le> an_anchor_block (lc_genesis c)" "\<not> n + 1 \<le> an_anchor_block (lc_genesis c)" "n + 2 \<le> n + 64" "n + 1 \<noteq> n + 2"
    using u assms(10) by (simp_all add: anchor_block_def word_le_nat_alt)
  let ?c1 = "c\<lparr>lc_buffer := [(n + 2, f)]\<rparr>" let ?c2 = "put_header (n + 1) h ?c1"
  let ?c3 = "put_header (n + 2) f (?c2\<lparr>lc_buffer := []\<rparr>)"
  note v = assms(5-8) [unfolded get_header_def]
  have "submit_header H f c = (Inr (), ?c1)"
    using assms(1,9) v s a
    by (simp add: submit_header_def decoded_def sbind_run sret_def sget_def sguard_def buffer_header_def smodify_def MAX_BUFFER_SIZE_def Let_def)
  moreover have "insert_verified_header f (?c2\<lparr>lc_buffer := []\<rparr>) = (Inr (), ?c3)"
    using assms(1) v a by (simp add: insert_verified_header_def decoded_def sbind_run sret_def sget_def sguard_def smodify_def)
  then have "flush_loop [] ?c2 = (Inr [Inr ()], ?c3)"
    using s by (subst flush_loop.simps) (simp add: bt_remove_def flush_none)
  then have "submit_header H h ?c1 = (Inr (), ?c3)"
    using assms(2-4) v s a
    by (simp add: submit_header_def decoded_def sbind_run sret_def sget_def sguard_def smodify_def flush_buffer_def Let_def)
  moreover have "get_header ?c3 (n + 2) = Some f" by (simp add: get_header_def)
  ultimately show ?thesis by blast
qed

theorem forged_header_accepted_witness:
  "\<exists>c1 c2. submit_header from_be_bytes (sample_header 666 2) (lc_init sample_anchor) = (Inr (), c1) \<and>
     submit_header from_be_bytes (sample_header 77 1) c1 = (Inr (), c2) \<and> get_header c2 (0 + 2) = Some (sample_header 666 2)"
  by (rule forged_header_accepted [where p = "\<lparr>eh_rlp_bytes = [], eh_block_hash = 77\<rparr>"])
    (simp_all add: sample_header_fields get_header_def anchor_block_def lc_init_def init_with_beacon_config_def sample_anchor_def)

end
