(* ===== verification/Bridge_Props.thy ===== *)
theory Bridge_Props
  imports Bridge_Laws Light_Client_Props
begin

text \<open>
  What the bridge contract of \<^verbatim>\<open>crates/bridge/src/precompile.rs\<close> promises and what it does not: a source
  transaction is credited once while it is remembered, the volume of a day stays within its limit over any
  run of the contract, a deposit can be challenged at most once, and a fraud proof without a single trie
  node is accepted.
\<close>

section \<open>A challenge with an empty proof\<close>

lemma challenged_state:
  assumes lay: "bridge_layout_ok H (bridge_keys T I D C)" "h \<in> T" and len: "length pd \<le> MAX_PROOF_LEN"
    and m': "m' = put_chunks H h 0 (chunks32 pd) (challenge_record H h c dl bond pd m)"
  shows "bget H m' (BStatus h) = 1" "bget H m' (BChallenger h) = address_to_u256 c" "bget H m' (BDeadline h) = u64_to_u256 dl"
    "bget H m' (BBond h) = u128_to_u256 bond" "bget H m' (BProofHash h) = H pd"
    "bget H m' (BProofLen h) = u64_to_u256 (of_nat (length pd))" "bget H m' (BValidator h) = bget H m (BValidator h)"
    "bget H m' (BAsset h) = bget H m (BAsset h)" "bget H m' (BRecipient h) = bget H m (BRecipient h)"
    "bget H m' (BAmount h) = bget H m (BAmount h)" "bget H m' BTotalDep = bget H m BTotalDep"
    and "a \<noteq> BRIDGE_ADDRESS \<Longrightarrow> m' a = m a"
proof -
  have c: "length (chunks32 pd) \<le> 512" using len by (simp add: length_chunks32 MAX_PROOF_LEN_def)
  have p: "bget H m' k = bget H (challenge_record H h c dl bond pd m) k" if "k \<in> bridge_keys T I D C" "\<And>j. k \<noteq> BChunk h j" for k
    unfolding m' using lay c that by (intro put_chunks_other [OF lay(1)]) (auto simp: chunk_index)
  note g = bget_bput [OF lay(1)]
  show "bget H m' (BStatus h) = 1" "bget H m' (BChallenger h) = address_to_u256 c" "bget H m' (BDeadline h) = u64_to_u256 dl"
    "bget H m' (BBond h) = u128_to_u256 bond" "bget H m' (BProofHash h) = H pd"
    "bget H m' (BProofLen h) = u64_to_u256 (of_nat (length pd))" "bget H m' (BValidator h) = bget H m (BValidator h)"
    "bget H m' (BAsset h) = bget H m (BAsset h)" "bget H m' (BRecipient h) = bget H m (BRecipient h)"
    "bget H m' (BAmount h) = bget H m (BAmount h)" "bget H m' BTotalDep = bget H m BTotalDep"
    using lay(2) by (simp_all add: p challenge_record_def g)
  show "m' a = m a" if "a \<noteq> BRIDGE_ADDRESS"
    using that by (simp add: m' put_chunks_away challenge_record_def sput_def)
qed

text \<open>A deposit that can still be challenged at block \<open>b\<close>.\<close>

definition open_deposit :: "(bytes \<Rightarrow> u256) \<Rightarrow> evm_storage \<Rightarrow> u256 \<Rightarrow> u64 \<Rightarrow> bool" where
  "open_deposit H m h b \<longleftrightarrow> u256_to_u64 (bget H m (BHeight h)) \<noteq> 0 \<and> status_of H m h = CS_None \<and>
     unat (u256_to_u64 (bget H m (BHeight h))) + unat (period_of H m) < 2 ^ 64 \<and> unat b + unat (period_of H m) < 2 ^ 64 \<and>
     unat b < unat (u256_to_u64 (bget H m (BHeight h))) + unat (period_of H m)"

text \<open>
  C3. A fraud proof that carries no trie node is accepted by the bridge. Take a registered deposit in its
  challenge window whose recipient still holds the amount and whose amount the total of deposits covers, any
  header whose bytes hash to the hash next to them (the header is never compared with a block of the source
  chain), and no node: an account that can pay the bond, other than the recipient and the escrow (which is not
  the recipient either), opens the challenge with it and, once the deadline has passed, resolves it in its own
  favour. The validator who reported the deposit loses its whole stake and its registration, and the amount is
  debited from the recipient's balance, which \<^verbatim>\<open>docs/bridge.md\<close> says it is not.
\<close>

theorem empty_proof_wins:
  assumes lay: "bridge_layout_ok H (bridge_keys {h} I D C)" "val_layout_ok H A" "asset_hash_ok H {CALL_ASSET_ID, i} {c, r, STAKING_ESCROW}"
    and good: "val_good H A m" "finite A" "v \<in> A"
    and dep: "open_deposit H m h b" "bget H m (BValidator h) = address_to_u256 v" "bget H m (BAsset h) = u64_to_u256 i"
      "bget H m (BRecipient h) = address_to_u256 r" "bget H m (BAmount h) = u128_to_u256 x" "x \<le> u256_to_u128 (bget H m BTotalDep)"
    and pf: "empty_proof H E pd" "32 \<le> length pd" "length pd \<le> MAX_PROOF_LEN" "H pd \<noteq> 0"
    and accts: "c \<noteq> r" "c \<noteq> STAKING_ESCROW" "r \<noteq> STAKING_ESCROW"
    and bal: "unat (bond_of H m) \<le> unat (aload H m (Bal_Key CALL_ASSET_ID c))" "unat (aload H m (Bal_Key CALL_ASSET_ID c)) < 2 ^ 128"
      "unat x \<le> unat (aload H m (Bal_Key i r))" "unat (aload H m (Bal_Key i r)) < 2 ^ 128"
    and late: "unat b + unat (period_of H m) \<le> unat b'"
  shows "\<exists>m1 m2. initiate_challenge H pure_backend h pd c b m = (Inr (), m1) \<and>
    resolve_challenge H E pure_backend h b' c m1 = (Inr (True, c), m2) \<and>
    vload H m2 (VId v) = 0 \<and> vload H m2 (VStake v) = 0 \<and>
    unat (aload H m2 (Bal_Key i r)) + unat x = unat (aload H m (Bal_Key i r))"
proof -
  let ?dl = "b + period_of H m" and ?s = "asset_slot H (Bal_Key CALL_ASSET_ID c)"
  note od = dep(1) [unfolded open_deposit_def]
  define n where "n = aput ?s (aload H m (Bal_Key CALL_ASSET_ID c) - ucast (bond_of H m)) m"
  define m1 where "m1 = put_chunks H h 0 (chunks32 pd) (challenge_record H h c ?dl (bond_of H m) pd n)"
  note st = challenged_state [OF lay(1) singletonI pf(3) m1_def]
  have ded: "deduct_balance H pure_backend CALL_ASSET_ID c (bond_of H m) m = (Inr (), n)"
    using bal(1,2) by (simp add: deduct_balance_pure n_def Let_def)
  have init: "initiate_challenge H pure_backend h pd c b m = (Inr (), m1)"
    using od pf(2,3) ded unfolding initiate_pure m1_def
    by (auto simp: checked_add_def word_less_nat_alt unat_add_no_overflow not_less)
  have nb: "bget H n k = bget H m k" for k by (simp add: n_def)
  have away: "m1 VALIDATOR_ADDRESS = m VALIDATOR_ADDRESS" "m1 ASSET_ADDRESS = n ASSET_ADDRESS"
    by (simp_all add: st(12) n_def sput_def)
  note bk = aload_aput [OF lay(3)]
  have esc: "escrow H m1 = escrow H m" and rb: "aload H m1 (Bal_Key i r) = aload H m (Bal_Key i r)"
    using accts by (simp_all add: away n_def bk)
  have "val_good H A m1" using good(1) esc away by (simp add: val_good_def)
  then obtain m2 where sl: "slash_stake H pure_backend v m1 = (Inr (ucast (vload H m1 (VStake v))), m2)"
      and gone: "vload H m2 (VId v) = 0" "vload H m2 (VStake v) = 0"
    using slash_run [OF lay(2) _ good(2,3)] by blast
  have rb2: "aload H m2 (Bal_Key i r) = aload H m1 (Bal_Key i r)"
  proof -
    have "keeps (\<lambda>m. aload H m (Bal_Key i r)) (slash_stake H pure_backend v)"
      using accts by (intro slash_keeps) (simp_all add: sput_apply asset_slot_eq [OF lay(3)])
    from keepsD [OF this, OF sl] show ?thesis .
  qed
  obtain m3 where d: "deduct_balance H pure_backend i r x m2 = (Inr (), m3)"
      and m3: "unat (aload H m3 (Bal_Key i r)) + unat x = unat (aload H m (Bal_Key i r))"
    using bal(3,4) rb rb2 by (auto simp: deduct_balance_pure Let_def sput_apply unat_sub word_le_nat_alt)
  have "verify_fraud_proof H E pure_backend h m1 = (Inr True, m1)"
    using stored_proof_read [OF lay(1) _ m1_def st(5) pf(4) st(6) pf(2,3)]
    by (simp add: chunk_index sret_def empty_proof_valid [OF pf(1)])
  moreover have "u256_to_u64 (bget H m1 (BDeadline h)) \<le> b'"
    using od late by (simp add: st word_le_nat_alt unat_add_no_overflow)
  ultimately obtain m4 where "resolve_challenge H E pure_backend h b' c m1 = (Inr (True, c), m4)"
      "m4 ASSET_ADDRESS = m3 ASSET_ADDRESS" "m4 VALIDATOR_ADDRESS = m2 VALIDATOR_ADDRESS"
    using resolve_accepts [where H = H and m = m1 and h = h and b = b' and c = c and E = E] sl d dep
    by (auto simp: st nb status_of_def)
  with init gone m3 show ?thesis by (intro exI [of _ m1] exI [of _ m4]) simp
qed

section \<open>Runs of the contract\<close>

text \<open>
  The five state-changing calls, and anything that happens elsewhere: \<open>Elsewhere n\<close> replaces the storage of
  every other contract by that of \<open>n\<close>. A call that fails is undone by the checkpoint around it.
\<close>

datatype bridge_op =
    Deposit u64 address u256 u64 address u128 address u64
  | Withdraw u64 u128 address u64
  | Initiate u256 bytes address u64
  | Resolve u256 u64 address
  | Payout u256 address
  | Elsewhere evm_storage

definition committed :: "evm_storage \<Rightarrow> ('e + 'a) \<times> evm_storage \<Rightarrow> evm_storage" where
  "committed m p = (case p of (Inl _, _) \<Rightarrow> m | (Inr _, m') \<Rightarrow> m')"

fun bridge_exec :: "(bytes \<Rightarrow> u256) \<Rightarrow> proof_env \<Rightarrow> bridge_op \<Rightarrow> evm_storage \<Rightarrow> evm_storage" where
  "bridge_exec H E (Deposit c ct h i r x v b) m = committed m (external_deposit H pure_backend c ct h i r x v b m)"
| "bridge_exec H E (Withdraw i x a b) m = committed m (external_withdraw H pure_backend i x a b m)"
| "bridge_exec H E (Initiate h pd c b) m = committed m (initiate_challenge H pure_backend h pd c b m)"
| "bridge_exec H E (Resolve h b a) m = committed m (resolve_challenge H E pure_backend h b a m)"
| "bridge_exec H E (Payout h a) m = committed m (withdraw_challenge_bond H pure_backend h a m)"
| "bridge_exec H E (Elsewhere n) m = n(BRIDGE_ADDRESS := m BRIDGE_ADDRESS)"

definition bridge_run :: "(bytes \<Rightarrow> u256) \<Rightarrow> proof_env \<Rightarrow> bridge_op list \<Rightarrow> evm_storage \<Rightarrow> evm_storage" where
  "bridge_run H E ops m = fold (bridge_exec H E) ops m"

lemma bridge_run_simps [simp]: "bridge_run H E [] m = m" "bridge_run H E (op # ops) m = bridge_run H E ops (bridge_exec H E op m)"
  by (simp_all add: bridge_run_def)

text \<open>The keys a call may write, and the transactions, assets and days it is about.\<close>

fun op_writes :: "bridge_op \<Rightarrow> bridge_key \<Rightarrow> bool" where
  "op_writes (Deposit c ct h i r x v b) k \<longleftrightarrow> k \<in> {BTotalDep, BProcessed h, BAsset h, BRecipient h, BAmount h, BHeight h, BValidator h} \<union> range (BDailyUsed i)"
| "op_writes (Withdraw i x a b) k \<longleftrightarrow> k \<in> {BTotalWd, BPeriodStart, BPeriodWd i}"
| "op_writes (Initiate h pd c b) k \<longleftrightarrow> k \<in> {BStatus h, BChallenger h, BDeadline h, BBond h, BProofHash h, BProofLen h} \<union> range (BChunk h)"
| "op_writes (Resolve h b a) k \<longleftrightarrow> k \<in> {BTotalDep, BStatus h, BAsset h, BRecipient h, BAmount h, BHeight h, BChallenger h, BDeadline h,
      BBond h, BProofHash h, BProofLen h, BValidator h} \<union> range (BChunk h)"
| "op_writes (Payout h a) k \<longleftrightarrow> k \<in> {BStatus h, BBond h}"
| "op_writes (Elsewhere n) k \<longleftrightarrow> False"

fun op_in :: "u256 set \<Rightarrow> u64 set \<Rightarrow> u64 set \<Rightarrow> u64 \<Rightarrow> bridge_op \<Rightarrow> bool" where
  "op_in T I D n (Deposit c ct h i r x v b) \<longleftrightarrow> h \<in> T \<and> i \<in> I \<and> b div n \<in> D"
| "op_in T I D n (Withdraw i x a b) \<longleftrightarrow> i \<in> I"
| "op_in T I D n (Initiate h pd c b) \<longleftrightarrow> h \<in> T"
| "op_in T I D n (Resolve h b a) \<longleftrightarrow> h \<in> T"
| "op_in T I D n (Payout h a) \<longleftrightarrow> h \<in> T"
| "op_in T I D n (Elsewhere m) \<longleftrightarrow> True"

lemma committed_keeps: "keeps obs p \<Longrightarrow> obs (committed m (p m)) = obs m"
  by (auto simp: committed_def keeps_def split: prod.split sum.split) (metis snd_conv)

lemma put_chunks_frame:
  assumes "bridge_layout_ok H (bridge_keys T I D C)" "h \<in> T" "k \<in> bridge_keys T I D C" "k \<notin> range (BChunk h)"
  shows "bget H (put_chunks H h i cs m) k = bget H m k"
  using assms by (intro put_chunks_other [OF assms(1)]) auto

lemma exec_frame:
  assumes lay: "bridge_layout_ok H (bridge_keys T I D C)" and k: "k \<in> bridge_keys T I D C"
    and op: "op_in T I D (cfg64 H m BBlocksPerDay DEFAULT_BLOCKS_PER_DAY) op" "\<not> op_writes op k"
  shows "bget H (bridge_exec H E op m) k = bget H m k"
proof (cases op)
  case (Deposit c ct h i r x v b)
  have d: "BDailyUsed i (day_of H m b) \<in> bridge_keys T I D C" using op Deposit by (simp add: day_of_def)
  have "bget H m' k = bget H m k" if run: "external_deposit H pure_backend c ct h i r x v b m = (Inr y, m')" for y m'
  proof (rule deposit_run [OF run lay _ d])
    fix m1 t
    assume "deposit_credit H i r y (bridge_fee_of H m) m = (Inr (), m1)"
      "m' = deposit_record H h i r y t v b (day_of H m b) (daily H m i (day_of H m b) + x) m1"
    then show ?thesis using op Deposit k d deposit_credit_bridge [of H i r y "bridge_fee_of H m" m m1]
      by (auto simp: deposit_record_def bget_bput [OF lay])
  qed simp
  then show ?thesis using Deposit by (auto simp: committed_def split: prod.split sum.split)
next
  case (Withdraw i x a b)
  note s = keeps_bstore [OF lay k]
  have r: "keeps (\<lambda>m. bget H m k) (record_withdraw_used H pure_backend i x b l)" for l
    using Withdraw op by (cases l) (auto simp: bridge_slots [of H] intro!: keep_intros s)
  have "keeps (\<lambda>m. bget H m k) (external_withdraw H pure_backend i x a b)"
    unfolding external_withdraw_def validate_basic_def asset_registered_def check_withdraw_limit_def add_total_withdrawals_def
      bridge_slots [of H] Let_def
    using Withdraw op by (intro keep_intros s r) auto
  then show ?thesis unfolding Withdraw bridge_exec.simps by (rule committed_keeps)
next
  case (Initiate h pd c b)
  have "bget H m' k = bget H m k" if "initiate_challenge H pure_backend h pd c b m = (Inr y, m')" for y m'
    using that Initiate op k unfolding initiate_pure
    by (auto simp: put_chunks_frame [OF lay] challenge_record_def bget_bput [OF lay] dest!: deduct_bridge)
  then show ?thesis using Initiate by (auto simp: committed_def split: prod.split sum.split)
next
  case (Resolve h b a)
  note s = keeps_bstore [OF lay k]
  have c: "keeps (\<lambda>m. bget H m k) (clear_challenge_metadata H pure_backend h f :: (_, bridge_error, _) smonad)" for f
    using Resolve op k by (auto simp: keeps_def clear_pure cleared_def Let_def bget_bput [OF lay] put_chunks_frame [OF lay])
  have "keeps (\<lambda>m. bget H m k) (resolve_challenge H E pure_backend h b a)"
    unfolding resolve_challenge_def sub_total_deposits_def bridge_slots [of H] Let_def
    using Resolve op by (intro keep_intros s c) auto
  then show ?thesis unfolding Resolve bridge_exec.simps by (rule committed_keeps)
next
  case (Payout h a)
  note s = keeps_bstore [OF lay k]
  have "keeps (\<lambda>m. bget H m k) (withdraw_challenge_bond H pure_backend h a)"
    unfolding withdraw_challenge_bond_def bridge_slots [of H] using Payout op by (intro keep_intros s) auto
  then show ?thesis unfolding Payout bridge_exec.simps by (rule committed_keeps)
qed simp

section \<open>The volume of a day\<close>

lemma config_frame:
  assumes lay: "bridge_layout_ok H (bridge_keys T I D C)" and op: "op_in T I D (cfg64 H m BBlocksPerDay DEFAULT_BLOCKS_PER_DAY) op"
  shows "cfg64 H (bridge_exec H E op m) BBlocksPerDay z = cfg64 H m BBlocksPerDay z"
    "cfg64 H (bridge_exec H E op m) BRetention z = cfg64 H m BRetention z"
    "i \<in> I \<Longrightarrow> cfg128 H (bridge_exec H E op m) (BDailyLimit i) w = cfg128 H m (BDailyLimit i) w"
proof -
  have n: "\<not> op_writes op BBlocksPerDay" "\<not> op_writes op BRetention" "\<not> op_writes op (BDailyLimit i)" by (cases op; auto)+
  note f = exec_frame [OF lay _ op]
  show "cfg64 H (bridge_exec H E op m) BBlocksPerDay z = cfg64 H m BBlocksPerDay z"
    "cfg64 H (bridge_exec H E op m) BRetention z = cfg64 H m BRetention z"
    "i \<in> I \<Longrightarrow> cfg128 H (bridge_exec H E op m) (BDailyLimit i) w = cfg128 H m (BDailyLimit i) w"
    using f [OF _ n(1)] f [OF _ n(2)] f [OF _ n(3)] by (simp_all add: cfg64_def cfg128_def)
qed

text \<open>What the accepted deposits of a call list add up to, for an asset on a day.\<close>

fun deposit_volume :: "(bytes \<Rightarrow> u256) \<Rightarrow> u64 \<Rightarrow> u64 \<Rightarrow> bridge_op \<Rightarrow> evm_storage \<Rightarrow> nat" where
  "deposit_volume H i d (Deposit c ct h j r x v b) m =
     (if j = i \<and> day_of H m b = d \<and> \<not> isl (fst (external_deposit H pure_backend c ct h j r x v b m)) then unat x else 0)"
| "deposit_volume H i d op m = 0"

fun day_volume :: "(bytes \<Rightarrow> u256) \<Rightarrow> proof_env \<Rightarrow> u64 \<Rightarrow> u64 \<Rightarrow> bridge_op list \<Rightarrow> evm_storage \<Rightarrow> nat" where
  "day_volume H E i d [] m = 0"
| "day_volume H E i d (op # ops) m = deposit_volume H i d op m + day_volume H E i d ops (bridge_exec H E op m)"

lemma exec_daily:
  assumes lay: "bridge_layout_ok H (bridge_keys T I D C)" and op: "op_in T I D (cfg64 H m BBlocksPerDay DEFAULT_BLOCKS_PER_DAY) op"
    and i: "i \<in> I" "d \<in> D"
  shows "unat (daily H (bridge_exec H E op m) i d) = unat (daily H m i d) + deposit_volume H i d op m \<and>
    (deposit_volume H i d op m = 0 \<or> unat (daily H m i d) + deposit_volume H i d op m \<le> unat (daily_limit_of H m i))"
proof (cases "op_writes op (BDailyUsed i d)")
  case False
  then have "deposit_volume H i d op m = 0" by (cases op) auto
  then show ?thesis using exec_frame [OF lay _ op False] i by simp
next
  case True
  then obtain c ct h r x v b where o: "op = Deposit c ct h i r x v b" by (cases op) auto
  show ?thesis
  proof (cases "external_deposit H pure_backend c ct h i r x v b m")
    case (Pair q m')
    show ?thesis
    proof (cases q)
      case (Inl e)
      then show ?thesis using Pair by (simp add: o committed_def)
    next
      case (Inr y)
      have dk: "BDailyUsed i (day_of H m b) \<in> bridge_keys T I D C" "h \<in> T" using op o by (simp_all add: day_of_def)
      show ?thesis
      proof (rule deposit_run [OF Pair [unfolded Inr] lay _ dk(1)])
        fix m1 t
        assume l: "unat (daily H m i (day_of H m b)) + unat x < 2 ^ 128"
            "unat (daily H m i (day_of H m b)) + unat x \<le> unat (daily_limit_of H m i)"
          and c: "deposit_credit H i r y (bridge_fee_of H m) m = (Inr (), m1)"
          and m': "m' = deposit_record H h i r y t v b (day_of H m b) (daily H m i (day_of H m b) + x) m1"
        show ?thesis using Pair Inr l dk i deposit_credit_bridge [OF c]
          by (auto simp: o committed_def m' deposit_record_def bget_bput [OF lay] unat_add_no_overflow)
      qed simp
    qed
  qed
qed

text \<open>
  C20. Over any sequence of calls to the bridge and of transactions elsewhere, the amounts of the accepted
  deposits of an asset on a day are exactly what its counter has gone up by, and a counter that starts within
  the daily limit stays within it.
\<close>

theorem daily_volume_bounded:
  assumes lay: "bridge_layout_ok H (bridge_keys T I D C)"
    and ops: "list_all (op_in T I D (cfg64 H m BBlocksPerDay DEFAULT_BLOCKS_PER_DAY)) ops" and i: "i \<in> I" "d \<in> D"
    and start: "daily H m i d \<le> daily_limit_of H m i"
  shows "unat (daily H (bridge_run H E ops m) i d) = unat (daily H m i d) + day_volume H E i d ops m \<and>
    unat (daily H m i d) + day_volume H E i d ops m \<le> unat (daily_limit_of H m i)"
  using ops start
proof (induction ops arbitrary: m)
  case (Cons op ops)
  then have op: "op_in T I D (cfg64 H m BBlocksPerDay DEFAULT_BLOCKS_PER_DAY) op" by simp
  let ?m = "bridge_exec H E op m"
  note f = config_frame [OF lay op] and e = exec_daily [OF lay op i, where E = E]
  have "daily H ?m i d \<le> daily_limit_of H ?m i"
    using e Cons.prems(2) f(3) [OF i(1)] by (auto simp: word_le_nat_alt)
  then show ?case using Cons.IH [of ?m] Cons.prems(1) e f(3) [OF i(1)] by (simp add: f(1))
qed (simp add: word_le_nat_alt)

section \<open>One challenge for a deposit\<close>

lemma status_None: "status_of H m h = CS_None \<longleftrightarrow> (ucast (bget H m (BStatus h)) :: 8 word) \<notin> {1, 2, 3, 4}"
  by (simp add: status_of_def Let_def)

lemma exec_status:
  assumes lay: "bridge_layout_ok H (bridge_keys T I D C)" and op: "op_in T I D (cfg64 H m BBlocksPerDay DEFAULT_BLOCKS_PER_DAY) op"
    and h: "h \<in> T" "status_of H m h \<noteq> CS_None"
  shows "status_of H (bridge_exec H E op m) h \<noteq> CS_None"
proof (cases "op_writes op (BStatus h)")
  case False
  then show ?thesis using exec_frame [OF lay _ op False, where E = E] h by (simp add: status_of_def)
next
  case True
  let ?Q = "\<lambda>v :: u256. (ucast v :: 8 word) \<in> {1, 2, 3, 4}"
  note km = keeps_maintains [where obs = "\<lambda>m. bget H m (BStatus h)" and Q = ?Q]
  note s = keeps_bstore [OF lay, of "BStatus h"]
  have st: "maintains (\<lambda>m. ?Q (bget H m (BStatus h))) (bstore pure_backend (bridge_slot H (BStatus h)) w :: (_, bridge_error, _) smonad)"
    if "?Q w" for w using that by (simp add: maintains_def bstore_pure sput_apply)
  have c: "keeps (\<lambda>m. bget H m (BStatus h)) (clear_challenge_metadata H pure_backend h f :: (_, bridge_error, _) smonad)" for f
  proof -
    have "bget H (put_chunks H h i cs n) (BStatus h) = bget H n (BStatus h)" for i cs n
      by (rule put_chunks_frame [OF lay]) (use h in auto)
    then show ?thesis using h(1) by (simp add: keeps_def clear_pure cleared_def Let_def bget_bput [OF lay])
  qed
  have cm: "?Q (bget H (committed m (p m)) (BStatus h))" if "maintains (\<lambda>m. ?Q (bget H m (BStatus h))) p"
    for p :: "(evm_storage, bridge_error, 'z) smonad"
  proof -
    have q: "?Q (bget H m (BStatus h))" using h(2) by (simp add: status_None)
    obtain r n where r: "p m = (r, n)" by fastforce
    from maintainsD [OF that, of m r n] r q show ?thesis by (cases r) (simp_all add: r committed_def)
  qed
  from True consider (init) pd c b where "op = Initiate h pd c b" | (res) b a where "op = Resolve h b a" | (pay) a where "op = Payout h a"
    by (cases op) auto
  then show ?thesis
  proof cases
    case init
    have no: "initiate_challenge H pure_backend h pd c b m \<noteq> (Inr (), m')" for m'
      unfolding initiate_pure using h(2) by blast
    obtain q n where q: "initiate_challenge H pure_backend h pd c b m = (q, n)" by fastforce
    then have "bridge_exec H E op m = m" using no by (cases q) (simp_all add: init committed_def)
    then show ?thesis using h(2) by simp
  next
    case res
    have "maintains (\<lambda>m. ?Q (bget H m (BStatus h))) (resolve_challenge H E pure_backend h b a)"
      unfolding resolve_challenge_def sub_total_deposits_def bridge_slots [of H] Let_def
      using h by (intro st inv_intros km keep_intros s c) simp_all
    from cm [OF this] show ?thesis by (simp add: res status_None)
  next
    case pay
    have "maintains (\<lambda>m. ?Q (bget H m (BStatus h))) (withdraw_challenge_bond H pure_backend h a)"
      unfolding withdraw_challenge_bond_def bridge_slots [of H] using h by (intro st inv_intros km keep_intros s) simp_all
    from cm [OF this] show ?thesis by (simp add: pay status_None)
  qed
qed

lemma run_status:
  assumes lay: "bridge_layout_ok H (bridge_keys T I D C)" and h: "h \<in> T"
  shows "list_all (op_in T I D (cfg64 H m BBlocksPerDay DEFAULT_BLOCKS_PER_DAY)) ops \<Longrightarrow> status_of H m h \<noteq> CS_None \<Longrightarrow>
    status_of H (bridge_run H E ops m) h \<noteq> CS_None"
proof (induction ops arbitrary: m)
  case (Cons op ops)
  then have op: "op_in T I D (cfg64 H m BBlocksPerDay DEFAULT_BLOCKS_PER_DAY) op" by simp
  show ?case using Cons exec_status [OF lay op h] config_frame(1) [OF lay op] by simp
qed simp

text \<open>
  C21. A deposit is challenged at most once: after an accepted challenge no call to the bridge, whatever else
  happens in between and however the challenge is decided, opens another one for the same source transaction.
  A challenge that fails therefore shields the deposit from every later, better founded one.
\<close>

theorem challenged_once:
  assumes lay: "bridge_layout_ok H (bridge_keys T I D C)" "h \<in> T"
    and first: "initiate_challenge H pure_backend h pd c b m = (Inr (), m')"
    and ops: "list_all (op_in T I D (cfg64 H m BBlocksPerDay DEFAULT_BLOCKS_PER_DAY)) ops"
  shows "\<exists>e. initiate_challenge H pure_backend h pd' c' b' (bridge_run H E ops m') = (Inl e, bridge_run H E ops m') \<and>
    e \<in> {B_NotProcessed, B_AlreadyChallenged}"
proof -
  let ?op = "Initiate h pd c b" and ?n = "bridge_run H E ops m'"
  have x: "bridge_exec H E ?op m = m'" using first by (simp add: committed_def)
  have op: "op_in T I D (cfg64 H m BBlocksPerDay DEFAULT_BLOCKS_PER_DAY) ?op" using lay by simp
  from first obtain dl m1 where m': "m' = put_chunks H h 0 (chunks32 pd) (challenge_record H h c dl (bond_of H m) pd m1)"
    and len: "length pd \<le> MAX_PROOF_LEN" unfolding initiate_pure by auto
  have "status_of H m' h \<noteq> CS_None"
    using challenged_state(1) [OF lay len m'] by (simp add: status_None)
  then have "status_of H ?n h \<noteq> CS_None"
    using run_status [OF lay] ops config_frame(1) [OF lay(1) op, where E = E] x by simp
  then show ?thesis
    by (cases "u256_to_u64 (bget H ?n (BHeight h)) = 0") (simp_all add: initiate_challenge_def reads_pure)
qed

section \<open>A source transaction is credited once while it is remembered\<close>

abbreviation retention_of :: "(bytes \<Rightarrow> u256) \<Rightarrow> evm_storage \<Rightarrow> u64" where
  "retention_of H m \<equiv> cfg64 H m BRetention DEFAULT_PROCESSED_RETENTION"

text \<open>The mark of a transaction credited at block \<open>b\<close>: that block, or a block the retention period has already passed at.\<close>

definition marked :: "(bytes \<Rightarrow> u256) \<Rightarrow> evm_storage \<Rightarrow> u256 \<Rightarrow> u64 \<Rightarrow> bool" where
  "marked H m h b \<longleftrightarrow> (\<exists>w. bget H m (BProcessed h) = u64_to_u256 w \<and> w \<noteq> 0 \<and> (w = b \<or> unat b + unat (retention_of H m) < unat w))"

lemma u64_to_u256_zero: "u64_to_u256 w = 0 \<longleftrightarrow> w = 0"
  using narrow_widen(2) [of w] by (auto simp del: narrow_widen)

lemma marked_seen:
  assumes "marked H m h b" "b \<le> b'" "unat b' \<le> unat b + unat (retention_of H m)"
  shows "seen H m h b'"
proof -
  from assms(1) obtain w where w: "bget H m (BProcessed h) = u64_to_u256 w" "w \<noteq> 0" "w = b \<or> unat b + unat (retention_of H m) < unat w"
    by (auto simp: marked_def)
  have "unat (saturating_sub b' w) \<le> unat (retention_of H m)"
    using w(3) assms(2,3) by (auto simp: saturating_sub_def unat_sub word_le_nat_alt)
  with w show ?thesis by (simp add: seen_def u64_to_u256_zero word_le_nat_alt)
qed

lemma unseen_late:
  assumes "\<not> seen H m h b2" "marked H m h b"
  shows "unat b + unat (retention_of H m) < unat b2"
proof -
  from assms(2) obtain w where w: "bget H m (BProcessed h) = u64_to_u256 w" "w \<noteq> 0" "w = b \<or> unat b + unat (retention_of H m) < unat w"
    by (auto simp: marked_def)
  with assms(1) have "unat (retention_of H m) < unat (saturating_sub b2 w)"
    by (simp add: seen_def u64_to_u256_zero word_le_nat_alt)
  then show ?thesis using w(3) by (auto simp: saturating_sub_def unat_sub word_le_nat_alt split: if_splits)
qed

lemma exec_marked:
  assumes lay: "bridge_layout_ok H (bridge_keys T I D C)" and op: "op_in T I D (cfg64 H m BBlocksPerDay DEFAULT_BLOCKS_PER_DAY) op"
    and h: "h \<in> T" "marked H m h b"
  shows "marked H (bridge_exec H E op m) h b"
proof (cases "op_writes op (BProcessed h)")
  case False
  then show ?thesis using exec_frame [OF lay _ op False, where E = E] h config_frame(2) [OF lay op, where E = E] by (simp add: marked_def)
next
  case True
  then obtain c ct i r x v b2 where o: "op = Deposit c ct h i r x v b2" by (cases op) auto
  obtain q m' where q: "external_deposit H pure_backend c ct h i r x v b2 m = (q, m')" by fastforce
  show ?thesis
  proof (cases q)
    case (Inl e)
    then show ?thesis using q h by (simp add: o committed_def)
  next
    case (Inr y)
    have dk: "BDailyUsed i (day_of H m b2) \<in> bridge_keys T I D C" using op o by (simp add: day_of_def)
    have x: "bridge_exec H E op m = m'" using q Inr by (simp add: o committed_def)
    show ?thesis
    proof (rule deposit_run [OF q [unfolded Inr] lay _ dk])
      fix m1 t
      assume s: "\<not> seen H m h b2"
        and m': "m' = deposit_record H h i r y t v b2 (day_of H m b2) (daily H m i (day_of H m b2) + x) m1"
      have g: "bget H m' (BProcessed h) = u64_to_u256 b2"
        using h(1) dk by (simp add: m' deposit_record_def bget_bput [OF lay])
      have late: "unat b + unat (retention_of H m) < unat b2" by (rule unseen_late [OF s h(2)])
      then have "b2 \<noteq> 0" by auto
      with g late show ?thesis using config_frame(2) [OF lay op, where E = E] x by (auto simp: marked_def)
    qed simp
  qed
qed

lemma run_marked:
  assumes lay: "bridge_layout_ok H (bridge_keys T I D C)" and h: "h \<in> T"
  shows "list_all (op_in T I D (cfg64 H m BBlocksPerDay DEFAULT_BLOCKS_PER_DAY)) ops \<Longrightarrow> marked H m h b \<Longrightarrow>
    marked H (bridge_run H E ops m) h b \<and> retention_of H (bridge_run H E ops m) = retention_of H m"
proof (induction ops arbitrary: m)
  case (Cons op ops)
  then have op: "op_in T I D (cfg64 H m BBlocksPerDay DEFAULT_BLOCKS_PER_DAY) op" by simp
  show ?case using Cons exec_marked [OF lay op h] config_frame [OF lay op] by simp
qed simp

text \<open>
  C19. A source transaction credited at block \<open>b\<close> is refused as already processed in every later block up to
  \<open>b\<close> plus the retention period, for any asset, recipient, amount and reporting validator, whatever calls the
  bridge and the rest of the chain have executed in between.
\<close>

theorem deposit_once:
  assumes lay: "bridge_layout_ok H (bridge_keys T I D C)" "h \<in> T"
    and first: "external_deposit H pure_backend c ct h i r x v b m = (Inr y, m')" "b \<noteq> 0" "i \<in> I" "day_of H m b \<in> D"
    and ops: "list_all (op_in T I D (cfg64 H m BBlocksPerDay DEFAULT_BLOCKS_PER_DAY)) ops"
    and window: "b \<le> b'" "unat b' \<le> unat b + unat (retention_of H m)"
    and again: "x' \<noteq> 0" "r' \<noteq> 0"
  shows "external_deposit H pure_backend c' ct' h i' r' x' v' b' (bridge_run H E ops m') = (Inl B_AlreadyProcessed, bridge_run H E ops m')"
proof -
  let ?op = "Deposit c ct h i r x v b" and ?n = "bridge_run H E ops m'"
  have x: "bridge_exec H E ?op m = m'" using first by (simp add: committed_def)
  have op: "op_in T I D (cfg64 H m BBlocksPerDay DEFAULT_BLOCKS_PER_DAY) ?op" using lay first by (simp add: day_of_def)
  note f = config_frame [OF lay(1) op, where E = E, unfolded x]
  have dk: "BDailyUsed i (day_of H m b) \<in> bridge_keys T I D C" using first by simp
  have "marked H m' h b \<and> h \<noteq> 0"
    using first(2) lay(2) dk by (rule_tac deposit_run [OF first(1) lay(1) _ dk]) (auto simp: marked_def deposit_record_def bget_bput [OF lay(1)])
  moreover from this have "marked H ?n h b" "retention_of H ?n = retention_of H m"
    using run_marked [OF lay, of m' ops b E] ops f by simp_all
  ultimately show ?thesis using again marked_seen [of H ?n h b b'] window
    by (simp add: external_deposit_def seen_pure)
qed

section \<open>The effect of a deposit\<close>

text \<open>
  C32. An accepted deposit credits the recipient with the amount less the bridge fee and the bridge with the
  fee, and adds the net amount to the contract's total. The recorded supply of the asset is not touched: the
  balances grow by the whole amount while the supply stays what it was.
\<close>

theorem deposit_effect:
  assumes run: "external_deposit H pure_backend c ct h i r x v b m = (Inr y, m')"
    and lay: "bridge_layout_ok H (bridge_keys {h} {i} {day_of H m b} C)" "asset_hash_ok H {i} {r, BRIDGE_ADDRESS}" "r \<noteq> BRIDGE_ADDRESS"
  shows "y = x - bridge_fee_of H m \<and> bridge_fee_of H m < x \<and>
    unat (aload H m' (Bal_Key i r)) = unat (aload H m (Bal_Key i r)) + unat y \<and>
    unat (aload H m' (Bal_Key i BRIDGE_ADDRESS)) = unat (aload H m (Bal_Key i BRIDGE_ADDRESS)) + unat (bridge_fee_of H m) \<and>
    aload H m' (Meta_Key i ''supply'') = aload H m (Meta_Key i ''supply'') \<and>
    unat (u256_to_u128 (bget H m' BTotalDep)) = unat (u256_to_u128 (bget H m BTotalDep)) + unat y"
proof (rule deposit_run [OF run lay(1)])
  fix m1 t
  assume y: "y = x - bridge_fee_of H m" "bridge_fee_of H m < x" and c: "deposit_credit H i r y (bridge_fee_of H m) m = (Inr (), m1)"
    and t: "checked_add (u256_to_u128 (bget H m BTotalDep)) y = Some t"
    and m': "m' = deposit_record H h i r y t v b (day_of H m b) (daily H m i (day_of H m b) + x) m1"
  have a: "m' ASSET_ADDRESS = m1 ASSET_ADDRESS" by (simp add: m' deposit_record_def sput_def)
  have w: "unat (p + ucast (z :: u128)) = unat p + unat z" if "\<not> 2 ^ 128 \<le> unat p + unat z" for p :: u256 and z
    using that by (subst unat_add_no_overflow) (simp_all add: unsigned_ucast_eq take_bit_nat_eq_self)
  have "unat (aload H m1 (Bal_Key i r)) = unat (aload H m (Bal_Key i r)) + unat y \<and>
      unat (aload H m1 (Bal_Key i BRIDGE_ADDRESS)) = unat (aload H m (Bal_Key i BRIDGE_ADDRESS)) + unat (bridge_fee_of H m) \<and>
      aload H m1 (Meta_Key i ''supply'') = aload H m (Meta_Key i ''supply'')"
    using c lay(3) by (auto simp: deposit_credit_def smonad_Inr add_balance_pure Let_def sret_def aload_aput [OF lay(2)] w meta_names_def
        word_gt_0 split: if_splits)
  moreover have "bget H m' BTotalDep = u128_to_u256 t"
    by (simp add: m' deposit_record_def bget_bput [OF lay(1)])
  ultimately show ?thesis using y t by (simp add: a unat_add_no_overflow)
qed simp_all

section \<open>A concrete chain\<close>

text \<open>
  The chain of \<open>val_hash\<close> with a bridge: the source transaction 9, the native asset, day 0 and the source
  contract 7 of chain 1. The words of a proof are placed one after the other from \<open>2 ^ 200\<close> on, the other
  slots of the bridge by their place in a table.
\<close>

fun bridge_key_bytes :: "bridge_key \<Rightarrow> bytes" where
  "bridge_key_bytes BTotalDep = []"
| "bridge_key_bytes BTotalWd = []"
| "bridge_key_bytes BPaused = bstr ''paused''"
| "bridge_key_bytes (BProcessed h) = bstr ''processed'' @ to_be_bytes h"
| "bridge_key_bytes (BStatus h) = bstr ''challenge_status'' @ to_be_bytes h"
| "bridge_key_bytes (BChallenger h) = bstr ''challenge_challenger'' @ to_be_bytes h"
| "bridge_key_bytes (BDeadline h) = bstr ''challenge_deadline'' @ to_be_bytes h"
| "bridge_key_bytes (BBond h) = bstr ''challenge_bond'' @ to_be_bytes h"
| "bridge_key_bytes (BProofHash h) = bstr ''challenge_proof_hash'' @ to_be_bytes h"
| "bridge_key_bytes (BProofLen h) = bstr ''challenge_proof_len'' @ to_be_bytes h"
| "bridge_key_bytes (BValidator h) = bstr ''challenge_validator'' @ to_be_bytes h"
| "bridge_key_bytes (BAsset h) = bstr ''deposit_asset_id'' @ to_be_bytes h"
| "bridge_key_bytes (BRecipient h) = bstr ''deposit_recipient'' @ to_be_bytes h"
| "bridge_key_bytes (BAmount h) = bstr ''deposit_amount'' @ to_be_bytes h"
| "bridge_key_bytes (BHeight h) = bstr ''deposit_block'' @ to_be_bytes h"
| "bridge_key_bytes BPeriod = bstr ''challenge_period''"
| "bridge_key_bytes BBondAmount = bstr ''challenge_bond''"
| "bridge_key_bytes (BChunk h j) = bstr ''challenge_proof'' @ to_be_bytes h @ to_be_bytes j"
| "bridge_key_bytes (BMaxTx i) = bstr ''max_per_tx'' @ to_be_bytes i"
| "bridge_key_bytes (BDailyLimit i) = bstr ''daily_limit'' @ to_be_bytes i"
| "bridge_key_bytes (BDailyUsed i d) = bstr ''daily_used'' @ to_be_bytes i @ to_be_bytes d"
| "bridge_key_bytes BBlocksPerDay = bstr ''blocks_per_day''"
| "bridge_key_bytes (BAllowed i) = bstr ''asset_allowed'' @ to_be_bytes i"
| "bridge_key_bytes (BAuthorized c a) = bstr ''authorized'' @ to_be_bytes c @ to_be_bytes a"
| "bridge_key_bytes BMaxWd = bstr ''max_withdraw_period''"
| "bridge_key_bytes (BPeriodWd i) = bstr ''period_withdrawn'' @ to_be_bytes i"
| "bridge_key_bytes BWdPeriod = bstr ''withdraw_period''"
| "bridge_key_bytes BFee = bstr ''bridge_fee''"
| "bridge_key_bytes BPeriodStart = bstr ''period_start''"
| "bridge_key_bytes BRetention = bstr ''processed_retention''"

definition bridge_key_list :: "bridge_key list" where
  "bridge_key_list = [BPaused, BPeriod, BBondAmount, BBlocksPerDay, BMaxWd, BWdPeriod, BFee, BPeriodStart, BRetention,
     BProcessed 9, BStatus 9, BChallenger 9, BDeadline 9, BBond 9, BProofHash 9, BProofLen 9, BValidator 9, BAsset 9, BRecipient 9,
     BAmount 9, BHeight 9, BMaxTx 1, BDailyLimit 1, BAllowed 1, BPeriodWd 1, BDailyUsed 1 0, BAuthorized 1 7]"

lemma bridge_keys_list: "bridge_keys {9} {1} {0} {(1, 7)} = {BTotalDep, BTotalWd} \<union> set bridge_key_list \<union> range (BChunk 9)"
  by (auto simp: bridge_keys_def bridge_key_list_def)

definition bridge_table :: "bytes list" where
  "bridge_table = map bridge_key_bytes bridge_key_list"

definition bridge_hash_on :: "(bytes \<Rightarrow> u256) \<Rightarrow> bytes \<Rightarrow> u256" where
  "bridge_hash_on G k = (if length k = 55 then 2 ^ 200 + from_be_bytes (drop 47 k)
     else if k \<in> set bridge_table then table_hash bridge_table k + 1 else G k)"

lemma bridge_slot_bytes: "k \<notin> {BTotalDep, BTotalWd} \<Longrightarrow> bridge_slot H k = H (bridge_key_bytes k)"
  by (cases k) (simp_all add: bridge_slot.simps slot_bridge_paused_def slot_bridge_processed_def slot_bridge_challenge_status_def
      slot_bridge_challenge_challenger_def slot_bridge_challenge_deadline_def slot_bridge_challenge_bond_def
      slot_bridge_challenge_proof_hash_def slot_bridge_challenge_proof_len_def slot_bridge_challenge_original_validator_def
      slot_bridge_deposit_asset_id_def slot_bridge_deposit_recipient_def slot_bridge_deposit_amount_def
      slot_bridge_deposit_block_height_def slot_challenge_period_def slot_challenge_bond_amount_def
      slot_bridge_challenge_proof_chunk_def slot_bridge_max_per_tx_def slot_bridge_daily_limit_def slot_bridge_daily_used_def
      slot_bridge_blocks_per_day_def slot_bridge_asset_allowed_def slot_bridge_authorized_contract_def
      slot_bridge_max_withdraw_per_period_def slot_bridge_period_withdrawn_def slot_bridge_withdraw_period_def
      slot_bridge_bridge_fee_def slot_bridge_current_period_start_def slot_bridge_processed_retention_def storage_slot_def)

text \<open>The keys are told apart by their length, their first byte and their eleventh byte.\<close>

definition key_sign :: "bytes \<Rightarrow> nat \<times> u8 \<times> u8" where
  "key_sign k = (length k, k ! 0, if 10 < length k then k ! 10 else 0)"

lemma bridge_bytes_inj: "inj_on bridge_key_bytes (set bridge_key_list)"
proof -
  have "distinct (map (\<lambda>k. key_sign (bridge_key_bytes k)) bridge_key_list)"
    by (simp add: bridge_key_list_def key_sign_def nth_append bstr_def)
  then have "inj_on (\<lambda>k. key_sign (bridge_key_bytes k)) (set bridge_key_list)" by (simp add: distinct_map)
  then show ?thesis by (metis inj_onI inj_onD)
qed

lemma bridge_bytes_short: "k \<in> set bridge_key_list \<Longrightarrow> length (bridge_key_bytes k) \<noteq> 55"
  by (auto simp: bridge_key_list_def)

lemma listed_slot:
  assumes "k \<in> set bridge_key_list"
  shows "bridge_slot (bridge_hash_on G) k = table_hash bridge_table (bridge_key_bytes k) + 1"
    "unat (bridge_slot (bridge_hash_on G) k) = 2 + length (takeWhile (\<lambda>x. x \<noteq> bridge_key_bytes k) bridge_table)"
    "unat (bridge_slot (bridge_hash_on G) k) < 100"
proof -
  have in_table: "bridge_key_bytes k \<in> set bridge_table" using assms by (simp add: bridge_table_def)
  have "k \<notin> {BTotalDep, BTotalWd}" using assms by (auto simp: bridge_key_list_def)
  then show s: "bridge_slot (bridge_hash_on G) k = table_hash bridge_table (bridge_key_bytes k) + 1"
    using in_table bridge_bytes_short [OF assms] by (simp add: bridge_slot_bytes bridge_hash_on_def)
  let ?n = "length (takeWhile (\<lambda>x. x \<noteq> bridge_key_bytes k) bridge_table)"
  have n: "?n < 27" using length_takeWhile_neq [OF in_table] by (simp add: bridge_table_def bridge_key_list_def)
  have "unat (of_nat (Suc ?n) + 1 :: u256) = 2 + ?n"
    using n by (subst unat_add_no_overflow) (simp_all add: unat_of_nat del: of_nat_Suc)
  then show u: "unat (bridge_slot (bridge_hash_on G) k) = 2 + ?n" by (simp add: s table_hash_def del: of_nat_Suc)
  show "unat (bridge_slot (bridge_hash_on G) k) < 100" using u n by simp
qed

lemma chunk_slot: "unat (bridge_slot (bridge_hash_on G) (BChunk 9 j)) = 2 ^ 200 + unat j"
proof -
  have "drop 47 (bridge_key_bytes (BChunk 9 j)) = to_be_bytes j" by simp
  then have "bridge_slot (bridge_hash_on G) (BChunk 9 j) = 2 ^ 200 + from_be_bytes (to_be_bytes j)"
    by (simp add: bridge_slot_bytes bridge_hash_on_def del: drop_append)
  moreover have "unat (from_be_bytes (to_be_bytes j) :: u256) = unat j"
    using from_be_bytes_widen [of 8 0 j] by (simp add: unsigned_ucast_eq take_bit_nat_eq_self)
  moreover have "unat j < 2 ^ 64" using unsigned_less [of j, where ?'a = nat] by simp
  ultimately show ?thesis by (simp add: unat_add_no_overflow)
qed

lemma bridge_hash_layout: "bridge_layout_ok (bridge_hash_on G) (bridge_keys {9} {1} {0} {(1, 7)})"
  unfolding bridge_layout_ok_def
proof (rule inj_onI)
  have tot: "unat (bridge_slot (bridge_hash_on G) BTotalDep) = 0" "unat (bridge_slot (bridge_hash_on G) BTotalWd) = 1"
    by (simp_all add: bridge_slot.simps slot_bridge_total_deposits_def slot_bridge_total_withdrawals_def)
  have inj: "k = l" if "k \<in> set bridge_key_list" "l \<in> set bridge_key_list" "bridge_slot (bridge_hash_on G) k = bridge_slot (bridge_hash_on G) l" for k l
  proof -
    have "hash_ok (table_hash bridge_table) (set bridge_table)" by (rule table_hash_ok) (simp add: bridge_table_def bridge_key_list_def)
    then have "bridge_key_bytes k = bridge_key_bytes l" using that hash_ok_eq by (fastforce simp: listed_slot(1) [where G = G] bridge_table_def)
    then show ?thesis using bridge_bytes_inj that by (simp add: inj_on_def)
  qed
  fix k l assume k: "k \<in> bridge_keys {9} {1} {0} {(1, 7)}" and l: "l \<in> bridge_keys {9} {1} {0} {(1, 7)}"
    and eq: "bridge_slot (bridge_hash_on G) k = bridge_slot (bridge_hash_on G) l"
  have u: "unat (bridge_slot (bridge_hash_on G) k) = unat (bridge_slot (bridge_hash_on G) l)" using eq by simp
  show "k = l" using k l u inj [OF _ _ eq] unfolding bridge_keys_list
    by (auto simp: tot chunk_slot word_unat_eq_iff dest: listed_slot(2,3) [where G = G])
qed

text \<open>The other contracts see the hash they had: none of their keys is one of the bridge's.\<close>

lemma bridge_table_bytes: "list_all (\<lambda>k. k ! 0 \<noteq> 0 \<and> k ! 0 \<noteq> 118 \<and> length k \<noteq> 9 \<and> length k \<noteq> 32 \<and> length k \<noteq> 44) bridge_table"
  by (simp add: bridge_table_def bridge_key_list_def nth_append bstr_def)

lemma bridge_hash_other:
  assumes "length k \<noteq> 55" "k ! 0 = 0 \<or> length k = 9 \<or> length k = 32 \<or> length k = 44 \<or> k = bstr ''validators''"
  shows "bridge_hash_on G k = G k"
proof -
  have "bstr ''validators'' ! 0 = 118" by (simp add: bstr_def)
  then have "k \<notin> set bridge_table" using assms(2) bridge_table_bytes by (auto simp: list_all_iff)
  then show ?thesis using assms(1) by (simp add: bridge_hash_on_def)
qed

lemma be_bytes_hd: "to_be_bytes (1 :: u64) ! 0 = 0" "to_be_bytes (1 :: address) ! 0 = 0" "to_be_bytes (2 :: address) ! 0 = 0"
  by code_simp+

lemma asset_slot_bridge: "k \<in> asset_keys {1} A \<Longrightarrow> asset_slot (bridge_hash_on G) k = asset_slot G k"
  unfolding asset_slot_def by (rule bridge_hash_other) (auto simp: asset_keys_def nth_append be_bytes_hd dest: meta_name_lengths)

lemma asset_hash_bridge: "asset_hash_ok G {1} A \<Longrightarrow> asset_hash_ok (bridge_hash_on G) {1} A"
  using asset_slot_bridge [of _ A G] by (simp add: asset_hash_ok_def hash_ok_def inj_on_def image_iff asset_slot_def)

lemma val_slot_bridge: "k \<in> val_keys {1, 2} \<Longrightarrow> val_slot (bridge_hash_on val_hash) k = val_slot val_hash k"
  by (auto simp: val_keys_def val_slot.simps slot_validator_by_addr_def slot_validator_stake_def slot_validator_pubkey_def
      slot_validator_status_def slot_validator_unbond_height_def slot_validator_addr_def slot_unbonding_def storage_slot_def
      nth_append be_bytes_hd bridge_hash_other)

lemma val_layout_bridge: "val_layout_ok (bridge_hash_on val_hash) {1, 2}"
  using val_hash_layout by (simp add: val_layout_ok_def inj_on_def val_slot_bridge)

lemma val_good_bridge:
  assumes "val_good val_hash {1, 2} m"
  shows "val_good (bridge_hash_on val_hash) {1, 2} m"
proof -
  have "asset_slot (bridge_hash_on val_hash) (Bal_Key CALL_ASSET_ID STAKING_ESCROW) = asset_slot val_hash (Bal_Key CALL_ASSET_ID STAKING_ESCROW)"
    by (rule asset_slot_bridge [of _ "{STAKING_ESCROW}"]) (simp add: CALL_ASSET_ID_def)
  moreover have "val_inv {1, 2} (\<lambda>k. vload (bridge_hash_on val_hash) m k) e = val_inv {1, 2} (\<lambda>k. vload val_hash m k) e" for e
    by (rule val_inv_cong) (simp add: val_slot_bridge)
  ultimately show ?thesis using assms by (simp add: val_good_def)
qed

text \<open>Any storage in which the bridge has nothing on record but the source contract 7 of chain 1, and the native asset an issuer.\<close>

definition bridge_ready :: "(bytes \<Rightarrow> u256) \<Rightarrow> evm_storage \<Rightarrow> bool" where
  "bridge_ready H m \<longleftrightarrow> (\<forall>k \<in> bridge_keys {9} {1} {0} {(1, 7)}. bget H m k = (if k = BAuthorized 1 7 then 1 else 0)) \<and>
     aload H m (Meta_Key 1 ''issuer'') = 5"

abbreviation sample_deposited :: "(bytes \<Rightarrow> u256) \<Rightarrow> address \<Rightarrow> evm_storage \<Rightarrow> evm_storage" where
  "sample_deposited H r m \<equiv>
     deposit_record H 9 1 r 500 500 1 10 0 500 (aput (asset_slot H (Bal_Key 1 r)) (aload H m (Bal_Key 1 r) + 500) m)"

lemma sample_deposit:
  assumes "bridge_layout_ok H (bridge_keys {9} {1} {0} {(1, 7)})" "bridge_ready H m" "r \<noteq> 0" "unat (aload H m (Bal_Key 1 r)) + 500 < 2 ^ 128"
  shows "external_deposit H pure_backend 1 7 9 1 r 500 1 10 m = (Inr 500, sample_deposited H r m)" "day_of H m 10 = 0"
proof -
  have g: "bget H m k = (if k = BAuthorized 1 7 then 1 else 0)" if "k \<in> bridge_keys {9} {1} {0} {(1, 7)}" for k
    using assms(2) that by (simp add: bridge_ready_def)
  have i: "m ASSET_ADDRESS (slot_asset_meta H 1 (bstr ''issuer'')) = 5" using assms(2) by (simp add: bridge_ready_def asset_slots)
  show d: "day_of H m 10 = 0" by (simp add: day_of_def cfg64_def g DEFAULT_BLOCKS_PER_DAY_def)
  have c: "deposit_credit H 1 r 500 0 m = (Inr (), aput (asset_slot H (Bal_Key 1 r)) (aload H m (Bal_Key 1 r) + 500) m)"
    using assms(4) by (simp add: deposit_credit_def add_balance_pure Let_def sret_def)
  have f: "bridge_fee_of H m = 0" by (simp add: cfg128_def g DEFAULT_BRIDGE_FEE_def)
  show "external_deposit H pure_backend 1 7 9 1 r 500 1 10 m = (Inr 500, sample_deposited H r m)"
    unfolding deposit_pure f
    using assms(3) c by (simp add: d g i seen_def bridge_open_def allowed_asset_def authorized_source_def to_be_bytes_last check_limits_pure
        cfg64_def cfg128_def CALL_ASSET_ID_def DEFAULT_BLOCKS_PER_DAY_def DEFAULT_MAX_PER_TX_def DEFAULT_DAILY_LIMIT_def
        word_le_nat_alt bget_bput [OF assms(1)] saturating_add_def)
qed

text \<open>The staked chain of \<open>val_hash\<close>, with a bridge, and with account 2 owning the bond of a challenge.\<close>

abbreviation dispute_hash :: "bytes \<Rightarrow> u256" where
  "dispute_hash \<equiv> bridge_hash_on val_hash"

definition dispute_start :: evm_storage where
  "dispute_start = bput dispute_hash (BAuthorized 1 7) 1 (aput (asset_slot val_hash (Meta_Key 1 ''issuer'')) 5
     (aput (asset_slot val_hash (Bal_Key 1 2)) 1000 staked_storage))"

lemmas dispute_layout = bridge_hash_layout [of val_hash]

lemma staked_bridge: "staked_storage BRIDGE_ADDRESS = (\<lambda>_. 0)"
proof -
  have "keeps (\<lambda>m. m BRIDGE_ADDRESS) (stake val_hash pure_backend sample_pubkey 2000000 1)"
    unfolding stake_def vs_defs transfer_def add_balance_def deduct_balance_def write_balance_def read_balance_def
    by (intro keep_intros; simp add: keeps_def sput_def)
  from keepsD [OF this, OF staked_run] show ?thesis by (simp add: funded_storage_def empty_storage_def sput_def)
qed

lemma dispute_assets: "asset_hash_ok dispute_hash {1} {STAKING_ESCROW, 1, 2}" "asset_hash_ok val_hash {1} {STAKING_ESCROW, 1, 2}"
  using asset_hash_bridge val_hash_assets by (simp_all add: CALL_ASSET_ID_def)

lemma dispute_slot: "k \<in> asset_keys {1} {STAKING_ESCROW, 1, 2} \<Longrightarrow> asset_slot dispute_hash k = asset_slot val_hash k"
  by (rule asset_slot_bridge)

lemma escrow_account: "STAKING_ESCROW \<noteq> 1" "STAKING_ESCROW \<noteq> 2"
  by (simp_all add: STAKING_ESCROW_def)

lemma dispute_balances:
  "unat (aload dispute_hash dispute_start (Bal_Key 1 1)) = 3000000" "aload dispute_hash dispute_start (Bal_Key 1 2) = 1000"
  "escrow dispute_hash dispute_start = escrow val_hash staked_storage" "dispute_start VALIDATOR_ADDRESS = staked_storage VALIDATOR_ADDRESS"
  using staked_load(10) escrow_account
  by (simp_all add: dispute_start_def dispute_slot meta_names_def CALL_ASSET_ID_def sput_apply asset_slot_eq [OF dispute_assets(2)] sput_def)

lemma dispute_ready: "bridge_ready dispute_hash dispute_start"
proof -
  have "bget dispute_hash dispute_start k = (if k = BAuthorized 1 7 then 1 else 0)" if "k \<in> bridge_keys {9} {1} {0} {(1, 7)}" for k
    using that by (simp add: dispute_start_def bget_bput [OF dispute_layout] staked_bridge)
  moreover have "aload dispute_hash dispute_start (Meta_Key 1 ''issuer'') = 5"
    by (simp add: dispute_start_def dispute_slot meta_names_def sput_apply)
  ultimately show ?thesis by (simp add: bridge_ready_def)
qed

abbreviation dispute_storage :: evm_storage where
  "dispute_storage \<equiv> sample_deposited dispute_hash 1 dispute_start"

lemma dispute_deposit: "external_deposit dispute_hash pure_backend 1 7 9 1 1 500 1 10 dispute_start = (Inr 500, dispute_storage)"
  "day_of dispute_hash dispute_start 10 = 0"
  using sample_deposit [OF dispute_layout dispute_ready, of 1] by (simp_all add: dispute_balances)

lemma dispute_good: "val_good dispute_hash {1, 2} dispute_storage"
proof -
  have "val_good dispute_hash {1, 2} staked_storage" by (rule val_good_bridge) (rule val_reach_good [OF val_hash_ok _ staked_reach], simp)
  moreover have "escrow dispute_hash dispute_storage = escrow dispute_hash staked_storage"
    using dispute_balances(3) escrow_account
    by (simp add: deposit_record_def sput_apply asset_slot_eq [OF dispute_assets(2)] dispute_slot CALL_ASSET_ID_def)
  moreover have "dispute_storage VALIDATOR_ADDRESS = staked_storage VALIDATOR_ADDRESS"
    using dispute_balances(4) by (simp add: deposit_record_def sput_def)
  ultimately show ?thesis by (simp add: val_good_def)
qed

text \<open>A header with nothing but the first five fields, and a fraud proof that consists of it.\<close>

definition bare_header :: eth_header where
  "bare_header = from_rlp dispute_hash ([0xE5, 1, 1, 1, 1, 0xA0] @ replicate 32 3)"

definition bare_proof :: bytes where
  "bare_proof = replicate 32 5"

definition bare_env :: proof_env where
  "bare_env = \<lparr>pe_decode = (\<lambda>bs. if bs = bare_proof
     then Some \<lparr>fp_header = bare_header, fp_proof_type = TxNonExistence, fp_mpt_nodes = []\<rparr> else None), pe_hd_ok = (\<lambda>_. True)\<rparr>"

lemma bare_empty: "empty_proof dispute_hash bare_env bare_proof"
proof -
  let ?c = "0xA0 # replicate 32 3 :: bytes"
  have d: "decode_rlp_item ?c = Returned (Some (replicate 32 3, 33))"
    by (simp add: decode_rlp_item_def slice_some_def slice_range_def len_u_def)
  have 4: "(4 :: nat) = Suc (Suc (Suc (Suc 0)))" by simp
  have s: "rlp_field_at (1 # xs) (Suc i) = rlp_field_at xs i" if "sliceable (1 # xs)" for xs i
    using that by (intro byte_field) simp_all
  have "rlp_field_at (1 # 1 # 1 # 1 # ?c) 4 = Returned (Some (replicate 32 3))"
    unfolding 4 using d by (simp add: s obind_def del: rlp_field_at.simps(2))
  then have "transactions_root bare_header = Returned (Some (from_be_bytes (replicate 32 3)))"
    by (simp add: transactions_root_def root_field_def decode_rlp_field_def bare_header_def from_rlp_def obind_def)
  then show ?thesis by (simp add: empty_proof_def bare_env_def bare_header_def from_rlp_def)
qed

lemma bare_hash: "dispute_hash bare_proof \<noteq> 0"
proof -
  have "length (takeWhile (\<lambda>x. x \<noteq> bare_proof) val_table) \<le> 1000"
    by (rule order_trans [OF length_takeWhile_le]) (simp add: val_table_def asset_key_list_def meta_names_def)
  then have "unat (table_hash val_table bare_proof) \<le> 1001"
    unfolding table_hash_def unat_of_nat by (intro order_trans [OF mod_less_eq_dividend]) simp
  then have "unat (table_hash val_table bare_proof + 4) \<noteq> 0" by (simp add: unat_add_no_overflow)
  then have "table_hash val_table bare_proof + 4 \<noteq> 0" by (metis unat_0)
  moreover have "dispute_hash bare_proof = val_hash bare_proof" by (rule bridge_hash_other) (simp_all add: bare_proof_def)
  ultimately show ?thesis by (simp add: val_hash_other bare_proof_def)
qed

lemma dispute_record:
  assumes "k \<in> bridge_keys {9} {1} {0} {(1, 7)}"
  shows "bget dispute_hash dispute_storage k =
    (if k = BValidator 9 then 1 else if k = BHeight 9 then 10 else if k = BAmount 9 then 500 else if k = BRecipient 9 then 1
     else if k = BAsset 9 then 1 else if k = BProcessed 9 then 10 else if k = BDailyUsed 1 0 then 500 else if k = BTotalDep then 500
     else if k = BAuthorized 1 7 then 1 else 0)"
proof -
  have "bget dispute_hash dispute_start k = (if k = BAuthorized 1 7 then 1 else 0)"
    using dispute_ready assms by (simp add: bridge_ready_def)
  then show ?thesis using assms by (simp add: deposit_record_def bget_bput [OF dispute_layout])
qed

lemma dispute_accounts:
  "aload dispute_hash dispute_storage (Bal_Key 1 2) = 1000" "unat (aload dispute_hash dispute_storage (Bal_Key 1 1)) = 3000500"
proof -
  let ?m = "aput (asset_slot dispute_hash (Bal_Key 1 1)) (aload dispute_hash dispute_start (Bal_Key 1 1) + 500) dispute_start"
  have "dispute_storage ASSET_ADDRESS = ?m ASSET_ADDRESS" by (simp add: deposit_record_def sput_def)
  then show "aload dispute_hash dispute_storage (Bal_Key 1 2) = 1000" "unat (aload dispute_hash dispute_storage (Bal_Key 1 1)) = 3000500"
    using dispute_balances(1,2) by (simp_all add: aload_aput [OF dispute_assets(1)] unat_add_no_overflow)
qed

theorem empty_proof_wins_witness:
  "\<exists>m1 m2. initiate_challenge dispute_hash pure_backend 9 bare_proof 2 20 dispute_storage = (Inr (), m1) \<and>
    resolve_challenge dispute_hash bare_env pure_backend 9 2419220 2 m1 = (Inr (True, 2), m2) \<and>
    vload dispute_hash m2 (VId 1) = 0 \<and> vload dispute_hash m2 (VStake 1) = 0 \<and>
    unat (aload dispute_hash m2 (Bal_Key 1 1)) + unat (500 :: u128) = unat (aload dispute_hash dispute_storage (Bal_Key 1 1))"
proof (rule empty_proof_wins [OF dispute_layout val_layout_bridge _ dispute_good _ _ _ _ _ _ _ _ bare_empty])
  show "asset_hash_ok dispute_hash {CALL_ASSET_ID, 1} {2, 1, STAKING_ESCROW}"
    using dispute_assets(1) by (simp add: CALL_ASSET_ID_def insert_commute)
qed (use escrow_account bare_hash in \<open>simp_all add: open_deposit_def dispute_record status_of_def cfg64_def cfg128_def dispute_accounts bare_proof_def
    MAX_PROOF_LEN_def DEFAULT_CHALLENGE_PERIOD_def DEFAULT_CHALLENGE_BOND_def CALL_ASSET_ID_def\<close>)

lemma dispute_challenge:
  "initiate_challenge dispute_hash pure_backend 9 bare_proof 2 20 dispute_storage =
     (Inr (), snd (initiate_challenge dispute_hash pure_backend 9 bare_proof 2 20 dispute_storage))"
proof -
  have "\<exists>n. deduct_balance dispute_hash pure_backend 1 2 1000 dispute_storage = (Inr (), n)"
    by (simp add: deduct_balance_pure Let_def dispute_accounts)
  then have "\<exists>m'. initiate_challenge dispute_hash pure_backend 9 bare_proof 2 20 dispute_storage = (Inr (), m')"
    unfolding initiate_pure
    by (simp add: dispute_record status_of_def cfg64_def cfg128_def bare_proof_def checked_add_def word_less_nat_alt unat_add_no_overflow
        MAX_PROOF_LEN_def DEFAULT_CHALLENGE_PERIOD_def DEFAULT_CHALLENGE_BOND_def CALL_ASSET_ID_def)
  then show ?thesis by auto
qed

lemma dispute_day: "cfg64 dispute_hash dispute_storage BBlocksPerDay DEFAULT_BLOCKS_PER_DAY = 345600"
  "cfg64 dispute_hash dispute_start BBlocksPerDay DEFAULT_BLOCKS_PER_DAY = 345600"
  using dispute_ready by (simp_all add: cfg64_def dispute_record bridge_ready_def DEFAULT_BLOCKS_PER_DAY_def)

theorem challenged_once_witness:
  "\<exists>e. initiate_challenge dispute_hash pure_backend 9 bare_proof 1 25
      (bridge_run dispute_hash bare_env [Resolve 9 2419220 2] (snd (initiate_challenge dispute_hash pure_backend 9 bare_proof 2 20 dispute_storage))) =
      (Inl e, bridge_run dispute_hash bare_env [Resolve 9 2419220 2]
        (snd (initiate_challenge dispute_hash pure_backend 9 bare_proof 2 20 dispute_storage))) \<and>
    e \<in> {B_NotProcessed, B_AlreadyChallenged}"
  by (rule challenged_once [OF dispute_layout _ dispute_challenge]) simp_all

theorem daily_volume_bounded_witness:
  "unat (daily dispute_hash (bridge_run dispute_hash bare_env [Deposit 1 7 9 1 1 500 1 10] dispute_start) 1 0) = 500 \<and>
   day_volume dispute_hash bare_env 1 0 [Deposit 1 7 9 1 1 500 1 10] dispute_start = 500 \<and>
   unat (daily dispute_hash dispute_start 1 0) + day_volume dispute_hash bare_env 1 0 [Deposit 1 7 9 1 1 500 1 10] dispute_start
     \<le> unat (daily_limit_of dispute_hash dispute_start 1)"
proof -
  have z: "bget dispute_hash dispute_start (BDailyUsed 1 0) = 0" using dispute_ready by (simp add: bridge_ready_def)
  have v: "day_volume dispute_hash bare_env 1 0 [Deposit 1 7 9 1 1 500 1 10] dispute_start = 500"
    by (simp add: dispute_deposit)
  have "list_all (op_in {9} {1} {0} (cfg64 dispute_hash dispute_start BBlocksPerDay DEFAULT_BLOCKS_PER_DAY)) [Deposit 1 7 9 1 1 500 1 10]"
    by (simp add: dispute_day)
  from daily_volume_bounded [OF dispute_layout this, where i = 1 and d = 0 and E = bare_env] z v show ?thesis by simp
qed

theorem deposit_once_witness:
  "external_deposit dispute_hash pure_backend 1 7 9 1 2 700 2 4838410 (bridge_run dispute_hash bare_env [Initiate 9 bare_proof 2 20] dispute_storage) =
     (Inl B_AlreadyProcessed, bridge_run dispute_hash bare_env [Initiate 9 bare_proof 2 20] dispute_storage)"
proof (rule deposit_once [OF dispute_layout _ dispute_deposit(1)])
  show "unat (4838410 :: u64) \<le> unat (10 :: u64) + unat (retention_of dispute_hash dispute_start)"
    using dispute_ready by (simp add: bridge_ready_def cfg64_def DEFAULT_PROCESSED_RETENTION_def)
qed (simp_all add: dispute_deposit(2))

text \<open>A chain without validators, whose hash also covers the account of the bridge.\<close>

definition fee_hash :: "bytes \<Rightarrow> u256" where
  "fee_hash = bridge_hash_on (table_hash (map asset_key_bytes (asset_key_list [1] [2, BRIDGE_ADDRESS])))"

definition fee_start :: evm_storage where
  "fee_start = bput fee_hash (BAuthorized 1 7) 1 (aput (asset_slot fee_hash (Meta_Key 1 ''issuer'')) 5 empty_storage)"

lemma fee_assets: "asset_hash_ok fee_hash {1} {2, BRIDGE_ADDRESS}"
proof -
  have "hash_ok (table_hash (map asset_key_bytes (asset_key_list [1] [2, BRIDGE_ADDRESS])))
      (set (map asset_key_bytes (asset_key_list [1] [2, BRIDGE_ADDRESS])))"
    by (rule table_hash_ok) (simp add: asset_key_list_def meta_names_def)
  then show ?thesis unfolding fee_hash_def by (intro asset_hash_bridge) (simp add: asset_hash_ok_def set_asset_key_list)
qed

lemma fee_ready: "bridge_ready fee_hash fee_start" "aload fee_hash fee_start (Bal_Key 1 2) = 0"
proof -
  have lay: "bridge_layout_ok fee_hash (bridge_keys {9} {1} {0} {(1, 7)})" unfolding fee_hash_def by (rule bridge_hash_layout)
  show "bridge_ready fee_hash fee_start"
    using bridge_slot_eq [OF lay] by (auto simp: bridge_ready_def fee_start_def empty_storage_def sput_apply)
  show "aload fee_hash fee_start (Bal_Key 1 2) = 0"
    by (simp add: fee_start_def empty_storage_def sput_apply asset_slot_eq [OF fee_assets] meta_names_def)
qed

theorem deposit_effect_witness:
  "unat (aload fee_hash (sample_deposited fee_hash 2 fee_start) (Bal_Key 1 2)) = unat (aload fee_hash fee_start (Bal_Key 1 2)) + unat (500 :: u128) \<and>
   aload fee_hash (sample_deposited fee_hash 2 fee_start) (Meta_Key 1 ''supply'') = aload fee_hash fee_start (Meta_Key 1 ''supply'')"
proof -
  have lay: "bridge_layout_ok fee_hash (bridge_keys {9} {1} {0} {(1, 7)})" unfolding fee_hash_def by (rule bridge_hash_layout)
  note d = sample_deposit [OF lay fee_ready(1), of 2]
  have "external_deposit fee_hash pure_backend 1 7 9 1 2 500 1 10 fee_start = (Inr 500, sample_deposited fee_hash 2 fee_start)"
    "day_of fee_hash fee_start 10 = 0" using d by (simp_all add: fee_ready(2))
  then show ?thesis using deposit_effect [OF _ _ fee_assets, of 1 7 9 500 1 10 fee_start 500 "sample_deposited fee_hash 2 fee_start" "{(1, 7)}"] lay
    by (simp add: BRIDGE_ADDRESS_def)
qed

end
