(* ===== verification/Spec2Isabelle.thy ===== *)
theory Spec2Isabelle
  imports Precompile_Limits Asset_Parties Mempool_Props Defense_Props Consensus_Props Bridge_Props
begin

text \<open>
  A verification development for call-node (Callchain), a node of a proof-of-stake chain whose asset ledger,
  staking, compliance registry and bridge live in the EVM storage of fixed addresses and are operated by native
  precompiles. Paths below are relative to \<^verbatim>\<open>src/\<close>.

  \<^bold>\<open>The program and how its parts interact.\<close> A transaction reaches a precompile through
  \<^verbatim>\<open>CallPrecompiles::run\<close> (\<^verbatim>\<open>crates/precompile/src/lib.rs\<close>), which builds an \<^verbatim>\<open>EvmStorageProvider\<close>
  (\<^verbatim>\<open>storage.rs\<close>) over revm's journal. The method runs in one of the wrappers of \<^verbatim>\<open>dispatch.rs\<close>, most of them under
  a checkpoint, and calls a storage type (\<^verbatim>\<open>AssetStorage\<close>, \<^verbatim>\<open>ValidatorStorage\<close>, \<^verbatim>\<open>ComplianceStorage\<close>,
  \<^verbatim>\<open>BridgeStorage\<close>) that is generic in a \<^verbatim>\<open>StorageBackend\<close>; \<^verbatim>\<open>StorageRef\<close> makes a backend of the provider. The bridge
  credits and debits the asset ledger, slashes through the validator contract and verifies receipts with the light
  client. Genesis (\<^verbatim>\<open>crates/chainspec\<close>) writes the same storage on the in-memory state container, which is a
  backend as well; the consensus driver (\<^verbatim>\<open>crates/consensus\<close>) reads the validator contract from it, selects the
  proposers, removes validators at the end of an epoch and runs the fork manager. The mempool, the base fee and the
  rate limiter stand before the block producer.

  \<^bold>\<open>Theories and sources.\<close> The state of a component is a record, its operations are functions in the
  state-and-result monad of \<open>Prelude\<close> with the names of the source; precompile methods carry the prefix \<open>pc_\<close>. A
  Rust panic is a value (\<open>Panicked\<close>, or \<open>Unwind\<close> inside a precompile).
  \<^item> \<open>Prelude\<close>, \<open>Utf8\<close>: machine integers, checked arithmetic, byte codecs, the monad, the calculi \<open>keeps\<close> (what a
    computation leaves alone), \<open>maintains\<close> (what it preserves), \<open>sim_at\<close> (simulation with a budget); the UTF-8 check.
  \<^item> \<open>Storage\<close>, \<open>Storage_Laws\<close>, \<open>Metering\<close>: \<^verbatim>\<open>precompile/src/storage.rs\<close> and
    \<^verbatim>\<open>protocol/src/storage_backend.rs\<close>. The locales \<open>storage_backend\<close>, \<open>checkpointed\<close> and \<open>provider_order\<close> are the
    contracts of a backend, of a provider with checkpoints and of a gas meter; they are interpreted on the storage
    map, the hash-map provider, \<open>StorageRef\<close> and the production provider.
  \<^item> \<open>Utils\<close>, \<open>Dispatch\<close>, \<open>Evm_Caller\<close>, \<open>Call_Precompiles\<close>: \<^verbatim>\<open>utils.rs\<close>, \<^verbatim>\<open>dispatch.rs\<close>, \<^verbatim>\<open>evm_caller.rs\<close>,
    \<^verbatim>\<open>erc20_reader.rs\<close> and \<^verbatim>\<open>lib.rs\<close> of \<^verbatim>\<open>crates/precompile\<close>.
  \<^item> \<open>Asset\<close>, \<open>Asset_Laws\<close>, \<open>Asset_Precompile\<close>, \<open>Compliance\<close>: \<^verbatim>\<open>crates/asset\<close> and \<^verbatim>\<open>crates/compliance\<close>.
    \<open>Asset_Props\<close>, \<open>Precompile_Props\<close>, \<open>Asset_Parties\<close> and \<open>Precompile_Limits\<close> hold their properties; the locales
    \<open>slot_frame\<close> and \<open>balance_frame\<close> follow one balance through the ledger and through the methods.
  \<^item> \<open>Validator\<close>, \<open>Validator_Laws\<close>, \<open>Validator_Inv\<close>, \<open>Validator_Props\<close>: \<^verbatim>\<open>crates/validator\<close>. The operations are
    refined to updates of a function of keys (\<open>val_key\<close>), on which the invariant \<open>val_inv\<close> is shown to be kept.
  \<^item> \<open>Genesis\<close>, \<open>Genesis_Props\<close>: \<^verbatim>\<open>crates/evm/src/state.rs\<close>, \<^verbatim>\<open>provider.rs\<close>, \<^verbatim>\<open>backend.rs\<close> and
    \<^verbatim>\<open>crates/chainspec/src/genesis.rs\<close>.
  \<^item> \<open>Fork\<close>, \<open>Consensus\<close>, \<open>Fork_Props\<close>, \<open>Consensus_Props\<close>: \<^verbatim>\<open>fork.rs\<close>, \<^verbatim>\<open>simplex.rs\<close>, \<^verbatim>\<open>proposer.rs\<close>,
    \<^verbatim>\<open>block.rs\<close>, \<^verbatim>\<open>block_cache.rs\<close> and the accessors of \<^verbatim>\<open>crates/consensus\<close>.
  \<^item> \<open>Mempool\<close>, \<open>Mempool_Props\<close>, \<open>Defense\<close>, \<open>Defense_Props\<close>: \<^verbatim>\<open>crates/mempool\<close>, \<^verbatim>\<open>crates/protocol/src/gas.rs\<close>
    and \<^verbatim>\<open>security.rs\<close>. The locale \<open>ordered_map\<close> is the contract of the ordered map behind the pool.
  \<^item> \<open>Rlp\<close>, \<open>Rlp_Props\<close>, \<open>Light_Client\<close>, \<open>Light_Client_Props\<close>: \<^verbatim>\<open>crates/light-client\<close>.
  \<^item> \<open>Bridge\<close>, \<open>Bridge_Laws\<close>, \<open>Bridge_Props\<close>: \<^verbatim>\<open>crates/bridge/src/precompile.rs\<close>.

  \<^bold>\<open>What the lemmas show.\<close> For the ledger: balances add up to the supply in every reachable storage, the exact
  effect of every operation, the slot layout, the metadata round trip, and that the operations on the production
  provider refine those on a storage map. For whole calls: atomicity, exact gas, a transfer end to end, compliance of
  whoever's balance changes and of the caller, and who may change a compliance status. For staking: the escrow covers
  the stakes, the queue lists exactly the unbonding validators, claims pay, the floor holds, slashing succeeds. For
  consensus: the churn equals a reference definition, the proposer subset is well formed, a rollback needs a quorum.
  For mempool and admission: limits, order of selection, nonces, bounds of base fee and rate. For the light client:
  the parsers invert the encoding and end on all inputs but one kind, a trie proof binds its value, finalized headers
  stay. For the bridge: one credit per source transaction, the daily limit, one challenge per deposit. Where the code
  does something its authors cannot have meant, the property states what it does (a fraud proof without nodes wins, a
  churned validator loses the stake, the native asset can be taken after genesis, genesis leaves the escrow short, a
  buffered header is never checked, an ERC-20 contract can panic the node).

  \<^bold>\<open>Parameters and hypotheses.\<close> Code outside the repository is an argument: keccak (\<open>H\<close>, with no collisions on
  the keys in use where slots must differ), revm's journal (\<open>journal_ok\<close>, \<open>journal_checkpoints_ok\<close>), gas meter
  (\<open>gas_meter_ok\<close>) and nested EVM (\<open>X\<close>), the ABI codecs that \<^verbatim>\<open>sol!\<close> generates (\<open>asset_abi\<close> and its like), signature
  checks, hex and postcard decoders, the execution of a transaction at genesis (\<open>evm_executor\<close>; \<open>isolated\<close> says that
  deploying the token template leaves the asset counter alone). Every property with hypotheses has an instance at
  concrete parameters.

  \<^bold>\<open>Loops and bounds.\<close> There is no fuel. Loops over lists and counters are structural or have a measure; the
  two RLP loops, which may run forever, are \<open>partial_function (option)\<close>, and the inputs on which they return are
  characterised. Machine integers keep their width, with wrap-around, saturation or the checked error of the source.

  \<^bold>\<open>Not modelled.\<close> Governance, agents, oracle, switch and the shielded pool, precompiles on which no modelled part
  depends; the EVM executor, the state trie and block execution, wrappers of revm; the adapter to the BFT engine; node,
  RPC, network and database, which are I/O; cryptography and serialization, wrappers of libraries; the Solidity
  contracts, which run as bytecode. A panic inside a handler takes the branch of the errors in \<open>with_checkpoint\<close>; the
  state it leaves is not observable, since the run panics too.
\<close>

end
